(* ===== verification/Prelude.thy ===== *)
theory Prelude
  imports Main "HOL-Library.Word" "HOL-Library.List_Lexorder" "HOL-Library.Product_Lexorder"
    "HOL-Library.Char_ord" "HOL-Library.Sublist"
begin

section \<open>Shared vocabulary: machine integers, UTF-8 text, list updates\<close>

text \<open>
  The types and helpers every component of the development shares.  A Rust \<open>String\<close> or
  \<open>&str\<close> is its list of UTF-8 bytes (an Isabelle \<open>char\<close> is one byte), so \<open>len()\<close> is
  \<open>length\<close>; \<open>u8\<close>, \<open>u16\<close> and \<open>u32\<close> are words of that width; \<open>usize\<close> lengths are \<open>nat\<close>.
  The section on text writes out the functions of Rust's \<open>str\<close> the source calls
  (\<open>trim\<close>, \<open>lines\<close>, \<open>split_whitespace\<close>, \<open>contains\<close>, \<open>strip_prefix\<close>).
\<close>

named_theorems bound_simps \<open>facts that bound the length of a stored list or text\<close>
named_theorems frame_simps \<open>facts that say which fields an operation leaves alone\<close>

type_synonym rstr = string
type_synonym u8 = "8 word"
type_synonym u16 = "16 word"
type_synonym u32 = "32 word"
type_synonym u64 = "64 word"

subsection \<open>Saturating arithmetic\<close>

text \<open>\<open>a.saturating_add(b)\<close> on an unsigned integer.\<close>

definition saturating_add :: "'a::len word \<Rightarrow> 'a word \<Rightarrow> 'a word" where
  "saturating_add a b = (if unat a + unat b < 2 ^ LENGTH('a) then a + b else - 1)"

lemma unat_word_less: "unat (a :: 'a::len word) \<le> 2 ^ LENGTH('a) - 1"
proof -
  have "unat a < 2 ^ LENGTH('a)" by (rule unsigned_less)
  then show ?thesis by linarith
qed

lemma unat_all_ones: "unat (- 1 :: 'a::len word) = 2 ^ LENGTH('a) - 1"
  by (simp add: unsigned_minus_1_eq_mask mask_eq_exp_minus_1)

lemma unat_saturating_add:
  "unat (saturating_add (a :: 'a::len word) b) = min (unat a + unat b) (2 ^ LENGTH('a) - 1)"
proof (cases "unat a + unat b < 2 ^ LENGTH('a)")
  case True
  then have "unat (a + b) = unat a + unat b"
    by (simp add: unat_add_lem [THEN iffD1])
  with True show ?thesis by (simp add: saturating_add_def)
next
  case False
  then show ?thesis by (simp add: saturating_add_def unat_all_ones)
qed

lemma saturating_add_ge: "a \<le> saturating_add a b"
  using unat_word_less [of a] by (simp add: word_le_nat_alt unat_saturating_add)

lemma saturating_add_one_gt: "a \<noteq> - 1 \<Longrightarrow> a < saturating_add a 1"
  for a :: "'a::len word"
proof -
  assume "a \<noteq> - 1"
  then have "unat a \<noteq> 2 ^ LENGTH('a) - 1"
    by (metis unat_all_ones word_unat_eq_iff)
  moreover have "unat a \<le> 2 ^ LENGTH('a) - 1" by (rule unat_word_less)
  ultimately show ?thesis by (simp add: word_less_nat_alt unat_saturating_add)
qed

lemma saturating_add_one_nonzero: "saturating_add a 1 \<noteq> (0 :: 'a::len word)"
proof
  assume "saturating_add a 1 = 0"
  then have "unat (saturating_add a 1) = 0" by simp
  moreover have "(2::nat) \<le> 2 ^ LENGTH('a)"
    by (metis len_gt_0 one_le_numeral power_increasing power_one_right Suc_leI One_nat_def)
  ultimately show False by (simp add: unat_saturating_add min_def split: if_splits)
qed

subsection \<open>Updating the first match of a list\<close>

text \<open>\<open>if let Some(x) = xs.iter_mut().find(P) \<dots>\<close> followed by a mutation of \<open>x\<close>.\<close>

fun update_first :: "('a \<Rightarrow> bool) \<Rightarrow> ('a \<Rightarrow> 'a) \<Rightarrow> 'a list \<Rightarrow> 'a list" where
  "update_first P f [] = []"
| "update_first P f (x # xs) = (if P x then f x # xs else x # update_first P f xs)"

lemma length_update_first [simp, bound_simps]: "length (update_first P f xs) = length xs"
  by (induction xs) auto

lemma set_update_first_subset: "set (update_first P f xs) \<subseteq> set xs \<union> f ` {x \<in> set xs. P x}"
  by (induction xs) auto

lemma update_first_no_match: "\<not> list_ex P xs \<Longrightarrow> update_first P f xs = xs"
  by (induction xs) auto

lemma update_first_Nil_iff [simp]: "update_first P f xs = [] \<longleftrightarrow> xs = []"
  by (cases xs) auto

lemma map_update_first_same: "(\<And>x. P x \<Longrightarrow> g (f x) = g x) \<Longrightarrow> map g (update_first P f xs) = map g xs"
  by (induction xs) auto

lemma list_all_update_first:
  "list_all Q xs \<Longrightarrow> (\<And>x. x \<in> set xs \<Longrightarrow> P x \<Longrightarrow> Q x \<Longrightarrow> Q (f x)) \<Longrightarrow> list_all Q (update_first P f xs)"
  by (induction xs) auto

lemma update_first_append_match:
  "\<not> list_ex P xs \<Longrightarrow> P y \<Longrightarrow> update_first P f (xs @ y # ys) = xs @ f y # ys"
  by (induction xs) auto

lemma find_Some_split:
  "find P xs = Some y \<Longrightarrow> \<exists>us vs. xs = us @ y # vs \<and> \<not> list_ex P us \<and> P y"
proof (induction xs)
  case Nil
  then show ?case by simp
next
  case (Cons x xs)
  show ?case
  proof (cases "P x")
    case True
    with Cons.prems have "x # xs = [] @ y # xs \<and> \<not> list_ex P [] \<and> P y" by simp
    then show ?thesis by blast
  next
    case False
    with Cons obtain us vs where "xs = us @ y # vs \<and> \<not> list_ex P us \<and> P y" by auto
    with False show ?thesis by (intro exI [of _ "x # us"] exI [of _ vs]) auto
  qed
qed

lemma list_ex_find: "list_ex P xs \<longleftrightarrow> find P xs \<noteq> None"
  by (auto simp: list_ex_iff find_None_iff)

subsection \<open>Rust string functions over UTF-8 bytes\<close>

definition starts_with :: "rstr \<Rightarrow> rstr \<Rightarrow> bool" where
  "starts_with s p = (take (length p) s = p)"

definition ends_with :: "rstr \<Rightarrow> rstr \<Rightarrow> bool" where
  "ends_with s p = (length p \<le> length s \<and> drop (length s - length p) s = p)"

definition strip_prefix :: "rstr \<Rightarrow> rstr \<Rightarrow> rstr option" where
  "strip_prefix s p = (if starts_with s p then Some (drop (length p) s) else None)"

fun contains_str :: "rstr \<Rightarrow> rstr \<Rightarrow> bool" where
  "contains_str [] p = (p = [])"
| "contains_str (c # s) p = (starts_with (c # s) p \<or> contains_str s p)"

lemma starts_with_append [simp]: "starts_with (p @ s) p"
  by (simp add: starts_with_def)

lemma starts_with_decomp: "starts_with s p \<Longrightarrow> s = p @ drop (length p) s"
  by (metis append_take_drop_id starts_with_def)

lemma strip_prefix_Some: "strip_prefix s p = Some r \<longleftrightarrow> s = p @ r"
  by (auto simp: strip_prefix_def starts_with_def) (metis append_take_drop_id)

text \<open>\<open>to_ascii_lowercase\<close> maps the bytes \<open>A\<close>--\<open>Z\<close> and leaves every other byte alone.\<close>

definition ascii_lower :: "char \<Rightarrow> char" where
  "ascii_lower c = (let n = of_char c :: nat
     in if 65 \<le> n \<and> n \<le> 90 then char_of (n + 32) else c)"

definition to_ascii_lowercase :: "rstr \<Rightarrow> rstr" where
  "to_ascii_lowercase s = map ascii_lower s"

lemma length_to_ascii_lowercase [simp]: "length (to_ascii_lowercase s) = length s"
  by (simp add: to_ascii_lowercase_def)

text \<open>The UTF-8 encodings of the characters with the Unicode property \<open>White_Space\<close>.\<close>

definition ws_chars :: "rstr list" where
  "ws_chars =
     [[CHR 0x09], [CHR 0x0A], [CHR 0x0B], [CHR 0x0C], [CHR 0x0D], [CHR 0x20],
      [CHR 0xC2, CHR 0x85], [CHR 0xC2, CHR 0xA0], [CHR 0xE1, CHR 0x9A, CHR 0x80],
      [CHR 0xE2, CHR 0x80, CHR 0x80], [CHR 0xE2, CHR 0x80, CHR 0x81],
      [CHR 0xE2, CHR 0x80, CHR 0x82], [CHR 0xE2, CHR 0x80, CHR 0x83],
      [CHR 0xE2, CHR 0x80, CHR 0x84], [CHR 0xE2, CHR 0x80, CHR 0x85],
      [CHR 0xE2, CHR 0x80, CHR 0x86], [CHR 0xE2, CHR 0x80, CHR 0x87],
      [CHR 0xE2, CHR 0x80, CHR 0x88], [CHR 0xE2, CHR 0x80, CHR 0x89],
      [CHR 0xE2, CHR 0x80, CHR 0x8A], [CHR 0xE2, CHR 0x80, CHR 0xA8],
      [CHR 0xE2, CHR 0x80, CHR 0xA9], [CHR 0xE2, CHR 0x80, CHR 0xAF],
      [CHR 0xE2, CHR 0x81, CHR 0x9F], [CHR 0xE3, CHR 0x80, CHR 0x80]]"

lemma ws_chars_nonempty: "w \<in> set ws_chars \<Longrightarrow> w \<noteq> []"
  by (auto simp: ws_chars_def)

text \<open>The length in bytes of the whitespace character a text starts (ends) with, 0 for none.\<close>

definition ws_head :: "rstr \<Rightarrow> nat" where
  "ws_head s = (case find (starts_with s) ws_chars of None \<Rightarrow> 0 | Some w \<Rightarrow> length w)"

definition ws_tail :: "rstr \<Rightarrow> nat" where
  "ws_tail s = (case find (ends_with s) ws_chars of None \<Rightarrow> 0 | Some w \<Rightarrow> length w)"

lemma ws_head_le: "ws_head s \<le> length s"
proof -
  have "length w \<le> length s" if "starts_with s w" for w
    using that by (metis starts_with_def length_take min.bounded_iff min.cobounded1 nle_le)
  then show ?thesis
    by (auto simp: ws_head_def find_Some_iff split: option.splits)
qed

lemma ws_head_shrinks: "0 < ws_head s \<Longrightarrow> length s - ws_head s < length s"
  using ws_head_le [of s] by linarith

lemma ws_tail_le: "ws_tail s \<le> length s"
  by (auto simp: ws_tail_def find_Some_iff ends_with_def split: option.splits)

lemma ws_tail_shrinks: "0 < ws_tail s \<Longrightarrow> length s - ws_tail s < length s"
  using ws_tail_le [of s] by linarith

function trim_start :: "rstr \<Rightarrow> rstr" where
  "trim_start s = (let n = ws_head s in if n = 0 then s else trim_start (drop n s))"
  by pat_completeness auto
termination
  by (relation "measure length") (auto simp: ws_head_shrinks)

function trim_end :: "rstr \<Rightarrow> rstr" where
  "trim_end s = (let n = ws_tail s in if n = 0 then s else trim_end (take (length s - n) s))"
  by pat_completeness auto
termination
  by (relation "measure length") (auto simp: ws_tail_shrinks)

declare trim_start.simps [simp del] trim_end.simps [simp del]

definition trim :: "rstr \<Rightarrow> rstr" where
  "trim s = trim_end (trim_start s)"

lemma length_trim_start: "length (trim_start s) \<le> length s"
proof (induction s rule: trim_start.induct)
  case (1 s)
  show ?case
  proof (cases "ws_head s = 0")
    case True
    then show ?thesis by (simp add: trim_start.simps [of s])
  next
    case False
    have "length (trim_start (drop (ws_head s) s)) \<le> length (drop (ws_head s) s)"
      using "1.IH" [OF refl False] .
    also have "\<dots> \<le> length s" by simp
    finally show ?thesis using False by (simp add: trim_start.simps [of s] Let_def)
  qed
qed

lemma length_trim_end: "length (trim_end s) \<le> length s"
proof (induction s rule: trim_end.induct)
  case (1 s)
  show ?case
  proof (cases "ws_tail s = 0")
    case True
    then show ?thesis by (simp add: trim_end.simps [of s])
  next
    case False
    have "length (trim_end (take (length s - ws_tail s) s)) \<le> length (take (length s - ws_tail s) s)"
      using "1.IH" [OF refl False] .
    also have "\<dots> \<le> length s" by simp
    finally show ?thesis using False by (simp add: trim_end.simps [of s] Let_def)
  qed
qed

lemma length_trim: "length (trim s) \<le> length s"
  unfolding trim_def using length_trim_end length_trim_start le_trans by blast

text \<open>\<open>split_whitespace\<close>: the maximal runs between whitespace characters.\<close>

function split_ws_from :: "rstr \<Rightarrow> rstr \<Rightarrow> rstr list" where
  "split_ws_from acc [] = (if acc = [] then [] else [rev acc])"
| "split_ws_from acc (c # s) =
     (let n = ws_head (c # s)
      in if n = 0 then split_ws_from (c # acc) s
         else (if acc = [] then [] else [rev acc]) @ split_ws_from [] (drop n (c # s)))"
  by pat_completeness auto
termination
  by (relation "measure (\<lambda>(acc, s). length s)")
    (auto simp: ws_head_shrinks [of "c # s" for c s, simplified])

declare split_ws_from.simps [simp del]

definition split_whitespace :: "rstr \<Rightarrow> rstr list" where
  "split_whitespace s = split_ws_from [] s"

lemma split_ws_from_nonempty: "w \<in> set (split_ws_from acc s) \<Longrightarrow> w \<noteq> []"
  by (induction acc s rule: split_ws_from.induct)
    (auto simp: split_ws_from.simps Let_def split: if_splits)

text \<open>\<open>lines\<close>: split after each newline, dropping it and a carriage return before it.\<close>

definition strip_cr :: "rstr \<Rightarrow> rstr" where
  "strip_cr s = (if s \<noteq> [] \<and> last s = CHR 0x0D then butlast s else s)"

fun lines_from :: "rstr \<Rightarrow> rstr \<Rightarrow> rstr list" where
  "lines_from acc [] = (if acc = [] then [] else [rev acc])"
| "lines_from acc (c # s) =
     (if c = CHR 0x0A then strip_cr (rev acc) # lines_from [] s else lines_from (c # acc) s)"

definition lines :: "rstr \<Rightarrow> rstr list" where
  "lines s = lines_from [] s"

text \<open>\<open>split(sep)\<close> for a one-byte separator keeps empty pieces; \<open>join\<close> is its inverse.\<close>

fun split_on_from :: "char \<Rightarrow> rstr \<Rightarrow> rstr \<Rightarrow> rstr list" where
  "split_on_from sep acc [] = [rev acc]"
| "split_on_from sep acc (c # s) =
     (if c = sep then rev acc # split_on_from sep [] s else split_on_from sep (c # acc) s)"

definition split_on :: "char \<Rightarrow> rstr \<Rightarrow> rstr list" where
  "split_on sep s = split_on_from sep [] s"

fun join :: "rstr \<Rightarrow> rstr list \<Rightarrow> rstr" where
  "join sep [] = []"
| "join sep [x] = x"
| "join sep (x # y # xs) = x @ sep @ join sep (y # xs)"

lemma split_on_from_Cons: "\<exists>y ys. split_on_from sep acc s = y # ys"
  by (induction sep acc s rule: split_on_from.induct) auto

lemma split_on_from_join: "join [sep] (split_on_from sep acc s) = rev acc @ s"
proof (induction sep acc s rule: split_on_from.induct)
  case (1 sep acc)
  then show ?case by simp
next
  case (2 sep acc c s)
  show ?case
  proof (cases "c = sep")
    case True
    obtain y ys where ys: "split_on_from sep [] s = y # ys"
      using split_on_from_Cons by blast
    from "2.IH"(1) [OF True] ys have "join [sep] (y # ys) = s" by simp
    with True ys show ?thesis by simp
  next
    case False
    with "2.IH"(2) show ?thesis by simp
  qed
qed

lemma split_on_join: "join [sep] (split_on sep s) = s"
  by (simp add: split_on_def split_on_from_join)

text \<open>The decimal rendering of an unsigned integer (\<open>format!("{n}")\<close>).\<close>

fun nat_to_decimal :: "nat \<Rightarrow> rstr" where
  "nat_to_decimal n =
     (if n < 10 then [char_of (48 + n)]
      else nat_to_decimal (n div 10) @ [char_of (48 + n mod 10)])"

declare nat_to_decimal.simps [simp del]

end
