(* ===== verification/Contracts.thy ===== *)
theory Contracts
  imports Prelude
begin

section \<open>Interfaces several components implement\<close>

text \<open>
  Two contracts recur across the crates.  \<open>bounded_log\<close> is what every capped list of the
  state promises: a push keeps at most \<open>limit\<close> entries, drops only the oldest ones and always
  keeps the entry just pushed; the providers are \<open>push_bounded\<close> of the work ledger (push, then
  remove the front) and the evict-first pushes of the decision state and of the loop guardrails.
  \<open>persisted_bounds\<close> is the contract of the \<open>enforce_bounds\<close> methods that run after a session
  is restored: the result is within bounds, and a settled state is left untouched.
\<close>

locale bounded_log =
  fixes push :: "'a list \<Rightarrow> 'a \<Rightarrow> 'a list"
    and limit :: nat
  assumes limit_pos: "0 < limit"
    and push_suffix: "length xs \<le> limit \<Longrightarrow> push xs x = drop (length xs + 1 - limit) (xs @ [x])"
begin

lemma push_length: "length xs \<le> limit \<Longrightarrow> length (push xs x) = min (Suc (length xs)) limit"
  by (auto simp: push_suffix min_def)

lemma push_bounded_length: "length xs \<le> limit \<Longrightarrow> length (push xs x) \<le> limit"
  by (simp add: push_length)

lemma push_last: "length xs \<le> limit \<Longrightarrow> push xs x \<noteq> [] \<and> last (push xs x) = x"
proof -
  assume le: "length xs \<le> limit"
  then have lt: "length xs + 1 - limit < length (xs @ [x])" using limit_pos by simp
  then have "drop (length xs + 1 - limit) (xs @ [x]) \<noteq> []" by simp
  with lt le show ?thesis by (simp add: push_suffix last_drop del: drop_append)
qed

lemma push_mem: "length xs \<le> limit \<Longrightarrow> x \<in> set (push xs x)"
  using push_last by (metis last_in_set)

lemma push_set: "length xs \<le> limit \<Longrightarrow> set (push xs x) \<subseteq> insert x (set xs)"
proof -
  assume le: "length xs \<le> limit"
  then have "set (push xs x) \<subseteq> set (xs @ [x])"
    by (simp add: push_suffix set_drop_subset del: drop_append set_append)
  then show ?thesis by auto
qed

lemma push_all:
  "length xs \<le> limit \<Longrightarrow> (\<And>y. y \<in> set xs \<Longrightarrow> P y) \<Longrightarrow> P x \<Longrightarrow> y \<in> set (push xs x) \<Longrightarrow> P y"
  using push_set by blast

text \<open>A whole run of pushes keeps exactly the newest \<open>limit\<close> entries, in order.\<close>

lemma foldl_push:
  "length xs \<le> limit \<Longrightarrow>
   foldl push xs ys = drop (length xs + length ys - limit) (xs @ ys)"
proof (induction ys arbitrary: xs)
  case Nil
  then show ?case by simp
next
  case (Cons y ys)
  let ?zs = "push xs y"
  have zs: "?zs = drop (length xs + 1 - limit) (xs @ [y])"
    using Cons.prems by (rule push_suffix)
  have len: "length ?zs = min (Suc (length xs)) limit" "length ?zs \<le> limit"
    using push_length [OF Cons.prems] by simp_all
  have "foldl push xs (y # ys) = drop (length ?zs + length ys - limit) (?zs @ ys)"
    using Cons.IH [OF len(2)] by simp
  also have "?zs @ ys = drop (length xs + 1 - limit) (xs @ y # ys)"
    using Cons.prems limit_pos by (simp add: zs drop_Cons split: nat.split)
  also have "drop (length ?zs + length ys - limit) (drop (length xs + 1 - limit) (xs @ y # ys)) =
      drop (length xs + length (y # ys) - limit) (xs @ y # ys)"
    using len(1) Cons.prems limit_pos by (simp add: min_def add.commute split: if_splits)
  finally show ?case .
qed

lemma foldl_push_length: "length xs \<le> limit \<Longrightarrow> length (foldl push xs ys) \<le> limit"
  by (simp add: foldl_push)

end

text \<open>The push that evicts after appending: \<open>items.push(item); if items.len() > limit
  { items.remove(0) }\<close>, and the push that evicts first: \<open>if items.len() == limit
  { items.remove(0) }; items.push(item)\<close>.\<close>

definition append_then_evict :: "nat \<Rightarrow> 'a list \<Rightarrow> 'a \<Rightarrow> 'a list" where
  "append_then_evict limit xs x =
     (let ys = xs @ [x] in if limit < length ys then drop 1 ys else ys)"

definition evict_then_append :: "nat \<Rightarrow> 'a list \<Rightarrow> 'a \<Rightarrow> 'a list" where
  "evict_then_append limit xs x = (if length xs = limit then drop 1 xs else xs) @ [x]"

lemma append_then_evict_log: "0 < limit \<Longrightarrow> bounded_log (append_then_evict limit) limit"
proof unfold_locales
  fix xs :: "'a list" and x
  assume "0 < limit" and le: "length xs \<le> limit"
  then show "append_then_evict limit xs x = drop (length xs + 1 - limit) (xs @ [x])"
    by (cases "length xs = limit") (auto simp: append_then_evict_def Let_def)
qed simp

lemma evict_then_append_log: "0 < limit \<Longrightarrow> bounded_log (evict_then_append limit) limit"
proof unfold_locales
  fix xs :: "'a list" and x
  assume "0 < limit" and "length xs \<le> limit"
  then show "evict_then_append limit xs x = drop (length xs + 1 - limit) (xs @ [x])"
    by (cases "length xs = limit") (auto simp: evict_then_append_def)
qed

text \<open>
  The contract of \<open>enforce_bounds\<close>.  Cutting a text again recomputes its truncation metadata, so a
  state within bounds need not be a fixpoint; a \<open>settled\<close> state, whose texts are exact, is one.
\<close>

locale persisted_bounds =
  fixes enforce :: "'s \<Rightarrow> 's"
    and within :: "'s \<Rightarrow> bool"
    and settled :: "'s \<Rightarrow> bool"
  assumes enforce_within: "within (enforce s)"
    and settled_id: "settled s \<Longrightarrow> enforce s = s"
begin

lemma settled_within: "settled s \<Longrightarrow> within s"
  using enforce_within [of s] by (simp add: settled_id)

lemma settled_stays: "settled s \<Longrightarrow> (enforce ^^ n) s = s"
  by (induction n) (simp_all add: settled_id)

lemma enforce_pow_within: "0 < n \<Longrightarrow> within ((enforce ^^ n) s)"
  by (cases n) (simp_all add: enforce_within)

end

end
