(* ===== verification/Limits.thy ===== *)
theory Limits
  imports Prelude
begin

section \<open>Bounded text (aether-core/src/limits.rs)\<close>

text \<open>
  \<open>BoundedText\<close> carries every model-visible or persisted string of the system.  Its constructor
  cuts a text at the last character boundary not beyond the byte ceiling, so the UTF-8 encoding
  of the result stays valid.
\<close>

definition DEFAULT_MAX_OUTPUT_BYTES :: nat where
  "DEFAULT_MAX_OUTPUT_BYTES = 64 * 1024"

record output_limit =
  truncated :: bool
  original_bytes :: nat
  retained_bytes :: nat

record bounded_text =
  bt_text :: rstr
  bt_limit :: output_limit

definition bounded_text_default :: bounded_text where
  "bounded_text_default =
     \<lparr>bt_text = [], bt_limit = \<lparr>truncated = False, original_bytes = 0, retained_bytes = 0\<rparr>\<rparr>"

subsection \<open>Character boundaries\<close>

text \<open>\<open>str::is_char_boundary\<close>: a UTF-8 continuation byte is \<open>10xxxxxx\<close>.\<close>

definition is_continuation :: "char \<Rightarrow> bool" where
  "is_continuation c = (let n = of_char c :: nat in 128 \<le> n \<and> n < 192)"

definition is_char_boundary :: "rstr \<Rightarrow> nat \<Rightarrow> bool" where
  "is_char_boundary s i =
     (i = 0 \<or> i = length s \<or> (i < length s \<and> \<not> is_continuation (s ! i)))"

text \<open>The loop \<open>while end > 0 && !value.is_char_boundary(end) { end -= 1 }\<close>.\<close>

fun back_to_boundary :: "rstr \<Rightarrow> nat \<Rightarrow> nat" where
  "back_to_boundary s 0 = 0"
| "back_to_boundary s (Suc n) =
     (if is_char_boundary s (Suc n) then Suc n else back_to_boundary s n)"

definition bounded_new :: "rstr \<Rightarrow> nat \<Rightarrow> bounded_text" where
  "bounded_new value max_bytes =
     (let original = length value;
          end_byte = back_to_boundary value (min original max_bytes)
      in \<lparr>bt_text = take end_byte value,
          bt_limit = \<lparr>truncated = end_byte < original,
                      original_bytes = original,
                      retained_bytes = end_byte\<rparr>\<rparr>)"

definition as_str :: "bounded_text \<Rightarrow> rstr" where
  "as_str t = bt_text t"

definition into_string :: "bounded_text \<Rightarrow> rstr" where
  "into_string t = bt_text t"

definition is_truncated :: "bounded_text \<Rightarrow> bool" where
  "is_truncated t = truncated (bt_limit t)"

subsection \<open>Facts about the cut\<close>

lemma back_to_boundary_le: "back_to_boundary s n \<le> n"
  by (induction s n rule: back_to_boundary.induct) auto

lemma back_to_boundary_is_boundary: "is_char_boundary s (back_to_boundary s n)"
  by (induction s n rule: back_to_boundary.induct) (auto simp: is_char_boundary_def)

lemma back_to_boundary_fix: "is_char_boundary s n \<Longrightarrow> back_to_boundary s n = n"
  by (cases n) auto

lemma back_to_boundary_greatest:
  "m \<le> n \<Longrightarrow> is_char_boundary s m \<Longrightarrow> m \<le> back_to_boundary s n"
proof (induction s n rule: back_to_boundary.induct)
  case (1 s)
  then show ?case by simp
next
  case (2 s n)
  show ?case
  proof (cases "is_char_boundary s (Suc n)")
    case True
    with 2 show ?thesis by simp
  next
    case False
    with 2 have "m \<le> n" by (cases "m = Suc n") auto
    with 2 False show ?thesis by simp
  qed
qed

lemma as_str_bounded_new:
  "as_str (bounded_new s n) = take (back_to_boundary s (min (length s) n)) s"
  by (simp add: as_str_def bounded_new_def Let_def)

lemma into_string_as_str [simp]: "into_string t = as_str t"
  by (simp add: into_string_def as_str_def)

lemma length_bounded_new [bound_simps]: "length (as_str (bounded_new s n)) \<le> n"
  using back_to_boundary_le [of s "min (length s) n"] by (simp add: as_str_bounded_new)

lemma bounded_new_short: "length s \<le> n \<Longrightarrow> as_str (bounded_new s n) = s"
  by (simp add: as_str_bounded_new min_absorb1 back_to_boundary_fix is_char_boundary_def)

lemma is_truncated_iff: "is_truncated (bounded_new s n) \<longleftrightarrow> n < length s"
proof (cases "length s \<le> n")
  case True
  then have "back_to_boundary s (min (length s) n) = length s"
    by (simp add: min_absorb1 back_to_boundary_fix is_char_boundary_def)
  with True show ?thesis by (simp add: is_truncated_def bounded_new_def Let_def)
next
  case False
  with back_to_boundary_le [of s "min (length s) n"] show ?thesis
    by (simp add: is_truncated_def bounded_new_def Let_def)
qed

lemma bounded_new_prefix: "prefix (as_str (bounded_new s n)) s"
  by (simp add: as_str_bounded_new take_is_prefix)

lemma bounded_new_eq_iff_str:
  "length s \<le> n \<Longrightarrow> bounded_new s n = \<lparr>bt_text = s, bt_limit =
     \<lparr>truncated = False, original_bytes = length s, retained_bytes = length s\<rparr>\<rparr>"
  by (simp add: bounded_new_def Let_def min_absorb1 back_to_boundary_fix is_char_boundary_def)

lemma bounded_new_inj_short:
  "length s \<le> n \<Longrightarrow> length t \<le> n \<Longrightarrow> bounded_new s n = bounded_new t n \<longleftrightarrow> s = t"
  by (auto simp: bounded_new_eq_iff_str)

text \<open>A text that cutting at \<open>n\<close> again would not change, metadata included.\<close>

definition fits :: "nat \<Rightarrow> bounded_text \<Rightarrow> bool" where
  "fits n t \<longleftrightarrow> bounded_new (as_str t) n = t"

lemma fits_length: "fits n t \<Longrightarrow> length (as_str t) \<le> n"
  using length_bounded_new [of "as_str t" n] by (simp add: fits_def)

lemma fits_not_truncated: "fits n t \<Longrightarrow> \<not> is_truncated t"
  using fits_length [of n t] is_truncated_iff [of "as_str t" n] by (simp add: fits_def)

lemma fits_new: "length s \<le> n \<Longrightarrow> fits n (bounded_new s n)"
  by (simp add: fits_def bounded_new_short)

lemma fits_map_id: "list_all (fits n) ts \<Longrightarrow> map (\<lambda>t. bounded_new (as_str t) n) ts = ts"
  by (induction ts) (auto simp: fits_def)

text \<open>Cutting a text twice forgets that anything was removed.\<close>

lemma rebound_not_truncated: "\<not> is_truncated (bounded_new (as_str (bounded_new s n)) n)"
  by (simp add: is_truncated_iff length_bounded_new not_less)

lemma as_str_rebound: "as_str (bounded_new (as_str (bounded_new s n)) n) = as_str (bounded_new s n)"
  by (rule bounded_new_short) (rule length_bounded_new)

subsection \<open>Well-formed UTF-8\<close>

text \<open>
  The length in bytes of the well-formed UTF-8 sequence a text starts with (0 for none), by the
  table of the Unicode standard: no overlong forms, no surrogates, nothing above U+10FFFF.
\<close>

definition byte_at :: "rstr \<Rightarrow> nat \<Rightarrow> nat" where
  "byte_at s i = (if i < length s then of_char (s ! i) else 0)"

definition cont_byte :: "nat \<Rightarrow> bool" where
  "cont_byte n = (128 \<le> n \<and> n < 192)"

text \<open>The number of bytes the lead byte announces, and what the following bytes must satisfy.\<close>

definition utf8_need :: "nat \<Rightarrow> nat" where
  "utf8_need b0 =
     (if b0 < 128 then 1
      else if 194 \<le> b0 \<and> b0 < 224 then 2
      else if 224 \<le> b0 \<and> b0 < 240 then 3
      else if 240 \<le> b0 \<and> b0 < 245 then 4
      else 0)"

definition utf8_second_ok :: "nat \<Rightarrow> nat \<Rightarrow> bool" where
  "utf8_second_ok b0 b1 =
     (cont_byte b1
      \<and> (b0 = 224 \<longrightarrow> 160 \<le> b1) \<and> (b0 = 237 \<longrightarrow> b1 < 160)
      \<and> (b0 = 240 \<longrightarrow> 144 \<le> b1) \<and> (b0 = 244 \<longrightarrow> b1 < 144))"

definition utf8_head :: "rstr \<Rightarrow> nat" where
  "utf8_head s =
     (let k = utf8_need (byte_at s 0)
      in if s \<noteq> []
            \<and> (2 \<le> k \<longrightarrow> utf8_second_ok (byte_at s 0) (byte_at s 1))
            \<and> (3 \<le> k \<longrightarrow> cont_byte (byte_at s 2))
            \<and> (4 \<le> k \<longrightarrow> cont_byte (byte_at s 3))
         then k else 0)"

lemma utf8_need_le_4: "utf8_need b \<le> 4"
  by (simp add: utf8_need_def)

lemma cont_byte_in_range: "cont_byte (byte_at s i) \<Longrightarrow> i < length s \<and> is_continuation (s ! i)"
  by (auto simp: cont_byte_def byte_at_def is_continuation_def Let_def split: if_splits)

lemma utf8_head_cont: "0 < i \<Longrightarrow> i < utf8_head s \<Longrightarrow> i < length s \<and> is_continuation (s ! i)"
proof -
  assume i: "0 < i" "i < utf8_head s"
  have "utf8_head s \<le> 4"
    using utf8_need_le_4 by (simp add: utf8_head_def Let_def)
  with i have "i = 1 \<or> i = 2 \<or> i = 3" by arith
  with i have "cont_byte (byte_at s i)"
    by (auto simp: utf8_head_def utf8_second_ok_def Let_def split: if_splits)
  then show ?thesis by (rule cont_byte_in_range)
qed

lemma utf8_head_Nil [simp]: "utf8_head [] = 0"
  by (simp add: utf8_head_def)

lemma utf8_head_le: "utf8_head s \<le> length s"
proof (cases "utf8_head s \<le> 1")
  case True
  then show ?thesis by (cases s) auto
next
  case False
  with utf8_head_cont [of "utf8_head s - 1" s] show ?thesis by auto
qed

lemma utf8_head_le_4: "utf8_head s \<le> 4"
  using utf8_need_le_4 by (simp add: utf8_head_def Let_def)

lemma utf8_head_shrinks: "0 < utf8_head s \<Longrightarrow> length s - utf8_head s < length s"
  using utf8_head_le [of s] by linarith

function utf8_valid :: "rstr \<Rightarrow> bool" where
  "utf8_valid s =
     (if s = [] then True
      else if utf8_head s = 0 then False
      else utf8_valid (drop (utf8_head s) s))"
  by pat_completeness auto
termination
  by (relation "measure length") (auto simp: utf8_head_shrinks)

declare utf8_valid.simps [simp del]

lemma utf8_valid_Nil [simp]: "utf8_valid []"
  by (simp add: utf8_valid.simps)

lemma utf8_valid_step:
  "utf8_valid s \<Longrightarrow> s \<noteq> [] \<Longrightarrow> 0 < utf8_head s \<and> utf8_valid (drop (utf8_head s) s)"
  by (subst (asm) utf8_valid.simps) (auto split: if_splits)

lemma boundary_after_head:
  "is_char_boundary s i \<Longrightarrow> 0 < i \<Longrightarrow> i \<le> length s \<Longrightarrow> utf8_head s \<le> i"
  using utf8_head_cont [of i s] utf8_head_le [of s]
  by (auto simp: is_char_boundary_def not_le intro: leI)

lemma boundary_drop:
  "n \<le> i \<Longrightarrow> i \<le> length s \<Longrightarrow> is_char_boundary s i \<Longrightarrow> is_char_boundary (drop n s) (i - n)"
  by (auto simp: is_char_boundary_def)

lemma byte_at_take: "i < n \<Longrightarrow> byte_at (take n s) i = byte_at s i"
  by (auto simp: byte_at_def)

lemma utf8_head_take: "utf8_head s \<le> n \<Longrightarrow> 0 < utf8_head s \<Longrightarrow> utf8_head (take n s) = utf8_head s"
proof -
  assume le: "utf8_head s \<le> n" and pos: "0 < utf8_head s"
  let ?k = "utf8_need (byte_at s 0)"
  from pos have k: "utf8_head s = ?k" and ok: "s \<noteq> []"
      "2 \<le> ?k \<longrightarrow> utf8_second_ok (byte_at s 0) (byte_at s 1)"
      "3 \<le> ?k \<longrightarrow> cont_byte (byte_at s 2)" "4 \<le> ?k \<longrightarrow> cont_byte (byte_at s 3)"
    by (simp_all add: utf8_head_def Let_def split: if_splits)
  from le pos k have n: "0 < n" "2 \<le> ?k \<Longrightarrow> 1 < n" "3 \<le> ?k \<Longrightarrow> 2 < n" "4 \<le> ?k \<Longrightarrow> 3 < n"
    by auto
  with ok show ?thesis
    unfolding utf8_head_def Let_def by (auto simp: byte_at_take)
qed

lemma utf8_valid_take:
  "utf8_valid s \<Longrightarrow> is_char_boundary s i \<Longrightarrow> i \<le> length s \<Longrightarrow> utf8_valid (take i s)"
proof (induction s arbitrary: i rule: utf8_valid.induct)
  case (1 s)
  show ?case
  proof (cases "s = [] \<or> i = 0")
    case True
    then show ?thesis by auto
  next
    case False
    let ?n = "utf8_head s"
    from False have ne: "s \<noteq> []" and i: "0 < i" by auto
    from utf8_valid_step [OF "1.prems"(1) ne]
    have n: "0 < ?n" and rest: "utf8_valid (drop ?n s)" by auto
    have le: "?n \<le> i" using "1.prems"(2) i "1.prems"(3) by (rule boundary_after_head)
    have "utf8_valid (take (i - ?n) (drop ?n s))"
      using "1.IH" [OF ne _ rest boundary_drop [OF le "1.prems"(3) "1.prems"(2)]] n "1.prems"(3)
      by auto
    then have "utf8_valid (drop ?n (take i s))" by (simp add: drop_take)
    moreover have "utf8_head (take i s) = ?n" using le n by (rule utf8_head_take)
    ultimately show ?thesis using n by (subst utf8_valid.simps) simp
  qed
qed

lemma utf8_boundary_near:
  "utf8_valid s \<Longrightarrow> n \<le> length s \<Longrightarrow> \<exists>m. m \<le> n \<and> n \<le> m + 3 \<and> is_char_boundary s m"
proof (induction s arbitrary: n rule: utf8_valid.induct)
  case (1 s)
  let ?k = "utf8_head s"
  show ?case
  proof (cases "s = [] \<or> n < ?k")
    case True
    then have "n \<le> 0 + 3" using utf8_head_le_4 [of s] "1.prems"(2) by auto
    then show ?thesis by (intro exI [of _ 0]) (auto simp: is_char_boundary_def)
  next
    case False
    then have ne: "s \<noteq> []" and kn: "?k \<le> n" by auto
    from utf8_valid_step [OF "1.prems"(1) ne]
    have k: "0 < ?k" and rest: "utf8_valid (drop ?k s)" by auto
    have "\<exists>m. m \<le> n - ?k \<and> n - ?k \<le> m + 3 \<and> is_char_boundary (drop ?k s) m"
      using "1.IH" [OF ne _ rest, of "n - ?k"] k "1.prems"(2) by auto
    then obtain m where m: "m \<le> n - ?k" "n - ?k \<le> m + 3" "is_char_boundary (drop ?k s) m"
      by blast
    show ?thesis
    proof (cases "m = 0 \<and> ?k < length s \<and> is_continuation (s ! ?k)")
      case True
      then have "utf8_head (drop ?k s) = 0"
        by (auto simp: utf8_head_def utf8_need_def byte_at_def is_continuation_def Let_def)
      with utf8_valid_step [OF rest] True show ?thesis by simp
    next
      case False
      with m kn "1.prems"(2) have "is_char_boundary s (m + ?k)"
        by (auto simp: is_char_boundary_def add.commute not_less)
      with m kn show ?thesis by (intro exI [of _ "m + ?k"]) auto
    qed
  qed
qed

lemma bounded_cut_utf8:
  assumes "utf8_valid s"
  shows "utf8_valid (as_str (bounded_new s n)) \<and> prefix (as_str (bounded_new s n)) s
    \<and> length (as_str (bounded_new s n)) \<le> n
    \<and> min (length s) n \<le> length (as_str (bounded_new s n)) + 3"
proof -
  let ?m = "min (length s) n"
  let ?e = "back_to_boundary s ?m"
  have e: "?e \<le> ?m" by (rule back_to_boundary_le)
  obtain m where m: "m \<le> ?m" "?m \<le> m + 3" "is_char_boundary s m"
    using utf8_boundary_near [OF assms, of ?m] by auto
  have "m \<le> ?e" using m(1) m(3) by (rule back_to_boundary_greatest)
  moreover have "utf8_valid (take ?e s)"
    using assms back_to_boundary_is_boundary e by (intro utf8_valid_take) auto
  ultimately show ?thesis
    using e m(2) by (auto simp: as_str_bounded_new take_is_prefix)
qed

end
