(* ===== verification/Core_Types.thy ===== *)
theory Core_Types
  imports Limits
begin

section \<open>Errors, identifiers, cancellation and permissions of aether-core\<close>

text \<open>
  The typed error of the domain crate (error.rs), the identifier grammar shared by the five
  \<open>id_type!\<close> newtypes (ids.rs), the cancellation flag (cancellation.rs) and the permission policy
  engine (permissions.rs).  A \<open>CoreResult<T>\<close> is \<open>core_error + 'a\<close>, \<open>Inl\<close> for \<open>Err\<close>.
\<close>

subsection \<open>CoreError (error.rs)\<close>

datatype core_error =
    InvalidInput (invalid_operation: rstr) (invalid_message: rstr)
  | PathEscape rstr
  | LimitExceeded rstr nat
  | PermissionRequired rstr rstr
  | PermissionDenied rstr rstr
  | ResourceLimit rstr nat
  | Cancelled
  | Unsupported rstr
  | FeatureUnavailable rstr
  | IoError rstr rstr
  | Serialization rstr rstr

type_synonym 'a core_result = "core_error + 'a"

definition core_error_io :: "rstr \<Rightarrow> rstr \<Rightarrow> core_error" where
  "core_error_io operation message = IoError operation message"

definition core_error_invalid :: "rstr \<Rightarrow> rstr \<Rightarrow> core_error" where
  "core_error_invalid operation message = InvalidInput operation message"

subsection \<open>Identifiers (ids.rs)\<close>

type_synonym tool_call_id = rstr

definition is_ascii_digit :: "char \<Rightarrow> bool" where
  "is_ascii_digit c = (let n = of_char c :: nat in 48 \<le> n \<and> n \<le> 57)"

definition is_ascii_alphanumeric :: "char \<Rightarrow> bool" where
  "is_ascii_alphanumeric c =
     (let n = of_char c :: nat
      in (48 \<le> n \<and> n \<le> 57) \<or> (65 \<le> n \<and> n \<le> 90) \<or> (97 \<le> n \<and> n \<le> 122))"

definition id_byte_ok :: "char \<Rightarrow> bool" where
  "id_byte_ok c = (is_ascii_alphanumeric c \<or> c \<in> {CHR ''-'', CHR ''_'', CHR ''.''})"

definition quoted :: "char \<Rightarrow> rstr" where
  "quoted c = [CHR 0x27, c, CHR 0x27]"

definition id_new :: "rstr \<Rightarrow> rstr \<Rightarrow> rstr core_result" where
  "id_new label value =
     (if value = [] \<or> 128 < length value then
        Inl (core_error_invalid label ''identifier must contain 1..=128 bytes'')
      else if list_ex (\<lambda>byte. \<not> id_byte_ok byte) value then
        Inl (core_error_invalid label
          (''identifier may contain only ASCII letters, digits, '' @ quoted CHR ''-'' @ '', ''
             @ quoted CHR ''_'' @ '', and '' @ quoted CHR ''.''))
      else Inr value)"

lemma id_new_Inr_iff:
  "id_new label value = Inr x \<longleftrightarrow>
     x = value \<and> value \<noteq> [] \<and> length value \<le> 128 \<and> list_all id_byte_ok value"
  by (auto simp: id_new_def list_ex_iff list_all_iff)

subsection \<open>Cancellation (cancellation.rs of aether-core and aether-agent)\<close>

text \<open>
  The flag is one shared atomic boolean; every clone reads the same cell, so its state is the
  value of that cell.
\<close>

type_synonym cancellation_flag = bool

definition flag_new :: cancellation_flag where
  "flag_new = False"

definition flag_cancel :: "cancellation_flag \<Rightarrow> cancellation_flag" where
  "flag_cancel f = True"

definition flag_is_cancelled :: "cancellation_flag \<Rightarrow> bool" where
  "flag_is_cancelled f = f"

definition flag_check :: "cancellation_flag \<Rightarrow> unit core_result" where
  "flag_check f = (if flag_is_cancelled f then Inl Cancelled else Inr ())"

subsection \<open>Permissions (permissions.rs)\<close>

datatype permission_class =
    ReadOnly | WorkspaceWrite | ProcessExecute | ProcessPersistent | GitMutate
  | OutsideWorkspace | NetworkMutation | BrowserRead | BrowserAction

fun permission_class_display :: "permission_class \<Rightarrow> rstr" where
  "permission_class_display ReadOnly = ''read_only''"
| "permission_class_display WorkspaceWrite = ''workspace_write''"
| "permission_class_display ProcessExecute = ''process_execute''"
| "permission_class_display ProcessPersistent = ''process_persistent''"
| "permission_class_display GitMutate = ''git_mutate''"
| "permission_class_display OutsideWorkspace = ''outside_workspace''"
| "permission_class_display NetworkMutation = ''network_mutation''"
| "permission_class_display BrowserRead = ''browser_read''"
| "permission_class_display BrowserAction = ''browser_action''"

datatype permission_decision = AllowOnce | AllowSession | Deny

text \<open>The request's \<open>details\<close> are a JSON value no decision reads; their type is a parameter.\<close>

record 'd permission_request =
  pr_call_id :: tool_call_id
  pr_tool :: rstr
  pr_class :: permission_class
  pr_operation :: rstr
  pr_target :: "rstr option"
  pr_details :: 'd

record permission_policy =
  read_only :: bool
  workspace_write :: bool
  process_execute :: bool
  process_persistent :: bool
  git_mutate :: bool
  outside_workspace :: bool
  network_mutation :: bool
  browser_read :: bool
  browser_action :: bool

definition policy_default :: permission_policy where
  "policy_default =
     \<lparr>read_only = True, workspace_write = False, process_execute = False,
      process_persistent = False, git_mutate = False, outside_workspace = False,
      network_mutation = False, browser_read = False, browser_action = False\<rparr>"

definition policy_allow_all :: permission_policy where
  "policy_allow_all =
     \<lparr>read_only = True, workspace_write = True, process_execute = True,
      process_persistent = True, git_mutate = True, outside_workspace = True,
      network_mutation = True, browser_read = True, browser_action = True\<rparr>"

fun policy_allows :: "permission_policy \<Rightarrow> permission_class \<Rightarrow> bool" where
  "policy_allows p ReadOnly = read_only p"
| "policy_allows p WorkspaceWrite = workspace_write p"
| "policy_allows p ProcessExecute = process_execute p"
| "policy_allows p ProcessPersistent = process_persistent p"
| "policy_allows p GitMutate = git_mutate p"
| "policy_allows p OutsideWorkspace = outside_workspace p"
| "policy_allows p NetworkMutation = network_mutation p"
| "policy_allows p BrowserRead = browser_read p"
| "policy_allows p BrowserAction = browser_action p"

definition requires_confirmation :: "permission_policy \<Rightarrow> 'd permission_request \<Rightarrow> bool" where
  "requires_confirmation policy request = (\<not> policy_allows policy (pr_class request))"

definition authorize :: "permission_policy \<Rightarrow> 'd permission_request \<Rightarrow> unit core_result" where
  "authorize policy request =
     (if \<not> requires_confirmation policy request then Inr ()
      else Inl (PermissionRequired (pr_operation request)
                  (permission_class_display (pr_class request))))"

lemma permission_class_display_inj:
  "permission_class_display a = permission_class_display b \<longleftrightarrow> a = b"
  by (cases a; cases b) simp_all

lemma policy_default_allows: "policy_allows policy_default c \<longleftrightarrow> c = ReadOnly"
  by (cases c) (simp_all add: policy_default_def)

lemma policy_allow_all_allows: "policy_allows policy_allow_all c"
  by (cases c) (simp_all add: policy_allow_all_def)

end
