(* ===== verification/Json.thy ===== *)
theory Json
  imports Core_Types
begin

section \<open>JSON values as the crates read and hash them\<close>

text \<open>
  The crates pass tool arguments as \<open>serde_json::Value\<close>.  Its constructors are a datatype here; a
  number is its canonical text (all the code does with one is \<open>to_string\<close>), an object is its
  entries.  Without the \<open>preserve_order\<close> feature an object is a \<open>BTreeMap\<close>: keys are distinct and
  iterated in byte order, which is \<open>json_wf\<close>.  The second part is the byte stream \<open>tools.rs\<close> feeds
  the hasher when it fingerprints a call.
\<close>

datatype json =
    JNull
  | JBool bool
  | JNumber rstr
  | JString rstr
  | JArray "json list"
  | JObject "(rstr \<times> json) list"

definition json_get :: "json \<Rightarrow> rstr \<Rightarrow> json option" where
  "json_get v key = (case v of JObject kvs \<Rightarrow> map_of kvs key | _ \<Rightarrow> None)"

definition json_as_str :: "json \<Rightarrow> rstr option" where
  "json_as_str v = (case v of JString s \<Rightarrow> Some s | _ \<Rightarrow> None)"

definition json_as_array :: "json \<Rightarrow> json list option" where
  "json_as_array v = (case v of JArray vs \<Rightarrow> Some vs | _ \<Rightarrow> None)"

definition json_is_object :: "json \<Rightarrow> bool" where
  "json_is_object v = (case v of JObject _ \<Rightarrow> True | _ \<Rightarrow> False)"

fun json_wf :: "json \<Rightarrow> bool" where
  "json_wf (JArray vs) = (length vs < 2 ^ 64 \<and> list_all json_wf vs)"
| "json_wf (JObject kvs) =
     (length kvs < 2 ^ 64 \<and> sorted_wrt (<) (map fst kvs) \<and>
      list_all (\<lambda>k. length k < 2 ^ 64) (map fst kvs) \<and> list_all json_wf (map snd kvs))"
| "json_wf (JString s) = (length s < 2 ^ 64)"
| "json_wf (JNumber s) = (length s < 2 ^ 64)"
| "json_wf JNull = True"
| "json_wf (JBool b) = True"

subsection \<open>The hashed byte stream (tools.rs, hash_value and hash_bytes)\<close>

definition le_bytes :: "nat \<Rightarrow> nat \<Rightarrow> rstr" where
  "le_bytes w n = map (\<lambda>i. char_of (n div 256 ^ i)) [0..<w]"

definition hash_bytes :: "rstr \<Rightarrow> rstr" where
  "hash_bytes bytes = le_bytes 8 (length bytes) @ bytes"

fun hash_value :: "json \<Rightarrow> rstr" where
  "hash_value JNull = ''null''"
| "hash_value (JBool b) = (if b then ''true'' else ''false'')"
| "hash_value (JNumber n) = ''number'' @ hash_bytes n"
| "hash_value (JString s) = ''string'' @ hash_bytes s"
| "hash_value (JArray vs) = ''array'' @ le_bytes 8 (length vs) @ concat (map hash_value vs)"
| "hash_value (JObject kvs) =
     ''object'' @ le_bytes 8 (length kvs) @
     concat (map (\<lambda>(k, h). hash_bytes k @ h)
       (sort_key fst (map (\<lambda>(k, v). (k, hash_value v)) kvs)))"

lemma length_le_bytes [simp]: "length (le_bytes w n) = w"
  by (simp add: le_bytes_def)

lemma le_bytes_inj: "m < 256 ^ w \<Longrightarrow> n < 256 ^ w \<Longrightarrow> le_bytes w m = le_bytes w n \<Longrightarrow> m = n"
proof (induction w arbitrary: m n)
  case 0
  then show ?case by simp
next
  case (Suc w)
  have step: "le_bytes (Suc w) k = char_of k # le_bytes w (k div 256)" for k
    by (simp add: le_bytes_def upt_conv_Cons map_Suc_upt [symmetric] div_mult2_eq del: upt_Suc)
  from Suc.prems(3) have "(char_of m :: char) = char_of n" and rest: "le_bytes w (m div 256) = le_bytes w (n div 256)"
    by (simp_all add: step)
  then have low: "m mod 256 = n mod 256"
    by (metis of_char_of)
  have "m div 256 = n div 256"
    using Suc.prems(1,2) rest by (intro Suc.IH) (simp_all add: div_less_iff_less_mult mult.commute)
  with low show ?case by (metis div_mult_mod_eq)
qed

lemma append_same_length:
  "length a = length b \<Longrightarrow> a @ x = b @ y \<longleftrightarrow> a = b \<and> x = y"
  by simp

lemma hash_bytes_prefix_free:
  assumes "length s < 2 ^ 64" "length t < 2 ^ 64" "hash_bytes s @ x = hash_bytes t @ y"
  shows "s = t \<and> x = y"
proof -
  from assms(3) have "le_bytes 8 (length s) = le_bytes 8 (length t)" and rest: "s @ x = t @ y"
    by (auto simp: hash_bytes_def)
  then have "length s = length t"
    using assms(1,2) by (intro le_bytes_inj [of _ 8]) simp_all
  with rest show ?thesis by simp
qed

lemma sort_key_sorted: "sorted_wrt (<) (map f xs) \<Longrightarrow> sort_key f xs = xs"
  for f :: "_ \<Rightarrow> 'a::linorder"
  by (rule sort_key_id_if_sorted) (auto intro: strict_sorted_imp_sorted)

lemma hash_value_object:
  "sorted_wrt (<) (map fst kvs) \<Longrightarrow>
   hash_value (JObject kvs) =
     ''object'' @ le_bytes 8 (length kvs) @
     concat (map (\<lambda>(k, v). hash_bytes k @ hash_value v) kvs)"
proof -
  assume "sorted_wrt (<) (map fst kvs)"
  moreover have "map fst (map (\<lambda>(k, v). (k, hash_value v)) kvs) = map fst kvs"
    by auto
  ultimately have "sort_key fst (map (\<lambda>(k, v). (k, hash_value v)) kvs) = map (\<lambda>(k, v). (k, hash_value v)) kvs"
    by (simp only: sort_key_sorted)
  then show ?thesis by (simp add: case_prod_unfold comp_def)
qed

text \<open>Decoding is unambiguous even inside a longer stream.\<close>

definition prefix_free_at :: "json \<Rightarrow> bool" where
  "prefix_free_at v \<longleftrightarrow>
     (\<forall>w x y. json_wf w \<longrightarrow> hash_value v @ x = hash_value w @ y \<longrightarrow> v = w \<and> x = y)"

lemma prefix_free_atD:
  "prefix_free_at v \<Longrightarrow> json_wf w \<Longrightarrow> hash_value v @ x = hash_value w @ y \<Longrightarrow> v = w \<and> x = y"
  unfolding prefix_free_at_def by blast

lemma prefix_free_list:
  assumes "\<And>v. v \<in> set vs \<Longrightarrow> prefix_free_at v" and "list_all json_wf ws"
    and "length vs = length ws"
    and "concat (map hash_value vs) @ x = concat (map hash_value ws) @ y"
  shows "vs = ws \<and> x = y"
  using assms
proof (induction vs arbitrary: ws)
  case Nil
  then show ?case by simp
next
  case (Cons v vs)
  then obtain w ws' where ws: "ws = w # ws'" by (cases ws) auto
  with Cons.prems have "hash_value v @ concat (map hash_value vs) @ x
      = hash_value w @ concat (map hash_value ws') @ y" and "json_wf w"
    by simp_all
  then have "v = w \<and> concat (map hash_value vs) @ x = concat (map hash_value ws') @ y"
    using Cons.prems(1) by (intro prefix_free_atD) simp_all
  then have "v = w" and "concat (map hash_value vs) @ x = concat (map hash_value ws') @ y"
    by simp_all
  moreover have "vs = ws' \<and> x = y"
    using Cons.prems ws calculation(2) by (intro Cons.IH) auto
  ultimately show ?case using ws by simp
qed

lemma prefix_free_entries:
  assumes "\<And>v. v \<in> snd ` set kvs \<Longrightarrow> prefix_free_at v" and "list_all json_wf (map snd kws)"
    and "list_all (\<lambda>k. length k < 2 ^ 64) (map fst kvs)"
    and "list_all (\<lambda>k. length k < 2 ^ 64) (map fst kws)"
    and "length kvs = length kws"
    and "concat (map (\<lambda>(k, v). hash_bytes k @ hash_value v) kvs) @ x
       = concat (map (\<lambda>(k, v). hash_bytes k @ hash_value v) kws) @ y"
  shows "kvs = kws \<and> x = y"
  using assms
proof (induction kvs arbitrary: kws)
  case Nil
  then show ?case by simp
next
  case (Cons e kvs)
  obtain k v where e: "e = (k, v)" by (cases e)
  from Cons.prems(5) obtain l w kws' where kws: "kws = (l, w) # kws'"
    by (cases kws) auto
  let ?rest = "\<lambda>kvs. concat (map (\<lambda>(k, v). hash_bytes k @ hash_value v) kvs)"
  from Cons.prems(6) e kws
  have eq: "hash_bytes k @ (hash_value v @ ?rest kvs @ x) = hash_bytes l @ (hash_value w @ ?rest kws' @ y)"
    by simp
  have "k = l \<and> hash_value v @ ?rest kvs @ x = hash_value w @ ?rest kws' @ y"
    using Cons.prems(3,4) e kws by (intro hash_bytes_prefix_free [OF _ _ eq]) simp_all
  then have kl: "k = l" and vw: "hash_value v @ ?rest kvs @ x = hash_value w @ ?rest kws' @ y" by simp_all
  have "prefix_free_at v" using Cons.prems(1) e by simp
  moreover have "json_wf w" using Cons.prems(2) kws by simp
  ultimately have "v = w \<and> ?rest kvs @ x = ?rest kws' @ y"
    using vw by (rule prefix_free_atD)
  then have "v = w" and rest: "?rest kvs @ x = ?rest kws' @ y" by simp_all
  moreover have "kvs = kws' \<and> x = y"
    using Cons.prems e kws rest by (intro Cons.IH) auto
  ultimately show ?case using e kws kl by simp
qed

lemma prefix_free_value: "json_wf v \<Longrightarrow> prefix_free_at v"
proof (induction v)
  case (JArray vs)
  show ?case
    unfolding prefix_free_at_def
  proof (intro allI impI)
    fix w x y
    assume w: "json_wf w" and eq: "hash_value (JArray vs) @ x = hash_value w @ y"
    then obtain ws where ws: "w = JArray ws" by (cases w) (auto split: if_splits)
    with eq have len: "le_bytes 8 (length vs) = le_bytes 8 (length ws)"
      and body: "concat (map hash_value vs) @ x = concat (map hash_value ws) @ y" by auto
    have "length vs = length ws"
      using len JArray.prems w ws by (intro le_bytes_inj [of _ 8]) simp_all
    then have "vs = ws \<and> x = y"
      using JArray w ws body by (intro prefix_free_list) (auto simp: list_all_iff)
    with ws show "JArray vs = w \<and> x = y" by simp
  qed
next
  case (JObject kvs)
  show ?case
    unfolding prefix_free_at_def
  proof (intro allI impI)
    fix w x y
    assume w: "json_wf w" and eq: "hash_value (JObject kvs) @ x = hash_value w @ y"
    then obtain kws where kws: "w = JObject kws" by (cases w) (auto split: if_splits)
    have srt: "sorted_wrt (<) (map fst kvs)" "sorted_wrt (<) (map fst kws)"
      using JObject.prems w kws by simp_all
    have len: "le_bytes 8 (length kvs) = le_bytes 8 (length kws)"
      and body: "concat (map (\<lambda>(k, v). hash_bytes k @ hash_value v) kvs) @ x
        = concat (map (\<lambda>(k, v). hash_bytes k @ hash_value v) kws) @ y"
      using eq unfolding kws hash_value_object [OF srt(1)] hash_value_object [OF srt(2)] by auto
    have "length kvs = length kws"
      using len JObject.prems w kws by (intro le_bytes_inj [of _ 8]) simp_all
    moreover have "\<And>v. v \<in> snd ` set kvs \<Longrightarrow> prefix_free_at v"
      using JObject by (fastforce simp: list_all_iff)
    ultimately have "kvs = kws \<and> x = y"
      using JObject.prems w kws body by (intro prefix_free_entries) simp_all
    with kws show "JObject kvs = w \<and> x = y" by simp
  qed
next
  case (JNumber n)
  show ?case
    unfolding prefix_free_at_def
  proof (intro allI impI)
    fix w x y
    assume w: "json_wf w" and eq: "hash_value (JNumber n) @ x = hash_value w @ y"
    then obtain m where m: "w = JNumber m" by (cases w) (auto split: if_splits)
    with eq w JNumber show "JNumber n = w \<and> x = y"
      using hash_bytes_prefix_free [of n m x y] by simp
  qed
next
  case (JString n)
  show ?case
    unfolding prefix_free_at_def
  proof (intro allI impI)
    fix w x y
    assume w: "json_wf w" and eq: "hash_value (JString n) @ x = hash_value w @ y"
    then obtain m where m: "w = JString m" by (cases w) (auto split: if_splits)
    with eq w JString show "JString n = w \<and> x = y"
      using hash_bytes_prefix_free [of n m x y] by simp
  qed
next
  case JNull
  have "JNull = w \<and> x = y" if "hash_value JNull @ x = hash_value w @ y" for w x y
    using that by (cases w) (auto split: if_splits)
  then show ?case by (simp add: prefix_free_at_def)
next
  case (JBool b)
  have "JBool b = w \<and> x = y" if "hash_value (JBool b) @ x = hash_value w @ y" for w x y
    using that by (cases w) (auto split: if_splits)
  then show ?case unfolding prefix_free_at_def by blast
qed

end
