(* ===== verification/Paths.thy ===== *)
theory Paths
  imports Core_Types
begin

section \<open>Workspace paths (aether-core/src/path.rs)\<close>

text \<open>
  Lexical normalisation of a model-supplied path.  \<open>path_components\<close> is \<open>Path::components\<close> of the
  standard library on Unix: repeated separators and inner \<open>.\<close> pieces vanish, a leading \<open>.\<close> is a
  \<open>CurDir\<close> component, a leading separator is \<open>RootDir\<close>.  (Windows prefixes are not modelled.)
  A \<open>PathBuf\<close> is the text of the path; pushing a normal component appends it after a separator.
\<close>

datatype path_component = RootDir | CurDir | ParentDir | Normal rstr

definition piece_component :: "rstr \<Rightarrow> path_component" where
  "piece_component p = (if p = ''..'' then ParentDir else Normal p)"

definition path_components :: "rstr \<Rightarrow> path_component list" where
  "path_components s =
     (let pieces = split_on CHR ''/'' s;
          body = map piece_component (filter (\<lambda>p. p \<noteq> [] \<and> p \<noteq> ''.'') pieces)
      in if starts_with s ''/'' then RootDir # body
         else if hd pieces = ''.'' then CurDir # body
         else body)"

definition unify_separators :: "rstr \<Rightarrow> rstr" where
  "unify_separators s = map (\<lambda>c. if c = CHR 0x5C then CHR ''/'' else c) s"

definition path_push :: "rstr \<Rightarrow> rstr \<Rightarrow> rstr" where
  "path_push buf part = (if buf = [] then part else buf @ ''/'' @ part)"

text \<open>The loop over the components, with the \<open>PathBuf\<close> built so far.\<close>

fun normalize_components :: "rstr \<Rightarrow> rstr \<Rightarrow> path_component list \<Rightarrow> rstr core_result" where
  "normalize_components original buf [] = Inr buf"
| "normalize_components original buf (CurDir # cs) = normalize_components original buf cs"
| "normalize_components original buf (Normal part # cs) =
     normalize_components original (path_push buf part) cs"
| "normalize_components original buf (c # cs) = Inl (PathEscape original)"

definition workspace_path_new :: "rstr \<Rightarrow> rstr core_result" where
  "workspace_path_new original =
     (if original = [] then Inr ''.''
      else case normalize_components original [] (path_components (unify_separators original)) of
             Inl e \<Rightarrow> Inl e
           | Inr normalized \<Rightarrow> Inr (if normalized = [] then ''.'' else normalized))"

fun display_from :: "rstr \<Rightarrow> path_component list \<Rightarrow> rstr" where
  "display_from rendered [] = rendered"
| "display_from rendered (Normal part # cs) =
     display_from ((if rendered = [] then rendered else rendered @ ''/'') @ part) cs"
| "display_from rendered (c # cs) = display_from rendered cs"

definition workspace_path_display :: "rstr \<Rightarrow> rstr" where
  "workspace_path_display p =
     (let rendered = display_from [] (path_components p)
      in if rendered = [] then ''.'' else rendered)"

text \<open>\<open>WorkspaceRoot\<close>: an absolute path, with resolution and lexical containment.\<close>

definition path_is_absolute :: "rstr \<Rightarrow> bool" where
  "path_is_absolute s = starts_with s ''/''"

definition workspace_root_new :: "rstr \<Rightarrow> rstr core_result" where
  "workspace_root_new path =
     (if \<not> path_is_absolute path
      then Inl (core_error_invalid ''workspace root'' ''workspace root must be absolute'')
      else Inr path)"

text \<open>\<open>PathBuf::join\<close> for a relative right-hand side (a separator unless one ends the left).\<close>

definition path_join :: "rstr \<Rightarrow> rstr \<Rightarrow> rstr" where
  "path_join a b =
     (if path_is_absolute b then b
      else if a = [] then b
      else if last a = CHR ''/'' then a @ b else a @ ''/'' @ b)"

definition path_starts_with :: "rstr \<Rightarrow> rstr \<Rightarrow> bool" where
  "path_starts_with p q = prefix (path_components q) (path_components p)"

definition workspace_root_resolve :: "rstr \<Rightarrow> rstr \<Rightarrow> (rstr \<times> rstr) core_result" where
  "workspace_root_resolve root path =
     (case workspace_path_new path of
        Inl e \<Rightarrow> Inl e
      | Inr relative \<Rightarrow> Inr (relative, path_join root relative))"

definition contains_lexically :: "rstr \<Rightarrow> rstr \<Rightarrow> bool" where
  "contains_lexically root candidate = path_starts_with candidate root"

subsection \<open>Splitting at separators\<close>

lemma split_on_from_pieces:
  "sep \<notin> set acc \<Longrightarrow> p \<in> set (split_on_from sep acc s) \<Longrightarrow> sep \<notin> set p"
  by (induction sep acc s arbitrary: p rule: split_on_from.induct) (auto split: if_splits)

lemma split_on_pieces: "p \<in> set (split_on sep s) \<Longrightarrow> sep \<notin> set p"
  using split_on_from_pieces [of sep "[]" p s] by (auto simp: split_on_def)

lemma split_on_from_no_sep: "sep \<notin> set s \<Longrightarrow> split_on_from sep acc s = [rev acc @ s]"
  by (induction s arbitrary: acc) auto

lemma split_on_from_sep:
  "sep \<notin> set s \<Longrightarrow> split_on_from sep acc (s @ sep # t) = (rev acc @ s) # split_on_from sep [] t"
  by (induction s arbitrary: acc) auto

lemma split_on_join_pieces:
  "ps \<noteq> [] \<Longrightarrow> (\<And>p. p \<in> set ps \<Longrightarrow> sep \<notin> set p) \<Longrightarrow> split_on sep (join [sep] ps) = ps"
proof (induction ps rule: induct_list012)
  case 1
  then show ?case by simp
next
  case (2 x)
  then show ?case by (simp add: split_on_def split_on_from_no_sep)
next
  case (3 x y zs)
  then have "split_on sep (join [sep] (y # zs)) = y # zs" and "sep \<notin> set x" by auto
  then show ?case by (simp add: split_on_def split_on_from_sep)
qed

subsection \<open>What the components of a normalised path are\<close>

text \<open>A plain piece: what a \<open>Normal\<close> component can hold.\<close>

definition plain_piece :: "rstr \<Rightarrow> bool" where
  "plain_piece p \<longleftrightarrow> p \<noteq> [] \<and> p \<noteq> ''.'' \<and> p \<noteq> ''..'' \<and> CHR ''/'' \<notin> set p"

fun normal_parts :: "path_component list \<Rightarrow> rstr list" where
  "normal_parts [] = []"
| "normal_parts (Normal p # cs) = p # normal_parts cs"
| "normal_parts (c # cs) = normal_parts cs"

lemma normal_parts_map_Normal [simp]: "normal_parts (map Normal ps) = ps"
  by (induction ps) auto

lemma path_components_Normal:
  "Normal p \<in> set (path_components s) \<Longrightarrow> plain_piece p"
  by (auto simp: path_components_def Let_def piece_component_def plain_piece_def
      dest: split_on_pieces split: if_splits)

lemma normal_parts_plain: "p \<in> set (normal_parts cs) \<Longrightarrow> Normal p \<in> set cs"
  by (induction cs rule: normal_parts.induct) auto

lemma join_snoc: "ps \<noteq> [] \<Longrightarrow> join sep (ps @ [p]) = join sep ps @ sep @ p"
  by (induction ps rule: induct_list012) auto

lemma join_Nil_iff: "(\<And>p. p \<in> set ps \<Longrightarrow> p \<noteq> []) \<Longrightarrow> join sep ps = [] \<longleftrightarrow> ps = []"
  by (induction ps rule: induct_list012) auto

lemma normalize_components_spec:
  "normalize_components orig (join ''/'' ps) cs =
     (if RootDir \<in> set cs \<or> ParentDir \<in> set cs then Inl (PathEscape orig)
      else Inr (join ''/'' (ps @ normal_parts cs)))"
  if "\<And>p. p \<in> set ps \<Longrightarrow> plain_piece p" and "\<And>p. Normal p \<in> set cs \<Longrightarrow> plain_piece p"
  using that
proof (induction cs arbitrary: ps)
  case Nil
  then show ?case by simp
next
  case (Cons c cs)
  show ?case
  proof (cases c)
    case (Normal p)
    have p: "plain_piece p" using Cons.prems(2) Normal by simp
    have ne: "join ''/'' ps = [] \<longleftrightarrow> ps = []"
      by (rule join_Nil_iff) (auto simp: plain_piece_def dest: Cons.prems(1))
    have "path_push (join ''/'' ps) p = join ''/'' (ps @ [p])"
      using ne by (cases "ps = []") (auto simp: path_push_def join_snoc)
    moreover have "normalize_components orig (join ''/'' (ps @ [p])) cs =
       (if RootDir \<in> set cs \<or> ParentDir \<in> set cs then Inl (PathEscape orig)
        else Inr (join ''/'' ((ps @ [p]) @ normal_parts cs)))"
      using Cons.prems p by (intro Cons.IH) auto
    ultimately show ?thesis using Normal by simp
  qed (use Cons in auto)
qed

lemma normalize_components_start:
  "normalize_components orig [] (path_components s) =
     (if RootDir \<in> set (path_components s) \<or> ParentDir \<in> set (path_components s)
      then Inl (PathEscape orig)
      else Inr (join ''/'' (normal_parts (path_components s))))"
  using normalize_components_spec [of "[]" "path_components s" orig] path_components_Normal
  by simp

text \<open>A path put together from plain pieces is read back as these pieces.\<close>

lemma path_components_join:
  assumes "ps \<noteq> []" and plain: "\<And>p. p \<in> set ps \<Longrightarrow> plain_piece p"
  shows "path_components (join ''/'' ps) = map Normal ps"
proof -
  have split: "split_on CHR ''/'' (join ''/'' ps) = ps"
    using assms by (intro split_on_join_pieces) (auto simp: plain_piece_def)
  have body: "map piece_component (filter (\<lambda>p. p \<noteq> [] \<and> p \<noteq> ''.'') ps) = map Normal ps"
    using plain by (induction ps) (auto simp: plain_piece_def piece_component_def)
  obtain p qs where ps: "ps = p # qs" using assms(1) by (cases ps) auto
  then have p: "plain_piece p" using plain by simp
  then obtain c cs where c: "p = c # cs" "c \<noteq> CHR ''/''"
    by (cases p) (auto simp: plain_piece_def)
  have "\<exists>t. join ''/'' ps = p @ t" using ps by (cases qs) auto
  then have "\<not> starts_with (join ''/'' ps) ''/''" using c by (auto simp: starts_with_def)
  moreover have "hd ps \<noteq> ''.''" using ps p by (simp add: plain_piece_def)
  ultimately show ?thesis by (simp add: path_components_def split body)
qed

text \<open>
  Containment: a path that is accepted is \<open>.\<close> or a list of plain pieces, without a root, a
  parent reference or a backslash separator; every other path is refused.
\<close>

definition contained_path :: "rstr \<Rightarrow> bool" where
  "contained_path p \<longleftrightarrow> p = ''.'' \<or>
     (path_components p \<noteq> [] \<and>
      list_all (\<lambda>c. case c of Normal q \<Rightarrow> plain_piece q | _ \<Rightarrow> False) (path_components p))"

lemma workspace_path_new_cases:
  "workspace_path_new s =
     (let cs = path_components (unify_separators s)
      in if s \<noteq> [] \<and> (RootDir \<in> set cs \<or> ParentDir \<in> set cs) then Inl (PathEscape s)
         else Inr (if normal_parts cs = [] then ''.'' else join ''/'' (normal_parts cs)))"
proof -
  let ?cs = "path_components (unify_separators s)"
  have plain: "\<And>p. p \<in> set (normal_parts ?cs) \<Longrightarrow> plain_piece p"
    by (rule path_components_Normal) (rule normal_parts_plain)
  have "join ''/'' (normal_parts ?cs) = [] \<longleftrightarrow> normal_parts ?cs = []"
    by (rule join_Nil_iff) (auto simp: plain_piece_def dest: plain)
  moreover have "s = [] \<Longrightarrow> normal_parts ?cs = []"
    by (simp add: path_components_def unify_separators_def split_on_def starts_with_def)
  ultimately show ?thesis
    by (auto simp: workspace_path_new_def normalize_components_start Let_def)
qed

lemma unify_separators_id: "CHR 0x5C \<notin> set s \<Longrightarrow> unify_separators s = s"
  by (induction s) (auto simp: unify_separators_def)

lemma workspace_path_new_Inr:
  assumes "workspace_path_new s = Inr p"
  shows "p = ''.'' \<or> (\<exists>ps. ps \<noteq> [] \<and> (\<forall>q \<in> set ps. plain_piece q \<and> CHR 0x5C \<notin> set q)
           \<and> p = join ''/'' ps)"
proof -
  let ?cs = "path_components (unify_separators s)"
  have plain: "\<And>q. q \<in> set (normal_parts ?cs) \<Longrightarrow> plain_piece q"
    by (rule path_components_Normal) (rule normal_parts_plain)
  have no_bs: "CHR 0x5C \<notin> set q" if "q \<in> set (normal_parts ?cs)" for q
  proof -
    have "q \<in> set (split_on CHR ''/'' (unify_separators s))"
      using normal_parts_plain [OF that]
      by (auto simp: path_components_def Let_def piece_component_def split: if_splits)
    moreover have "set q' \<subseteq> set acc \<union> set t" if "q' \<in> set (split_on_from c acc t)" for q' c acc t
      using that by (induction c acc t rule: split_on_from.induct) (auto split: if_splits)
    ultimately have "set q \<subseteq> set (unify_separators s)"
      by (fastforce simp: split_on_def)
    then show ?thesis by (auto simp: unify_separators_def)
  qed
  from assms have "p = ''.'' \<or> (normal_parts ?cs \<noteq> [] \<and> p = join ''/'' (normal_parts ?cs))"
    by (auto simp: workspace_path_new_cases Let_def split: if_splits)
  with plain no_bs show ?thesis by blast
qed

lemma set_join: "set (join sep ps) \<subseteq> set sep \<union> (\<Union>p \<in> set ps. set p)"
  by (induction sep ps rule: join.induct) auto

lemma workspace_path_new_join:
  assumes ne: "ps \<noteq> []" and ps: "\<forall>q \<in> set ps. plain_piece q \<and> CHR 0x5C \<notin> set q"
  shows "workspace_path_new (join ''/'' ps) = Inr (join ''/'' ps)"
proof -
  have "CHR 0x5C \<notin> set (join ''/'' ps)"
    using set_join [of "''/''" ps] ps by auto
  then have "path_components (unify_separators (join ''/'' ps)) = map Normal ps"
    using ne ps by (simp add: unify_separators_id path_components_join)
  then show ?thesis using ne by (auto simp: workspace_path_new_cases Let_def)
qed

lemma workspace_path_new_dot: "workspace_path_new ''.'' = Inr ''.''"
  by (simp add: workspace_path_new_def unify_separators_def path_components_def split_on_def
      starts_with_def)

end
