(* ===== verification/Footprints.thy ===== *)
theory Footprints
  imports Paths
begin

section \<open>Resource footprints and command effects\<close>

text \<open>
  The typed resources a tool call may touch and the conflict relation the scheduler uses
  (aether-core/src/tools.rs), and the effect record of a direct command with the footprint
  derived from it (aether-core/src/command.rs).
\<close>

subsection \<open>Resources and effects (tools.rs)\<close>

definition MAX_TOOL_FOOTPRINT_RESOURCES :: nat where
  "MAX_TOOL_FOOTPRINT_RESOURCES = 64"

datatype tool_resource =
    WorkspacePath rstr
  | Workspace
  | Process u64
  | BrowserSession u64
  | Global

datatype tool_effect =
    Read tool_resource
  | Write tool_resource
  | Exclusive tool_resource

record tool_footprint =
  fp_effects :: "tool_effect list"
  fp_unknown :: bool

definition footprint_empty :: tool_footprint where
  "footprint_empty = \<lparr>fp_effects = [], fp_unknown = False\<rparr>"

definition footprint_unknown :: tool_footprint where
  "footprint_unknown = \<lparr>fp_effects = [], fp_unknown = True\<rparr>"

definition from_effects :: "tool_effect list \<Rightarrow> tool_footprint" where
  "from_effects effects =
     (if MAX_TOOL_FOOTPRINT_RESOURCES < length effects then footprint_unknown
      else \<lparr>fp_effects = effects, fp_unknown = False\<rparr>)"

definition read_workspace :: "rstr list \<Rightarrow> tool_footprint" where
  "read_workspace paths = from_effects (map (\<lambda>p. Read (WorkspacePath p)) paths)"

definition exclusive_workspace :: tool_footprint where
  "exclusive_workspace = from_effects [Exclusive Workspace]"

definition exclusive_global :: tool_footprint where
  "exclusive_global = from_effects [Exclusive Global]"

fun effect_parts :: "tool_effect \<Rightarrow> tool_resource \<times> bool" where
  "effect_parts (Read r) = (r, False)"
| "effect_parts (Write r) = (r, True)"
| "effect_parts (Exclusive r) = (r, True)"

text \<open>The match of \<open>resources_overlap\<close>, arm by arm.\<close>

fun resources_overlap :: "tool_resource \<Rightarrow> tool_resource \<Rightarrow> bool" where
  "resources_overlap Global _ = True"
| "resources_overlap _ Global = True"
| "resources_overlap Workspace _ = True"
| "resources_overlap _ Workspace = True"
| "resources_overlap (Process l) (Process r) = (l = r)"
| "resources_overlap (BrowserSession l) (BrowserSession r) = (l = r)"
| "resources_overlap (WorkspacePath l) (WorkspacePath r) =
     (path_components l = path_components r \<or> path_starts_with l r \<or> path_starts_with r l)"
| "resources_overlap _ _ = False"

definition effects_conflict :: "tool_effect \<Rightarrow> tool_effect \<Rightarrow> bool" where
  "effects_conflict left right =
     (let (left_resource, left_writes) = effect_parts left;
          (right_resource, right_writes) = effect_parts right
      in if \<not> left_writes \<and> \<not> right_writes then False
         else resources_overlap left_resource right_resource)"

definition conflicts :: "tool_footprint \<Rightarrow> tool_footprint \<Rightarrow> bool" where
  "conflicts self other =
     (if fp_unknown self \<or> fp_unknown other then True
      else list_ex (\<lambda>left. list_ex (effects_conflict left) (fp_effects other)) (fp_effects self))"

lemma resources_overlap_sym: "resources_overlap a b = resources_overlap b a"
  by (cases a; cases b) auto

lemma resources_overlap_refl: "resources_overlap a a"
  by (cases a) auto

lemma effects_conflict_sym: "effects_conflict a b = effects_conflict b a"
  by (cases a; cases b) (simp_all add: effects_conflict_def resources_overlap_sym)

lemma conflicts_sym: "conflicts a b = conflicts b a"
  unfolding conflicts_def list_ex_iff using effects_conflict_sym by auto

lemma conflicts_unknown [simp]: "fp_unknown a \<Longrightarrow> conflicts a b" "fp_unknown b \<Longrightarrow> conflicts a b"
  by (simp_all add: conflicts_def)

lemma conflicts_empty: "conflicts footprint_empty b \<longleftrightarrow> fp_unknown b"
  by (simp add: conflicts_def footprint_empty_def)

lemma conflictsI:
  "a \<in> set (fp_effects f) \<Longrightarrow> b \<in> set (fp_effects g) \<Longrightarrow> effects_conflict a b \<Longrightarrow> conflicts f g"
  by (auto simp: conflicts_def list_ex_iff)

lemma from_effects_unknown: "fp_unknown (from_effects es) \<longleftrightarrow> MAX_TOOL_FOOTPRINT_RESOURCES < length es"
  by (simp add: from_effects_def footprint_unknown_def)

lemma from_effects_effects:
  "fp_effects (from_effects es) = (if MAX_TOOL_FOOTPRINT_RESOURCES < length es then [] else es)"
  by (simp add: from_effects_def footprint_unknown_def)

text \<open>A footprint that writes the path \<open>p\<close>, and one that touches a path inside it.\<close>

definition touches :: "tool_footprint \<Rightarrow> tool_resource \<Rightarrow> bool" where
  "touches f r \<longleftrightarrow> fp_unknown f \<or> (\<exists>e \<in> set (fp_effects f). resources_overlap (fst (effect_parts e)) r)"

definition writes_to :: "tool_footprint \<Rightarrow> tool_resource \<Rightarrow> bool" where
  "writes_to f r \<longleftrightarrow> fp_unknown f \<or> (\<exists>e \<in> set (fp_effects f). effect_parts e = (r, True))"

lemma write_conflicts: "writes_to f r \<Longrightarrow> touches g r \<Longrightarrow> conflicts f g"
proof (cases "fp_unknown f \<or> fp_unknown g")
  case True
  then show ?thesis by auto
next
  case False
  assume "writes_to f r" and "touches g r"
  with False obtain e e' where e: "e \<in> set (fp_effects f)" "effect_parts e = (r, True)"
    and e': "e' \<in> set (fp_effects g)" "resources_overlap (fst (effect_parts e')) r"
    by (auto simp: writes_to_def touches_def)
  from e(2) e'(2) have "effects_conflict e e'"
    by (cases "effect_parts e'") (simp add: effects_conflict_def resources_overlap_sym)
  with e(1) e'(1) show ?thesis by (rule conflictsI)
qed

definition only_reads :: "tool_footprint \<Rightarrow> bool" where
  "only_reads f \<longleftrightarrow> \<not> fp_unknown f \<and> list_all (\<lambda>e. \<not> snd (effect_parts e)) (fp_effects f)"

lemma reads_never_conflict: "only_reads f \<Longrightarrow> only_reads g \<Longrightarrow> \<not> conflicts f g"
  by (auto simp: only_reads_def conflicts_def list_ex_iff list_all_iff effects_conflict_def
      case_prod_unfold Let_def)

subsection \<open>Command effects (command.rs)\<close>

datatype command_class =
    Inspection | Search | Verification | Build | Formatting | MutationClass
  | DependencyManagement | GitRead | GitMutation | UnknownClass

fun command_class_as_str :: "command_class \<Rightarrow> rstr" where
  "command_class_as_str Inspection = ''inspection''"
| "command_class_as_str Search = ''search''"
| "command_class_as_str Verification = ''verification''"
| "command_class_as_str Build = ''build''"
| "command_class_as_str Formatting = ''formatting''"
| "command_class_as_str MutationClass = ''mutation''"
| "command_class_as_str DependencyManagement = ''dependency_management''"
| "command_class_as_str GitRead = ''git_read''"
| "command_class_as_str GitMutation = ''git_mutation''"
| "command_class_as_str UnknownClass = ''unknown''"

definition is_read_only :: "command_class \<Rightarrow> bool" where
  "is_read_only c = (c = Inspection \<or> c = Search \<or> c = GitRead)"

definition is_verification :: "command_class \<Rightarrow> bool" where
  "is_verification c = (c = Verification)"

definition is_mutation :: "command_class \<Rightarrow> bool" where
  "is_mutation c =
     (c = Formatting \<or> c = MutationClass \<or> c = DependencyManagement \<or> c = GitMutation)"

record command_effects =
  ce_class :: command_class
  ce_paths :: "rstr list"
  ce_packages :: "rstr list"
  ce_manifests :: "rstr list"
  ce_verification_scope :: "rstr option"
  ce_writes_artifacts :: bool
  ce_writes_workspace :: bool
  ce_uncertain :: bool

definition command_effects_default :: command_effects where
  "command_effects_default =
     \<lparr>ce_class = UnknownClass, ce_paths = [], ce_packages = [], ce_manifests = [],
      ce_verification_scope = None, ce_writes_artifacts = False,
      ce_writes_workspace = False, ce_uncertain = False\<rparr>"

definition mutates_workspace :: "command_effects \<Rightarrow> bool" where
  "mutates_workspace e = (ce_writes_workspace e \<or> ce_writes_artifacts e)"

definition invalidates_context :: "command_effects \<Rightarrow> bool" where
  "invalidates_context e = (ce_writes_workspace e \<or> ce_uncertain e)"

text \<open>The closure \<open>add\<close>: an effect past the resource cap is silently dropped.\<close>

definition add_effect :: "tool_effect list \<Rightarrow> tool_effect \<Rightarrow> tool_effect list" where
  "add_effect effects e =
     (if length effects < MAX_TOOL_FOOTPRINT_RESOURCES then effects @ [e] else effects)"

definition path_effects :: "(tool_resource \<Rightarrow> tool_effect) \<Rightarrow> command_effects \<Rightarrow> tool_effect list" where
  "path_effects mode e =
     (if ce_paths e = [] \<and> ce_manifests e = [] then add_effect [] (mode Workspace)
      else foldl (\<lambda>acc p. add_effect acc (mode (WorkspacePath p))) [] (ce_paths e @ ce_manifests e))"

definition command_footprint :: "command_effects \<Rightarrow> tool_footprint" where
  "command_footprint e =
     (if ce_uncertain e \<or> ce_class e = UnknownClass then footprint_unknown
      else from_effects
        (if is_read_only (ce_class e) then path_effects Read e
         else if ce_writes_workspace e then path_effects Write e
         else if ce_writes_artifacts e then
           (let artifact = (case ce_paths e of [] \<Rightarrow> ''target'' | p # _ \<Rightarrow> p)
            in foldl (\<lambda>acc p. if p \<noteq> artifact then add_effect acc (Read (WorkspacePath p)) else acc)
                 (add_effect [] (Write (WorkspacePath artifact))) (ce_paths e @ ce_manifests e))
         else path_effects Read e))"

lemma add_effect_length:
  "length es \<le> MAX_TOOL_FOOTPRINT_RESOURCES \<Longrightarrow>
   length (add_effect es e) \<le> MAX_TOOL_FOOTPRINT_RESOURCES"
  by (simp add: add_effect_def)

lemma foldl_add_effect:
  "length acc + length ps \<le> MAX_TOOL_FOOTPRINT_RESOURCES \<Longrightarrow>
   foldl (\<lambda>acc p. add_effect acc (f p)) acc ps = acc @ map f ps"
  by (induction ps arbitrary: acc) (simp_all add: add_effect_def)

lemma path_effects_all:
  "length (ce_paths e @ ce_manifests e) \<le> MAX_TOOL_FOOTPRINT_RESOURCES \<Longrightarrow>
   path_effects mode e =
     (if ce_paths e = [] \<and> ce_manifests e = [] then [mode Workspace]
      else map (\<lambda>p. mode (WorkspacePath p)) (ce_paths e @ ce_manifests e))"
  using foldl_add_effect [of "[]" "ce_paths e @ ce_manifests e" "\<lambda>p. mode (WorkspacePath p)"]
  by (simp add: path_effects_def add_effect_def MAX_TOOL_FOOTPRINT_RESOURCES_def)

text \<open>
  A workspace-writing command is never scheduled beside a call that touches one of its paths.
\<close>

lemma command_footprint_writes:
  assumes "ce_writes_workspace e" and "\<not> is_read_only (ce_class e)"
    and "p \<in> set (ce_paths e @ ce_manifests e)"
    and "length (ce_paths e @ ce_manifests e) \<le> MAX_TOOL_FOOTPRINT_RESOURCES"
  shows "writes_to (command_footprint e) (WorkspacePath p)"
proof (cases "ce_uncertain e \<or> ce_class e = UnknownClass")
  case True
  then show ?thesis by (simp add: command_footprint_def writes_to_def footprint_unknown_def)
next
  case False
  have ne: "\<not> (ce_paths e = [] \<and> ce_manifests e = [])" using assms(3) by auto
  have "path_effects Write e = map (\<lambda>p. Write (WorkspacePath p)) (ce_paths e @ ce_manifests e)"
    using ne by (simp only: path_effects_all [OF assms(4)] if_False)
  then have "command_footprint e
      = from_effects (map (\<lambda>p. Write (WorkspacePath p)) (ce_paths e @ ce_manifests e))"
    using False assms(1,2) by (simp add: command_footprint_def)
  then have "fp_effects (command_footprint e)
      = map (\<lambda>p. Write (WorkspacePath p)) (ce_paths e @ ce_manifests e)"
    using assms(4) by (simp add: from_effects_effects)
  with assms(3) show ?thesis by (force simp: writes_to_def)
qed

end
