(* ===== verification/Tools.thy ===== *)
theory Tools
  imports Json Footprints
begin

section \<open>Tool calls, permits and results (aether-core/src/tools.rs)\<close>

text \<open>
  One model tool call normalised into a \<open>prepared_action\<close>, the permit that authorises exactly one
  call, and the bounded results.  Not under src/, hence parameters: \<open>digest\<close> is blake3 (32 bytes),
  \<open>encode\<close> is \<open>serde_json::to_string\<close> (\<open>Inl\<close> the error text), and a \<open>tool_executor\<close> record holds
  the trait methods an executor supplies.  The opaque typed payload (\<open>dyn Any\<close>) carries no
  information any decision reads and is not part of the model.
\<close>

subsection \<open>Classification, requirements, provenance\<close>

datatype action_classification = ClassRead | ClassMutation | ClassVerification | ClassOther

record action_requirements =
  req_permission :: permission_class
  req_user_authorization :: bool
  req_current_workspace_evidence :: bool

datatype evidence_provenance = ProvUser | ProvRepository | ProvToolOutput | ProvNetwork | ProvModel

record tool_invocation =
  inv_call_id :: tool_call_id
  inv_name :: rstr
  inv_input :: json

record tool_definition =
  def_name :: rstr
  def_description :: rstr
  def_input_schema :: json
  def_permission :: permission_class

record prepared_action =
  pa_call_id :: tool_call_id
  pa_tool :: rstr
  pa_normalized_input :: json
  pa_fingerprint :: rstr
  pa_effects :: tool_footprint
  pa_requirements :: action_requirements
  pa_paths :: "rstr list"
  pa_classification :: action_classification
  pa_provenance :: evidence_provenance
  pa_permission_request :: "json permission_request option"
  pa_command_effects :: "command_effects option"

subsection \<open>Fingerprints and fallback paths\<close>

definition fingerprint_stream :: "rstr \<Rightarrow> json \<Rightarrow> rstr" where
  "fingerprint_stream tool value = tool @ hash_value value"

definition fingerprint :: "(rstr \<Rightarrow> rstr) \<Rightarrow> rstr \<Rightarrow> json \<Rightarrow> rstr" where
  "fingerprint digest tool value = take 16 (digest (fingerprint_stream tool value))"

text \<open>The loop over \<open>files\<close> breaks once the list holds the resource maximum.\<close>

fun push_file_paths :: "rstr list \<Rightarrow> json list \<Rightarrow> rstr list" where
  "push_file_paths paths [] = paths"
| "push_file_paths paths (file # files) =
     (case Option.bind (json_get file ''path'') json_as_str of
        None \<Rightarrow> push_file_paths paths files
      | Some p \<Rightarrow>
          if length paths = MAX_TOOL_FOOTPRINT_RESOURCES then paths
          else push_file_paths (paths @ [p]) files)"

definition fallback_paths :: "json \<Rightarrow> rstr list" where
  "fallback_paths value =
     (let paths = (case Option.bind (json_get value ''path'') json_as_str of
                     None \<Rightarrow> [] | Some p \<Rightarrow> [p])
      in case Option.bind (json_get value ''files'') json_as_array of
           None \<Rightarrow> paths
         | Some files \<Rightarrow> push_file_paths paths files)"

definition action_fallback ::
  "(rstr \<Rightarrow> rstr) \<Rightarrow> tool_invocation \<Rightarrow> permission_class \<Rightarrow> prepared_action" where
  "action_fallback digest invocation permission =
     (let classification =
            (if permission = ReadOnly \<or> permission = BrowserRead then ClassRead else ClassMutation)
      in \<lparr>pa_call_id = inv_call_id invocation,
          pa_tool = inv_name invocation,
          pa_normalized_input = inv_input invocation,
          pa_fingerprint = fingerprint digest (inv_name invocation) (inv_input invocation),
          pa_effects = footprint_unknown,
          pa_requirements =
            \<lparr>req_permission = permission,
             req_user_authorization = (permission \<noteq> ReadOnly),
             req_current_workspace_evidence = (classification = ClassMutation)\<rparr>,
          pa_paths = fallback_paths (inv_input invocation),
          pa_classification = classification,
          pa_provenance = ProvModel,
          pa_permission_request = None,
          pa_command_effects = None\<rparr>)"

definition into_invocation :: "prepared_action \<Rightarrow> tool_invocation" where
  "into_invocation a =
     \<lparr>inv_call_id = pa_call_id a, inv_name = pa_tool a, inv_input = pa_normalized_input a\<rparr>"

subsection \<open>The executor boundary: the default \<open>prepare\<close>\<close>

record tool_executor =
  te_definitions :: "tool_definition list"
  te_permission_request :: "tool_invocation \<Rightarrow> json permission_request option"
  te_footprint :: "tool_invocation \<Rightarrow> tool_footprint"

definition executor_prepare ::
  "(rstr \<Rightarrow> rstr) \<Rightarrow> tool_executor \<Rightarrow> tool_invocation \<Rightarrow> prepared_action" where
  "executor_prepare digest tools invocation =
     (let permission =
            (case find (\<lambda>d. def_name d = inv_name invocation) (te_definitions tools) of
               None \<Rightarrow> ReadOnly
             | Some d \<Rightarrow> def_permission d);
          action = (action_fallback digest invocation permission)
                     \<lparr>pa_effects := te_footprint tools invocation\<rparr>;
          request = te_permission_request tools (into_invocation action)
      in action\<lparr>pa_permission_request := request,
                pa_requirements := (pa_requirements action)
                  \<lparr>req_user_authorization := (request \<noteq> None)\<rparr>\<rparr>)"

subsection \<open>Execution permits\<close>

record execution_permit =
  permit_call_id :: tool_call_id
  permit_tool :: rstr
  permit_class :: permission_class

definition permit_new :: "tool_call_id \<Rightarrow> rstr \<Rightarrow> permission_class \<Rightarrow> execution_permit" where
  "permit_new call_id tool class =
     \<lparr>permit_call_id = call_id, permit_tool = tool, permit_class = class\<rparr>"

definition permit_validate ::
  "execution_permit \<Rightarrow> tool_call_id \<Rightarrow> rstr \<Rightarrow> permission_class \<Rightarrow> unit core_result" where
  "permit_validate p call_id tool class =
     (if permit_call_id p \<noteq> call_id \<or> permit_tool p \<noteq> tool \<or> permit_class p \<noteq> class
      then Inl (PermissionDenied tool
        ''execution permit is not bound to this call, tool, and permission class'')
      else Inr ())"

record tool_execution_context =
  tx_cancellation :: cancellation_flag
  tx_permit :: execution_permit

definition execution_context_new ::
  "cancellation_flag \<Rightarrow> execution_permit \<Rightarrow> tool_execution_context" where
  "execution_context_new cancellation permit =
     \<lparr>tx_cancellation = cancellation, tx_permit = permit\<rparr>"

subsection \<open>Results\<close>

record tool_error_info =
  err_code :: rstr
  err_message :: rstr
  err_retryable :: bool

record tool_result =
  tr_call_id :: tool_call_id
  tr_ok :: bool
  tr_output :: bounded_text
  tr_data :: "json option"
  tr_error :: "tool_error_info option"

definition result_failure ::
  "tool_call_id \<Rightarrow> rstr \<Rightarrow> rstr \<Rightarrow> bool \<Rightarrow> nat \<Rightarrow> tool_result" where
  "result_failure call_id code message retryable max_bytes =
     \<lparr>tr_call_id = call_id,
      tr_ok = False,
      tr_output = bounded_new message max_bytes,
      tr_data = None,
      tr_error = Some \<lparr>err_code = code,
                       err_message = into_string (bounded_new message max_bytes),
                       err_retryable = retryable\<rparr>\<rparr>"

definition result_success_text :: "tool_call_id \<Rightarrow> rstr \<Rightarrow> nat \<Rightarrow> tool_result" where
  "result_success_text call_id text max_bytes =
     \<lparr>tr_call_id = call_id, tr_ok = True, tr_output = bounded_new text max_bytes,
      tr_data = None, tr_error = None\<rparr>"

definition result_success_json ::
  "(json \<Rightarrow> rstr + rstr) \<Rightarrow> tool_call_id \<Rightarrow> json \<Rightarrow> nat \<Rightarrow> tool_result" where
  "result_success_json encode call_id value max_bytes =
     (case encode value of
        Inr serialized \<Rightarrow>
          (let output = bounded_new serialized max_bytes
           in \<lparr>tr_call_id = call_id, tr_ok = True, tr_output = output,
               tr_data = (if is_truncated output then None else Some value), tr_error = None\<rparr>)
      | Inl error \<Rightarrow>
          result_failure call_id ''serialization''
            (''tool output serialization failed: '' @ error) False max_bytes)"

subsection \<open>Facts\<close>

lemma permit_validate_iff:
  "permit_validate p call_id tool class = Inr () \<longleftrightarrow> p = permit_new call_id tool class"
  by (cases p) (auto simp: permit_validate_def permit_new_def)

lemma push_file_paths_length:
  "length paths \<le> MAX_TOOL_FOOTPRINT_RESOURCES \<Longrightarrow>
   length (push_file_paths paths files) \<le> MAX_TOOL_FOOTPRINT_RESOURCES"
  by (induction paths files rule: push_file_paths.induct) (auto split: option.splits)

lemma fallback_paths_length [bound_simps]: "length (fallback_paths v) \<le> MAX_TOOL_FOOTPRINT_RESOURCES"
proof -
  have "length (push_file_paths [] fs) \<le> MAX_TOOL_FOOTPRINT_RESOURCES" for fs
    by (rule push_file_paths_length) simp
  moreover have "length (push_file_paths [p] fs) \<le> MAX_TOOL_FOOTPRINT_RESOURCES" for p fs
    by (rule push_file_paths_length) (simp add: MAX_TOOL_FOOTPRINT_RESOURCES_def)
  moreover have "(1::nat) \<le> MAX_TOOL_FOOTPRINT_RESOURCES"
    by (simp add: MAX_TOOL_FOOTPRINT_RESOURCES_def)
  ultimately show ?thesis
    by (simp add: fallback_paths_def Let_def split: option.splits)
qed

lemma executor_prepare_simps:
  "pa_call_id (executor_prepare digest tools i) = inv_call_id i"
  "pa_tool (executor_prepare digest tools i) = inv_name i"
  "pa_normalized_input (executor_prepare digest tools i) = inv_input i"
  "pa_effects (executor_prepare digest tools i) = te_footprint tools i"
  "pa_provenance (executor_prepare digest tools i) = ProvModel"
  "pa_permission_request (executor_prepare digest tools i) = te_permission_request tools i"
  "req_user_authorization (pa_requirements (executor_prepare digest tools i)) \<longleftrightarrow>
     te_permission_request tools i \<noteq> None"
  by (cases i; simp add: executor_prepare_def action_fallback_def into_invocation_def Let_def)+

lemma executor_prepare_permission:
  "req_permission (pa_requirements (executor_prepare digest tools i)) =
     (case find (\<lambda>d. def_name d = inv_name i) (te_definitions tools) of
        None \<Rightarrow> ReadOnly | Some d \<Rightarrow> def_permission d)"
  by (simp add: executor_prepare_def action_fallback_def Let_def)

lemma into_invocation_prepare: "into_invocation (executor_prepare digest tools i) = i"
  by (cases i) (simp add: executor_prepare_def action_fallback_def into_invocation_def Let_def)

lemma fingerprint_stream_inj:
  "json_wf v \<Longrightarrow> json_wf w \<Longrightarrow> fingerprint_stream t v = fingerprint_stream t w \<longleftrightarrow> v = w"
  using prefix_free_atD [OF prefix_free_value, of v w "[]" "[]"]
  by (auto simp: fingerprint_stream_def)

lemma result_failure_bounds:
  "\<not> tr_ok (result_failure i c m r n) \<and> length (as_str (tr_output (result_failure i c m r n))) \<le> n"
  by (simp add: result_failure_def length_bounded_new)

text \<open>A structured payload is only attached when the rendered text is complete.\<close>

lemma result_success_json_data:
  "tr_data (result_success_json encode i v n) = Some w \<Longrightarrow>
   w = v \<and> (\<exists>s. encode v = Inr s \<and> as_str (tr_output (result_success_json encode i v n)) = s)"
  by (auto simp: result_success_json_def result_failure_def Let_def is_truncated_iff bounded_new_short
      split: sum.splits if_splits)

end
