(* ===== verification/Decision.thy ===== *)
theory Decision
  imports Contracts Tools "HOL-Library.Multiset"
begin

section \<open>The decision state (aether-core/src/decision.rs)\<close>

text \<open>
  Bounded evidence, open questions, ranked candidate files and the recommended next action.
  Field prefixes: \<open>de_\<close> evidence, \<open>dq_\<close> question, \<open>dc_\<close> candidate, \<open>ds_\<close> the state itself.
\<close>

definition MAX_DECISION_EVIDENCE :: nat where "MAX_DECISION_EVIDENCE = 32"
definition MAX_DECISION_QUESTIONS :: nat where "MAX_DECISION_QUESTIONS = 8"
definition MAX_DECISION_CANDIDATES :: nat where "MAX_DECISION_CANDIDATES = 16"
definition MAX_DECISION_SCOPE :: nat where "MAX_DECISION_SCOPE = 16"
definition MAX_DECISION_FIELD_BYTES :: nat where "MAX_DECISION_FIELD_BYTES = 192"

lemmas decision_limits = MAX_DECISION_EVIDENCE_def MAX_DECISION_QUESTIONS_def
  MAX_DECISION_CANDIDATES_def MAX_DECISION_SCOPE_def MAX_DECISION_FIELD_BYTES_def

datatype decision_evidence_kind =
    EvDiscovery | EvInspection | EvSymbol | EvRelationship | EvMutation | EvVerification

fun evidence_kind_as_str :: "decision_evidence_kind \<Rightarrow> rstr" where
  "evidence_kind_as_str EvDiscovery = ''discovery''"
| "evidence_kind_as_str EvInspection = ''inspection''"
| "evidence_kind_as_str EvSymbol = ''symbol''"
| "evidence_kind_as_str EvRelationship = ''relationship''"
| "evidence_kind_as_str EvMutation = ''mutation''"
| "evidence_kind_as_str EvVerification = ''verification''"

datatype progress_effect =
    NoProgress | NewRepositoryEvidence | RefinedEvidence | WorkMutationEffect | VerificationEffect
  | RecoveredFailure | ReusedObservation

fun progress_effect_as_str :: "progress_effect \<Rightarrow> rstr" where
  "progress_effect_as_str NoProgress = ''no_progress''"
| "progress_effect_as_str NewRepositoryEvidence = ''new_repository_evidence''"
| "progress_effect_as_str RefinedEvidence = ''refined_evidence''"
| "progress_effect_as_str WorkMutationEffect = ''work_mutation''"
| "progress_effect_as_str VerificationEffect = ''verification''"
| "progress_effect_as_str RecoveredFailure = ''recovered_failure''"
| "progress_effect_as_str ReusedObservation = ''reused_observation''"

definition is_meaningful_progress :: "progress_effect \<Rightarrow> bool" where
  "is_meaningful_progress e =
     (e = NewRepositoryEvidence \<or> e = RefinedEvidence \<or> e = WorkMutationEffect
      \<or> e = VerificationEffect \<or> e = RecoveredFailure)"

datatype decision_action =
    DiscoverTarget | InspectCandidate | ResolveQuestion | MutateMinimal | VerifyFocused
  | VerifyBroader | Finish | Escalate

fun decision_action_as_str :: "decision_action \<Rightarrow> rstr" where
  "decision_action_as_str DiscoverTarget = ''discover_target''"
| "decision_action_as_str InspectCandidate = ''inspect_candidate''"
| "decision_action_as_str ResolveQuestion = ''resolve_question''"
| "decision_action_as_str MutateMinimal = ''mutate_minimal''"
| "decision_action_as_str VerifyFocused = ''verify_focused''"
| "decision_action_as_str VerifyBroader = ''verify_broader''"
| "decision_action_as_str Finish = ''finish''"
| "decision_action_as_str Escalate = ''escalate''"

record decision_evidence =
  de_kind :: decision_evidence_kind
  de_provenance :: evidence_provenance
  de_path :: bounded_text
  de_detail :: bounded_text
  de_weight :: u16
  de_revision :: u32

record decision_question =
  dq_key :: bounded_text
  dq_question :: bounded_text

record decision_candidate =
  dc_path :: bounded_text
  dc_score :: u16
  dc_evidence :: u16
  dc_inspected :: bool
  dc_modified :: bool
  dc_stale :: bool

record decision_state =
  ds_evidence :: "decision_evidence list"
  ds_unresolved_questions :: "decision_question list"
  ds_candidate_files :: "decision_candidate list"
  ds_modified_scope :: "rstr list"
  ds_verification_scope :: bounded_text
  ds_progress_confidence :: u8
  ds_next_action :: decision_action
  ds_next_target :: "bounded_text option"
  ds_next_reason :: bounded_text
  ds_low_value_observations :: u8

definition decision_new :: decision_state where
  "decision_new =
     \<lparr>ds_evidence = [], ds_unresolved_questions = [], ds_candidate_files = [],
      ds_modified_scope = [], ds_verification_scope = bounded_text_default,
      ds_progress_confidence = 0, ds_next_action = DiscoverTarget, ds_next_target = None,
      ds_next_reason = bounded_text_default, ds_low_value_observations = 0\<rparr>"

definition decision_field :: "rstr \<Rightarrow> bounded_text" where
  "decision_field s = bounded_new s MAX_DECISION_FIELD_BYTES"

subsection \<open>Recording evidence\<close>

definition same_evidence ::
  "evidence_provenance \<Rightarrow> decision_evidence_kind \<Rightarrow> bounded_text \<Rightarrow> bounded_text \<Rightarrow> u32 \<Rightarrow>
   decision_evidence \<Rightarrow> bool" where
  "same_evidence provenance kind path detail revision e =
     (de_kind e = kind \<and> de_provenance e = provenance \<and> de_path e = path
      \<and> de_detail e = detail \<and> de_revision e = revision)"

definition record_decision_evidence ::
  "evidence_provenance \<Rightarrow> decision_evidence_kind \<Rightarrow> rstr \<Rightarrow> rstr \<Rightarrow> u16 \<Rightarrow> u32 \<Rightarrow>
   decision_state \<Rightarrow> decision_state" where
  "record_decision_evidence provenance kind path detail weight revision s =
     (let path = decision_field path; detail = decision_field detail;
          same = same_evidence provenance kind path detail revision
      in if as_str path = [] \<and> as_str detail = [] then s
         else if list_ex same (ds_evidence s) then
           s\<lparr>ds_evidence :=
               update_first same (\<lambda>e. e\<lparr>de_weight := max (de_weight e) weight\<rparr>) (ds_evidence s)\<rparr>
         else
           s\<lparr>ds_evidence := evict_then_append MAX_DECISION_EVIDENCE (ds_evidence s)
               \<lparr>de_kind = kind, de_provenance = provenance, de_path = path, de_detail = detail,
                de_weight = weight, de_revision = revision\<rparr>,
             ds_progress_confidence :=
               min (saturating_add (ds_progress_confidence s) (ucast (min weight 10))) 100\<rparr>)"

definition record_question :: "rstr \<Rightarrow> rstr \<Rightarrow> decision_state \<Rightarrow> decision_state" where
  "record_question key question s =
     (let key = decision_field key; question = decision_field question;
          same = (\<lambda>q. dq_key q = key)
      in if as_str key = [] \<or> as_str question = [] then s
         else if list_ex same (ds_unresolved_questions s) then
           s\<lparr>ds_unresolved_questions :=
               update_first same (\<lambda>q. q\<lparr>dq_question := question\<rparr>) (ds_unresolved_questions s)\<rparr>
         else
           s\<lparr>ds_unresolved_questions :=
               evict_then_append MAX_DECISION_QUESTIONS (ds_unresolved_questions s)
                 \<lparr>dq_key = key, dq_question = question\<rparr>\<rparr>)"

definition clear_question :: "rstr \<Rightarrow> decision_state \<Rightarrow> decision_state" where
  "clear_question key s =
     s\<lparr>ds_unresolved_questions :=
         filter (\<lambda>q. as_str (dq_key q) \<noteq> key) (ds_unresolved_questions s)\<rparr>"

subsection \<open>Ranked candidates\<close>

text \<open>
  \<open>sort_unstable_by\<close> with descending score, ties by path, then truncation.  Candidates with equal
  score and equal path (impossible while paths are distinct) may be permuted by the library.
\<close>

definition candidate_rank :: "decision_candidate \<Rightarrow> nat \<times> rstr" where
  "candidate_rank c = (65535 - unat (dc_score c), as_str (dc_path c))"

definition sort_candidates :: "decision_candidate list \<Rightarrow> decision_candidate list" where
  "sort_candidates cs = take MAX_DECISION_CANDIDATES (sort_key candidate_rank cs)"

definition clamp_u16 :: "nat \<Rightarrow> u16" where
  "clamp_u16 n = word_of_nat (min n 65535)"

definition upsert_candidate ::
  "rstr \<Rightarrow> nat \<Rightarrow> nat \<Rightarrow> bool \<Rightarrow> bool \<Rightarrow> bool \<Rightarrow> decision_state \<Rightarrow> decision_state" where
  "upsert_candidate path score evidence inspected modified stale s =
     (let path = decision_field path; score = clamp_u16 score; evidence = clamp_u16 evidence;
          same = (\<lambda>c. dc_path c = path)
      in if as_str path = [] then s
         else
           s\<lparr>ds_candidate_files := sort_candidates
              (if list_ex same (ds_candidate_files s) then
                 update_first same
                   (\<lambda>c. c\<lparr>dc_score := max (dc_score c) score,
                         dc_evidence := max (dc_evidence c) evidence,
                         dc_inspected := dc_inspected c \<or> inspected,
                         dc_modified := dc_modified c \<or> modified,
                         dc_stale := stale\<rparr>)
                   (ds_candidate_files s)
               else ds_candidate_files s @
                 [\<lparr>dc_path = path, dc_score = score, dc_evidence = evidence,
                   dc_inspected = inspected, dc_modified = modified, dc_stale = stale\<rparr>])\<rparr>)"

subsection \<open>Scope, observation value, recommendation, reset\<close>

definition record_modified_scope :: "rstr \<Rightarrow> decision_state \<Rightarrow> decision_state" where
  "record_modified_scope path s =
     (let path = decision_field path
      in if is_truncated path \<or> as_str path = [] then s
         else if as_str path \<in> set (ds_modified_scope s) then s
         else s\<lparr>ds_modified_scope :=
             append_then_evict MAX_DECISION_SCOPE (ds_modified_scope s) (into_string path)\<rparr>)"

definition note_observation_value :: "bool \<Rightarrow> decision_state \<Rightarrow> decision_state" where
  "note_observation_value advanced s =
     (if advanced then
        s\<lparr>ds_low_value_observations := 0,
          ds_progress_confidence := min (saturating_add (ds_progress_confidence s) 2) 100\<rparr>
      else s\<lparr>ds_low_value_observations := saturating_add (ds_low_value_observations s) 1\<rparr>)"

definition set_next ::
  "decision_action \<Rightarrow> rstr option \<Rightarrow> rstr \<Rightarrow> decision_state \<Rightarrow> decision_state" where
  "set_next action target reason s =
     s\<lparr>ds_next_action := action,
       ds_next_target := map_option decision_field target,
       ds_next_reason := decision_field reason\<rparr>"

definition decision_reset_for_workspace_change :: "decision_state \<Rightarrow> decision_state" where
  "decision_reset_for_workspace_change s =
     set_next DiscoverTarget None ''workspace changed; rediscover targets''
       (s\<lparr>ds_evidence := [], ds_unresolved_questions := [], ds_candidate_files := [],
          ds_modified_scope := [], ds_verification_scope := bounded_text_default,
          ds_progress_confidence := 0, ds_low_value_observations := 0\<rparr>)"

subsection \<open>Bounds after restoring a session\<close>

definition rebound_field :: "bounded_text \<Rightarrow> bounded_text" where
  "rebound_field t = bounded_new (as_str t) MAX_DECISION_FIELD_BYTES"

definition decision_enforce_bounds :: "decision_state \<Rightarrow> decision_state" where
  "decision_enforce_bounds s =
     s\<lparr>ds_evidence := map (\<lambda>e. e\<lparr>de_path := rebound_field (de_path e),
                                 de_detail := rebound_field (de_detail e)\<rparr>)
                        (take MAX_DECISION_EVIDENCE (ds_evidence s)),
       ds_unresolved_questions := map (\<lambda>q. q\<lparr>dq_key := rebound_field (dq_key q),
                                 dq_question := rebound_field (dq_question q)\<rparr>)
                        (take MAX_DECISION_QUESTIONS (ds_unresolved_questions s)),
       ds_candidate_files := sort_candidates
                        (map (\<lambda>c. c\<lparr>dc_path := rebound_field (dc_path c)\<rparr>)
                          (take MAX_DECISION_CANDIDATES (ds_candidate_files s))),
       ds_modified_scope := filter (\<lambda>p. p \<noteq> [])
                        (map (\<lambda>p. into_string (decision_field p))
                          (take MAX_DECISION_SCOPE (ds_modified_scope s))),
       ds_verification_scope := rebound_field (ds_verification_scope s),
       ds_next_target := map_option rebound_field (ds_next_target s),
       ds_next_reason := rebound_field (ds_next_reason s),
       ds_progress_confidence := min (ds_progress_confidence s) 100\<rparr>"

subsection \<open>The bounded lists as logs\<close>

interpretation evidence_log: bounded_log "evict_then_append MAX_DECISION_EVIDENCE" MAX_DECISION_EVIDENCE
  by (rule evict_then_append_log) (simp add: decision_limits)

interpretation question_log: bounded_log "evict_then_append MAX_DECISION_QUESTIONS" MAX_DECISION_QUESTIONS
  by (rule evict_then_append_log) (simp add: decision_limits)

interpretation scope_log: bounded_log "append_then_evict MAX_DECISION_SCOPE" MAX_DECISION_SCOPE
  by (rule append_then_evict_log) (simp add: decision_limits)

subsection \<open>Sorting facts\<close>

lemma sort_candidates_sorted: "sorted (map candidate_rank (sort_candidates cs))"
  by (simp add: sort_candidates_def sorted_wrt_take flip: take_map)

lemma sort_candidates_length [bound_simps]: "length (sort_candidates cs) \<le> MAX_DECISION_CANDIDATES"
  by (simp add: sort_candidates_def)

lemma sort_candidates_mset: "mset (sort_candidates cs) \<subseteq># mset cs"
proof -
  have "mset (sort_candidates cs) + mset (drop MAX_DECISION_CANDIDATES (sort_key candidate_rank cs))
      = mset cs"
    by (simp add: sort_candidates_def flip: mset_append)
  then show ?thesis by (metis mset_subset_eq_add_left)
qed

lemma sort_candidates_set: "set (sort_candidates cs) \<subseteq> set cs"
  using set_mset_mono [OF sort_candidates_mset [of cs]] by simp

text \<open>A candidate that is dropped ranks after every candidate that is kept.\<close>

lemma sort_candidates_best:
  assumes "c \<in> set cs" and "c \<notin> set (sort_candidates cs)" and "d \<in> set (sort_candidates cs)"
  shows "candidate_rank d \<le> candidate_rank c \<and>
    length (sort_candidates cs) = MAX_DECISION_CANDIDATES"
proof -
  let ?n = MAX_DECISION_CANDIDATES and ?xs = "sort_key candidate_rank cs"
  have split: "?xs = take ?n ?xs @ drop ?n ?xs" by simp
  have "c \<in> set (drop ?n ?xs)"
  proof -
    have "c \<in> set (take ?n ?xs) \<union> set (drop ?n ?xs)"
      using assms(1) by (metis set_append set_sort split)
    with assms(2) show ?thesis by (simp add: sort_candidates_def)
  qed
  moreover have "sorted (map candidate_rank (take ?n ?xs) @ map candidate_rank (drop ?n ?xs))"
    by (metis map_append sorted_sort_key split)
  ultimately have "candidate_rank d \<le> candidate_rank c"
    using assms(3) by (auto simp: sorted_append sort_candidates_def)
  moreover have "?n < length ?xs"
    using \<open>c \<in> set (drop ?n ?xs)\<close> by (cases "length ?xs \<le> ?n") auto
  ultimately show ?thesis by (simp add: sort_candidates_def)
qed

subsection \<open>Invariant: every operation stays within bounds\<close>

definition decision_within :: "decision_state \<Rightarrow> bool" where
  "decision_within s \<longleftrightarrow>
     length (ds_evidence s) \<le> MAX_DECISION_EVIDENCE
     \<and> length (ds_unresolved_questions s) \<le> MAX_DECISION_QUESTIONS
     \<and> length (ds_candidate_files s) \<le> MAX_DECISION_CANDIDATES
     \<and> length (ds_modified_scope s) \<le> MAX_DECISION_SCOPE
     \<and> unat (ds_progress_confidence s) \<le> 100"

lemma decision_within_new: "decision_within decision_new"
  by (simp add: decision_within_def decision_new_def)

lemma confidence_capped: "unat (min c (100 :: u8)) \<le> 100"
proof -
  have "min c 100 \<le> (100 :: u8)" by simp
  then have "unat (min c 100) \<le> unat (100 :: u8)" by (simp only: word_le_nat_alt)
  then show ?thesis by simp
qed

lemma record_decision_evidence_within:
  "decision_within s \<Longrightarrow> decision_within (record_decision_evidence p k path d w r s)"
  by (auto simp: decision_within_def record_decision_evidence_def Let_def confidence_capped
      evidence_log.push_bounded_length)

lemma record_question_within: "decision_within s \<Longrightarrow> decision_within (record_question k q s)"
  by (auto simp: decision_within_def record_question_def Let_def question_log.push_bounded_length)

lemma clear_question_within: "decision_within s \<Longrightarrow> decision_within (clear_question k s)"
  by (auto simp: decision_within_def clear_question_def intro: le_trans [OF length_filter_le])

lemma upsert_candidate_within:
  "decision_within s \<Longrightarrow> decision_within (upsert_candidate p sc e i m st s)"
  by (auto simp: decision_within_def upsert_candidate_def Let_def sort_candidates_length)

lemma record_modified_scope_within:
  "decision_within s \<Longrightarrow> decision_within (record_modified_scope p s)"
  by (auto simp: decision_within_def record_modified_scope_def Let_def
      scope_log.push_bounded_length)

lemma note_observation_value_within:
  "decision_within s \<Longrightarrow> decision_within (note_observation_value a s)"
  by (auto simp: decision_within_def note_observation_value_def confidence_capped)

lemma set_next_within: "decision_within s \<Longrightarrow> decision_within (set_next a t r s)"
  by (simp add: decision_within_def set_next_def)

lemma decision_reset_within: "decision_within (decision_reset_for_workspace_change s)"
  by (simp add: decision_within_def decision_reset_for_workspace_change_def set_next_def)

lemmas decision_within_intros = record_decision_evidence_within record_question_within
  clear_question_within upsert_candidate_within record_modified_scope_within
  note_observation_value_within set_next_within decision_reset_within

lemma decision_enforce_within: "decision_within (decision_enforce_bounds s)"
  by (auto simp: decision_within_def decision_enforce_bounds_def sort_candidates_length
      confidence_capped intro: le_trans [OF length_filter_le])

text \<open>A settled state: every text exact, candidates already ranked.\<close>

definition decision_settled :: "decision_state \<Rightarrow> bool" where
  "decision_settled s \<longleftrightarrow> decision_within s
     \<and> list_all (\<lambda>e. rebound_field (de_path e) = de_path e \<and> rebound_field (de_detail e) = de_detail e)
         (ds_evidence s)
     \<and> list_all (\<lambda>q. rebound_field (dq_key q) = dq_key q \<and> rebound_field (dq_question q) = dq_question q)
         (ds_unresolved_questions s)
     \<and> list_all (\<lambda>c. rebound_field (dc_path c) = dc_path c) (ds_candidate_files s)
     \<and> sorted (map candidate_rank (ds_candidate_files s))
     \<and> list_all (\<lambda>p. p \<noteq> [] \<and> length p \<le> MAX_DECISION_FIELD_BYTES) (ds_modified_scope s)
     \<and> rebound_field (ds_verification_scope s) = ds_verification_scope s
     \<and> map_option rebound_field (ds_next_target s) = ds_next_target s
     \<and> rebound_field (ds_next_reason s) = ds_next_reason s"

lemma map_id_on: "list_all (\<lambda>x. f x = x) xs \<Longrightarrow> map f xs = xs"
  by (induction xs) auto

lemma sort_candidates_id:
  "sorted (map candidate_rank cs) \<Longrightarrow> length cs \<le> MAX_DECISION_CANDIDATES \<Longrightarrow> sort_candidates cs = cs"
  by (simp add: sort_candidates_def sort_key_id_if_sorted)

lemma decision_settled_id: "decision_settled s \<Longrightarrow> decision_enforce_bounds s = s"
proof -
  assume s: "decision_settled s"
  have ev: "map (\<lambda>e. e\<lparr>de_path := rebound_field (de_path e), de_detail := rebound_field (de_detail e)\<rparr>)
      (ds_evidence s) = ds_evidence s"
    using s by (intro map_id_on) (auto simp: decision_settled_def list_all_iff)
  have qs: "map (\<lambda>q. q\<lparr>dq_key := rebound_field (dq_key q), dq_question := rebound_field (dq_question q)\<rparr>)
      (ds_unresolved_questions s) = ds_unresolved_questions s"
    using s by (intro map_id_on) (auto simp: decision_settled_def list_all_iff)
  have cs: "map (\<lambda>c. c\<lparr>dc_path := rebound_field (dc_path c)\<rparr>) (ds_candidate_files s) = ds_candidate_files s"
    using s by (intro map_id_on) (auto simp: decision_settled_def list_all_iff)
  have ms: "map (\<lambda>p. as_str (decision_field p)) (ds_modified_scope s) = ds_modified_scope s"
    using s by (intro map_id_on)
      (auto simp: decision_settled_def list_all_iff decision_field_def bounded_new_short)
  have fs: "filter (\<lambda>p. p \<noteq> []) (ds_modified_scope s) = ds_modified_scope s"
    using s by (auto simp: decision_settled_def list_all_iff filter_id_conv)
  have conf: "min (ds_progress_confidence s) 100 = ds_progress_confidence s"
    using s by (simp add: decision_settled_def decision_within_def min_def word_le_nat_alt)
  show ?thesis
    using s by (simp add: decision_enforce_bounds_def decision_settled_def decision_within_def
        ev qs cs ms fs conf sort_candidates_id)
qed

interpretation decision_bounds: persisted_bounds decision_enforce_bounds decision_within decision_settled
  by unfold_locales (rule decision_enforce_within, rule decision_settled_id)

end
