(* ===== verification/Work_Text.thy ===== *)
theory Work_Text
  imports Decision
begin

section \<open>Text functions of the work ledger (aether-core/src/work.rs)\<close>

text \<open>
  How the user's prompt becomes an objective, a work mode, acceptance criteria and a task
  fingerprint, with secret assignments redacted on the way.  \<open>digest\<close> is blake3 (a parameter);
  \<open>hasher.update\<close> calls in sequence hash the concatenation of their arguments.
\<close>

definition MAX_WORK_OBJECTIVE_BYTES :: nat where "MAX_WORK_OBJECTIVE_BYTES = 512"
definition MAX_WORK_FIELD_BYTES :: nat where "MAX_WORK_FIELD_BYTES = 192"
definition MAX_WORK_CRITERIA :: nat where "MAX_WORK_CRITERIA = 8"
definition MAX_WORK_SUBGOALS :: nat where "MAX_WORK_SUBGOALS = 16"
definition MAX_WORK_EVIDENCE :: nat where "MAX_WORK_EVIDENCE = 32"
definition MAX_WORK_MUTATIONS :: nat where "MAX_WORK_MUTATIONS = 24"
definition MAX_WORK_VERIFICATIONS :: nat where "MAX_WORK_VERIFICATIONS = 24"
definition MAX_WORK_BLOCKERS :: nat where "MAX_WORK_BLOCKERS = 8"
definition MAX_WORK_RELATIONS :: nat where "MAX_WORK_RELATIONS = 8"

lemmas work_limits = MAX_WORK_OBJECTIVE_BYTES_def MAX_WORK_FIELD_BYTES_def MAX_WORK_CRITERIA_def
  MAX_WORK_SUBGOALS_def MAX_WORK_EVIDENCE_def MAX_WORK_MUTATIONS_def MAX_WORK_VERIFICATIONS_def
  MAX_WORK_BLOCKERS_def MAX_WORK_RELATIONS_def

definition bounded :: "rstr \<Rightarrow> bounded_text" where
  "bounded value = bounded_new value MAX_WORK_FIELD_BYTES"

definition push_bounded :: "'a list \<Rightarrow> 'a \<Rightarrow> nat \<Rightarrow> 'a list" where
  "push_bounded items item limit = append_then_evict limit items item"

datatype work_mode = Simple | Structured

fun work_mode_as_str :: "work_mode \<Rightarrow> rstr" where
  "work_mode_as_str Simple = ''simple''"
| "work_mode_as_str Structured = ''structured''"

record work_criterion =
  wc_key :: bounded_text
  wc_description :: bounded_text
  wc_satisfied :: bool

subsection \<open>Secret redaction\<close>

definition secret_keys :: "rstr list" where
  "secret_keys = [''token'', ''password'', ''secret'', ''api_key'', ''apikey'']"

definition assigns_key :: "rstr \<Rightarrow> rstr \<Rightarrow> bool" where
  "assigns_key lower key =
     (case strip_prefix lower key of None \<Rightarrow> False | Some rest \<Rightarrow> starts_with rest ''='')"

definition redacted :: "rstr \<Rightarrow> rstr" where
  "redacted key = key @ ''=<redacted>''"

text \<open>The loop over the words, with \<open>pending_key\<close> and the words still to come.\<close>

fun redact_words :: "rstr option \<Rightarrow> rstr list \<Rightarrow> rstr list" where
  "redact_words None [] = []"
| "redact_words (Some key) [] = [redacted key]"
| "redact_words (Some key) (word # ws) =
     (if word = ''='' then redact_words (Some key) ws
      else redacted key # redact_words None ws)"
| "redact_words None (word # ws) =
     (let lower = to_ascii_lowercase word
      in case find (assigns_key lower) secret_keys of
           Some key \<Rightarrow> redacted key # redact_words None ws
         | None \<Rightarrow>
             (case find (\<lambda>key. lower = key) secret_keys of
                Some key \<Rightarrow> word # redact_words (Some key) ws
              | None \<Rightarrow> word # redact_words None ws))"

definition redact_secret_assignments :: "rstr \<Rightarrow> rstr" where
  "redact_secret_assignments text = join '' '' (redact_words None (split_whitespace text))"

subsection \<open>Objective, mode, fingerprint\<close>

definition normalized_objective :: "rstr \<Rightarrow> rstr" where
  "normalized_objective prompt =
     (let line = (case find (\<lambda>l. l \<noteq> []) (map trim (lines prompt)) of None \<Rightarrow> [] | Some l \<Rightarrow> l);
          objective = join '' '' (split_whitespace (redact_secret_assignments line));
          objective = (if ends_with objective ''.'' then butlast objective else objective)
      in into_string (bounded_new objective MAX_WORK_OBJECTIVE_BYTES))"

definition work_mode_markers :: "rstr list" where
  "work_mode_markers =
     [''multiple'', ''several'', ''cross-file'', ''cross-crate'', ''across'', ''migrate'',
      ''refactor'', ''workspace'', ''package'', ''crate'', ''module'', ''then'', ''after'']"

definition classify_work_mode :: "rstr \<Rightarrow> work_mode" where
  "classify_work_mode prompt =
     (let lower = to_ascii_lowercase prompt;
          marker_count = length (filter (contains_str lower) work_mode_markers)
      in if 0 < marker_count
            \<or> 2 \<le> length (filter (\<lambda>c. c = CHR '';'' \<or> c = CHR 0x0A) prompt)
         then Structured else Simple)"

definition task_fingerprint :: "(rstr \<Rightarrow> rstr) \<Rightarrow> rstr \<Rightarrow> bounded_text list \<Rightarrow> rstr" where
  "task_fingerprint digest prompt constraints =
     take 16 (digest
       (''aether-task-v1'' @ [CHR 0x00]
        @ concat (map (\<lambda>line. redact_secret_assignments (trim line) @ [CHR 0x00]) (lines prompt))
        @ [CHR 0x01]
        @ concat (map (\<lambda>c. as_str c @ [CHR 0x00]) constraints)))"

definition zero_fingerprint :: rstr where
  "zero_fingerprint = replicate 16 (CHR 0x00)"

subsection \<open>Acceptance criteria\<close>

definition criteria_rest :: "rstr \<Rightarrow> rstr option" where
  "criteria_rest lower =
     (case strip_prefix lower ''acceptance:'' of
        Some rest \<Rightarrow> Some rest
      | None \<Rightarrow>
          (case strip_prefix lower ''criteria:'' of
             Some rest \<Rightarrow> Some rest
           | None \<Rightarrow> strip_prefix lower ''acceptance criteria:''))"

text \<open>The inner loop; the flag says that the function returned because the list is full.\<close>

fun push_criteria :: "nat \<Rightarrow> rstr list \<Rightarrow> work_criterion list \<Rightarrow> work_criterion list \<times> bool" where
  "push_criteria index [] criteria = (criteria, False)"
| "push_criteria index (item # items) criteria =
     (let criteria = criteria @
            [\<lparr>wc_key = bounded (''criterion-'' @ nat_to_decimal index),
              wc_description = bounded (redact_secret_assignments item),
              wc_satisfied = False\<rparr>]
      in if length criteria = MAX_WORK_CRITERIA then (criteria, True)
         else push_criteria (Suc index) items criteria)"

fun extract_criteria_from :: "rstr list \<Rightarrow> work_criterion list \<Rightarrow> work_criterion list" where
  "extract_criteria_from [] criteria = criteria"
| "extract_criteria_from (line # rest_lines) criteria =
     (case criteria_rest (to_ascii_lowercase line) of
        None \<Rightarrow> extract_criteria_from rest_lines criteria
      | Some rest \<Rightarrow>
          (let original = trim (drop (length line - length rest) line);
               items = filter (\<lambda>i. i \<noteq> []) (map trim (split_on CHR '';'' original));
               (criteria, full) = push_criteria 0 items criteria
           in if full then criteria else extract_criteria_from rest_lines criteria))"

definition extract_criteria :: "rstr \<Rightarrow> work_criterion list" where
  "extract_criteria prompt = extract_criteria_from (map trim (lines prompt)) []"

definition criterion_supported_by_verification :: "rstr \<Rightarrow> rstr \<Rightarrow> bool" where
  "criterion_supported_by_verification description command =
     (let description = to_ascii_lowercase description;
          command = to_ascii_lowercase command;
          mentions_tests = contains_str description ''test'' \<or> contains_str description ''spec'';
          mentions_verification = contains_str description ''verif''
            \<or> contains_str description ''check'' \<or> contains_str description ''compil''
            \<or> contains_str description ''build''
      in (mentions_tests \<and> contains_str command ''test'')
         \<or> (mentions_verification
             \<and> (contains_str command ''check'' \<or> contains_str command ''test''
                 \<or> contains_str command ''build'' \<or> contains_str command ''clippy'')))"

subsection \<open>Facts\<close>

lemma bounded_length [bound_simps]: "length (as_str (bounded s)) \<le> MAX_WORK_FIELD_BYTES"
  by (simp add: bounded_def length_bounded_new)

lemma bounded_short: "length s \<le> MAX_WORK_FIELD_BYTES \<Longrightarrow> as_str (bounded s) = s"
  by (simp add: bounded_def bounded_new_short)

lemma normalized_objective_length:
  "length (normalized_objective p) \<le> MAX_WORK_OBJECTIVE_BYTES"
  by (simp add: normalized_objective_def Let_def length_bounded_new)

lemma push_criteria_length:
  "length cs < MAX_WORK_CRITERIA \<Longrightarrow>
   length (fst (push_criteria i items cs)) \<le> MAX_WORK_CRITERIA
   \<and> (\<not> snd (push_criteria i items cs) \<longrightarrow> length (fst (push_criteria i items cs)) < MAX_WORK_CRITERIA)"
  by (induction i items cs rule: push_criteria.induct) (auto simp: Let_def)

lemma extract_criteria_from_length:
  "length cs < MAX_WORK_CRITERIA \<Longrightarrow> length (extract_criteria_from ls cs) \<le> MAX_WORK_CRITERIA"
proof (induction ls arbitrary: cs)
  case Nil
  then show ?case by simp
next
  case (Cons l ls)
  show ?case
  proof (cases "criteria_rest (to_ascii_lowercase l)")
    case None
    with Cons show ?thesis by simp
  next
    case (Some rest)
    let ?items = "filter (\<lambda>i. i \<noteq> []) (map trim (split_on CHR '';'' (trim (drop (length l - length rest) l))))"
    obtain ds full where ds: "push_criteria 0 ?items cs = (ds, full)" by (cases "push_criteria 0 ?items cs")
    with push_criteria_length [OF Cons.prems, of 0 ?items] Cons.IH [of ds] Some
    show ?thesis by auto
  qed
qed

lemma extract_criteria_length [bound_simps]: "length (extract_criteria p) \<le> MAX_WORK_CRITERIA"
  unfolding extract_criteria_def
  by (rule extract_criteria_from_length) (simp add: MAX_WORK_CRITERIA_def)

lemma push_criteria_unsatisfied:
  "list_all (\<lambda>c. \<not> wc_satisfied c) cs \<Longrightarrow>
   list_all (\<lambda>c. \<not> wc_satisfied c) (fst (push_criteria i items cs))"
  by (induction i items cs rule: push_criteria.induct) (auto simp: Let_def)

lemma extract_criteria_from_unsatisfied:
  "list_all (\<lambda>c. \<not> wc_satisfied c) cs \<Longrightarrow>
   list_all (\<lambda>c. \<not> wc_satisfied c) (extract_criteria_from ls cs)"
proof (induction ls arbitrary: cs)
  case Nil
  then show ?case by simp
next
  case (Cons l ls)
  show ?case
  proof (cases "criteria_rest (to_ascii_lowercase l)")
    case None
    with Cons show ?thesis by simp
  next
    case (Some rest)
    let ?items = "filter (\<lambda>i. i \<noteq> []) (map trim (split_on CHR '';'' (trim (drop (length l - length rest) l))))"
    obtain ds full where ds: "push_criteria 0 ?items cs = (ds, full)" by (cases "push_criteria 0 ?items cs")
    with push_criteria_unsatisfied [OF Cons.prems, of 0 ?items] Cons.IH [of ds] Some
    show ?thesis by auto
  qed
qed

lemma extract_criteria_unsatisfied: "list_all (\<lambda>c. \<not> wc_satisfied c) (extract_criteria p)"
  by (simp add: extract_criteria_def extract_criteria_from_unsatisfied)

text \<open>What redaction guarantees of each word it emits.\<close>

definition leaks :: "rstr \<Rightarrow> bool" where
  "leaks word \<longleftrightarrow> (\<exists>key \<in> set secret_keys. assigns_key (to_ascii_lowercase word) key \<and> word \<noteq> redacted key)"

lemma redacted_keys_checked:
  "list_all (\<lambda>key. list_all (\<lambda>k. assigns_key (to_ascii_lowercase (redacted key)) k
     \<longrightarrow> redacted key = redacted k) secret_keys) secret_keys"
  by code_simp

lemma redacted_no_leak: "key \<in> set secret_keys \<Longrightarrow> \<not> leaks (redacted key)"
  using redacted_keys_checked unfolding leaks_def list_all_iff by blast

lemma redact_words_no_leak:
  "(case pending of None \<Rightarrow> True | Some key \<Rightarrow> key \<in> set secret_keys) \<Longrightarrow>
   w \<in> set (redact_words pending ws) \<Longrightarrow> \<not> leaks w"
proof (induction pending ws rule: redact_words.induct)
  case (4 word ws)
  let ?lower = "to_ascii_lowercase word"
  show ?case
  proof (cases "find (assigns_key ?lower) secret_keys")
    case (Some key)
    then have "key \<in> set secret_keys" by (auto simp: find_Some_iff)
    with 4 Some show ?thesis by (auto simp: Let_def redacted_no_leak)
  next
    case None
    then have "\<not> leaks word" by (auto simp: leaks_def find_None_iff)
    moreover have "find (\<lambda>key. ?lower = key) secret_keys = Some key \<Longrightarrow> key \<in> set secret_keys" for key
      by (auto simp: find_Some_iff)
    ultimately show ?thesis
      using 4 None by (auto simp: Let_def split: option.splits)
  qed
qed (auto simp: redacted_no_leak split: if_splits)

text \<open>The word after a bare key never survives: it is replaced, or dropped when it is \<open>=\<close>.\<close>

lemma redact_words_pending:
  "redact_words (Some key) ws = redacted key # redact_words None (drop 1 (dropWhile (\<lambda>w. w = ''='') ws))"
  by (induction ws) auto

end
