(* ===== verification/Work.thy ===== *)
theory Work
  imports Work_Text
begin

section \<open>The work ledger (aether-core/src/work.rs)\<close>

text \<open>
  \<open>WorkState\<close>: objective, criteria, subgoals with dependencies, evidence, mutations,
  verifications and blockers of one task, with every operation the runtime calls on it except
  the model-supplied outline (theory Work_Outline).  Field prefixes: \<open>sg_\<close> subgoal, \<open>we_\<close>
  evidence, \<open>wm_\<close> mutation, \<open>wv_\<close> verification, \<open>wb_\<close> blocker, \<open>w_\<close> the ledger.
  \<open>VerificationStatus\<close> is declared in workflow.rs, which this file imports there.
\<close>

datatype work_status = Pending | Active | Complete | Blocked | Stale

fun work_status_as_str :: "work_status \<Rightarrow> rstr" where
  "work_status_as_str Pending = ''pending''"
| "work_status_as_str Active = ''active''"
| "work_status_as_str Complete = ''complete''"
| "work_status_as_str Blocked = ''blocked''"
| "work_status_as_str Stale = ''stale''"

datatype verification_status = VPending | VPassed | VFailed | VStale

fun verification_status_as_str :: "verification_status \<Rightarrow> rstr" where
  "verification_status_as_str VPending = ''pending''"
| "verification_status_as_str VPassed = ''passed''"
| "verification_status_as_str VFailed = ''failed''"
| "verification_status_as_str VStale = ''stale''"

record work_subgoal =
  sg_id :: bounded_text
  sg_label :: bounded_text
  sg_status :: work_status
  sg_depends_on :: "bounded_text list"
  sg_paths :: "bounded_text list"
  sg_attempts :: u16
  sg_completed_revision :: "u32 option"

record work_evidence =
  we_kind :: bounded_text
  we_path :: bounded_text
  we_detail :: bounded_text
  we_revision :: u32
  we_valid :: bool

record work_mutation =
  wm_operation :: bounded_text
  wm_paths :: "bounded_text list"
  wm_revision :: u32

record work_verification =
  wv_command :: bounded_text
  wv_scope :: bounded_text
  wv_revision :: u32
  wv_status :: verification_status
  wv_diagnostics :: "bounded_text list"

record work_blocker =
  wb_key :: bounded_text
  wb_category :: bounded_text
  wb_detail :: bounded_text
  wb_attempts :: u16
  wb_revision :: u32

record work_state =
  w_mode :: work_mode
  w_objective :: bounded_text
  w_constraints :: "bounded_text list"
  w_acceptance_criteria :: "work_criterion list"
  w_subgoals :: "work_subgoal list"
  w_active_subgoal :: "bounded_text option"
  w_blockers :: "work_blocker list"
  w_evidence :: "work_evidence list"
  w_mutations :: "work_mutation list"
  w_verifications :: "work_verification list"
  w_task_revision :: u32
  w_task_fingerprint :: rstr
  w_revision :: u32

definition work_default :: work_state where
  "work_default =
     \<lparr>w_mode = Simple, w_objective = bounded_text_default, w_constraints = [],
      w_acceptance_criteria = [], w_subgoals = [], w_active_subgoal = None, w_blockers = [],
      w_evidence = [], w_mutations = [], w_verifications = [], w_task_revision = 0,
      w_task_fingerprint = zero_fingerprint, w_revision = 0\<rparr>"

subsection \<open>Choosing the active subgoal\<close>

definition dependencies_complete :: "work_subgoal \<Rightarrow> work_subgoal list \<Rightarrow> bool" where
  "dependencies_complete g subgoals =
     list_all (\<lambda>dependency.
       case find (\<lambda>candidate. sg_id candidate = dependency) subgoals of
         None \<Rightarrow> False
       | Some candidate \<Rightarrow> sg_status candidate = Complete) (sg_depends_on g)"

definition runnable :: "work_subgoal list \<Rightarrow> work_subgoal \<Rightarrow> bool" where
  "runnable subgoals g =
     ((sg_status g = Pending \<or> sg_status g = Active \<or> sg_status g = Stale)
      \<and> dependencies_complete g subgoals)"

definition select_active_subgoal :: "work_state \<Rightarrow> work_state" where
  "select_active_subgoal s =
     (case map_option sg_id (find (runnable (w_subgoals s)) (w_subgoals s)) of
        None \<Rightarrow> s\<lparr>w_active_subgoal := None\<rparr>
      | Some active_id \<Rightarrow>
          s\<lparr>w_subgoals := update_first (\<lambda>g. sg_id g = active_id) (\<lambda>g. g\<lparr>sg_status := Active\<rparr>)
                          (w_subgoals s),
            w_active_subgoal := Some active_id\<rparr>)"

subsection \<open>Task updates\<close>

definition demote_complete :: "work_subgoal \<Rightarrow> work_subgoal" where
  "demote_complete g =
     (if sg_status g = Complete then g\<lparr>sg_status := Stale, sg_completed_revision := None\<rparr> else g)"

definition unsatisfy :: "work_criterion \<Rightarrow> work_criterion" where
  "unsatisfy c = c\<lparr>wc_satisfied := False\<rparr>"

definition invalidate_task_completion :: "work_state \<Rightarrow> work_state" where
  "invalidate_task_completion s =
     select_active_subgoal
       (s\<lparr>w_subgoals := map demote_complete (w_subgoals s),
          w_acceptance_criteria := map unsatisfy (w_acceptance_criteria s),
          w_active_subgoal := None\<rparr>)"

definition reset_task :: "rstr \<Rightarrow> work_mode \<Rightarrow> work_state \<Rightarrow> work_state" where
  "reset_task objective mode s =
     s\<lparr>w_mode := mode, w_objective := bounded objective, w_acceptance_criteria := [],
       w_constraints := [], w_subgoals := [], w_active_subgoal := None, w_blockers := [],
       w_evidence := [], w_mutations := [], w_verifications := [], w_task_revision := 0,
       w_task_fingerprint := zero_fingerprint, w_revision := 0\<rparr>"

definition apply_objective_update :: "rstr \<Rightarrow> work_mode \<Rightarrow> work_state \<Rightarrow> work_state \<times> bool" where
  "apply_objective_update objective mode s =
     (let next = bounded objective; changed = (w_objective s \<noteq> next);
          s = s\<lparr>w_objective := next\<rparr>;
          s = (if mode = Structured then s\<lparr>w_mode := Structured\<rparr> else s)
      in (s, changed))"

definition next_constraints :: "rstr list \<Rightarrow> bounded_text list" where
  "next_constraints constraints =
     filter (\<lambda>c. as_str c \<noteq> [] \<and> \<not> is_truncated c)
       (map bounded (take MAX_WORK_RELATIONS constraints))"

definition root_subgoal :: work_subgoal where
  "root_subgoal =
     \<lparr>sg_id = bounded ''task'', sg_label = bounded ''complete the requested repository task'',
      sg_status = Active, sg_depends_on = [], sg_paths = [], sg_attempts = 0,
      sg_completed_revision = None\<rparr>"

definition apply_task_update ::
  "(rstr \<Rightarrow> rstr) \<Rightarrow> rstr \<Rightarrow> rstr list option \<Rightarrow> work_state \<Rightarrow> work_state" where
  "apply_task_update digest prompt constraints s =
     (let objective = normalized_objective prompt;
          mode = classify_work_mode prompt;
          (s, changed) = (if as_str (w_objective s) = [] then (reset_task objective mode s, True)
                          else apply_objective_update objective mode s);
          (s, changed) = (case constraints of
              None \<Rightarrow> (s, changed)
            | Some cs \<Rightarrow> (if next_constraints cs \<noteq> w_constraints s
                then (s\<lparr>w_constraints := next_constraints cs\<rparr>, True) else (s, changed)));
          next_fingerprint = task_fingerprint digest prompt (w_constraints s);
          changed = (changed \<or> w_task_fingerprint s = zero_fingerprint
                     \<or> w_task_fingerprint s \<noteq> next_fingerprint);
          s = (if changed then invalidate_task_completion
                 (s\<lparr>w_task_revision := max (saturating_add (w_task_revision s) 1) 1\<rparr>) else s);
          s = (if mode = Structured then s\<lparr>w_mode := Structured\<rparr> else s);
          s = (if w_subgoals s = [] \<and> mode = Structured then
                 s\<lparr>w_subgoals := [root_subgoal], w_active_subgoal := Some (bounded ''task'')\<rparr>
               else s);
          s = (if changed then
                 (let next_criteria = extract_criteria prompt
                  in if next_criteria \<noteq> [] \<or> w_acceptance_criteria s = []
                     then s\<lparr>w_acceptance_criteria := next_criteria\<rparr> else s)
               else if w_acceptance_criteria s = []
               then s\<lparr>w_acceptance_criteria := extract_criteria prompt\<rparr> else s)
      in s\<lparr>w_task_fingerprint := next_fingerprint\<rparr>)"

definition initialize_from_prompt :: "(rstr \<Rightarrow> rstr) \<Rightarrow> rstr \<Rightarrow> work_state \<Rightarrow> work_state" where
  "initialize_from_prompt digest prompt s = apply_task_update digest prompt None s"

definition is_structured :: "work_state \<Rightarrow> bool" where
  "is_structured s = (w_mode s = Structured)"

subsection \<open>Subgoals\<close>

definition add_subgoal :: "rstr \<Rightarrow> rstr \<Rightarrow> rstr list \<Rightarrow> work_state \<Rightarrow> work_state \<times> bool" where
  "add_subgoal gid label depends_on s =
     (if gid = [] \<or> list_ex (\<lambda>g. as_str (sg_id g) = gid) (w_subgoals s) then (s, False)
      else
        (select_active_subgoal
          (s\<lparr>w_mode := Structured,
             w_subgoals := push_bounded (w_subgoals s)
               \<lparr>sg_id = bounded gid, sg_label = bounded label, sg_status = Pending,
                sg_depends_on = map bounded (take MAX_WORK_RELATIONS depends_on), sg_paths = [],
                sg_attempts = 0, sg_completed_revision = None\<rparr> MAX_WORK_SUBGOALS\<rparr>), True))"

definition set_subgoal_status ::
  "rstr \<Rightarrow> work_status \<Rightarrow> u32 \<Rightarrow> work_state \<Rightarrow> work_state \<times> bool" where
  "set_subgoal_status gid status revision s =
     (if \<not> list_ex (\<lambda>g. as_str (sg_id g) = gid) (w_subgoals s) then (s, False)
      else
        (select_active_subgoal
          (s\<lparr>w_subgoals := update_first (\<lambda>g. as_str (sg_id g) = gid)
               (\<lambda>g. g\<lparr>sg_status := status,
                     sg_completed_revision := (if status = Complete then Some revision else None)\<rparr>)
               (w_subgoals s)\<rparr>), True))"

definition ensure_path_subgoal :: "rstr \<Rightarrow> work_state \<Rightarrow> work_state" where
  "ensure_path_subgoal path s =
     (let gid = ''path:'' @ path; same = (\<lambda>g. as_str (sg_id g) = gid)
      in if list_ex same (w_subgoals s) then
           s\<lparr>w_subgoals := update_first same
              (\<lambda>g. let g = (if list_ex (\<lambda>existing. as_str existing = path) (sg_paths g) then g
                             else g\<lparr>sg_paths := push_bounded (sg_paths g) (bounded path)
                                      MAX_WORK_RELATIONS\<rparr>)
                    in if sg_status g = Stale then g\<lparr>sg_status := Pending\<rparr> else g)
              (w_subgoals s)\<rparr>
         else
           s\<lparr>w_subgoals := push_bounded (w_subgoals s)
              \<lparr>sg_id = bounded gid, sg_label = bounded (''complete changes for '' @ path),
               sg_status = Pending, sg_depends_on = [], sg_paths = [bounded path],
               sg_attempts = 0, sg_completed_revision = None\<rparr> MAX_WORK_SUBGOALS\<rparr>)"

subsection \<open>Evidence and mutations\<close>

definition record_evidence :: "rstr \<Rightarrow> rstr \<Rightarrow> rstr \<Rightarrow> u32 \<Rightarrow> work_state \<Rightarrow> work_state" where
  "record_evidence kind path detail revision s =
     (let evidence = \<lparr>we_kind = bounded kind, we_path = bounded path, we_detail = bounded detail,
                      we_revision = revision, we_valid = True\<rparr>
      in if evidence \<in> set (w_evidence s) then s
         else s\<lparr>w_evidence := push_bounded (w_evidence s) evidence MAX_WORK_EVIDENCE\<rparr>)"

definition record_mutated_path :: "rstr \<Rightarrow> u32 \<Rightarrow> work_state \<Rightarrow> bounded_text \<Rightarrow> work_state" where
  "record_mutated_path operation revision s path =
     (let s = record_evidence ''mutation'' (as_str path) operation revision s
      in if is_structured s then ensure_path_subgoal (as_str path) s else s)"

definition record_mutation :: "rstr \<Rightarrow> rstr list \<Rightarrow> u32 \<Rightarrow> work_state \<Rightarrow> work_state" where
  "record_mutation operation paths revision s =
     (let paths = map bounded paths;
          s = s\<lparr>w_revision := revision,
                w_verifications := map (\<lambda>v. v\<lparr>wv_status := VStale\<rparr>) (w_verifications s),
                w_acceptance_criteria := map unsatisfy (w_acceptance_criteria s)\<rparr>;
          s = s\<lparr>w_mutations := push_bounded (w_mutations s)
                  \<lparr>wm_operation = bounded operation, wm_paths = paths, wm_revision = revision\<rparr>
                  MAX_WORK_MUTATIONS\<rparr>
      in select_active_subgoal (foldl (record_mutated_path operation revision) s paths))"

subsection \<open>Verification\<close>

definition upsert_verification ::
  "rstr \<Rightarrow> rstr \<Rightarrow> verification_status \<Rightarrow> u32 \<Rightarrow> bounded_text list \<Rightarrow>
   work_verification list \<Rightarrow> work_verification list" where
  "upsert_verification command scope status revision diagnostics vs =
     (let same = (\<lambda>v. as_str (wv_command v) = command \<and> wv_revision v = revision)
      in if list_ex same vs then
           update_first same (\<lambda>v. v\<lparr>wv_status := status, wv_scope := bounded scope,
                                     wv_diagnostics := diagnostics\<rparr>) vs
         else push_bounded vs
           \<lparr>wv_command = bounded command, wv_scope = bounded scope, wv_revision = revision,
            wv_status = status, wv_diagnostics = diagnostics\<rparr> MAX_WORK_VERIFICATIONS)"

text \<open>The subgoals a passing check closes: covered by the affected paths, dependencies closed.\<close>

definition covered_by :: "rstr list \<Rightarrow> work_subgoal list \<Rightarrow> work_subgoal \<Rightarrow> bool" where
  "covered_by affected_paths subgoals g =
     (sg_paths g \<noteq> []
      \<and> list_all (\<lambda>path. list_ex (\<lambda>affected. affected = as_str path) affected_paths) (sg_paths g)
      \<and> dependencies_complete g subgoals)"

definition mark_complete :: "u32 \<Rightarrow> work_subgoal \<Rightarrow> work_subgoal" where
  "mark_complete revision g = g\<lparr>sg_status := Complete, sg_completed_revision := Some revision\<rparr>"

definition close_covered :: "rstr list \<Rightarrow> u32 \<Rightarrow> work_subgoal list \<Rightarrow> work_subgoal list" where
  "close_covered affected_paths revision subgoals =
     (let completed_ids = map sg_id (filter (covered_by affected_paths subgoals) subgoals)
      in map (\<lambda>g. if sg_id g \<in> set completed_ids then mark_complete revision g else g) subgoals)"

definition close_root :: "bool \<Rightarrow> u32 \<Rightarrow> work_subgoal list \<Rightarrow> work_subgoal list" where
  "close_root no_blockers revision subgoals =
     (if list_all (\<lambda>g. sg_status g = Complete) (filter (\<lambda>g. sg_paths g \<noteq> []) subgoals) \<and> no_blockers
      then update_first (\<lambda>g. as_str (sg_id g) = ''task'') (mark_complete revision) subgoals
      else subgoals)"

definition satisfy_supported :: "rstr \<Rightarrow> work_criterion \<Rightarrow> work_criterion" where
  "satisfy_supported command c =
     (if criterion_supported_by_verification (as_str (wc_description c)) command
      then c\<lparr>wc_satisfied := True\<rparr> else c)"

definition record_verification ::
  "rstr \<Rightarrow> rstr \<Rightarrow> bool \<Rightarrow> u32 \<Rightarrow> rstr list \<Rightarrow> rstr list \<Rightarrow> work_state \<Rightarrow> work_state" where
  "record_verification command scope passed revision diagnostics affected_paths s =
     (let status = (if passed then VPassed else VFailed);
          diagnostics = take 4 (map bounded diagnostics);
          s = s\<lparr>w_revision := revision,
                w_verifications := upsert_verification command scope status revision diagnostics
                                     (w_verifications s)\<rparr>
      in if passed then
           select_active_subgoal
             (s\<lparr>w_acceptance_criteria := map (satisfy_supported command) (w_acceptance_criteria s),
                w_subgoals := close_root (w_blockers s = []) revision
                                (close_covered affected_paths revision (w_subgoals s))\<rparr>)
         else s)"

subsection \<open>Blockers and invalidation\<close>

definition record_blocker :: "rstr \<Rightarrow> rstr \<Rightarrow> rstr \<Rightarrow> u32 \<Rightarrow> work_state \<Rightarrow> work_state" where
  "record_blocker key category detail revision s =
     (let same = (\<lambda>b. as_str (wb_key b) = key)
      in if list_ex same (w_blockers s) then
           s\<lparr>w_blockers := update_first same
              (\<lambda>b. b\<lparr>wb_category := bounded category, wb_detail := bounded detail,
                    wb_attempts := saturating_add (wb_attempts b) 1, wb_revision := revision\<rparr>)
              (w_blockers s)\<rparr>
         else
           s\<lparr>w_blockers := push_bounded (w_blockers s)
               \<lparr>wb_key = bounded key, wb_category = bounded category, wb_detail = bounded detail,
                wb_attempts = 1, wb_revision = revision\<rparr> MAX_WORK_BLOCKERS,
             w_subgoals := map (\<lambda>g.
               case w_active_subgoal s of
                 None \<Rightarrow> g
               | Some active \<Rightarrow>
                   if as_str active = as_str (sg_id g) then g\<lparr>sg_status := Blocked\<rparr> else g)
               (w_subgoals s)\<rparr>)"

definition clear_blocker :: "rstr \<Rightarrow> work_state \<Rightarrow> work_state" where
  "clear_blocker key s =
     select_active_subgoal
       (s\<lparr>w_blockers := filter (\<lambda>b. as_str (wb_key b) \<noteq> key) (w_blockers s),
          w_subgoals := map (\<lambda>g. if sg_status g = Blocked then g\<lparr>sg_status := Active\<rparr> else g)
                          (w_subgoals s)\<rparr>)"

definition invalidate_for_workspace_change :: "u32 \<Rightarrow> work_state \<Rightarrow> work_state" where
  "invalidate_for_workspace_change revision s =
     select_active_subgoal
       (s\<lparr>w_revision := revision,
          w_evidence := map (\<lambda>e. e\<lparr>we_valid := False\<rparr>) (w_evidence s),
          w_verifications := map (\<lambda>v. if wv_revision v \<le> revision
                               then v\<lparr>wv_status := VStale\<rparr> else v) (w_verifications s),
          w_subgoals := map demote_complete (w_subgoals s),
          w_active_subgoal := None\<rparr>)"

definition satisfy_criterion :: "rstr \<Rightarrow> work_state \<Rightarrow> work_state" where
  "satisfy_criterion key s =
     s\<lparr>w_acceptance_criteria := update_first (\<lambda>c. as_str (wc_key c) = key)
         (\<lambda>c. c\<lparr>wc_satisfied := True\<rparr>) (w_acceptance_criteria s)\<rparr>"

subsection \<open>Queries\<close>

definition criteria_satisfied :: "work_state \<Rightarrow> bool" where
  "criteria_satisfied s = list_all wc_satisfied (w_acceptance_criteria s)"

definition unresolved_count :: "work_state \<Rightarrow> nat" where
  "unresolved_count s =
     length (filter (\<lambda>g. sg_status g \<noteq> Complete) (w_subgoals s)) + length (w_blockers s)"

definition blocks_completion :: "work_state \<Rightarrow> bool" where
  "blocks_completion s =
     (w_blockers s \<noteq> []
      \<or> list_ex (\<lambda>g. as_str (sg_id g) \<noteq> ''task'' \<and> sg_status g \<noteq> Complete) (w_subgoals s))"

subsection \<open>Bounds after restoring a session\<close>

definition rebound :: "bounded_text \<Rightarrow> bounded_text" where
  "rebound t = bounded (as_str t)"

definition enforce_subgoal :: "work_subgoal \<Rightarrow> work_subgoal" where
  "enforce_subgoal g =
     g\<lparr>sg_id := rebound (sg_id g), sg_label := rebound (sg_label g),
       sg_depends_on := map rebound (take MAX_WORK_RELATIONS (sg_depends_on g)),
       sg_paths := map rebound (take MAX_WORK_RELATIONS (sg_paths g))\<rparr>"

definition work_enforce_bounds :: "work_state \<Rightarrow> work_state" where
  "work_enforce_bounds s =
     select_active_subgoal
       (s\<lparr>w_objective := bounded_new (as_str (w_objective s)) MAX_WORK_OBJECTIVE_BYTES,
          w_constraints := filter (\<lambda>c. as_str c \<noteq> [] \<and> \<not> is_truncated c)
             (map rebound (take MAX_WORK_RELATIONS (w_constraints s))),
          w_acceptance_criteria := map (\<lambda>c. c\<lparr>wc_key := rebound (wc_key c),
                                              wc_description := rebound (wc_description c)\<rparr>)
             (take MAX_WORK_CRITERIA (w_acceptance_criteria s)),
          w_subgoals := map enforce_subgoal (take MAX_WORK_SUBGOALS (w_subgoals s)),
          w_blockers := map (\<lambda>b. b\<lparr>wb_key := rebound (wb_key b), wb_category := rebound (wb_category b),
                                   wb_detail := rebound (wb_detail b)\<rparr>)
             (take MAX_WORK_BLOCKERS (w_blockers s)),
          w_evidence := map (\<lambda>e. e\<lparr>we_kind := rebound (we_kind e), we_path := rebound (we_path e),
                                   we_detail := rebound (we_detail e)\<rparr>)
             (take MAX_WORK_EVIDENCE (w_evidence s)),
          w_mutations := map (\<lambda>m. m\<lparr>wm_operation := rebound (wm_operation m),
                                    wm_paths := map rebound (take MAX_WORK_RELATIONS (wm_paths m))\<rparr>)
             (take MAX_WORK_MUTATIONS (w_mutations s)),
          w_verifications := map (\<lambda>v. v\<lparr>wv_command := rebound (wv_command v),
                                        wv_scope := rebound (wv_scope v),
                                        wv_diagnostics := map rebound (take 4 (wv_diagnostics v))\<rparr>)
             (take MAX_WORK_VERIFICATIONS (w_verifications s)),
          w_active_subgoal := map_option rebound (w_active_subgoal s)\<rparr>)"

end
