(* ===== verification/Work_Invariants.thy ===== *)
theory Work_Invariants
  imports Work
begin

section \<open>Invariants of the work ledger\<close>

text \<open>
  First the frame of \<open>select_active_subgoal\<close>, which ends most operations; then the bounds
  invariant \<open>work_within\<close> with one preservation lemma per operation; then where completion can
  come from: \<open>done_ids\<close> and \<open>satisfied\<close> only grow in a passing verification or an explicit
  status call, which the step relation \<open>quiet_step\<close> of all other operations makes precise.
\<close>

subsection \<open>The ledger's lists as bounded logs\<close>

interpretation ledger_evidence: bounded_log "\<lambda>xs x. push_bounded xs x MAX_WORK_EVIDENCE" MAX_WORK_EVIDENCE
  unfolding push_bounded_def by (rule append_then_evict_log) (simp add: work_limits)

interpretation ledger_mutations: bounded_log "\<lambda>xs x. push_bounded xs x MAX_WORK_MUTATIONS" MAX_WORK_MUTATIONS
  unfolding push_bounded_def by (rule append_then_evict_log) (simp add: work_limits)

interpretation ledger_verifications:
  bounded_log "\<lambda>xs x. push_bounded xs x MAX_WORK_VERIFICATIONS" MAX_WORK_VERIFICATIONS
  unfolding push_bounded_def by (rule append_then_evict_log) (simp add: work_limits)

interpretation ledger_blockers: bounded_log "\<lambda>xs x. push_bounded xs x MAX_WORK_BLOCKERS" MAX_WORK_BLOCKERS
  unfolding push_bounded_def by (rule append_then_evict_log) (simp add: work_limits)

interpretation ledger_subgoals: bounded_log "\<lambda>xs x. push_bounded xs x MAX_WORK_SUBGOALS" MAX_WORK_SUBGOALS
  unfolding push_bounded_def by (rule append_then_evict_log) (simp add: work_limits)

interpretation ledger_relations: bounded_log "\<lambda>xs x. push_bounded xs x MAX_WORK_RELATIONS" MAX_WORK_RELATIONS
  unfolding push_bounded_def by (rule append_then_evict_log) (simp add: work_limits)

lemmas ledger_push = ledger_evidence.push_bounded_length ledger_mutations.push_bounded_length
  ledger_verifications.push_bounded_length ledger_blockers.push_bounded_length
  ledger_subgoals.push_bounded_length ledger_relations.push_bounded_length

lemma push_bounded_set: "set (push_bounded xs x n) \<subseteq> insert x (set xs)"
proof
  fix y assume "y \<in> set (push_bounded xs x n)"
  then have "y \<in> set (xs @ [x])"
    unfolding push_bounded_def append_then_evict_def Let_def
    by (cases xs) (auto dest: in_set_dropD split: if_splits)
  then show "y \<in> insert x (set xs)" by auto
qed

subsection \<open>Selecting the active subgoal\<close>

lemma select_active_frame [frame_simps, simp]:
  "w_mode (select_active_subgoal s) = w_mode s"
  "w_objective (select_active_subgoal s) = w_objective s"
  "w_constraints (select_active_subgoal s) = w_constraints s"
  "w_acceptance_criteria (select_active_subgoal s) = w_acceptance_criteria s"
  "w_blockers (select_active_subgoal s) = w_blockers s"
  "w_evidence (select_active_subgoal s) = w_evidence s"
  "w_mutations (select_active_subgoal s) = w_mutations s"
  "w_verifications (select_active_subgoal s) = w_verifications s"
  "w_task_revision (select_active_subgoal s) = w_task_revision s"
  "w_task_fingerprint (select_active_subgoal s) = w_task_fingerprint s"
  "w_revision (select_active_subgoal s) = w_revision s"
  by (simp_all add: select_active_subgoal_def split: option.split)

lemma select_active_subgoals:
  "w_subgoals (select_active_subgoal s) =
     (case find (runnable (w_subgoals s)) (w_subgoals s) of
        None \<Rightarrow> w_subgoals s
      | Some g \<Rightarrow> update_first (\<lambda>h. sg_id h = sg_id g) (\<lambda>h. h\<lparr>sg_status := Active\<rparr>) (w_subgoals s))"
  by (simp add: select_active_subgoal_def split: option.split)

lemma select_active_active:
  "w_active_subgoal (select_active_subgoal s) =
     map_option sg_id (find (runnable (w_subgoals s)) (w_subgoals s))"
  by (simp add: select_active_subgoal_def split: option.split)

lemma select_active_length [simp]:
  "length (w_subgoals (select_active_subgoal s)) = length (w_subgoals s)"
  by (simp add: select_active_subgoals split: option.split)

lemma select_active_Nil_iff [simp]: "w_subgoals (select_active_subgoal s) = [] \<longleftrightarrow> w_subgoals s = []"
  by (simp add: select_active_subgoals split: option.split)

lemma select_active_map:
  "(\<And>g st. f (g\<lparr>sg_status := st\<rparr>) = f g) \<Longrightarrow>
   map f (w_subgoals (select_active_subgoal s)) = map f (w_subgoals s)"
  by (simp add: select_active_subgoals map_update_first_same split: option.split)

text \<open>With distinct identifiers exactly the first runnable subgoal is touched.\<close>

lemma select_active_first:
  assumes "w_subgoals s = us @ g # vs" and "runnable (w_subgoals s) g"
    and "\<not> list_ex (runnable (w_subgoals s)) us" and "sg_id g \<notin> sg_id ` set us"
  shows "w_subgoals (select_active_subgoal s) = us @ g\<lparr>sg_status := Active\<rparr> # vs
    \<and> w_active_subgoal (select_active_subgoal s) = Some (sg_id g)"
proof -
  have "find (runnable (w_subgoals s)) (us @ g # vs) = Some g"
    using assms(2,3) by (induction us) auto
  moreover have "\<not> list_ex (\<lambda>h. sg_id h = sg_id g) us"
    using assms(4) by (auto simp: list_ex_iff image_iff)
  ultimately show ?thesis
    by (simp add: select_active_subgoals select_active_active assms(1) update_first_append_match)
qed

lemma select_active_none:
  "\<not> list_ex (runnable (w_subgoals s)) (w_subgoals s) \<Longrightarrow>
   w_subgoals (select_active_subgoal s) = w_subgoals s
   \<and> w_active_subgoal (select_active_subgoal s) = None"
  by (simp add: select_active_subgoals select_active_active list_ex_find)

subsection \<open>Bounds\<close>

definition subgoal_within :: "work_subgoal \<Rightarrow> bool" where
  "subgoal_within g \<longleftrightarrow>
     length (sg_depends_on g) \<le> MAX_WORK_RELATIONS \<and> length (sg_paths g) \<le> MAX_WORK_RELATIONS"

definition work_within :: "work_state \<Rightarrow> bool" where
  "work_within s \<longleftrightarrow>
     length (as_str (w_objective s)) \<le> MAX_WORK_OBJECTIVE_BYTES
     \<and> length (w_constraints s) \<le> MAX_WORK_RELATIONS
     \<and> length (w_acceptance_criteria s) \<le> MAX_WORK_CRITERIA
     \<and> length (w_subgoals s) \<le> MAX_WORK_SUBGOALS
     \<and> list_all subgoal_within (w_subgoals s)
     \<and> length (w_blockers s) \<le> MAX_WORK_BLOCKERS
     \<and> length (w_evidence s) \<le> MAX_WORK_EVIDENCE
     \<and> length (w_mutations s) \<le> MAX_WORK_MUTATIONS
     \<and> length (w_verifications s) \<le> MAX_WORK_VERIFICATIONS
     \<and> list_all (\<lambda>v. length (wv_diagnostics v) \<le> 4) (w_verifications s)"

lemma subgoal_within_status [simp]:
  "subgoal_within (g\<lparr>sg_status := st\<rparr>) = subgoal_within g"
  "subgoal_within (g\<lparr>sg_completed_revision := r\<rparr>) = subgoal_within g"
  by (simp_all add: subgoal_within_def)

lemma subgoals_within_select [simp]:
  "list_all subgoal_within (w_subgoals s) \<Longrightarrow>
   list_all subgoal_within (w_subgoals (select_active_subgoal s))"
  by (auto simp: select_active_subgoals intro!: list_all_update_first split: option.split)

lemma select_active_within: "work_within s \<Longrightarrow> work_within (select_active_subgoal s)"
  by (simp add: work_within_def)

lemma work_within_default: "work_within work_default"
  by (simp add: work_within_def work_default_def bounded_text_default_def as_str_def)

lemma list_all_push: "list_all P xs \<Longrightarrow> P x \<Longrightarrow> list_all P (push_bounded xs x n)"
  using push_bounded_set [of xs x n] by (fastforce simp: list_all_iff)

lemma record_evidence_within: "work_within s \<Longrightarrow> work_within (record_evidence k p d r s)"
  by (auto simp: work_within_def record_evidence_def Let_def ledger_push)

lemma subgoal_within_push_path:
  "subgoal_within g \<Longrightarrow>
   subgoal_within (g\<lparr>sg_paths := push_bounded (sg_paths g) p MAX_WORK_RELATIONS\<rparr>)"
  by (simp add: subgoal_within_def ledger_relations.push_bounded_length)

lemma subgoal_within_fresh: "subgoal_within
  \<lparr>sg_id = i, sg_label = l, sg_status = st, sg_depends_on = [], sg_paths = [p],
   sg_attempts = a, sg_completed_revision = r\<rparr>"
  by (simp add: subgoal_within_def work_limits)

lemma subgoals_update_within:
  "work_within s \<Longrightarrow> length gs \<le> MAX_WORK_SUBGOALS \<Longrightarrow> list_all subgoal_within gs \<Longrightarrow>
   work_within (s\<lparr>w_subgoals := gs\<rparr>)"
  by (simp add: work_within_def)

lemma work_within_subgoals:
  "work_within s \<Longrightarrow> length (w_subgoals s) \<le> MAX_WORK_SUBGOALS \<and> list_all subgoal_within (w_subgoals s)"
  by (simp add: work_within_def)

lemma ensure_path_subgoal_within:
  assumes "work_within s" shows "work_within (ensure_path_subgoal p s)"
  unfolding ensure_path_subgoal_def Let_def
  using assms work_within_subgoals [OF assms]
  by (auto intro!: subgoals_update_within list_all_update_first list_all_push
      simp: ledger_push subgoal_within_fresh subgoal_within_push_path)

lemma record_mutated_path_within: "work_within s \<Longrightarrow> work_within (record_mutated_path op r s p)"
  by (simp add: record_mutated_path_def Let_def record_evidence_within ensure_path_subgoal_within)

lemma foldl_invariant: "P s \<Longrightarrow> (\<And>s x. P s \<Longrightarrow> P (f s x)) \<Longrightarrow> P (foldl f s xs)"
  by (induction xs arbitrary: s) auto

lemma record_mutated_paths_within:
  "work_within s \<Longrightarrow> work_within (foldl (record_mutated_path op r) s ps)"
  by (induction ps arbitrary: s) (simp_all add: record_mutated_path_within)

lemma record_mutation_within:
  assumes "work_within s" shows "work_within (record_mutation op ps r s)"
proof -
  have "work_within (s\<lparr>w_revision := r,
        w_verifications := map (\<lambda>v. v\<lparr>wv_status := VStale\<rparr>) (w_verifications s),
        w_acceptance_criteria := map unsatisfy (w_acceptance_criteria s),
        w_mutations := push_bounded (w_mutations s) m MAX_WORK_MUTATIONS\<rparr>)" for m
    using assms by (simp add: work_within_def ledger_push list_all_iff)
  then show ?thesis
    by (simp add: record_mutation_def Let_def select_active_within record_mutated_paths_within)
qed

lemma bounded_objective_length: "length (as_str (bounded o')) \<le> MAX_WORK_OBJECTIVE_BYTES"
  using bounded_length [of o'] by (simp add: work_limits)

lemma next_constraints_length: "length (next_constraints cs) \<le> MAX_WORK_RELATIONS"
  unfolding next_constraints_def by (rule le_trans [OF length_filter_le]) simp

lemma demote_complete_within [simp]: "subgoal_within (demote_complete g) = subgoal_within g"
  by (simp add: demote_complete_def)

lemma invalidate_task_completion_within:
  "work_within s \<Longrightarrow> work_within (invalidate_task_completion s)"
  unfolding invalidate_task_completion_def
  by (intro select_active_within) (simp add: work_within_def list_all_iff)

lemma reset_task_within: "work_within (reset_task objective mode s)"
  by (simp add: work_within_def reset_task_def bounded_objective_length)

lemma apply_objective_update_within:
  "work_within s \<Longrightarrow> work_within (fst (apply_objective_update objective mode s))"
  by (simp add: work_within_def apply_objective_update_def Let_def bounded_objective_length)

lemma root_subgoal_within: "subgoal_within root_subgoal"
  by (simp add: subgoal_within_def root_subgoal_def)

lemma work_within_updates:
  "work_within s \<Longrightarrow> work_within (s\<lparr>w_task_revision := r\<rparr>)"
  "work_within s \<Longrightarrow> work_within (s\<lparr>w_mode := m\<rparr>)"
  "work_within s \<Longrightarrow> work_within (s\<lparr>w_task_fingerprint := f\<rparr>)"
  "work_within s \<Longrightarrow> work_within (s\<lparr>w_acceptance_criteria := extract_criteria p\<rparr>)"
  "work_within s \<Longrightarrow> work_within (s\<lparr>w_constraints := next_constraints cs\<rparr>)"
  "work_within s \<Longrightarrow> work_within (s\<lparr>w_subgoals := [root_subgoal], w_active_subgoal := a\<rparr>)"
  by (simp_all add: work_within_def extract_criteria_length next_constraints_length
      root_subgoal_within MAX_WORK_SUBGOALS_def)

lemma apply_task_update_within: "work_within s \<Longrightarrow> work_within (apply_task_update digest p cs s)"
proof -
  assume s: "work_within s"
  let ?o = "normalized_objective p" and ?m = "classify_work_mode p"
  have start: "work_within (fst (if as_str (w_objective s) = [] then (reset_task ?o ?m s, True)
      else apply_objective_update ?o ?m s))"
    using s by (simp add: reset_task_within apply_objective_update_within)
  obtain s1 c1 where s1: "(if as_str (w_objective s) = [] then (reset_task ?o ?m s, True)
      else apply_objective_update ?o ?m s) = (s1, c1)" by (cases "if as_str (w_objective s) = [] then
      (reset_task ?o ?m s, True) else apply_objective_update ?o ?m s")
  have w1: "work_within s1" using start s1 by simp
  obtain s2 c2 where s2: "(case cs of None \<Rightarrow> (s1, c1)
      | Some cs \<Rightarrow> (if next_constraints cs \<noteq> w_constraints s1
          then (s1\<lparr>w_constraints := next_constraints cs\<rparr>, True) else (s1, c1))) = (s2, c2)"
    by (cases "case cs of None \<Rightarrow> (s1, c1)
      | Some cs \<Rightarrow> (if next_constraints cs \<noteq> w_constraints s1
          then (s1\<lparr>w_constraints := next_constraints cs\<rparr>, True) else (s1, c1))")
  have w2: "work_within s2"
    using w1 s2 by (auto simp: work_within_updates split: option.splits if_splits)
  show ?thesis
    unfolding apply_task_update_def Let_def s1 s2 prod.case
    using w2 by (simp add: work_within_updates invalidate_task_completion_within split del: if_split
        split: if_split)
qed

lemma mode_update_within: "work_within s \<Longrightarrow> work_within (s\<lparr>w_mode := m, w_subgoals := gs\<rparr>)
    = work_within (s\<lparr>w_subgoals := gs\<rparr>)"
  by (simp add: work_within_def)

lemma add_subgoal_within:
  assumes "work_within s" shows "work_within (fst (add_subgoal i l d s))"
proof -
  have "work_within (s\<lparr>w_mode := Structured,
             w_subgoals := push_bounded (w_subgoals s)
               \<lparr>sg_id = bounded i, sg_label = bounded l, sg_status = Pending,
                sg_depends_on = map bounded (take MAX_WORK_RELATIONS d), sg_paths = [],
                sg_attempts = 0, sg_completed_revision = None\<rparr> MAX_WORK_SUBGOALS\<rparr>)"
    using work_within_subgoals [OF assms]
    by (simp add: mode_update_within [OF assms])
      (intro subgoals_update_within [OF assms] list_all_push, auto simp: ledger_push subgoal_within_def)
  then show ?thesis using assms by (simp add: add_subgoal_def select_active_within)
qed

lemma set_subgoal_status_within:
  assumes "work_within s" shows "work_within (fst (set_subgoal_status i st r s))"
proof -
  have "work_within (s\<lparr>w_subgoals := update_first (\<lambda>g. as_str (sg_id g) = i)
      (\<lambda>g. g\<lparr>sg_status := st, sg_completed_revision := (if st = Complete then Some r else None)\<rparr>)
      (w_subgoals s)\<rparr>)"
    using work_within_subgoals [OF assms]
    by (intro subgoals_update_within [OF assms] list_all_update_first) (auto simp: subgoal_within_def)
  then show ?thesis using assms by (simp add: set_subgoal_status_def select_active_within)
qed

lemma upsert_verification_length:
  "length vs \<le> MAX_WORK_VERIFICATIONS \<Longrightarrow>
   length (upsert_verification c sc st r d vs) \<le> MAX_WORK_VERIFICATIONS"
  by (simp add: upsert_verification_def Let_def ledger_push)

lemma upsert_verification_diagnostics:
  "list_all (\<lambda>v. length (wv_diagnostics v) \<le> 4) vs \<Longrightarrow> length d \<le> 4 \<Longrightarrow>
   list_all (\<lambda>v. length (wv_diagnostics v) \<le> 4) (upsert_verification c sc st r d vs)"
  by (auto simp: upsert_verification_def Let_def intro!: list_all_update_first list_all_push)

lemma mark_complete_within [simp]: "subgoal_within (mark_complete r g) = subgoal_within g"
  by (simp add: mark_complete_def)

lemma close_covered_within:
  "list_all subgoal_within gs \<Longrightarrow> list_all subgoal_within (close_covered ps r gs)"
  by (auto simp: close_covered_def Let_def list_all_iff)

lemma close_root_within: "list_all subgoal_within gs \<Longrightarrow> list_all subgoal_within (close_root b r gs)"
  by (auto simp: close_root_def intro!: list_all_update_first)

lemma close_length [simp]:
  "length (close_root b r gs) = length gs" "length (close_covered ps r gs) = length gs"
  by (simp_all add: close_root_def close_covered_def Let_def)

lemma record_verification_within:
  "work_within s \<Longrightarrow> work_within (record_verification c sc p r d a s)"
  unfolding record_verification_def Let_def
  by (auto intro!: select_active_within simp: work_within_def upsert_verification_length
      upsert_verification_diagnostics close_covered_within close_root_within)

lemma record_blocker_within: "work_within s \<Longrightarrow> work_within (record_blocker k c d r s)"
  by (auto simp: record_blocker_def Let_def work_within_def ledger_push list_all_iff
      split: option.splits)

lemma clear_blocker_within: "work_within s \<Longrightarrow> work_within (clear_blocker k s)"
  unfolding clear_blocker_def
  by (intro select_active_within) (auto simp: work_within_def list_all_iff
      intro: le_trans [OF length_filter_le])

lemma invalidate_for_workspace_change_within:
  "work_within s \<Longrightarrow> work_within (invalidate_for_workspace_change r s)"
  unfolding invalidate_for_workspace_change_def
  by (intro select_active_within) (auto simp: work_within_def list_all_iff)

lemma satisfy_criterion_within: "work_within s \<Longrightarrow> work_within (satisfy_criterion k s)"
  by (simp add: work_within_def satisfy_criterion_def)

lemma work_enforce_within: "work_within (work_enforce_bounds s)"
  unfolding work_enforce_bounds_def
  by (intro select_active_within)
    (auto simp: work_within_def length_bounded_new list_all_iff subgoal_within_def enforce_subgoal_def
      intro: le_trans [OF length_filter_le])

lemmas work_within_intros = select_active_within record_evidence_within ensure_path_subgoal_within
  record_mutation_within apply_task_update_within add_subgoal_within set_subgoal_status_within
  record_verification_within record_blocker_within clear_blocker_within
  invalidate_for_workspace_change_within satisfy_criterion_within work_enforce_within

end
