(* ===== verification/Work_Outline.thy ===== *)
theory Work_Outline
  imports Work_Invariants Json "HOL-Library.AList"
begin

section \<open>Model-supplied outlines (aether-core/src/work.rs, apply_model_update)\<close>

text \<open>
  The one operation of the ledger whose input is the model's: a JSON outline of subgoals.  It is
  parsed and bounded, its dependency graph is searched for cycles by a depth-first search, and only
  then merged.  The \<open>HashMap\<close> graph is an association list updated with \<open>AList.update\<close>; the sets are
  sets.  The search threads \<open>visited\<close>; \<open>visiting\<close> is passed down, since every call removes what it
  inserted.
\<close>

definition bounded_model_text :: "rstr option \<Rightarrow> rstr option" where
  "bounded_model_text value =
     (case value of
        None \<Rightarrow> None
      | Some v \<Rightarrow>
          (let v = trim v
           in if v = [] then None
              else if is_truncated (bounded v) then None else Some (as_str (bounded v))))"

fun model_relations :: "json list \<Rightarrow> rstr list \<Rightarrow> rstr list option" where
  "model_relations [] relations = Some relations"
| "model_relations (value # rest) relations =
     (case bounded_model_text (json_as_str value) of
        None \<Rightarrow> None
      | Some relation \<Rightarrow>
          model_relations rest (if relation \<in> set relations then relations else relations @ [relation]))"

definition bounded_model_relations :: "json option \<Rightarrow> rstr list option" where
  "bounded_model_relations value =
     (case value of
        None \<Rightarrow> Some []
      | Some value \<Rightarrow>
          (case json_as_array value of
             None \<Rightarrow> None
           | Some values \<Rightarrow>
               if MAX_WORK_RELATIONS < length values then None else model_relations values []))"

definition bounded_model_paths :: "json option \<Rightarrow> rstr list option" where
  "bounded_model_paths value =
     (case bounded_model_relations value of
        None \<Rightarrow> None
      | Some paths \<Rightarrow>
          if list_all (\<lambda>path. \<not> isl (workspace_path_new path)) paths then Some paths else None)"

subsection \<open>The cycle search\<close>

type_synonym graph = "(rstr \<times> rstr list) list"

definition graph_keys :: "graph \<Rightarrow> rstr list" where
  "graph_keys g = map fst g"

lemma graph_visit_decreases:
  "n \<notin> visiting \<Longrightarrow> map_of g n = Some ds \<Longrightarrow>
   card (set (graph_keys g) - insert n visiting) < card (set (graph_keys g) - visiting)"
proof (rule psubset_card_mono)
  assume "n \<notin> visiting" "map_of g n = Some ds"
  then have "n \<in> set (graph_keys g) - visiting"
    by (auto simp: graph_keys_def dest!: map_of_SomeD intro: rev_image_eqI)
  then show "set (graph_keys g) - insert n visiting \<subset> set (graph_keys g) - visiting" by auto
qed simp

function dependency_cycle :: "graph \<Rightarrow> rstr set \<Rightarrow> rstr \<Rightarrow> rstr set \<Rightarrow> bool \<times> rstr set"
  and any_dependency_cycle :: "graph \<Rightarrow> rstr set \<Rightarrow> rstr list \<Rightarrow> rstr set \<Rightarrow> bool \<times> rstr set" where
  "dependency_cycle g visiting n visited =
     (if n \<in> visited then (False, visited)
      else if n \<in> visiting then (True, visited)
      else
        (let (cycle, visited) = (case map_of g n of
               None \<Rightarrow> (False, visited)
             | Some dependencies \<Rightarrow> any_dependency_cycle g (insert n visiting) dependencies visited)
         in (cycle, if \<not> cycle then insert n visited else visited)))"
| "any_dependency_cycle g visiting ns visited =
     (case ns of
        [] \<Rightarrow> (False, visited)
      | n # rest \<Rightarrow>
          (let (cycle, visited) = dependency_cycle g visiting n visited
           in if cycle then (True, visited) else any_dependency_cycle g visiting rest visited))"
  by pat_completeness auto

termination
  by (relation "measures
      [\<lambda>x. case x of Inl (g, vs, _, _) \<Rightarrow> card (set (graph_keys g) - vs)
                   | Inr (g, vs, _, _) \<Rightarrow> card (set (graph_keys g) - vs),
       \<lambda>x. case x of Inl _ \<Rightarrow> 0 | Inr (_, _, ns, _) \<Rightarrow> Suc (length ns)]")
    (auto simp: graph_visit_decreases)

declare dependency_cycle.simps [simp del] any_dependency_cycle.simps [simp del]

definition has_cycle :: "graph \<Rightarrow> bool" where
  "has_cycle g = list_ex (\<lambda>n. fst (dependency_cycle g {} n {})) (graph_keys g)"

subsection \<open>Applying an outline\<close>

type_synonym proposal = "rstr \<times> rstr \<times> rstr list \<times> rstr list"

fun parse_proposals :: "json list \<Rightarrow> rstr list \<Rightarrow> proposal list option" where
  "parse_proposals [] proposed_ids = Some []"
| "parse_proposals (raw # rest) proposed_ids =
     (if \<not> json_is_object raw then None
      else
        (case bounded_model_text (Option.bind (json_get raw ''id'') json_as_str) of
           None \<Rightarrow> None
         | Some gid \<Rightarrow>
        (case bounded_model_text (Option.bind (json_get raw ''label'') json_as_str) of
           None \<Rightarrow> None
         | Some label \<Rightarrow>
         if gid \<in> set proposed_ids then None
         else
        (case bounded_model_relations (json_get raw ''depends_on'') of
           None \<Rightarrow> None
         | Some depends_on \<Rightarrow>
        (case bounded_model_paths (json_get raw ''paths'') of
           None \<Rightarrow> None
         | Some paths \<Rightarrow>
           map_option (\<lambda>ps. (gid, label, depends_on, paths) # ps)
             (parse_proposals rest (gid # proposed_ids)))))))"

definition subgoal_edges :: "work_subgoal \<Rightarrow> rstr list" where
  "subgoal_edges g = map as_str (sg_depends_on g)"

definition existing_graph :: "work_subgoal list \<Rightarrow> graph" where
  "existing_graph gs = foldl (\<lambda>graph g. AList.update (as_str (sg_id g)) (subgoal_edges g) graph) [] gs"

definition proposed_graph :: "proposal list \<Rightarrow> graph \<Rightarrow> graph" where
  "proposed_graph ps graph =
     foldl (\<lambda>graph (gid, _, depends_on, _). AList.update gid depends_on graph) graph ps"

definition merge_proposal :: "work_subgoal list \<Rightarrow> proposal \<Rightarrow> work_subgoal list" where
  "merge_proposal gs p =
     (case p of (gid, label, depends_on, paths) \<Rightarrow>
       if list_ex (\<lambda>g. as_str (sg_id g) = gid) gs then
         update_first (\<lambda>g. as_str (sg_id g) = gid)
           (\<lambda>g. let g = g\<lparr>sg_label := bounded label, sg_depends_on := map bounded depends_on,
                          sg_paths := map bounded paths\<rparr>
                in if sg_status g = Stale
                   then g\<lparr>sg_status := Pending, sg_completed_revision := None\<rparr> else g) gs
       else gs @ [\<lparr>sg_id = bounded gid, sg_label = bounded label, sg_status = Pending,
                   sg_depends_on = map bounded depends_on, sg_paths = map bounded paths,
                   sg_attempts = 0, sg_completed_revision = None\<rparr>])"

definition outline_accepted :: "proposal list \<Rightarrow> rstr option \<Rightarrow> work_subgoal list \<Rightarrow> bool" where
  "outline_accepted proposals requested_active subgoals =
     (let existing_ids = map (\<lambda>g. as_str (sg_id g)) subgoals;
          proposed_ids = map fst proposals;
          known_ids = existing_ids @ proposed_ids
      in list_all (\<lambda>(gid, label, depends_on, paths). list_all (\<lambda>d. d \<in> set known_ids) depends_on) proposals
         \<and> \<not> has_cycle (proposed_graph proposals (existing_graph subgoals))
         \<and> length subgoals + length (filter (\<lambda>p. fst p \<notin> set existing_ids) proposals) \<le> MAX_WORK_SUBGOALS
         \<and> (case requested_active of
              None \<Rightarrow> True
            | Some active \<Rightarrow> active \<in> set existing_ids \<or> active \<in> set proposed_ids))"

definition apply_model_update :: "json \<Rightarrow> work_state \<Rightarrow> work_state \<times> bool" where
  "apply_model_update update s =
     (case Option.bind (json_get update ''subgoals'') json_as_array of
        None \<Rightarrow> (s, False)
      | Some raw_subgoals \<Rightarrow>
     if raw_subgoals = [] \<or> MAX_WORK_SUBGOALS < length raw_subgoals then (s, False)
     else
     (case parse_proposals raw_subgoals [] of
        None \<Rightarrow> (s, False)
      | Some proposals \<Rightarrow>
        (let requested_active = Option.bind (json_get update ''active_subgoal'') json_as_str
         in if \<not> outline_accepted proposals requested_active (w_subgoals s) then (s, False)
            else
              (let s = s\<lparr>w_subgoals := foldl merge_proposal (w_subgoals s) proposals,
                         w_mode := Structured\<rparr>
               in ((case requested_active of
                      Some active \<Rightarrow> s\<lparr>w_active_subgoal := Some (bounded active)\<rparr>
                    | None \<Rightarrow> select_active_subgoal s), True)))))"

subsection \<open>Correctness of the cycle search\<close>

definition edges :: "graph \<Rightarrow> (rstr \<times> rstr) set" where
  "edges g = {(a, b). \<exists>ds. map_of g a = Some ds \<and> b \<in> set ds}"

text \<open>A node from which no cycle can be reached.\<close>

definition acyclic_from :: "graph \<Rightarrow> rstr \<Rightarrow> bool" where
  "acyclic_from g v \<longleftrightarrow> (\<forall>x. (v, x) \<in> (edges g)\<^sup>* \<longrightarrow> (x, x) \<notin> (edges g)\<^sup>+)"

lemma acyclic_from_step:
  assumes "\<And>d. (n, d) \<in> edges g \<Longrightarrow> acyclic_from g d"
  shows "acyclic_from g n"
  unfolding acyclic_from_def
proof (intro allI impI)
  fix x assume reach: "(n, x) \<in> (edges g)\<^sup>*"
  show "(x, x) \<notin> (edges g)\<^sup>+"
  proof (cases "x = n")
    case False
    then obtain d where "(n, d) \<in> edges g" "(d, x) \<in> (edges g)\<^sup>*"
      using reach by (auto elim: converse_rtranclE)
    then show ?thesis using assms by (auto simp: acyclic_from_def)
  next
    case True
    show ?thesis
    proof
      assume "(x, x) \<in> (edges g)\<^sup>+"
      then obtain d where "(n, d) \<in> edges g" "(d, n) \<in> (edges g)\<^sup>*"
        using True by (auto dest: tranclD)
      then show False
        using assms [of d] \<open>(x, x) \<in> (edges g)\<^sup>+\<close> True by (auto simp: acyclic_from_def)
    qed
  qed
qed

lemma dependency_cycle_complete:
  "fst (dependency_cycle g visiting n visited) = False \<Longrightarrow> \<forall>v\<in>visited. acyclic_from g v \<Longrightarrow>
     n \<in> snd (dependency_cycle g visiting n visited)
     \<and> (\<forall>v\<in>snd (dependency_cycle g visiting n visited). acyclic_from g v)"
  "fst (any_dependency_cycle g visiting ns visited) = False \<Longrightarrow> \<forall>v\<in>visited. acyclic_from g v \<Longrightarrow>
     (\<forall>n\<in>set ns. acyclic_from g n)
     \<and> (\<forall>v\<in>snd (any_dependency_cycle g visiting ns visited). acyclic_from g v)"
proof (induction g visiting n visited and g visiting ns visited
    rule: dependency_cycle_any_dependency_cycle.induct)
  case (1 g visiting n visited)
  show ?case
  proof (cases "n \<in> visited \<or> n \<in> visiting")
    case True
    then show ?thesis
      using "1.prems" by (auto simp: dependency_cycle.simps [of g visiting] split: if_splits)
  next
    case False
    show ?thesis
    proof (cases "map_of g n")
      case None
      have "acyclic_from g n" by (rule acyclic_from_step) (simp add: edges_def None)
      then show ?thesis using "1.prems" False None
        by (auto simp: dependency_cycle.simps [of g visiting n visited])
    next
      case (Some ds)
      let ?r = "any_dependency_cycle g (insert n visiting) ds visited"
      have eq: "dependency_cycle g visiting n visited =
          (fst ?r, if \<not> fst ?r then insert n (snd ?r) else snd ?r)"
        using False Some by (simp add: dependency_cycle.simps [of g visiting] split: prod.split)
      have deps: "\<forall>d\<in>set ds. acyclic_from g d" and snd: "\<forall>v\<in>snd ?r. acyclic_from g v"
        using "1.IH" [of ds] "1.prems" False Some eq by auto
      have "acyclic_from g n"
        by (rule acyclic_from_step) (use Some deps in \<open>auto simp: edges_def\<close>)
      with snd eq "1.prems" show ?thesis by simp
    qed
  qed
next
  case (2 g visiting ns visited)
  show ?case
  proof (cases ns)
    case Nil
    then show ?thesis using "2.prems" by (simp add: any_dependency_cycle.simps)
  next
    case (Cons n rest)
    obtain c v where r: "dependency_cycle g visiting n visited = (c, v)" by fastforce
    have eq: "any_dependency_cycle g visiting ns visited =
        (if c then (True, v) else any_dependency_cycle g visiting rest v)"
      using r Cons by (simp add: any_dependency_cycle.simps [of g visiting "n # rest"])
    then have c: "\<not> c" using "2.prems" by (auto split: if_splits)
    have "n \<in> v \<and> (\<forall>x\<in>v. acyclic_from g x)"
      using "2.IH"(1) [OF Cons] r c "2.prems" by simp
    then show ?thesis
      using "2.IH"(2) [OF Cons r [symmetric]] r c "2.prems" eq Cons by auto
  qed
qed

lemma dependency_cycle_sound:
  "fst (dependency_cycle g visiting n visited) \<Longrightarrow> \<forall>v\<in>visiting. (v, n) \<in> (edges g)\<^sup>+ \<Longrightarrow>
     \<not> acyclic (edges g)"
  "fst (any_dependency_cycle g visiting ns visited) \<Longrightarrow>
     \<forall>n\<in>set ns. \<forall>v\<in>visiting. (v, n) \<in> (edges g)\<^sup>+ \<Longrightarrow> \<not> acyclic (edges g)"
proof (induction g visiting n visited and g visiting ns visited
    rule: dependency_cycle_any_dependency_cycle.induct)
  case (1 g visiting n visited)
  have nv: "n \<notin> visited" using "1.prems" by (auto simp: dependency_cycle.simps)
  show ?case
  proof (cases "n \<in> visiting")
    case True
    then show ?thesis using "1.prems" by (auto simp: acyclic_def)
  next
    case False
    obtain ds where ds: "map_of g n = Some ds"
      and r: "fst (any_dependency_cycle g (insert n visiting) ds visited)"
      using "1.prems" nv False
      by (auto simp: dependency_cycle.simps [of g visiting] split: option.splits prod.splits)
    have "\<forall>d\<in>set ds. \<forall>v\<in>insert n visiting. (v, d) \<in> (edges g)\<^sup>+"
    proof (intro ballI)
      fix d v assume d: "d \<in> set ds" and v: "v \<in> insert n visiting"
      have e: "(n, d) \<in> edges g" using ds d by (auto simp: edges_def)
      show "(v, d) \<in> (edges g)\<^sup>+"
        using v "1.prems"(2) e by (auto intro: trancl_into_trancl)
    qed
    then show ?thesis using "1.IH" [OF nv False ds] r by blast
  qed
next
  case (2 g visiting ns visited)
  show ?case
  proof (cases ns)
    case Nil
    then show ?thesis using "2.prems" by (simp add: any_dependency_cycle.simps)
  next
    case (Cons n rest)
    obtain c v where r: "dependency_cycle g visiting n visited = (c, v)" by fastforce
    show ?thesis
    proof (cases c)
      case True
      then show ?thesis using "2.IH"(1) [OF Cons] r "2.prems"(2) Cons by auto
    next
      case False
      then have "fst (any_dependency_cycle g visiting rest v)"
        using "2.prems"(1) r Cons by (simp add: any_dependency_cycle.simps [of g visiting "n # rest"])
      then show ?thesis using "2.IH"(2) [OF Cons r [symmetric]] False "2.prems"(2) Cons by auto
    qed
  qed
qed

lemma has_cycle_iff: "has_cycle g \<longleftrightarrow> \<not> acyclic (edges g)"
proof
  assume "has_cycle g"
  then show "\<not> acyclic (edges g)"
    using dependency_cycle_sound(1) [of g "{}" _ "{}"] by (auto simp: has_cycle_def list_ex_iff)
next
  assume "\<not> acyclic (edges g)"
  then obtain x where x: "(x, x) \<in> (edges g)\<^sup>+" by (auto simp: acyclic_def)
  then obtain d where "(x, d) \<in> edges g" by (auto dest: tranclD)
  then have key: "x \<in> set (graph_keys g)"
    by (auto simp: edges_def graph_keys_def dest!: map_of_SomeD intro: rev_image_eqI)
  show "has_cycle g"
  proof (rule ccontr)
    assume "\<not> has_cycle g"
    then have "fst (dependency_cycle g {} x {}) = False"
      using key by (auto simp: has_cycle_def list_ex_iff)
    from dependency_cycle_complete(1) [OF this] have "acyclic_from g x" by auto
    then show False using x by (auto simp: acyclic_from_def)
  qed
qed

end
