(* ===== verification/Outline_Facts.thy ===== *)
theory Outline_Facts
  imports Work_Outline
begin

section \<open>What an accepted outline guarantees\<close>

text \<open>
  The parsed proposals are exact, distinct and bounded; the merged ledger's dependency relation is
  the graph that was searched, so it is acyclic; and on an acyclic, closed ledger without blocked
  subgoals the choice of the active subgoal always succeeds while work is left.
\<close>

subsection \<open>Parsed texts\<close>

definition exact :: "bounded_text \<Rightarrow> bool" where
  "exact t \<longleftrightarrow> fits MAX_WORK_FIELD_BYTES t"

definition exact_str :: "rstr \<Rightarrow> bool" where
  "exact_str t \<longleftrightarrow> t \<noteq> [] \<and> length t \<le> MAX_WORK_FIELD_BYTES"

lemma exact_str_as_str [simp]: "exact_str t \<Longrightarrow> as_str (bounded t) = t"
  by (simp add: exact_str_def bounded_short)

lemma exact_bounded: "exact_str t \<Longrightarrow> exact (bounded t)"
  by (simp add: exact_def exact_str_def bounded_def fits_new)

lemma exact_eq: "exact s \<Longrightarrow> exact t \<Longrightarrow> as_str s = as_str t \<Longrightarrow> s = t"
  by (metis exact_def fits_def)

lemma bounded_model_text_exact: "bounded_model_text v = Some t \<Longrightarrow> exact_str t"
  using bounded_length
  by (auto simp: bounded_model_text_def exact_str_def Let_def bounded_def is_truncated_iff
      bounded_new_short split: option.splits if_splits)

lemma model_relations_exact:
  "model_relations vs rs = Some ts \<Longrightarrow> list_all exact_str rs \<Longrightarrow> distinct rs \<Longrightarrow>
   list_all exact_str ts \<and> distinct ts \<and> length ts \<le> length rs + length vs"
proof (induction vs rs rule: model_relations.induct)
  case (2 v rest relations)
  then obtain r where r: "bounded_model_text (json_as_str v) = Some r" by (auto split: option.splits)
  then show ?case using 2 bounded_model_text_exact [OF r] by (fastforce split: if_splits)
qed auto

lemma bounded_model_relations_exact:
  "bounded_model_relations v = Some ts \<Longrightarrow>
   list_all exact_str ts \<and> distinct ts \<and> length ts \<le> MAX_WORK_RELATIONS"
  by (auto simp: bounded_model_relations_def split: option.splits if_splits
      dest!: model_relations_exact)

lemma bounded_model_paths_exact:
  "bounded_model_paths v = Some ts \<Longrightarrow>
   list_all exact_str ts \<and> length ts \<le> MAX_WORK_RELATIONS
   \<and> list_all (\<lambda>p. \<not> isl (workspace_path_new p)) ts"
  by (auto simp: bounded_model_paths_def split: option.splits if_splits
      dest!: bounded_model_relations_exact)

definition proposal_ok :: "proposal \<Rightarrow> bool" where
  "proposal_ok p = (case p of (gid, label, depends_on, paths) \<Rightarrow>
     exact_str gid \<and> exact_str label
     \<and> list_all exact_str depends_on \<and> length depends_on \<le> MAX_WORK_RELATIONS
     \<and> list_all exact_str paths \<and> length paths \<le> MAX_WORK_RELATIONS
     \<and> list_all (\<lambda>p. \<not> isl (workspace_path_new p)) paths)"

lemma parse_proposals_ok:
  "parse_proposals raws ids = Some ps \<Longrightarrow>
   list_all proposal_ok ps \<and> distinct (map fst ps) \<and> set (map fst ps) \<inter> set ids = {}
   \<and> length ps = length raws"
proof (induction raws ids arbitrary: ps rule: parse_proposals.induct)
  case (2 raw rest ids)
  obtain gid label ds paths qs where
    t: "bounded_model_text (Option.bind (json_get raw ''id'') json_as_str) = Some gid"
    "bounded_model_text (Option.bind (json_get raw ''label'') json_as_str) = Some label"
    "bounded_model_relations (json_get raw ''depends_on'') = Some ds"
    "bounded_model_paths (json_get raw ''paths'') = Some paths"
    and fresh: "json_is_object raw" "gid \<notin> set ids"
    and qs: "parse_proposals rest (gid # ids) = Some qs" "ps = (gid, label, ds, paths) # qs"
    using "2.prems" by (auto split: if_splits option.splits)
  have "proposal_ok (gid, label, ds, paths)"
    using t(1,2)[THEN bounded_model_text_exact] bounded_model_relations_exact [OF t(3)]
      bounded_model_paths_exact [OF t(4)] by (simp add: proposal_ok_def)
  then show ?case using 2(1) [of gid label ds paths qs] t fresh qs by auto
qed auto

subsection \<open>The searched graph is the merged ledger's dependency relation\<close>

definition subgoal_key :: "work_subgoal \<Rightarrow> rstr" where
  "subgoal_key g = as_str (sg_id g)"

definition ledger_graph :: "work_subgoal list \<Rightarrow> graph" where
  "ledger_graph gs = map (\<lambda>g. (subgoal_key g, subgoal_edges g)) gs"

lemma map_of_update_first:
  "(\<And>g. subgoal_key (f g) = subgoal_key g) \<Longrightarrow> (\<And>g. subgoal_edges (f g) = ds) \<Longrightarrow>
   list_ex (\<lambda>g. subgoal_key g = k) gs \<Longrightarrow>
   map_of (ledger_graph (update_first (\<lambda>g. subgoal_key g = k) f gs)) = (map_of (ledger_graph gs))(k \<mapsto> ds)"
  by (induction gs) (auto simp: ledger_graph_def)

lemma map_of_append_new:
  "\<not> list_ex (\<lambda>g. subgoal_key g = k) gs \<Longrightarrow> subgoal_key g = k \<Longrightarrow>
   map_of (ledger_graph (gs @ [g])) = (map_of (ledger_graph gs))(k \<mapsto> subgoal_edges g)"
  by (induction gs) (auto simp: ledger_graph_def)

lemma exact_edges: "list_all exact_str ds \<Longrightarrow> map (as_str \<circ> bounded) ds = ds"
  by (induction ds) auto

lemma merge_proposal_graph:
  "proposal_ok (gid, label, ds, paths) \<Longrightarrow>
   map_of (ledger_graph (merge_proposal gs (gid, label, ds, paths))) = (map_of (ledger_graph gs))(gid \<mapsto> ds)"
  (is "_ \<Longrightarrow> ?goal")
proof -
  assume ok: "proposal_ok (gid, label, ds, paths)"
  then have ds: "map (as_str \<circ> bounded) ds = ds" and gid: "as_str (bounded gid) = gid"
    by (auto simp: proposal_ok_def exact_edges)
  let ?f = "\<lambda>g. let g = g\<lparr>sg_label := bounded label, sg_depends_on := map bounded ds,
      sg_paths := map bounded paths\<rparr>
    in if sg_status g = Stale then g\<lparr>sg_status := Pending, sg_completed_revision := None\<rparr> else g"
  show ?goal
  proof (cases "list_ex (\<lambda>g. subgoal_key g = gid) gs")
    case True
    have "map_of (ledger_graph (update_first (\<lambda>g. subgoal_key g = gid) ?f gs)) =
        (map_of (ledger_graph gs))(gid \<mapsto> ds)"
      by (rule map_of_update_first [OF _ _ True])
        (simp_all add: subgoal_key_def subgoal_edges_def ds Let_def)
    then show ?thesis using True by (simp add: merge_proposal_def subgoal_key_def)
  next
    case False
    then show ?thesis
      using map_of_append_new [OF False, of "\<lparr>sg_id = bounded gid, sg_label = bounded label,
          sg_status = Pending, sg_depends_on = map bounded ds, sg_paths = map bounded paths,
          sg_attempts = 0, sg_completed_revision = None\<rparr>"]
      by (simp add: merge_proposal_def subgoal_key_def subgoal_edges_def gid ds)
  qed
qed

lemma merge_proposals_graph:
  "list_all proposal_ok ps \<Longrightarrow> map_of G = map_of (ledger_graph gs) \<Longrightarrow>
   map_of (proposed_graph ps G) = map_of (ledger_graph (foldl merge_proposal gs ps))"
proof (induction ps arbitrary: gs G)
  case (Cons p ps)
  obtain gid label ds paths where p: "p = (gid, label, ds, paths)" by (cases p)
  have "map_of (AList.update gid ds G) = map_of (ledger_graph (merge_proposal gs p))"
    using Cons.prems by (simp add: p merge_proposal_graph update_conv')
  from Cons.IH [OF _ this] show ?case using Cons.prems by (simp add: p proposed_graph_def)
qed (simp add: proposed_graph_def)

lemma existing_graph_aux:
  "distinct (map subgoal_key gs) \<Longrightarrow> set (map subgoal_key gs) \<inter> dom (map_of G) = {} \<Longrightarrow>
   map_of (foldl (\<lambda>graph g. AList.update (as_str (sg_id g)) (subgoal_edges g) graph) G gs) =
     map_of (G @ ledger_graph gs)"
proof (induction gs arbitrary: G)
  case (Cons g gs)
  have eq: "map_of (AList.update (subgoal_key g) (subgoal_edges g) G) =
      map_of (G @ [(subgoal_key g, subgoal_edges g)])"
    using Cons.prems(2) by (auto simp: update_conv' map_add_def dom_def fun_eq_iff split: option.splits)
  then have "map_of (AList.update (subgoal_key g) (subgoal_edges g) G @ ledger_graph gs) =
      map_of (G @ ledger_graph (g # gs))"
    by (simp add: ledger_graph_def)
  moreover have "set (map subgoal_key gs) \<inter>
      dom (map_of (AList.update (subgoal_key g) (subgoal_edges g) G)) = {}"
    using Cons.prems by (auto simp: update_conv' split: if_splits)
  ultimately show ?case
    using Cons.IH [of "AList.update (subgoal_key g) (subgoal_edges g) G"] Cons.prems
    by (simp add: subgoal_key_def)
qed (simp add: ledger_graph_def)

lemma existing_graph_ledger:
  "distinct (map subgoal_key gs) \<Longrightarrow> map_of (existing_graph gs) = map_of (ledger_graph gs)"
  using existing_graph_aux [of gs "[]"] by (simp add: existing_graph_def)

lemma edges_cong: "map_of g = map_of h \<Longrightarrow> edges g = edges h"
  by (simp add: edges_def)

subsection \<open>Well-formed dependency graphs\<close>

definition graph_ok :: "work_subgoal list \<Rightarrow> bool" where
  "graph_ok gs \<longleftrightarrow> distinct (map subgoal_key gs)
     \<and> (\<forall>g\<in>set gs. exact (sg_id g) \<and> (\<forall>d\<in>set (sg_depends_on g). d \<in> sg_id ` set gs))
     \<and> acyclic (edges (ledger_graph gs))"

lemma graph_ok_pairs:
  "graph_ok gs \<longleftrightarrow>
     (let ps = map (\<lambda>g. (sg_id g, sg_depends_on g)) gs
      in distinct (map (as_str \<circ> fst) ps)
         \<and> (\<forall>p\<in>set ps. exact (fst p) \<and> (\<forall>d\<in>set (snd p). d \<in> fst ` set ps))
         \<and> acyclic (edges (map (\<lambda>p. (as_str (fst p), map as_str (snd p))) ps)))"
  by (simp add: graph_ok_def Let_def ledger_graph_def subgoal_key_def [abs_def]
      subgoal_edges_def comp_def image_image)

lemma graph_ok_cong:
  "map (\<lambda>g. (sg_id g, sg_depends_on g)) gs = map (\<lambda>g. (sg_id g, sg_depends_on g)) hs \<Longrightarrow>
   graph_ok gs = graph_ok hs"
  by (simp add: graph_ok_pairs)

lemma graph_ok_select [simp]:
  "graph_ok (w_subgoals (select_active_subgoal s)) = graph_ok (w_subgoals s)"
  by (rule graph_ok_cong, rule select_active_map) simp

lemma merge_keys:
  "exact_str gid \<Longrightarrow> map subgoal_key (merge_proposal gs (gid, label, ds, paths)) =
     (if gid \<in> set (map subgoal_key gs) then map subgoal_key gs else map subgoal_key gs @ [gid])"
  by (auto simp: merge_proposal_def subgoal_key_def list_ex_iff Let_def map_update_first_same)

lemma merge_member:
  "g \<in> set (merge_proposal gs (gid, label, ds, paths)) \<Longrightarrow>
   g \<in> set gs
   \<or> (sg_depends_on g = map bounded ds \<and> (sg_id g = bounded gid \<or> sg_id g \<in> sg_id ` set gs))"
  by (auto simp: merge_proposal_def Let_def image_iff split: if_splits
      dest!: subsetD [OF set_update_first_subset])

definition ids_exact :: "work_subgoal list \<Rightarrow> bool" where
  "ids_exact gs \<longleftrightarrow> (\<forall>g\<in>set gs. exact (sg_id g))"

definition deps_known :: "rstr set \<Rightarrow> work_subgoal list \<Rightarrow> bool" where
  "deps_known known gs \<longleftrightarrow> (\<forall>g\<in>set gs. \<forall>d\<in>set (sg_depends_on g). exact d \<and> as_str d \<in> known)"

lemma graph_ok_iff:
  "graph_ok gs \<longleftrightarrow> distinct (map subgoal_key gs) \<and> ids_exact gs
     \<and> deps_known (set (map subgoal_key gs)) gs \<and> acyclic (edges (ledger_graph gs))"
proof -
  have "d \<in> sg_id ` set gs \<longleftrightarrow> exact d \<and> as_str d \<in> set (map subgoal_key gs)" if "ids_exact gs" for d
    using that by (auto simp: ids_exact_def subgoal_key_def intro: exact_eq)
  then show ?thesis by (auto simp: graph_ok_def ids_exact_def deps_known_def)
qed

lemma merge_proposals_ok:
  "list_all proposal_ok ps \<Longrightarrow> distinct (map subgoal_key gs) \<Longrightarrow> ids_exact gs \<Longrightarrow>
   deps_known known gs \<Longrightarrow> (\<forall>p\<in>set ps. set (fst (snd (snd p))) \<subseteq> known) \<Longrightarrow>
   (let hs = foldl merge_proposal gs ps
    in distinct (map subgoal_key hs) \<and> ids_exact hs \<and> deps_known known hs
       \<and> set (map subgoal_key hs) = set (map subgoal_key gs) \<union> set (map fst ps))"
proof (induction ps arbitrary: gs)
  case (Cons p ps)
  obtain gid label ds paths where p: "p = (gid, label, ds, paths)" by (cases p)
  have ok: "exact_str gid" "list_all exact_str ds" "set ds \<subseteq> known"
    using Cons.prems by (auto simp: p proposal_ok_def)
  let ?hs = "merge_proposal gs p"
  have keys: "set (map subgoal_key ?hs) = insert gid (set (map subgoal_key gs))"
    unfolding p using merge_keys [OF ok(1), of gs label ds paths] by auto
  have "distinct (map subgoal_key ?hs)"
    unfolding p using merge_keys [OF ok(1), of gs label ds paths] Cons.prems(2) by auto
  moreover have "ids_exact ?hs"
    using Cons.prems(3) exact_bounded [OF ok(1)]
    by (fastforce simp: ids_exact_def p dest!: merge_member)
  moreover have "deps_known known ?hs"
    using Cons.prems(4) ok(2,3) by (fastforce simp: deps_known_def p list_all_iff exact_bounded
        dest!: merge_member)
  ultimately show ?case
    using Cons.IH [of ?hs] Cons.prems keys by (auto simp: Let_def p)
qed simp

text \<open>The accepted merge: distinct identifiers, every dependency known, no cycle.\<close>

lemma accepted_merge_ok:
  assumes gs: "graph_ok gs"
    and ps: "list_all proposal_ok ps"
    and acc: "outline_accepted ps active gs"
  shows "graph_ok (foldl merge_proposal gs ps)"
proof -
  let ?hs = "foldl merge_proposal gs ps" and ?known = "set (map subgoal_key gs) \<union> set (map fst ps)"
  have known: "deps_known ?known gs"
    using gs by (auto simp: graph_ok_iff deps_known_def)
  have "\<forall>p\<in>set ps. set (fst (snd (snd p))) \<subseteq> ?known"
    using acc by (force simp: outline_accepted_def Let_def list_all_iff subgoal_key_def)
  then have hs: "distinct (map subgoal_key ?hs)" "ids_exact ?hs"
      "deps_known (set (map subgoal_key ?hs)) ?hs"
    using merge_proposals_ok [OF ps _ _ known] gs by (auto simp: graph_ok_iff Let_def)
  have "map_of (existing_graph gs) = map_of (ledger_graph gs)"
    using gs by (intro existing_graph_ledger) (simp add: graph_ok_iff)
  then have "edges (proposed_graph ps (existing_graph gs)) = edges (ledger_graph ?hs)"
    by (intro edges_cong merge_proposals_graph ps)
  then have "acyclic (edges (ledger_graph ?hs))"
    using acc by (auto simp: outline_accepted_def Let_def has_cycle_iff)
  with hs show ?thesis by (simp add: graph_ok_iff)
qed

text \<open>The two ways through \<open>apply_model_update\<close>.\<close>

lemma apply_model_update_cases:
  obtains (rejected) "apply_model_update update s = (s, False)"
  | (accepted) ps active where
      "list_all proposal_ok ps" "distinct (map fst ps)" "ps \<noteq> []"
      "outline_accepted ps active (w_subgoals s)"
      "apply_model_update update s =
        ((case active of
            Some a \<Rightarrow> s\<lparr>w_subgoals := foldl merge_proposal (w_subgoals s) ps, w_mode := Structured,
                       w_active_subgoal := Some (bounded a)\<rparr>
          | None \<Rightarrow> select_active_subgoal
              (s\<lparr>w_subgoals := foldl merge_proposal (w_subgoals s) ps, w_mode := Structured\<rparr>)), True)"
proof -
  have "apply_model_update update s = (s, False) \<or>
    (\<exists>raws ps. Option.bind (json_get update ''subgoals'') json_as_array = Some raws
        \<and> raws \<noteq> [] \<and> length raws \<le> MAX_WORK_SUBGOALS \<and> parse_proposals raws [] = Some ps
        \<and> outline_accepted ps (Option.bind (json_get update ''active_subgoal'') json_as_str)
            (w_subgoals s))"
    unfolding apply_model_update_def Let_def by (auto simp: not_less split: option.split)
  then consider (no) "apply_model_update update s = (s, False)"
    | (yes) raws ps where "Option.bind (json_get update ''subgoals'') json_as_array = Some raws"
        "raws \<noteq> []" "length raws \<le> MAX_WORK_SUBGOALS" "parse_proposals raws [] = Some ps"
        "outline_accepted ps (Option.bind (json_get update ''active_subgoal'') json_as_str) (w_subgoals s)"
    by blast
  then show thesis
  proof cases
    case no then show thesis by (rule rejected)
  next
    case yes
    have "list_all proposal_ok ps" "distinct (map fst ps)" "ps \<noteq> []"
      using parse_proposals_ok [OF yes(4)] yes(2) by auto
    then show thesis
      using yes by (intro accepted [of ps "Option.bind (json_get update ''active_subgoal'') json_as_str"])
        (auto simp: apply_model_update_def Let_def not_less [symmetric] split: option.split)
  qed
qed

end
