(* ===== verification/Work_Completion.thy ===== *)
theory Work_Completion
  imports Outline_Facts
begin

section \<open>Where completion comes from\<close>

text \<open>
  Every operation of the ledger as one datatype, and what each does to the completed subgoals
  (\<open>done_marks\<close>) and the satisfied criteria (\<open>met_marks\<close>): only a passing verification and the two
  explicit status calls add to them.  Then the progress of the active-subgoal choice on a
  well-formed dependency graph.
\<close>

datatype work_op =
    WTask rstr "rstr list option"
  | WAdd rstr rstr "rstr list"
  | WStatus rstr work_status u32
  | WOutline json
  | WEvidence rstr rstr rstr u32
  | WMutation rstr "rstr list" u32
  | WVerification rstr rstr bool u32 "rstr list" "rstr list"
  | WBlocker rstr rstr rstr u32
  | WClear rstr
  | WDrift u32
  | WSatisfy rstr

fun run_work :: "(rstr \<Rightarrow> rstr) \<Rightarrow> work_op \<Rightarrow> work_state \<Rightarrow> work_state" where
  "run_work digest (WTask prompt cs) s = apply_task_update digest prompt cs s"
| "run_work digest (WAdd i l ds) s = fst (add_subgoal i l ds s)"
| "run_work digest (WStatus i st r) s = fst (set_subgoal_status i st r s)"
| "run_work digest (WOutline update) s = fst (apply_model_update update s)"
| "run_work digest (WEvidence k p d r) s = record_evidence k p d r s"
| "run_work digest (WMutation operation ps r) s = record_mutation operation ps r s"
| "run_work digest (WVerification c sc b r ds ps) s = record_verification c sc b r ds ps s"
| "run_work digest (WBlocker k c d r) s = record_blocker k c d r s"
| "run_work digest (WClear k) s = clear_blocker k s"
| "run_work digest (WDrift r) s = invalidate_for_workspace_change r s"
| "run_work digest (WSatisfy k) s = satisfy_criterion k s"

text \<open>The operations that certify: the runtime's passing checks and explicit status calls.\<close>

fun certifies :: "work_op \<Rightarrow> bool" where
  "certifies (WVerification c sc b r ds ps) = b"
| "certifies (WStatus i st r) = (st = Complete)"
| "certifies (WSatisfy k) = True"
| "certifies _ = False"

definition done_marks :: "work_subgoal list \<Rightarrow> (bounded_text \<times> u32 option) set" where
  "done_marks gs = (\<lambda>g. (sg_id g, sg_completed_revision g)) ` {g \<in> set gs. sg_status g = Complete}"

definition met_marks :: "work_criterion list \<Rightarrow> (bounded_text \<times> bounded_text) set" where
  "met_marks cs = (\<lambda>c. (wc_key c, wc_description c)) ` {c \<in> set cs. wc_satisfied c}"

lemma done_marks_simps [simp]:
  "done_marks [] = {}"
  "done_marks (g # gs) =
     (if sg_status g = Complete then insert (sg_id g, sg_completed_revision g) (done_marks gs)
      else done_marks gs)"
  "done_marks (gs @ hs) = done_marks gs \<union> done_marks hs"
  by (auto simp: done_marks_def)

text \<open>A function that completes no subgoal adds no mark to a list.\<close>

definition completes_none :: "(work_subgoal \<Rightarrow> work_subgoal) \<Rightarrow> bool" where
  "completes_none f \<longleftrightarrow> (\<forall>g. sg_status (f g) = Complete \<longrightarrow>
     sg_status g = Complete \<and> sg_id (f g) = sg_id g \<and> sg_completed_revision (f g) = sg_completed_revision g)"

lemma done_marks_update_first:
  assumes "completes_none f"
  shows "done_marks (update_first P f gs) \<subseteq> done_marks gs"
proof (induction gs)
  case (Cons g gs)
  have "sg_status (f g) = Complete \<Longrightarrow> sg_status g = Complete \<and> sg_id (f g) = sg_id g
      \<and> sg_completed_revision (f g) = sg_completed_revision g"
    using assms by (simp add: completes_none_def)
  with Cons show ?case by auto
qed simp

lemma done_marks_map: "completes_none f \<Longrightarrow> done_marks (map f gs) \<subseteq> done_marks gs"
  by (force simp: completes_none_def done_marks_def)

lemma done_marks_push: "done_marks (push_bounded gs g n) \<subseteq> done_marks gs \<union> done_marks [g]"
  using push_bounded_set [of gs g n] by (auto simp: done_marks_def)

lemma done_marks_select: "done_marks (w_subgoals (select_active_subgoal s)) \<subseteq> done_marks (w_subgoals s)"
  by (simp add: select_active_subgoals done_marks_update_first completes_none_def split: option.split)

lemmas done_marks_select_trans = order_trans [OF done_marks_select]

lemma demote_marks: "done_marks (map demote_complete gs) = {}"
  by (induction gs) (auto simp: demote_complete_def)

lemma evidence_subgoals [simp]:
  "w_subgoals (record_evidence k p d r s) = w_subgoals s"
  "w_acceptance_criteria (record_evidence k p d r s) = w_acceptance_criteria s"
  by (simp_all add: record_evidence_def Let_def)

lemma ensure_path_marks: "done_marks (w_subgoals (ensure_path_subgoal p s)) \<subseteq> done_marks (w_subgoals s)"
proof -
  have "done_marks (push_bounded gs g n) \<subseteq> done_marks gs" if "sg_status g = Pending" for gs g n
    using done_marks_push [of gs g n] that by simp
  then show ?thesis
    by (simp add: ensure_path_subgoal_def Let_def done_marks_update_first completes_none_def)
qed

lemma ensure_path_criteria [simp]:
  "w_acceptance_criteria (ensure_path_subgoal p s) = w_acceptance_criteria s"
  by (simp add: ensure_path_subgoal_def Let_def)

lemma mutated_path_marks:
  "done_marks (w_subgoals (foldl (record_mutated_path op r) s ps)) \<subseteq> done_marks (w_subgoals s)
   \<and> w_acceptance_criteria (foldl (record_mutated_path op r) s ps) = w_acceptance_criteria s"
proof (induction ps arbitrary: s)
  case (Cons p ps)
  have "done_marks (w_subgoals (record_mutated_path op r s p)) \<subseteq> done_marks (w_subgoals s)"
    "w_acceptance_criteria (record_mutated_path op r s p) = w_acceptance_criteria s"
    using ensure_path_marks [of "as_str p" "record_evidence ''mutation'' (as_str p) op r s"]
    by (auto simp: record_mutated_path_def Let_def)
  with Cons [of "record_mutated_path op r s p"] show ?case by auto
qed simp

lemma met_marks_unsatisfy [simp]: "met_marks (map unsatisfy cs) = {}"
  by (auto simp: met_marks_def unsatisfy_def)

lemma merge_marks: "done_marks (merge_proposal gs p) \<subseteq> done_marks gs"
  by (simp add: merge_proposal_def Let_def done_marks_update_first completes_none_def split: prod.split)

lemma merges_marks: "done_marks (foldl merge_proposal gs ps) \<subseteq> done_marks gs"
proof (induction ps arbitrary: gs)
  case (Cons p ps)
  show ?case using order_trans [OF Cons merge_marks] by simp
qed simp

lemma outline_marks:
  "done_marks (w_subgoals (fst (apply_model_update u s))) \<subseteq> done_marks (w_subgoals s)"
proof (cases rule: apply_model_update_cases [of u s])
  case (accepted ps active)
  have "done_marks (w_subgoals (select_active_subgoal
      (s\<lparr>w_subgoals := foldl merge_proposal (w_subgoals s) ps, w_mode := Structured\<rparr>)))
    \<subseteq> done_marks (w_subgoals s)"
    by (rule done_marks_select_trans) (simp add: merges_marks)
  then show ?thesis using accepted merges_marks by (auto split: option.split)
qed simp

text \<open>An outline leaves everything but the subgoals, the mode and the choice of subgoal alone.\<close>

lemma outline_frame:
  "w_objective (fst (apply_model_update u s)) = w_objective s
   \<and> w_acceptance_criteria (fst (apply_model_update u s)) = w_acceptance_criteria s
   \<and> w_constraints (fst (apply_model_update u s)) = w_constraints s
   \<and> w_blockers (fst (apply_model_update u s)) = w_blockers s
   \<and> w_evidence (fst (apply_model_update u s)) = w_evidence s
   \<and> w_mutations (fst (apply_model_update u s)) = w_mutations s
   \<and> w_verifications (fst (apply_model_update u s)) = w_verifications s
   \<and> w_task_revision (fst (apply_model_update u s)) = w_task_revision s
   \<and> w_revision (fst (apply_model_update u s)) = w_revision s"
  by (cases rule: apply_model_update_cases [of u s]) (auto split: option.split)

subsection \<open>No operation certifies itself\<close>

definition quiet :: "work_state \<Rightarrow> work_state \<Rightarrow> bool" where
  "quiet s t \<longleftrightarrow> done_marks (w_subgoals t) \<subseteq> done_marks (w_subgoals s)
     \<and> met_marks (w_acceptance_criteria t) \<subseteq> met_marks (w_acceptance_criteria s)"

lemma quiet_refl [simp]: "quiet s s"
  by (simp add: quiet_def)

lemma quiet_trans: "quiet s t \<Longrightarrow> quiet t u \<Longrightarrow> quiet s u"
  by (auto simp: quiet_def)

lemma quiet_select: "quiet s (select_active_subgoal s)"
  by (simp add: quiet_def done_marks_select)

lemma quiet_then_select: "quiet s t \<Longrightarrow> quiet s (select_active_subgoal t)"
  by (rule quiet_trans [OF _ quiet_select])

lemma met_extract [simp]: "met_marks (extract_criteria p) = {}"
  using extract_criteria_unsatisfied [of p] by (auto simp: met_marks_def list_all_iff)

lemma quiet_invalidate_task: "quiet s (invalidate_task_completion s)"
  unfolding invalidate_task_completion_def
  by (rule quiet_then_select) (simp add: quiet_def demote_marks)

lemma quiet_updates:
  "quiet s t \<Longrightarrow> quiet s (t\<lparr>w_mode := m\<rparr>)"
  "quiet s t \<Longrightarrow> quiet s (t\<lparr>w_constraints := cs\<rparr>)"
  "quiet s t \<Longrightarrow> quiet s (t\<lparr>w_objective := o'\<rparr>)"
  "quiet s t \<Longrightarrow> quiet s (t\<lparr>w_task_revision := r\<rparr>)"
  "quiet s t \<Longrightarrow> quiet s (t\<lparr>w_task_fingerprint := f\<rparr>)"
  "quiet s t \<Longrightarrow> quiet s (t\<lparr>w_acceptance_criteria := extract_criteria p\<rparr>)"
  "quiet s t \<Longrightarrow> w_subgoals t = [] \<Longrightarrow> quiet s (t\<lparr>w_subgoals := [root_subgoal], w_active_subgoal := a\<rparr>)"
  by (simp_all add: quiet_def root_subgoal_def)

lemma quiet_start:
  "quiet s (fst (if b then (reset_task ob m s, True) else apply_objective_update ob m s))"
  by (simp add: quiet_def reset_task_def apply_objective_update_def Let_def met_marks_def)

lemma quiet_then_invalidate: "quiet s t \<Longrightarrow> quiet s (invalidate_task_completion t)"
  by (rule quiet_trans [OF _ quiet_invalidate_task])

text \<open>Quietness through the \<open>let\<close>s and branches of a definition.\<close>

lemma quiet_flow:
  "quiet s t \<Longrightarrow> (\<And>u. quiet s u \<Longrightarrow> quiet s (f u)) \<Longrightarrow> quiet s (Let t f)"
  "quiet s (fst x) \<Longrightarrow> (\<And>u (c :: bool). quiet s u \<Longrightarrow> quiet s (g u c)) \<Longrightarrow> quiet s (Let x (\<lambda>(u, c). g u c))"
  "(\<And>v. quiet s (h v)) \<Longrightarrow> quiet s (Let (text :: rstr) h)"
  "(\<And>v. quiet s (i v)) \<Longrightarrow> quiet s (Let (mode :: work_mode) i)"
  "(\<And>v. quiet s (j v)) \<Longrightarrow> quiet s (Let (flag :: bool) j)"
  "(\<And>v. quiet s (k v)) \<Longrightarrow> quiet s (Let (criteria :: work_criterion list) k)"
  "(b \<Longrightarrow> quiet s t) \<Longrightarrow> (\<not> b \<Longrightarrow> quiet s u) \<Longrightarrow> quiet s (if b then t else u)"
  by (auto simp: Let_def split: prod.split)

lemma quiet_constraints:
  "quiet s t \<Longrightarrow> quiet s (fst (case cs of None \<Rightarrow> (t, c)
     | Some cs \<Rightarrow> (if next_constraints cs \<noteq> w_constraints t
          then (t\<lparr>w_constraints := next_constraints cs\<rparr>, True) else (t, c))))"
  by (simp add: quiet_updates split: option.split)

lemma quiet_criteria:
  "quiet s t \<Longrightarrow> quiet s (let next = extract_criteria p
     in if next \<noteq> [] \<or> w_acceptance_criteria t = [] then t\<lparr>w_acceptance_criteria := next\<rparr> else t)"
  by (simp add: quiet_updates Let_def)

lemma quiet_task: "quiet s (apply_task_update digest p cs s)"
  unfolding apply_task_update_def
  by (intro quiet_flow quiet_start quiet_constraints quiet_criteria quiet_updates
      quiet_then_invalidate) (assumption | simp)+

lemma quiet_add: "quiet s (fst (add_subgoal i l ds s))"
proof -
  have "done_marks (push_bounded gs g n) \<subseteq> done_marks gs" if "sg_status g = Pending" for gs g n
    using done_marks_push [of gs g n] that by simp
  then show ?thesis
    by (auto simp: add_subgoal_def intro!: quiet_then_select) (auto simp: quiet_def)
qed

lemma quiet_status: "st \<noteq> Complete \<Longrightarrow> quiet s (fst (set_subgoal_status i st r s))"
  by (auto simp: set_subgoal_status_def intro!: quiet_then_select)
    (simp add: quiet_def done_marks_update_first completes_none_def)

lemma quiet_outline: "quiet s (fst (apply_model_update u s))"
  using outline_marks [of u s] outline_frame [of u s] by (simp add: quiet_def)

lemma quiet_mutation: "quiet s (record_mutation op ps r s)"
proof -
  let ?t = "s\<lparr>w_revision := r, w_verifications := map (\<lambda>v. v\<lparr>wv_status := VStale\<rparr>) (w_verifications s),
      w_acceptance_criteria := map unsatisfy (w_acceptance_criteria s),
      w_mutations := push_bounded (w_mutations s)
        \<lparr>wm_operation = bounded op, wm_paths = map bounded ps, wm_revision = r\<rparr> MAX_WORK_MUTATIONS\<rparr>"
  have "quiet ?t (foldl (record_mutated_path op r) ?t (map bounded ps))"
    using mutated_path_marks [of op r ?t "map bounded ps"] by (simp add: quiet_def)
  moreover have "quiet s ?t" by (simp add: quiet_def)
  ultimately show ?thesis
    by (simp add: record_mutation_def Let_def quiet_then_select quiet_trans)
qed

lemma quiet_blocker: "quiet s (record_blocker k c d r s)"
  by (simp add: record_blocker_def Let_def quiet_def completes_none_def done_marks_map
      split: option.split)

lemma quiet_clear: "quiet s (clear_blocker k s)"
  unfolding clear_blocker_def
  by (rule quiet_then_select) (simp add: quiet_def done_marks_map completes_none_def)

lemma quiet_drift: "quiet s (invalidate_for_workspace_change r s)"
  unfolding invalidate_for_workspace_change_def
  by (rule quiet_then_select) (simp add: quiet_def demote_marks)

lemma quiet_failed_verification: "quiet s (record_verification c sc False r ds ps s)"
  by (simp add: record_verification_def Let_def quiet_def)

lemma quiet_run_work: "\<not> certifies op \<Longrightarrow> quiet s (run_work digest op s)"
  by (cases op) (simp_all add: quiet_task quiet_add quiet_status quiet_outline quiet_mutation
      quiet_blocker quiet_clear quiet_drift quiet_failed_verification quiet_def [of s "record_evidence _ _ _ _ s"])

lemma quiet_runs:
  "list_all (\<lambda>op. \<not> certifies op) ops \<Longrightarrow> quiet s (fold (run_work digest) ops s)"
  by (induction ops arbitrary: s) (auto intro: quiet_trans quiet_run_work)

subsection \<open>What a passing verification closes\<close>

lemma close_covered_marks:
  "done_marks (close_covered ps r gs) \<subseteq> done_marks gs
     \<union> {(i, Some r) | i. \<exists>g\<in>set gs. sg_id g = i \<and> covered_by ps gs g}"
  by (force simp: done_marks_def close_covered_def Let_def mark_complete_def split: if_splits)

lemma close_root_marks:
  "done_marks (close_root b r gs) \<subseteq> done_marks gs
     \<union> {(i, Some r) | i. as_str i = ''task'' \<and> b
          \<and> (\<forall>g\<in>set gs. sg_paths g \<noteq> [] \<longrightarrow> sg_status g = Complete)}"
proof -
  have "done_marks (update_first (\<lambda>g. as_str (sg_id g) = ''task'') (mark_complete r) gs)
      \<subseteq> done_marks gs \<union> {(i, Some r) | i. as_str i = ''task''}"
    by (induction gs) (auto simp: mark_complete_def)
  then show ?thesis by (auto simp: close_root_def list_all_iff dest: subsetD)
qed

lemma close_covered_complete:
  "(\<forall>g\<in>set (close_covered ps r gs). sg_paths g \<noteq> [] \<longrightarrow> sg_status g = Complete) \<longleftrightarrow>
   (\<forall>g\<in>set gs. sg_paths g \<noteq> [] \<longrightarrow> sg_status g = Complete
      \<or> (\<exists>h\<in>set gs. sg_id h = sg_id g \<and> covered_by ps gs h))"
proof -
  let ?ids = "set (map sg_id (filter (covered_by ps gs) gs))"
  have ids: "(\<exists>h\<in>set gs. sg_id h = sg_id g \<and> covered_by ps gs h) \<longleftrightarrow> sg_id g \<in> ?ids" for g
    by (simp add: image_iff) metis
  have fields: "sg_paths (if c then mark_complete r g else g) = sg_paths g"
    "sg_status (if c then mark_complete r g else g) = Complete \<longleftrightarrow> c \<or> sg_status g = Complete" for c g
    by (simp_all add: mark_complete_def)
  show ?thesis
    unfolding ids close_covered_def Let_def set_map [of "\<lambda>g. if _ g then _ g else g"] ball_simps fields
    by blast
qed

lemma find_SomeD: "find P xs = Some x \<Longrightarrow> x \<in> set xs \<and> P x"
  by (induction xs) (auto split: if_splits)

lemma satisfy_supported_marks:
  "met_marks (map (satisfy_supported c) cs) \<subseteq> met_marks cs
     \<union> {(k, d) | k d. criterion_supported_by_verification (as_str d) c}"
  by (auto simp: met_marks_def satisfy_supported_def split: if_splits)

lemma update_first_keeps: "g \<in> set gs \<Longrightarrow> \<not> P g \<Longrightarrow> g \<in> set (update_first P f gs)"
  by (induction gs) auto

lemma complete_survives_select:
  assumes "distinct (map sg_id (w_subgoals s))" and "g \<in> set (w_subgoals s)" and "sg_status g = Complete"
  shows "g \<in> set (w_subgoals (select_active_subgoal s))"
proof (cases "find (runnable (w_subgoals s)) (w_subgoals s)")
  case (Some h)
  then have h: "h \<in> set (w_subgoals s)" "runnable (w_subgoals s) h"
    by (simp_all add: find_SomeD)
  then have "h \<noteq> g" using assms(3) by (auto simp: runnable_def)
  then have "sg_id h \<noteq> sg_id g"
    using assms(1,2) h(1) by (auto simp: distinct_map dest: inj_onD)
  then have "g \<in> set (update_first (\<lambda>k. sg_id k = sg_id h) (\<lambda>k. k\<lparr>sg_status := Active\<rparr>) (w_subgoals s))"
    using assms(2) by (intro update_first_keeps) auto
  then show ?thesis using Some by (simp add: select_active_subgoals)
qed (simp add: select_active_subgoals assms)

subsection \<open>Progress on a well-formed dependency graph\<close>

lemma ledger_graph_lookup:
  "distinct (map subgoal_key gs) \<Longrightarrow> g \<in> set gs \<Longrightarrow>
   map_of (ledger_graph gs) (subgoal_key g) = Some (subgoal_edges g)"
  by (induction gs) (auto simp: ledger_graph_def image_iff)

lemma finite_edges: "finite (edges g)"
proof (rule finite_subset)
  show "edges g \<subseteq> (\<Union>(a, ds) \<in> set g. {a} \<times> set ds)"
    by (auto simp: edges_def dest: map_of_SomeD)
qed auto

lemma graph_ok_runnable:
  assumes ok: "graph_ok gs" and unblocked: "\<forall>g\<in>set gs. sg_status g \<noteq> Blocked"
    and todo: "g \<in> set gs" "sg_status g \<noteq> Complete"
  shows "list_ex (runnable gs) gs"
proof -
  let ?todo = "subgoal_key ` {g \<in> set gs. sg_status g \<noteq> Complete}"
  have wf: "wf ((edges (ledger_graph gs))\<inverse>)"
    using ok by (intro finite_acyclic_wf_converse finite_edges) (simp add: graph_ok_def)
  obtain z where z: "z \<in> ?todo" and min: "\<And>y. (y, z) \<in> (edges (ledger_graph gs))\<inverse> \<Longrightarrow> y \<notin> ?todo"
    using wfE_min [OF wf, of "subgoal_key g" ?todo] todo by blast
  then obtain h where h: "h \<in> set gs" "sg_status h \<noteq> Complete" "z = subgoal_key h" by auto
  have "dependencies_complete h gs"
    unfolding dependencies_complete_def list_all_iff
  proof
    fix d assume d: "d \<in> set (sg_depends_on h)"
    then have "d \<in> sg_id ` set gs" using ok h(1) by (simp add: graph_ok_def)
    then obtain k where k: "find (\<lambda>candidate. sg_id candidate = d) gs = Some k"
      by (cases "find (\<lambda>candidate. sg_id candidate = d) gs") (auto simp: find_None_iff)
    then have mem: "k \<in> set gs" "sg_id k = d" by (auto dest: find_SomeD)
    have "map_of (ledger_graph gs) z = Some (subgoal_edges h)"
      using ok h by (simp add: ledger_graph_lookup graph_ok_def)
    then have "(subgoal_key k, z) \<in> (edges (ledger_graph gs))\<inverse>"
      using d mem by (auto simp: edges_def subgoal_edges_def subgoal_key_def)
    then have "sg_status k = Complete" using min mem by blast
    with k show "case find (\<lambda>candidate. sg_id candidate = d) gs of None \<Rightarrow> False
      | Some candidate \<Rightarrow> sg_status candidate = Complete" by simp
  qed
  moreover have "sg_status h \<noteq> Blocked" using unblocked h(1) by blast
  ultimately have "runnable gs h" using h(2) by (cases "sg_status h") (simp_all add: runnable_def)
  then show ?thesis using h(1) by (auto simp: list_ex_iff)
qed

lemma select_active_progress:
  assumes "graph_ok (w_subgoals s)" and "\<forall>g\<in>set (w_subgoals s). sg_status g \<noteq> Blocked"
  shows "list_all (\<lambda>g. sg_status g = Complete) (w_subgoals s)
    \<or> (\<exists>g. w_active_subgoal (select_active_subgoal s) = Some (sg_id g)
          \<and> g \<in> set (w_subgoals s) \<and> runnable (w_subgoals s) g)"
proof (cases "list_all (\<lambda>g. sg_status g = Complete) (w_subgoals s)")
  case False
  then obtain g where "g \<in> set (w_subgoals s)" "sg_status g \<noteq> Complete" by (auto simp: list_all_iff)
  then have "list_ex (runnable (w_subgoals s)) (w_subgoals s)"
    by (rule graph_ok_runnable [OF assms])
  then obtain h where "find (runnable (w_subgoals s)) (w_subgoals s) = Some h"
    by (cases "find (runnable (w_subgoals s)) (w_subgoals s)") (auto simp: find_None_iff list_ex_iff)
  then show ?thesis using find_SomeD by (fastforce simp: select_active_active)
qed simp

lemma merge_unblocked:
  "\<forall>g\<in>set gs. sg_status g \<noteq> Blocked \<Longrightarrow> \<forall>g\<in>set (merge_proposal gs p). sg_status g \<noteq> Blocked"
  by (auto simp: merge_proposal_def Let_def split: prod.splits if_splits
      dest!: subsetD [OF set_update_first_subset])

lemma merges_unblocked:
  "\<forall>g\<in>set gs. sg_status g \<noteq> Blocked \<Longrightarrow>
   \<forall>g\<in>set (foldl merge_proposal gs ps). sg_status g \<noteq> Blocked"
proof (induction ps arbitrary: gs)
  case (Cons p ps)
  show ?case using Cons.IH [OF merge_unblocked [OF Cons.prems]] by simp
qed simp

lemma merges_length:
  "list_all proposal_ok ps \<Longrightarrow> distinct (map fst ps) \<Longrightarrow>
   length (foldl merge_proposal gs ps) =
     length gs + length (filter (\<lambda>p. fst p \<notin> set (map subgoal_key gs)) ps)"
proof (induction ps arbitrary: gs)
  case (Cons p ps)
  obtain gid label ds paths where p: "p = (gid, label, ds, paths)" by (cases p)
  have "exact_str gid" using Cons.prems by (simp add: p proposal_ok_def)
  note keys = merge_keys [OF this, of gs label ds paths]
  have fresh: "\<forall>q\<in>set ps. fst q \<noteq> gid" using Cons.prems(2) by (auto simp: p)
  have "filter (\<lambda>q. fst q \<notin> set (map subgoal_key (merge_proposal gs p))) ps =
      filter (\<lambda>q. fst q \<notin> set (map subgoal_key gs)) ps"
    using fresh unfolding p keys by (auto intro!: filter_cong)
  moreover have "length (merge_proposal gs p) =
      (if gid \<in> set (map subgoal_key gs) then length gs else Suc (length gs))"
    using arg_cong [OF keys, of length] by (simp add: p split: if_splits)
  ultimately show ?case using Cons.IH [of "merge_proposal gs p"] Cons.prems by (simp add: p)
qed simp

lemma accepted_length:
  "list_all proposal_ok ps \<Longrightarrow> distinct (map fst ps) \<Longrightarrow> outline_accepted ps active gs \<Longrightarrow>
   length (foldl merge_proposal gs ps) \<le> MAX_WORK_SUBGOALS"
  by (simp add: merges_length outline_accepted_def Let_def subgoal_key_def [abs_def])

end
