(* ===== verification/Work_Properties.thy ===== *)
theory Work_Properties
  imports Work_Completion
begin

section \<open>Properties of the work ledger\<close>

text \<open>
  The ledger's theorems, over whole runs of its operations: bounds, where completion comes from,
  what a passing check closes, what a model-supplied outline may change, and two behaviours that
  keep a task open or grow the ledger without need.
\<close>

subsection \<open>Bounds over runs\<close>

lemma merge_proposal_within:
  "proposal_ok p \<Longrightarrow> list_all subgoal_within gs \<Longrightarrow> list_all subgoal_within (merge_proposal gs p)"
  by (cases p)
    (auto simp: merge_proposal_def proposal_ok_def Let_def subgoal_within_def
      intro!: list_all_update_first)

lemma merge_proposals_within:
  "list_all proposal_ok ps \<Longrightarrow> list_all subgoal_within gs \<Longrightarrow>
   list_all subgoal_within (foldl merge_proposal gs ps)"
proof (induction ps arbitrary: gs)
  case (Cons p ps)
  then show ?case using merge_proposal_within [of p gs] by simp
qed simp

lemma outline_within:
  assumes "work_within s" shows "work_within (fst (apply_model_update u s))"
proof (cases rule: apply_model_update_cases [of u s])
  case (accepted ps active)
  have "work_within (s\<lparr>w_subgoals := foldl merge_proposal (w_subgoals s) ps\<rparr>)"
    using accepted work_within_subgoals [OF assms]
    by (intro subgoals_update_within [OF assms] accepted_length merge_proposals_within) auto
  then have w: "work_within (s\<lparr>w_subgoals := foldl merge_proposal (w_subgoals s) ps, w_mode := Structured\<rparr>)"
    by (simp add: work_within_def)
  then have "work_within (s\<lparr>w_subgoals := foldl merge_proposal (w_subgoals s) ps, w_mode := Structured,
      w_active_subgoal := Some (bounded a)\<rparr>)" for a
    by (simp add: work_within_def)
  with w accepted show ?thesis by (auto intro: select_active_within split: option.split)
qed (use assms in simp)

lemma run_work_within: "work_within s \<Longrightarrow> work_within (run_work digest op s)"
  by (cases op) (simp_all add: work_within_intros outline_within)

lemma runs_within: "work_within s \<Longrightarrow> work_within (fold (run_work digest) ops s)"
  by (induction ops arbitrary: s) (simp_all add: run_work_within)


subsection \<open>Where completion comes from\<close>

text \<open>C8: The model cannot certify its own work: over any run without a passing verification and
  without the two explicit status calls, no subgoal becomes complete (or complete at a newer
  revision) and no acceptance criterion becomes satisfied, whatever outlines, prompts, evidence,
  mutations, blockers and failed checks the run holds.\<close>

theorem no_self_certification:
  assumes "list_all (\<lambda>op. \<not> certifies op) ops"
  shows "done_marks (w_subgoals (fold (run_work digest) ops s)) \<subseteq> done_marks (w_subgoals s)
    \<and> met_marks (w_acceptance_criteria (fold (run_work digest) ops s))
        \<subseteq> met_marks (w_acceptance_criteria s)"
  using quiet_runs [OF assms, of s digest] by (simp add: quiet_def)

lemma no_self_certification_witness:
  "let ops = [WAdd ''a'' ''first'' [], WMutation ''edit'' [''src/a.rs''] 1,
              WVerification ''cargo test'' '''' False 1 [] [''src/a.rs'']]
   in done_marks (w_subgoals (fold (run_work (\<lambda>s. s)) ops work_default)) \<subseteq> {}"
  unfolding Let_def
  using no_self_certification [of "[WAdd ''a'' ''first'' [], WMutation ''edit'' [''src/a.rs''] 1,
      WVerification ''cargo test'' '''' False 1 [] [''src/a.rs'']]" "\<lambda>s. s" work_default]
  by (simp add: work_default_def del: fold_simps)

lemma mark_complete_idem [simp]: "mark_complete r (mark_complete r g) = mark_complete r g"
  by (simp add: mark_complete_def)

lemma mark_complete_fields [simp]:
  "sg_id (mark_complete r g) = sg_id g" "sg_paths (mark_complete r g) = sg_paths g"
  "sg_status (mark_complete r g) = Complete" "sg_completed_revision (mark_complete r g) = Some r"
  by (simp_all add: mark_complete_def)

lemma closed_ids [simp]: "map sg_id (close_root b r (close_covered ps r gs)) = map sg_id gs"
  by (auto simp: close_root_def close_covered_def Let_def map_update_first_same)

lemma update_first_fixed: "f g = g \<Longrightarrow> g \<in> set gs \<Longrightarrow> g \<in> set (update_first P f gs)"
  by (induction gs) auto

lemma covered_closed:
  assumes "g \<in> set gs" and "covered_by ps gs g"
  shows "mark_complete r g \<in> set (close_root b r (close_covered ps r gs))"
proof -
  have "mark_complete r g \<in> set (close_covered ps r gs)"
    using assms by (force simp: close_covered_def Let_def image_iff)
  then show ?thesis by (auto simp: close_root_def intro: update_first_fixed)
qed


definition path_state :: work_state where
  "path_state = work_default\<lparr>w_mode := Structured, w_subgoals :=
     [\<lparr>sg_id = bounded ''edit'', sg_label = bounded ''edit a'', sg_status = Pending, sg_depends_on = [],
       sg_paths = [bounded ''src/a.rs''], sg_attempts = 0, sg_completed_revision = None\<rparr>]\<rparr>"


subsection \<open>Model-supplied outlines\<close>

text \<open>C11: The outline check finds a dependency cycle exactly when there is one: the depth-first search
  with its shared visited set reports a cycle if and only if the dependency relation has one.\<close>

theorem cycle_search_exact: "has_cycle g = (\<not> acyclic (edges g))"
  by (rule has_cycle_iff)


definition outline_json :: json where
  "outline_json = JObject [(''subgoals'', JArray
     [JObject [(''id'', JString ''a''), (''label'', JString ''first'')],
      JObject [(''id'', JString ''b''), (''label'', JString ''second''),
               (''depends_on'', JArray [JString ''a''])]])]"


text \<open>C25: The ledger never stalls on its own graph.  On a well-formed dependency graph with no blocked
  subgoal, selecting the active subgoal succeeds as long as any is incomplete: the subgoal it
  activates is one of the ledger's, is not complete, and has all its dependencies complete.\<close>

theorem selection_makes_progress:
  assumes "graph_ok (w_subgoals s)" and "\<forall>g\<in>set (w_subgoals s). sg_status g \<noteq> Blocked"
    and "\<not> list_all (\<lambda>g. sg_status g = Complete) (w_subgoals s)"
  shows "\<exists>g\<in>set (w_subgoals s). w_active_subgoal (select_active_subgoal s) = Some (sg_id g)
    \<and> sg_status g \<noteq> Complete \<and> dependencies_complete g (w_subgoals s)"
  using select_active_progress [OF assms(1,2)] assms(3) by (auto simp: runnable_def)

lemma path_state_graph: "graph_ok (w_subgoals path_state)"
proof -
  have "edges (ledger_graph (w_subgoals path_state)) = {}"
    by (auto simp: edges_def ledger_graph_def path_state_def subgoal_edges_def split: if_splits)
  then show ?thesis
    by (simp add: graph_ok_def acyclic_def path_state_def exact_bounded exact_str_def work_limits)
qed

lemma selection_makes_progress_witness:
  "w_active_subgoal (select_active_subgoal path_state) = Some (bounded ''edit'')"
  using selection_makes_progress [OF path_state_graph] by (simp add: path_state_def)

subsection \<open>A subgoal without paths cannot be closed by checking\<close>

fun observes :: "work_op \<Rightarrow> bool" where
  "observes (WVerification c sc b r ds ps) = True"
| "observes (WEvidence k p d r) = True"
| "observes (WBlocker k c d r) = True"
| "observes (WClear k) = True"
| "observes (WDrift r) = True"
| "observes (WSatisfy k) = True"
| "observes _ = False"

definition open_pathless :: "bounded_text \<Rightarrow> work_subgoal list \<Rightarrow> bool" where
  "open_pathless i gs \<longleftrightarrow> i \<in> set (map sg_id gs)
     \<and> list_all (\<lambda>g. sg_id g = i \<longrightarrow> sg_paths g = [] \<and> sg_status g \<noteq> Complete) gs"

lemma open_pathless_map:
  "open_pathless i gs \<Longrightarrow> (\<And>g. sg_id (f g) = sg_id g) \<Longrightarrow>
   (\<And>g. g \<in> set gs \<Longrightarrow> sg_id g = i \<Longrightarrow> sg_paths g = [] \<Longrightarrow> sg_status g \<noteq> Complete \<Longrightarrow>
      sg_paths (f g) = [] \<and> sg_status (f g) \<noteq> Complete) \<Longrightarrow> open_pathless i (map f gs)"
  by (auto simp: open_pathless_def list_all_iff image_image)

lemma open_pathless_update:
  "open_pathless i gs \<Longrightarrow> (\<And>g. sg_id (f g) = sg_id g) \<Longrightarrow>
   (\<And>g. P g \<Longrightarrow> sg_id g = i \<Longrightarrow> sg_paths g = [] \<Longrightarrow> sg_paths (f g) = [] \<and> sg_status (f g) \<noteq> Complete) \<Longrightarrow>
   open_pathless i (update_first P f gs)"
  unfolding open_pathless_def
  by (auto simp: map_update_first_same intro!: list_all_update_first)

lemma open_pathless_select:
  "open_pathless i (w_subgoals s) \<Longrightarrow> open_pathless i (w_subgoals (select_active_subgoal s))"
  by (auto simp: select_active_subgoals intro!: open_pathless_update split: option.split)

lemma open_pathless_covered:
  assumes "open_pathless i gs" shows "open_pathless i (close_covered ps r gs)"
proof -
  have "i \<notin> set (map sg_id (filter (covered_by ps gs) gs))"
    using assms by (auto simp: open_pathless_def list_all_iff covered_by_def)
  then show ?thesis
    using assms unfolding close_covered_def Let_def by (auto intro!: open_pathless_map)
qed

lemma open_pathless_root:
  "open_pathless i gs \<Longrightarrow> as_str i \<noteq> ''task'' \<Longrightarrow> open_pathless i (close_root b r gs)"
  by (auto simp: close_root_def intro!: open_pathless_update)

lemma run_work_open_pathless:
  assumes "observes op" and i: "open_pathless i (w_subgoals s)" and t: "as_str i \<noteq> ''task''"
  shows "open_pathless i (w_subgoals (run_work digest op s))"
proof (cases op)
  case (WVerification c sc b r ds ps)
  then show ?thesis using i t
    by (auto simp: record_verification_def Let_def
        intro!: open_pathless_select open_pathless_root open_pathless_covered)
next
  case (WBlocker k c d r)
  then show ?thesis using i
    by (auto simp: record_blocker_def Let_def intro!: open_pathless_map
        split: option.splits if_split_asm)
next
  case (WClear k)
  then show ?thesis using i
    by (auto simp: clear_blocker_def intro!: open_pathless_select open_pathless_map
        split: if_split_asm)
next
  case (WDrift r)
  then show ?thesis using i
    by (auto simp: invalidate_for_workspace_change_def demote_complete_def
        intro!: open_pathless_select open_pathless_map split: if_split_asm)
qed (use assms in \<open>auto simp: satisfy_criterion_def\<close>)

lemma runs_open_pathless:
  "list_all observes ops \<Longrightarrow> open_pathless i (w_subgoals s) \<Longrightarrow> as_str i \<noteq> ''task'' \<Longrightarrow>
   open_pathless i (w_subgoals (fold (run_work digest) ops s))"
  by (induction ops arbitrary: s) (simp_all add: run_work_open_pathless)

text \<open>A subgoal without paths (which an outline may propose) stays open under every check, blocker,
  evidence and invalidation the runtime records: however many verifications pass, completion stays
  blocked.  No caller of \<open>set_subgoal_status\<close>, the only other operation that completes a
  subgoal, exists outside the tests.\<close>

theorem pathless_subgoal_blocks:
  assumes "g \<in> set (w_subgoals s)" and "distinct (map sg_id (w_subgoals s))"
    and "sg_paths g = []" and "sg_status g \<noteq> Complete" and "as_str (sg_id g) \<noteq> ''task''"
    and "list_all observes ops"
  shows "blocks_completion (fold (run_work digest) ops s)"
proof -
  have "h = g" if "h \<in> set (w_subgoals s)" "sg_id h = sg_id g" for h
    using that assms(1,2) by (auto simp: distinct_map dest: inj_onD)
  then have "open_pathless (sg_id g) (w_subgoals s)"
    using assms(1,3,4) by (auto simp: open_pathless_def list_all_iff)
  from runs_open_pathless [OF assms(6) this assms(5)] show ?thesis
    using assms(5) by (fastforce simp: open_pathless_def list_all_iff blocks_completion_def list_ex_iff)
qed

definition pathless_goal :: work_subgoal where
  "pathless_goal = \<lparr>sg_id = bounded ''review'', sg_label = bounded ''review'', sg_status = Pending,
     sg_depends_on = [], sg_paths = [], sg_attempts = 0, sg_completed_revision = None\<rparr>"

lemma pathless_subgoal_blocks_witness:
  "blocks_completion (fold (run_work (\<lambda>s. s)) [WVerification ''cargo test'' '''' True 1 [] [''src/a.rs'']]
     (work_default\<lparr>w_subgoals := [pathless_goal]\<rparr>))"
  by (rule pathless_subgoal_blocks [of pathless_goal])
    (simp_all add: pathless_goal_def bounded_short work_limits)

subsection \<open>Long paths\<close>

text \<open>A path of 188 to 192 bytes gets a new \<open>path:\<close> subgoal each time it is modified: its identifier
  is cut to 192 bytes when stored and compared uncut afterwards, so the lookup never finds it.\<close>

theorem long_path_subgoal_duplicated:
  assumes "187 < length path" and "length path \<le> MAX_WORK_FIELD_BYTES"
    and "list_all (\<lambda>g. length (as_str (sg_id g)) \<le> MAX_WORK_FIELD_BYTES) (w_subgoals s)"
    and "length (w_subgoals s) + 2 \<le> MAX_WORK_SUBGOALS"
  shows "length (w_subgoals (ensure_path_subgoal path (ensure_path_subgoal path s)))
    = length (w_subgoals s) + 2"
proof -
  let ?new = "\<lparr>sg_id = bounded (''path:'' @ path), sg_label = bounded (''complete changes for '' @ path),
      sg_status = Pending, sg_depends_on = [], sg_paths = [bounded path],
      sg_attempts = 0, sg_completed_revision = None\<rparr>"
  let ?short = "\<lambda>gs. list_all (\<lambda>g. length (as_str (sg_id g)) \<le> MAX_WORK_FIELD_BYTES) gs"
  have step: "w_subgoals (ensure_path_subgoal path t) = w_subgoals t @ [?new]"
    if "?short (w_subgoals t)" "length (w_subgoals t) < MAX_WORK_SUBGOALS" for t
  proof -
    have "\<not> list_ex (\<lambda>g. as_str (sg_id g) = ''path:'' @ path) (w_subgoals t)"
      using that(1) assms(1) by (auto simp: list_ex_iff list_all_iff MAX_WORK_FIELD_BYTES_def)
    then show ?thesis using that(2)
      by (simp add: ensure_path_subgoal_def push_bounded_def append_then_evict_def Let_def)
  qed
  have one: "w_subgoals (ensure_path_subgoal path s) = w_subgoals s @ [?new]"
    using assms(3,4) by (intro step) auto
  have "w_subgoals (ensure_path_subgoal path (ensure_path_subgoal path s))
      = w_subgoals (ensure_path_subgoal path s) @ [?new]"
    using assms(3,4) bounded_length by (intro step) (auto simp: one)
  then show ?thesis by (simp add: one)
qed

lemma long_path_subgoal_duplicated_witness:
  "length (w_subgoals (ensure_path_subgoal (replicate 190 CHR ''a'')
     (ensure_path_subgoal (replicate 190 CHR ''a'') work_default))) = 2"
  using long_path_subgoal_duplicated [of "replicate 190 CHR ''a''" work_default]
  by (simp add: work_default_def work_limits)

subsection \<open>Prompts\<close>

lemma invalidate_task_frame [simp]:
  "w_objective (invalidate_task_completion s) = w_objective s"
  "w_constraints (invalidate_task_completion s) = w_constraints s"
  "w_mode (invalidate_task_completion s) = w_mode s"
  "w_task_revision (invalidate_task_completion s) = w_task_revision s"
  "w_subgoals (invalidate_task_completion s) = [] \<longleftrightarrow> w_subgoals s = []"
  "w_acceptance_criteria (invalidate_task_completion s) = map unsatisfy (w_acceptance_criteria s)"
  by (simp_all add: invalidate_task_completion_def)

lemma apply_objective_fields:
  "w_objective (fst (apply_objective_update ob m s)) = bounded ob"
  "w_objective (reset_task ob m s) = bounded ob"
  by (simp_all add: apply_objective_update_def reset_task_def Let_def)

lemma task_update_fields:
  "w_objective (apply_task_update digest p cs s) = bounded (normalized_objective p)
   \<and> (\<forall>c. cs = Some c \<longrightarrow> w_constraints (apply_task_update digest p cs s) = next_constraints c)
   \<and> w_task_fingerprint (apply_task_update digest p cs s)
       = task_fingerprint digest p (w_constraints (apply_task_update digest p cs s))
   \<and> (classify_work_mode p = Structured \<longrightarrow> w_mode (apply_task_update digest p cs s) = Structured
        \<and> w_subgoals (apply_task_update digest p cs s) \<noteq> [])
   \<and> (w_acceptance_criteria (apply_task_update digest p cs s) = [] \<longrightarrow> extract_criteria p = [])"
proof -
  obtain s1 c1 where s1: "(if as_str (w_objective s) = [] then
        (reset_task (normalized_objective p) (classify_work_mode p) s, True)
      else apply_objective_update (normalized_objective p) (classify_work_mode p) s) = (s1, c1)"
    by fastforce
  have o1: "w_objective s1 = bounded (normalized_objective p)"
    using arg_cong [OF s1, of fst] apply_objective_fields by (auto split: if_splits)
  obtain s2 c2 where s2: "(case cs of None \<Rightarrow> (s1, c1)
      | Some cs \<Rightarrow> (if next_constraints cs \<noteq> w_constraints s1
          then (s1\<lparr>w_constraints := next_constraints cs\<rparr>, True) else (s1, c1))) = (s2, c2)"
    by fastforce
  have o2: "w_objective s2 = bounded (normalized_objective p)"
    "\<And>c. cs = Some c \<Longrightarrow> w_constraints s2 = next_constraints c"
    using s2 o1 by (auto split: option.splits if_splits)
  show ?thesis
    unfolding apply_task_update_def Let_def s1 s2 prod.case
    using o2 by (auto simp: root_subgoal_def)
qed

end
