(* ===== verification/Workflow.thy ===== *)
theory Workflow
  imports Decision Work_Invariants
begin

section \<open>The workflow state machine (aether-core/src/workflow.rs)\<close>

text \<open>
  The deterministic phase machine of one task: recovery bookkeeping, the turn director, the
  verification plan, unresolved failures, and the completion gate.  Field prefixes: \<open>rc_\<close> recovery,
  \<open>td_\<close> director, \<open>cr_\<close> review, \<open>wd_\<close> diagnostic, \<open>vs_\<close> verification step, \<open>wp_\<close> progress,
  \<open>wf_\<close> failure, \<open>wk_\<close> the workflow.  \<open>VerificationStatus\<close> is in theory Work.
\<close>

definition MAX_WORKFLOW_RELEVANT_FILES :: nat where "MAX_WORKFLOW_RELEVANT_FILES = 32"
definition MAX_WORKFLOW_FAILURES :: nat where "MAX_WORKFLOW_FAILURES = 8"
definition MAX_WORKFLOW_FIELD_BYTES :: nat where "MAX_WORKFLOW_FIELD_BYTES = 256"
definition MAX_WORKFLOW_VERIFICATIONS :: nat where "MAX_WORKFLOW_VERIFICATIONS = 16"
definition MAX_WORKFLOW_DIAGNOSTICS :: nat where "MAX_WORKFLOW_DIAGNOSTICS = 8"
definition MAX_WORKFLOW_RECOVERY_PATHS :: nat where "MAX_WORKFLOW_RECOVERY_PATHS = 8"
definition MAX_COMPLETION_REVIEW_REASONS :: nat where "MAX_COMPLETION_REVIEW_REASONS = 8"

lemmas workflow_limits = MAX_WORKFLOW_RELEVANT_FILES_def MAX_WORKFLOW_FAILURES_def
  MAX_WORKFLOW_FIELD_BYTES_def MAX_WORKFLOW_VERIFICATIONS_def MAX_WORKFLOW_DIAGNOSTICS_def
  MAX_WORKFLOW_RECOVERY_PATHS_def MAX_COMPLETION_REVIEW_REASONS_def

definition field :: "rstr \<Rightarrow> bounded_text" where
  "field s = bounded_new s MAX_WORKFLOW_FIELD_BYTES"

datatype workflow_failure_category =
    FTool | FCompiler | FTest | FPatchConflict | FCommand | FVerification | FVerificationMismatch
  | FStaleEvidence | FPermission | FEnvironment | FBackend

fun failure_category_as_str :: "workflow_failure_category \<Rightarrow> rstr" where
  "failure_category_as_str FTool = ''tool''"
| "failure_category_as_str FCompiler = ''compiler''"
| "failure_category_as_str FTest = ''test''"
| "failure_category_as_str FPatchConflict = ''patch_conflict''"
| "failure_category_as_str FCommand = ''command''"
| "failure_category_as_str FVerification = ''verification''"
| "failure_category_as_str FVerificationMismatch = ''verification_mismatch''"
| "failure_category_as_str FStaleEvidence = ''stale_evidence''"
| "failure_category_as_str FPermission = ''permission''"
| "failure_category_as_str FEnvironment = ''environment''"
| "failure_category_as_str FBackend = ''backend''"

datatype recovery_action =
    RefreshEvidence | RetryEquivalent | RequestNewDecision | RecordBlocker | NoAction

fun recovery_action_as_str :: "recovery_action \<Rightarrow> rstr" where
  "recovery_action_as_str RefreshEvidence = ''refresh_evidence''"
| "recovery_action_as_str RetryEquivalent = ''retry_equivalent''"
| "recovery_action_as_str RequestNewDecision = ''request_new_decision''"
| "recovery_action_as_str RecordBlocker = ''record_blocker''"
| "recovery_action_as_str NoAction = ''no_action''"

subsection \<open>Recovery\<close>

record recovery_state =
  rc_active :: bool
  rc_category :: workflow_failure_category
  rc_action :: recovery_action
  rc_attempts :: u16
  rc_revision :: u32
  rc_affected_paths :: "bounded_text list"

definition recovery_default :: recovery_state where
  "recovery_default =
     \<lparr>rc_active = False, rc_category = FTool, rc_action = NoAction, rc_attempts = 0,
      rc_revision = 0, rc_affected_paths = []\<rparr>"

definition recovery_begin ::
  "workflow_failure_category \<Rightarrow> recovery_action \<Rightarrow> u32 \<Rightarrow> rstr list \<Rightarrow>
   recovery_state \<Rightarrow> recovery_state" where
  "recovery_begin category action revision affected_paths r =
     r\<lparr>rc_active := True, rc_category := category, rc_action := action,
       rc_attempts := saturating_add (rc_attempts r) 1, rc_revision := revision,
       rc_affected_paths := filter (\<lambda>p. as_str p \<noteq> [] \<and> \<not> is_truncated p)
         (map field (take MAX_WORKFLOW_RECOVERY_PATHS affected_paths))\<rparr>"

definition recovery_clear :: "recovery_state \<Rightarrow> recovery_state" where
  "recovery_clear r = r\<lparr>rc_active := False, rc_action := NoAction, rc_affected_paths := []\<rparr>"

definition refield :: "bounded_text \<Rightarrow> bounded_text" where
  "refield t = field (as_str t)"

definition recovery_enforce_bounds :: "recovery_state \<Rightarrow> recovery_state" where
  "recovery_enforce_bounds r =
     r\<lparr>rc_affected_paths := filter (\<lambda>p. as_str p \<noteq> [] \<and> \<not> is_truncated p)
         (map refield (take MAX_WORKFLOW_RECOVERY_PATHS (rc_affected_paths r)))\<rparr>"

subsection \<open>The turn director\<close>

datatype turn_phase = TDiscover | TUnderstand | TImplement | TRecover | TVerify | TReview | TDone

fun turn_phase_as_str :: "turn_phase \<Rightarrow> rstr" where
  "turn_phase_as_str TDiscover = ''discover''"
| "turn_phase_as_str TUnderstand = ''understand''"
| "turn_phase_as_str TImplement = ''implement''"
| "turn_phase_as_str TRecover = ''recover''"
| "turn_phase_as_str TVerify = ''verify''"
| "turn_phase_as_str TReview = ''review''"
| "turn_phase_as_str TDone = ''done''"

text \<open>The derived \<open>Ord\<close>: declaration order.\<close>

fun turn_phase_rank :: "turn_phase \<Rightarrow> nat" where
  "turn_phase_rank TDiscover = 0"
| "turn_phase_rank TUnderstand = 1"
| "turn_phase_rank TImplement = 2"
| "turn_phase_rank TRecover = 3"
| "turn_phase_rank TVerify = 4"
| "turn_phase_rank TReview = 5"
| "turn_phase_rank TDone = 6"

lemma turn_phase_rank_inj: "turn_phase_rank a = turn_phase_rank b \<longleftrightarrow> a = b"
  by (cases a; cases b; simp)

instantiation turn_phase :: linorder
begin

definition less_eq_turn_phase :: "turn_phase \<Rightarrow> turn_phase \<Rightarrow> bool" where
  "less_eq_turn_phase a b \<longleftrightarrow> turn_phase_rank a \<le> turn_phase_rank b"

definition less_turn_phase :: "turn_phase \<Rightarrow> turn_phase \<Rightarrow> bool" where
  "less_turn_phase a b \<longleftrightarrow> turn_phase_rank a < turn_phase_rank b"

instance
  by standard (auto simp: less_eq_turn_phase_def less_turn_phase_def turn_phase_rank_inj)

end

record turn_director_state =
  td_phase :: turn_phase
  td_revision :: u32
  td_transitions :: u16
  td_last_reason :: bounded_text

definition director_default :: turn_director_state where
  "director_default =
     \<lparr>td_phase = TDiscover, td_revision = 0, td_transitions = 0, td_last_reason = bounded_text_default\<rparr>"

definition transition :: "turn_phase \<Rightarrow> u32 \<Rightarrow> rstr \<Rightarrow> turn_director_state \<Rightarrow> turn_director_state" where
  "transition phase revision reason d =
     (let d = (if td_phase d \<noteq> phase \<or> td_revision d \<noteq> revision
               then d\<lparr>td_transitions := saturating_add (td_transitions d) 1\<rparr> else d)
      in d\<lparr>td_phase := phase, td_revision := revision, td_last_reason := field reason\<rparr>)"

definition director_enforce_bounds :: "turn_director_state \<Rightarrow> turn_director_state" where
  "director_enforce_bounds d = d\<lparr>td_last_reason := refield (td_last_reason d)\<rparr>"

subsection \<open>Reviews, diagnostics, verification steps, failures\<close>

record completion_review =
  cr_objective_present :: bool
  cr_acceptance_criteria_satisfied :: bool
  cr_work_complete :: bool
  cr_blockers_clear :: bool
  cr_evidence_current :: bool
  cr_verification_current :: bool
  cr_user_changes_preserved :: bool
  cr_workspace_revision :: u32
  cr_task_revision :: u32
  cr_reasons :: "bounded_text list"

definition ready :: "completion_review \<Rightarrow> bool" where
  "ready r =
     (cr_objective_present r \<and> cr_acceptance_criteria_satisfied r \<and> cr_work_complete r
      \<and> cr_blockers_clear r \<and> cr_evidence_current r \<and> cr_verification_current r
      \<and> cr_user_changes_preserved r)"

definition add_reason :: "rstr \<Rightarrow> completion_review \<Rightarrow> completion_review" where
  "add_reason reason r =
     (if length (cr_reasons r) < MAX_COMPLETION_REVIEW_REASONS
      then r\<lparr>cr_reasons := cr_reasons r @ [field reason]\<rparr> else r)"

text \<open>\<open>if !review.x { review.add_reason(..) }\<close>.\<close>

definition complain :: "bool \<Rightarrow> rstr \<Rightarrow> completion_review \<Rightarrow> completion_review" where
  "complain holds reason r = (if \<not> holds then add_reason reason r else r)"

record workflow_diagnostic =
  wd_path :: bounded_text
  wd_line :: u32
  wd_column :: "u32 option"
  wd_code :: bounded_text
  wd_symbol :: bounded_text
  wd_detail :: bounded_text

record verification_step =
  vs_command :: bounded_text
  vs_scope :: bounded_text
  vs_revision :: u32
  vs_required :: bool
  vs_status :: verification_status

definition verification_step_new :: "rstr \<Rightarrow> rstr \<Rightarrow> u32 \<Rightarrow> verification_step" where
  "verification_step_new command scope revision =
     \<lparr>vs_command = field command, vs_scope = field scope, vs_revision = revision,
      vs_required = True, vs_status = VPending\<rparr>"

datatype workflow_phase = PDiscover | PInspect | PModify | PVerify | PComplete

fun workflow_phase_as_str :: "workflow_phase \<Rightarrow> rstr" where
  "workflow_phase_as_str PDiscover = ''discover''"
| "workflow_phase_as_str PInspect = ''inspect''"
| "workflow_phase_as_str PModify = ''modify''"
| "workflow_phase_as_str PVerify = ''verify''"
| "workflow_phase_as_str PComplete = ''complete''"

datatype workflow_verification = WNotRequired | WPending | WPassed | WFailed

fun workflow_verification_as_str :: "workflow_verification \<Rightarrow> rstr" where
  "workflow_verification_as_str WNotRequired = ''not_required''"
| "workflow_verification_as_str WPending = ''pending''"
| "workflow_verification_as_str WPassed = ''passed''"
| "workflow_verification_as_str WFailed = ''failed''"

record workflow_progress =
  wp_discoveries :: u16
  wp_inspections :: u16
  wp_mutations :: u16
  wp_verifications :: u16
  wp_tool_results :: u16
  wp_automatic_evidence_reactions :: u16
  wp_diagnostic_hydrations :: u16
  wp_mutation_refreshes :: u16
  wp_stale_invalidations :: u16
  wp_verification_escalations :: u16
  wp_completion_rejections :: u16
  wp_consecutive_no_progress :: u16
  wp_stall_recovery_events :: u16

definition progress_default :: workflow_progress where
  "progress_default =
     \<lparr>wp_discoveries = 0, wp_inspections = 0, wp_mutations = 0, wp_verifications = 0,
      wp_tool_results = 0, wp_automatic_evidence_reactions = 0, wp_diagnostic_hydrations = 0,
      wp_mutation_refreshes = 0, wp_stale_invalidations = 0, wp_verification_escalations = 0,
      wp_completion_rejections = 0, wp_consecutive_no_progress = 0, wp_stall_recovery_events = 0\<rparr>"

definition increment :: "u16 \<Rightarrow> u16" where
  "increment counter = saturating_add counter 1"

definition note_discovery :: "workflow_progress \<Rightarrow> workflow_progress" where
  "note_discovery p = p\<lparr>wp_discoveries := increment (wp_discoveries p)\<rparr>"

definition note_inspection :: "workflow_progress \<Rightarrow> workflow_progress" where
  "note_inspection p = p\<lparr>wp_inspections := increment (wp_inspections p)\<rparr>"

definition note_mutation :: "workflow_progress \<Rightarrow> workflow_progress" where
  "note_mutation p = p\<lparr>wp_mutations := increment (wp_mutations p)\<rparr>"

definition note_verification :: "workflow_progress \<Rightarrow> workflow_progress" where
  "note_verification p = p\<lparr>wp_verifications := increment (wp_verifications p)\<rparr>"

definition note_tool_result :: "workflow_progress \<Rightarrow> workflow_progress" where
  "note_tool_result p = p\<lparr>wp_tool_results := increment (wp_tool_results p)\<rparr>"

definition note_automatic_evidence_reaction :: "workflow_progress \<Rightarrow> workflow_progress" where
  "note_automatic_evidence_reaction p =
     p\<lparr>wp_automatic_evidence_reactions := increment (wp_automatic_evidence_reactions p)\<rparr>"

definition note_diagnostic_hydration :: "workflow_progress \<Rightarrow> workflow_progress" where
  "note_diagnostic_hydration p =
     p\<lparr>wp_diagnostic_hydrations := increment (wp_diagnostic_hydrations p)\<rparr>"

definition note_mutation_refresh :: "workflow_progress \<Rightarrow> workflow_progress" where
  "note_mutation_refresh p = p\<lparr>wp_mutation_refreshes := increment (wp_mutation_refreshes p)\<rparr>"

definition note_stale_invalidation :: "workflow_progress \<Rightarrow> workflow_progress" where
  "note_stale_invalidation p = p\<lparr>wp_stale_invalidations := increment (wp_stale_invalidations p)\<rparr>"

definition note_verification_escalation :: "workflow_progress \<Rightarrow> workflow_progress" where
  "note_verification_escalation p =
     p\<lparr>wp_verification_escalations := increment (wp_verification_escalations p)\<rparr>"

definition note_completion_rejection :: "workflow_progress \<Rightarrow> workflow_progress" where
  "note_completion_rejection p =
     p\<lparr>wp_completion_rejections := increment (wp_completion_rejections p)\<rparr>"

definition note_meaningful_progress :: "workflow_progress \<Rightarrow> workflow_progress" where
  "note_meaningful_progress p = p\<lparr>wp_consecutive_no_progress := 0\<rparr>"

definition note_no_progress :: "workflow_progress \<Rightarrow> workflow_progress" where
  "note_no_progress p =
     p\<lparr>wp_consecutive_no_progress := increment (wp_consecutive_no_progress p)\<rparr>"

definition note_stall_recovery_event :: "workflow_progress \<Rightarrow> workflow_progress" where
  "note_stall_recovery_event p =
     p\<lparr>wp_stall_recovery_events := increment (wp_stall_recovery_events p)\<rparr>"

record workflow_failure =
  wf_key :: bounded_text
  wf_tool :: bounded_text
  wf_code :: bounded_text
  wf_message :: bounded_text
  wf_category :: workflow_failure_category
  wf_attempts :: u16
  wf_revision :: u32
  wf_diagnostics :: "workflow_diagnostic list"

definition failure_new_at_revision ::
  "rstr \<Rightarrow> rstr \<Rightarrow> rstr \<Rightarrow> rstr \<Rightarrow> workflow_failure_category \<Rightarrow> u32 \<Rightarrow>
   workflow_diagnostic list \<Rightarrow> workflow_failure" where
  "failure_new_at_revision key tool code message category revision diagnostics =
     \<lparr>wf_key = field key, wf_tool = field tool, wf_code = field code, wf_message = field message,
      wf_category = category, wf_attempts = 1, wf_revision = revision,
      wf_diagnostics = diagnostics\<rparr>"

definition failure_new :: "rstr \<Rightarrow> rstr \<Rightarrow> rstr \<Rightarrow> rstr \<Rightarrow> workflow_failure" where
  "failure_new key tool code message = failure_new_at_revision key tool code message FTool 0 []"

subsection \<open>The workflow state\<close>

record workflow_state =
  wk_phase :: workflow_phase
  wk_relevant_files :: "rstr list"
  wk_work :: work_state
  wk_verification :: workflow_verification
  wk_unresolved_failures :: "workflow_failure list"
  wk_progress :: workflow_progress
  wk_workspace_revision :: u32
  wk_verification_steps :: "verification_step list"
  wk_decision :: decision_state
  wk_recovery :: recovery_state
  wk_director :: turn_director_state
  wk_task_revision :: u32
  wk_completed_task_revision :: "u32 option"

definition workflow_new :: workflow_state where
  "workflow_new =
     \<lparr>wk_phase = PDiscover, wk_relevant_files = [], wk_work = work_default,
      wk_verification = WNotRequired, wk_unresolved_failures = [], wk_progress = progress_default,
      wk_workspace_revision = 0, wk_verification_steps = [], wk_decision = decision_new,
      wk_recovery = recovery_default, wk_director = director_default, wk_task_revision = 0,
      wk_completed_task_revision = None\<rparr>"

definition verification_open :: "workflow_state \<Rightarrow> bool" where
  "verification_open s \<longleftrightarrow> wk_verification s = WPending \<or> wk_verification s = WFailed"

definition director_choice :: "rstr list \<Rightarrow> bool \<Rightarrow> workflow_state \<Rightarrow> turn_phase \<times> rstr" where
  "director_choice modified stale_evidence s =
     (if rc_active (wk_recovery s) \<or> wk_unresolved_failures s \<noteq> [] then
        (TRecover, ''an actionable failure needs bounded recovery'')
      else if wk_completed_task_revision s = Some (wk_task_revision s) \<and> wk_phase s = PComplete then
        (TDone, ''current-revision completion review passed'')
      else if stale_evidence then
        (TRecover, ''observed evidence is stale and must be refreshed'')
      else if verification_open s then
        (TVerify, ''current mutations require scoped verification'')
      else if wk_phase s = PVerify \<and> modified \<noteq> [] then
        (TReview, ''verification passed; review the affected scope before finishing'')
      else if wk_phase s = PModify then
        (TImplement, ''an authorized implementation action is in progress'')
      else if wk_relevant_files s = [] then
        (TDiscover, ''no relevant repository path has been observed'')
      else (TUnderstand, ''relevant repository evidence is the next decision input''))"

definition sync_director :: "rstr list \<Rightarrow> bool \<Rightarrow> workflow_state \<Rightarrow> workflow_state" where
  "sync_director modified stale_evidence s =
     (let (phase, reason) = director_choice modified stale_evidence s
      in s\<lparr>wk_director := transition phase (wk_workspace_revision s) reason (wk_director s)\<rparr>)"

definition verification_current :: "rstr list \<Rightarrow> workflow_state \<Rightarrow> bool" where
  "verification_current modified s =
     (list_all (\<lambda>step. vs_revision step = wk_workspace_revision s \<and> vs_status step = VPassed)
        (filter vs_required (wk_verification_steps s))
      \<and> list_all (\<lambda>v. wv_status v = VPassed)
          (filter (\<lambda>v. wv_revision v = wk_workspace_revision s) (w_verifications (wk_work s)))
      \<and> (\<not> (modified \<noteq> [] \<or> verification_open s) \<or> wk_verification s = WPassed))"

definition completion_review :: "rstr list \<Rightarrow> bool \<Rightarrow> bool \<Rightarrow> workflow_state \<Rightarrow> completion_review" where
  "completion_review modified evidence_current user_changes_preserved s =
     (let r =
        \<lparr>cr_objective_present = (as_str (w_objective (wk_work s)) \<noteq> []),
         cr_acceptance_criteria_satisfied = criteria_satisfied (wk_work s),
         cr_work_complete = (\<not> blocks_completion (wk_work s)),
         cr_blockers_clear = (wk_unresolved_failures s = [] \<and> w_blockers (wk_work s) = []),
         cr_evidence_current = evidence_current,
         cr_verification_current = verification_current modified s,
         cr_user_changes_preserved = user_changes_preserved,
         cr_workspace_revision = wk_workspace_revision s,
         cr_task_revision = wk_task_revision s,
         cr_reasons = []\<rparr>;
        r = complain (cr_objective_present r)
              ''objective is missing from the current task state'' r;
        r = complain (cr_acceptance_criteria_satisfied r)
              ''one or more acceptance criteria remain unsatisfied'' r;
        r = complain (cr_work_complete r)
              ''structured work contains unresolved subgoals or blockers'' r;
        r = complain (cr_blockers_clear r)
              ''unresolved runtime blockers remain'' r;
        r = complain (cr_evidence_current r)
              ''required repository evidence is stale'' r;
        r = complain (cr_verification_current r)
              ''verification is missing, failed, stale, or scoped to an older revision'' r;
        r = complain (cr_user_changes_preserved r)
              ''agent-owned paths overlap user-owned dirty paths'' r
      in r)"

definition clear_recovery :: "workflow_state \<Rightarrow> workflow_state" where
  "clear_recovery s =
     (let s = s\<lparr>wk_recovery := recovery_clear (wk_recovery s)\<rparr>
      in if wk_unresolved_failures s = [] then sync_director [] False s else s)"

subsection \<open>Discovery and inspection\<close>

definition record_relevant_file_with_provenance ::
  "evidence_provenance \<Rightarrow> rstr \<Rightarrow> workflow_state \<Rightarrow> workflow_state" where
  "record_relevant_file_with_provenance provenance path s =
     (let path = field path
      in if is_truncated path \<or> as_str path = [] then s
         else if as_str path \<in> set (wk_relevant_files s) then s
         else
           (let path = into_string path;
                s = s\<lparr>wk_decision := record_decision_evidence provenance EvDiscovery path
                          ''relevant path observed'' 24 (wk_workspace_revision s) (wk_decision s),
                      wk_work := record_evidence ''discovery'' path ''relevant path observed''
                          (wk_workspace_revision s) (wk_work s),
                      wk_relevant_files := append_then_evict MAX_WORKFLOW_RELEVANT_FILES
                          (wk_relevant_files s) path,
                      wk_progress := note_discovery (wk_progress s)\<rparr>;
                s = (if wk_phase s = PDiscover \<or> wk_phase s = PComplete
                     then s\<lparr>wk_phase := PInspect\<rparr> else s)
            in sync_director [] False s))"

definition record_relevant_file :: "rstr \<Rightarrow> workflow_state \<Rightarrow> workflow_state" where
  "record_relevant_file path s = record_relevant_file_with_provenance ProvRepository path s"

definition record_inspection_with_provenance ::
  "evidence_provenance \<Rightarrow> workflow_state \<Rightarrow> workflow_state" where
  "record_inspection_with_provenance provenance s =
     (let s = s\<lparr>wk_progress := note_inspection (wk_progress s),
                wk_decision := record_decision_evidence provenance EvInspection ''''
                    ''targeted inspection completed'' 36 (wk_workspace_revision s) (wk_decision s),
                wk_work := record_evidence ''inspection'' '''' ''targeted inspection completed''
                    (wk_workspace_revision s) (wk_work s)\<rparr>;
          s = (if wk_phase s \<noteq> PVerify then s\<lparr>wk_phase := PInspect\<rparr> else s)
      in sync_director [] False s)"

definition record_inspection :: "workflow_state \<Rightarrow> workflow_state" where
  "record_inspection s = record_inspection_with_provenance ProvRepository s"

subsection \<open>Modification\<close>

definition begin_modification :: "workflow_state \<Rightarrow> workflow_state" where
  "begin_modification s =
     sync_director [] False (if wk_phase s \<noteq> PVerify then s\<lparr>wk_phase := PModify\<rparr> else s)"

definition stale_step :: "verification_step \<Rightarrow> verification_step" where
  "stale_step step = step\<lparr>vs_status := VStale\<rparr>"

definition record_mutation_scope :: "rstr \<Rightarrow> rstr list \<Rightarrow> workflow_state \<Rightarrow> workflow_state" where
  "record_mutation_scope operation paths s =
     (let s = s\<lparr>wk_progress := note_mutation (wk_progress s),
                wk_workspace_revision := saturating_add (wk_workspace_revision s) 1,
                wk_verification_steps := map stale_step (wk_verification_steps s),
                wk_phase := PVerify,
                wk_verification := WPending,
                wk_completed_task_revision := None,
                wk_decision := (wk_decision s)\<lparr>ds_progress_confidence :=
                    min (ds_progress_confidence (wk_decision s)) 80\<rparr>\<rparr>;
          s = s\<lparr>wk_work := record_mutation operation paths (wk_workspace_revision s) (wk_work s)\<rparr>
      in sync_director paths False s)"

definition record_mutation_plain :: "workflow_state \<Rightarrow> workflow_state" where
  "record_mutation_plain s = record_mutation_scope ''mutation'' [] s"

subsection \<open>Verification\<close>

definition plan_step :: "verification_step list \<Rightarrow> u32 \<Rightarrow> verification_step \<Rightarrow> verification_step list" where
  "plan_step steps workspace_revision step =
     (let step = step\<lparr>vs_revision := workspace_revision, vs_status := VPending\<rparr>
      in if as_str (vs_command step) = []
            \<or> list_ex (\<lambda>existing. vs_revision existing = vs_revision step
                                  \<and> vs_command existing = vs_command step) steps
         then steps else steps @ [step])"

definition set_verification_plan :: "verification_step list \<Rightarrow> workflow_state \<Rightarrow> workflow_state" where
  "set_verification_plan new_steps s =
     (let steps = foldl (\<lambda>steps step. plan_step steps (wk_workspace_revision s) step)
                    (wk_verification_steps s) new_steps
      in s\<lparr>wk_verification_steps :=
             (if MAX_WORKFLOW_VERIFICATIONS < length steps
              then drop (length steps - MAX_WORKFLOW_VERIFICATIONS) steps else steps)\<rparr>)"

definition pending_command :: "u32 \<Rightarrow> rstr \<Rightarrow> verification_step \<Rightarrow> bool" where
  "pending_command revision command step =
     (vs_revision step = revision \<and> vs_status step = VPending \<and> as_str (vs_command step) = command)"

definition record_verification_command ::
  "rstr \<Rightarrow> bool \<Rightarrow> workflow_state \<Rightarrow> workflow_state \<times> bool" where
  "record_verification_command command passed s =
     (if \<not> list_ex (pending_command (wk_workspace_revision s) command) (wk_verification_steps s)
      then (s, False)
      else
        (let s = s\<lparr>wk_verification_steps :=
               update_first (pending_command (wk_workspace_revision s) command)
                 (\<lambda>step. step\<lparr>vs_status := (if passed then VPassed else VFailed)\<rparr>)
                 (wk_verification_steps s)\<rparr>;
             all_passed = list_all (\<lambda>step. vs_status step = VPassed)
               (filter (\<lambda>step. vs_required step \<and> vs_revision step = wk_workspace_revision s)
                  (wk_verification_steps s));
             s = (if all_passed then s\<lparr>wk_progress := note_verification (wk_progress s),
                                       wk_verification := WPassed\<rparr>
                  else if passed then s\<lparr>wk_verification := WPending\<rparr>
                  else s\<lparr>wk_verification := WFailed\<rparr>)
         in (sync_director [] False (s\<lparr>wk_phase := PVerify\<rparr>), True)))"

definition record_work_verification ::
  "bool \<Rightarrow> rstr \<Rightarrow> rstr list \<Rightarrow> workflow_diagnostic list \<Rightarrow> workflow_state \<Rightarrow> workflow_state" where
  "record_work_verification passed command affected_paths diagnostics s =
     sync_director affected_paths False
       (s\<lparr>wk_work := record_verification command (as_str (ds_verification_scope (wk_decision s))) passed
            (wk_workspace_revision s) (map (\<lambda>d. as_str (wd_detail d)) diagnostics) affected_paths
            (wk_work s)\<rparr>)"

definition record_verification_scope ::
  "bool \<Rightarrow> rstr \<Rightarrow> rstr list \<Rightarrow> workflow_diagnostic list \<Rightarrow> workflow_state \<Rightarrow> workflow_state" where
  "record_verification_scope passed command affected_paths diagnostics s =
     (let s = (if passed then s\<lparr>wk_progress := note_verification (wk_progress s),
                                 wk_verification := WPassed, wk_phase := PVerify\<rparr>
               else s\<lparr>wk_verification := WFailed, wk_phase := PVerify\<rparr>)
      in sync_director affected_paths False
       (s\<lparr>wk_work := record_verification command (as_str (ds_verification_scope (wk_decision s))) passed
            (wk_workspace_revision s) (map (\<lambda>d. as_str (wd_detail d)) diagnostics) affected_paths
            (wk_work s)\<rparr>))"

definition record_verification_plain :: "bool \<Rightarrow> workflow_state \<Rightarrow> workflow_state" where
  "record_verification_plain passed s = record_verification_scope passed '''' [] [] s"

subsection \<open>Failures\<close>

fun recovery_for :: "workflow_failure_category \<Rightarrow> recovery_action" where
  "recovery_for FStaleEvidence = RefreshEvidence"
| "recovery_for FPermission = RecordBlocker"
| "recovery_for FEnvironment = RecordBlocker"
| "recovery_for FPatchConflict = RequestNewDecision"
| "recovery_for FCompiler = RequestNewDecision"
| "recovery_for FTest = RequestNewDecision"
| "recovery_for FVerification = RequestNewDecision"
| "recovery_for FVerificationMismatch = RequestNewDecision"
| "recovery_for FCommand = RequestNewDecision"
| "recovery_for FTool = RequestNewDecision"
| "recovery_for FBackend = RequestNewDecision"

definition phase_when_incomplete :: "workflow_state \<Rightarrow> workflow_phase" where
  "phase_when_incomplete s =
     (if verification_open s then PVerify
      else if wk_relevant_files s = [] then PDiscover else PInspect)"

definition failure_question :: "workflow_failure \<Rightarrow> rstr" where
  "failure_question f =
     ''recover from '' @ failure_category_as_str (wf_category f) @ '' failure: ''
       @ as_str (wf_message f)"

definition note_failure :: "workflow_failure \<Rightarrow> workflow_state \<Rightarrow> workflow_state" where
  "note_failure f s =
     s\<lparr>wk_work := record_blocker (as_str (wf_key f)) (failure_category_as_str (wf_category f))
           (as_str (wf_message f)) (wf_revision f) (wk_work s),
       wk_decision := record_question (''failure:'' @ as_str (wf_key f)) (failure_question f)
           (wk_decision s)\<rparr>"

definition record_failure :: "workflow_failure \<Rightarrow> workflow_state \<Rightarrow> workflow_state" where
  "record_failure f s =
     (let affected_paths = map (\<lambda>d. as_str (wd_path d)) (wf_diagnostics f);
          same = (\<lambda>existing. wf_key existing = wf_key f);
          s = note_failure f s;
          s = (if list_ex same (wk_unresolved_failures s) then
                 s\<lparr>wk_unresolved_failures := update_first same
                    (\<lambda>e. e\<lparr>wf_tool := wf_tool f, wf_code := wf_code f, wf_message := wf_message f,
                          wf_category := wf_category f, wf_revision := wf_revision f,
                          wf_diagnostics := wf_diagnostics f,
                          wf_attempts := saturating_add (wf_attempts e) 1\<rparr>)
                    (wk_unresolved_failures s)\<rparr>
               else s\<lparr>wk_unresolved_failures := wk_unresolved_failures s @ [f]\<rparr>);
          s = (if MAX_WORKFLOW_FAILURES < length (wk_unresolved_failures s)
               then s\<lparr>wk_unresolved_failures := drop 1 (wk_unresolved_failures s)\<rparr> else s);
          s = (if wk_phase s = PComplete then s\<lparr>wk_phase := phase_when_incomplete s\<rparr> else s);
          s = s\<lparr>wk_recovery := recovery_begin (wf_category f) (recovery_for (wf_category f))
                    (wf_revision f) affected_paths (wk_recovery s)\<rparr>
      in sync_director [] False s)"

definition clear_failure :: "rstr \<Rightarrow> workflow_state \<Rightarrow> workflow_state" where
  "clear_failure key s =
     (let s = s\<lparr>wk_unresolved_failures :=
                  filter (\<lambda>f. as_str (wf_key f) \<noteq> key) (wk_unresolved_failures s),
                wk_work := clear_blocker key (wk_work s),
                wk_decision := clear_question (''failure:'' @ key) (wk_decision s)\<rparr>;
          s = (if wk_unresolved_failures s = []
               then s\<lparr>wk_recovery := recovery_clear (wk_recovery s)\<rparr> else s)
      in sync_director [] False s)"

definition reset_for_workspace_change :: "workflow_state \<Rightarrow> workflow_state" where
  "reset_for_workspace_change s =
     (let affected_paths = wk_relevant_files s;
          s = s\<lparr>wk_phase := PDiscover, wk_relevant_files := [], wk_verification := WNotRequired,
                wk_verification_steps := map stale_step (wk_verification_steps s),
                wk_decision := decision_reset_for_workspace_change (wk_decision s),
                wk_work := invalidate_for_workspace_change (wk_workspace_revision s) (wk_work s),
                wk_recovery := recovery_begin FStaleEvidence RefreshEvidence
                    (wk_workspace_revision s) affected_paths (wk_recovery s)\<rparr>
      in sync_director [] True s)"

subsection \<open>Completion\<close>

definition complete_if_ready_with_evidence ::
  "rstr list \<Rightarrow> bool \<Rightarrow> bool \<Rightarrow> workflow_state \<Rightarrow> workflow_state \<times> bool" where
  "complete_if_ready_with_evidence modified evidence_current user_changes_preserved s =
     (let s = s\<lparr>wk_director := transition TReview (wk_workspace_revision s)
                  ''runtime completion review is evaluating current evidence'' (wk_director s)\<rparr>;
          is_ready = (wk_relevant_files s \<noteq> []
             \<and> (modified \<noteq> [] \<or> 0 < wp_inspections (wk_progress s))
             \<and> ready (completion_review modified evidence_current user_changes_preserved s));
          s = (if is_ready then
                 s\<lparr>wk_phase := PComplete, wk_completed_task_revision := Some (wk_task_revision s),
                   wk_director := transition TDone (wk_workspace_revision s)
                     ''current-revision completion review passed'' (wk_director s)\<rparr>
               else if wk_phase s = PComplete then
                 sync_director modified (\<not> evidence_current)
                   (s\<lparr>wk_phase := phase_when_incomplete s, wk_completed_task_revision := None\<rparr>)
               else s);
          s = (if \<not> is_ready
               then s\<lparr>wk_progress := note_completion_rejection (wk_progress s)\<rparr> else s)
      in (s, is_ready))"

definition complete_if_ready :: "rstr list \<Rightarrow> workflow_state \<Rightarrow> workflow_state \<times> bool" where
  "complete_if_ready modified s = complete_if_ready_with_evidence modified True True s"

definition has_unresolved_failures :: "workflow_state \<Rightarrow> bool" where
  "has_unresolved_failures s = (wk_unresolved_failures s \<noteq> [])"

subsection \<open>Bounds after restoring a session\<close>

definition enforce_step :: "verification_step \<Rightarrow> verification_step" where
  "enforce_step step =
     step\<lparr>vs_command := refield (vs_command step), vs_scope := refield (vs_scope step)\<rparr>"

definition enforce_diagnostic :: "workflow_diagnostic \<Rightarrow> workflow_diagnostic" where
  "enforce_diagnostic d =
     d\<lparr>wd_path := refield (wd_path d), wd_code := refield (wd_code d),
       wd_symbol := refield (wd_symbol d), wd_detail := refield (wd_detail d)\<rparr>"

definition enforce_failure :: "workflow_failure \<Rightarrow> workflow_failure" where
  "enforce_failure f =
     f\<lparr>wf_key := refield (wf_key f), wf_tool := refield (wf_tool f), wf_code := refield (wf_code f),
       wf_message := refield (wf_message f),
       wf_diagnostics := map enforce_diagnostic (take MAX_WORKFLOW_DIAGNOSTICS (wf_diagnostics f))\<rparr>"

definition workflow_enforce_bounds :: "workflow_state \<Rightarrow> workflow_state" where
  "workflow_enforce_bounds s =
     (let s = s\<lparr>wk_relevant_files := filter (\<lambda>p. p \<noteq> [])
                  (map (\<lambda>p. into_string (field p))
                    (take MAX_WORKFLOW_RELEVANT_FILES (wk_relevant_files s))),
                wk_unresolved_failures := map enforce_failure
                  (take MAX_WORKFLOW_FAILURES (wk_unresolved_failures s)),
                wk_verification_steps := map enforce_step
                  (take MAX_WORKFLOW_VERIFICATIONS (wk_verification_steps s)),
                wk_decision := decision_enforce_bounds (wk_decision s),
                wk_work := work_enforce_bounds (wk_work s),
                wk_recovery := recovery_enforce_bounds (wk_recovery s),
                wk_director := director_enforce_bounds (wk_director s)\<rparr>
      in s\<lparr>wk_task_revision := max (wk_task_revision s) (w_task_revision (wk_work s))\<rparr>)"

end
