(* ===== verification/Workflow_Invariants.thy ===== *)
theory Workflow_Invariants
  imports Workflow
begin

section \<open>Invariants of the workflow state machine\<close>

text \<open>
  The frame of the director projection, an exact description of the completion gate, the step
  relation of every operation of \<open>WorkflowState\<close> with its reachable states, the bounds and phase
  invariants over them, and the frames the properties about verification rest on.
\<close>

subsection \<open>The director projection\<close>

lemma sync_director_frame [frame_simps, simp]:
  "wk_phase (sync_director m b s) = wk_phase s"
  "wk_relevant_files (sync_director m b s) = wk_relevant_files s"
  "wk_work (sync_director m b s) = wk_work s"
  "wk_verification (sync_director m b s) = wk_verification s"
  "wk_unresolved_failures (sync_director m b s) = wk_unresolved_failures s"
  "wk_progress (sync_director m b s) = wk_progress s"
  "wk_workspace_revision (sync_director m b s) = wk_workspace_revision s"
  "wk_verification_steps (sync_director m b s) = wk_verification_steps s"
  "wk_decision (sync_director m b s) = wk_decision s"
  "wk_recovery (sync_director m b s) = wk_recovery s"
  "wk_task_revision (sync_director m b s) = wk_task_revision s"
  "wk_completed_task_revision (sync_director m b s) = wk_completed_task_revision s"
  by (simp_all add: sync_director_def split: prod.split)

lemma transition_simps [simp]:
  "td_phase (transition p r t d) = p" "td_revision (transition p r t d) = r"
  "td_last_reason (transition p r t d) = field t"
  by (simp_all add: transition_def Let_def)

lemma sync_director_director [simp]:
  "td_phase (wk_director (sync_director m b s)) = fst (director_choice m b s)"
  "td_revision (wk_director (sync_director m b s)) = wk_workspace_revision s"
  by (simp_all add: sync_director_def split: prod.split)

lemma transition_counts:
  "td_transitions (transition p r t d) =
     (if td_phase d \<noteq> p \<or> td_revision d \<noteq> r then saturating_add (td_transitions d) 1
      else td_transitions d)"
  by (simp add: transition_def Let_def)

lemma director_choice_done:
  "fst (director_choice m b s) = TDone \<Longrightarrow>
   wk_phase s = PComplete \<and> wk_unresolved_failures s = [] \<and> \<not> rc_active (wk_recovery s)
   \<and> wk_completed_task_revision s = Some (wk_task_revision s)"
  by (auto simp: director_choice_def split: if_splits)

lemma director_choice_recover:
  "rc_active (wk_recovery s) \<or> wk_unresolved_failures s \<noteq> [] \<Longrightarrow>
   fst (director_choice m b s) = TRecover"
  by (simp add: director_choice_def)

subsection \<open>The completion gate\<close>

definition completion_checks :: "rstr list \<Rightarrow> bool \<Rightarrow> bool \<Rightarrow> workflow_state \<Rightarrow> (bool \<times> rstr) list" where
  "completion_checks m e u s =
     [(as_str (w_objective (wk_work s)) \<noteq> [], ''objective is missing from the current task state''),
      (criteria_satisfied (wk_work s), ''one or more acceptance criteria remain unsatisfied''),
      (\<not> blocks_completion (wk_work s), ''structured work contains unresolved subgoals or blockers''),
      (wk_unresolved_failures s = [] \<and> w_blockers (wk_work s) = [],
       ''unresolved runtime blockers remain''),
      (e, ''required repository evidence is stale''),
      (verification_current m s,
       ''verification is missing, failed, stale, or scoped to an older revision''),
      (u, ''agent-owned paths overlap user-owned dirty paths'')]"

definition completion_reasons :: "rstr list \<Rightarrow> bool \<Rightarrow> bool \<Rightarrow> workflow_state \<Rightarrow> rstr list" where
  "completion_reasons m e u s = map snd (filter (\<lambda>c. \<not> fst c) (completion_checks m e u s))"

lemma complain_fields [simp]:
  "cr_objective_present (complain b t r) = cr_objective_present r"
  "cr_acceptance_criteria_satisfied (complain b t r) = cr_acceptance_criteria_satisfied r"
  "cr_work_complete (complain b t r) = cr_work_complete r"
  "cr_blockers_clear (complain b t r) = cr_blockers_clear r"
  "cr_evidence_current (complain b t r) = cr_evidence_current r"
  "cr_verification_current (complain b t r) = cr_verification_current r"
  "cr_user_changes_preserved (complain b t r) = cr_user_changes_preserved r"
  "cr_workspace_revision (complain b t r) = cr_workspace_revision r"
  "cr_task_revision (complain b t r) = cr_task_revision r"
  by (simp_all add: complain_def add_reason_def)

lemma complain_all_reasons:
  "cr_reasons r = map field ts \<Longrightarrow> length ts + length cs \<le> MAX_COMPLETION_REVIEW_REASONS \<Longrightarrow>
   cr_reasons (fold (\<lambda>(b, t). complain b t) cs r) =
     map field (ts @ map snd (filter (\<lambda>c. \<not> fst c) cs))"
proof (induction cs arbitrary: r ts)
  case (Cons c cs)
  obtain b t where c: "c = (b, t)" by (cases c)
  have "cr_reasons (complain b t r) = map field (ts @ (if b then [] else [t]))"
    using Cons.prems by (simp add: complain_def add_reason_def)
  from Cons.IH [OF this] show ?case using Cons.prems(2) by (cases b) (simp_all add: c)
qed simp

lemma completion_review_fields [simp]:
  "cr_objective_present (completion_review m e u s) \<longleftrightarrow> as_str (w_objective (wk_work s)) \<noteq> []"
  "cr_acceptance_criteria_satisfied (completion_review m e u s) = criteria_satisfied (wk_work s)"
  "cr_work_complete (completion_review m e u s) \<longleftrightarrow> \<not> blocks_completion (wk_work s)"
  "cr_blockers_clear (completion_review m e u s) \<longleftrightarrow>
     wk_unresolved_failures s = [] \<and> w_blockers (wk_work s) = []"
  "cr_evidence_current (completion_review m e u s) = e"
  "cr_verification_current (completion_review m e u s) = verification_current m s"
  "cr_user_changes_preserved (completion_review m e u s) = u"
  "cr_workspace_revision (completion_review m e u s) = wk_workspace_revision s"
  "cr_task_revision (completion_review m e u s) = wk_task_revision s"
  by (simp_all add: completion_review_def Let_def)

lemma completion_review_reasons:
  "cr_reasons (completion_review m e u s) = map field (completion_reasons m e u s)"
proof -
  let ?r = "\<lparr>cr_objective_present = (as_str (w_objective (wk_work s)) \<noteq> []),
         cr_acceptance_criteria_satisfied = criteria_satisfied (wk_work s),
         cr_work_complete = (\<not> blocks_completion (wk_work s)),
         cr_blockers_clear = (wk_unresolved_failures s = [] \<and> w_blockers (wk_work s) = []),
         cr_evidence_current = e, cr_verification_current = verification_current m s,
         cr_user_changes_preserved = u, cr_workspace_revision = wk_workspace_revision s,
         cr_task_revision = wk_task_revision s, cr_reasons = []\<rparr>"
  have "completion_review m e u s = fold (\<lambda>(b, t). complain b t) (completion_checks m e u s) ?r"
    by (simp add: completion_review_def completion_checks_def Let_def)
  moreover have "length (completion_checks m e u s) \<le> MAX_COMPLETION_REVIEW_REASONS"
    by (simp add: completion_checks_def workflow_limits)
  ultimately show ?thesis
    using complain_all_reasons [of ?r "[]" "completion_checks m e u s"]
    by (simp add: completion_reasons_def)
qed

lemma ready_iff:
  "ready (completion_review m e u s) \<longleftrightarrow>
     as_str (w_objective (wk_work s)) \<noteq> [] \<and> criteria_satisfied (wk_work s)
     \<and> \<not> blocks_completion (wk_work s) \<and> wk_unresolved_failures s = [] \<and> w_blockers (wk_work s) = []
     \<and> e \<and> verification_current m s \<and> u"
  by (auto simp: ready_def)

lemma ready_iff_no_reasons:
  "ready (completion_review m e u s) \<longleftrightarrow> completion_reasons m e u s = []"
  by (auto simp: ready_iff completion_reasons_def completion_checks_def)

definition completable :: "rstr list \<Rightarrow> bool \<Rightarrow> bool \<Rightarrow> workflow_state \<Rightarrow> bool" where
  "completable m e u s \<longleftrightarrow> wk_relevant_files s \<noteq> []
     \<and> (m \<noteq> [] \<or> 0 < wp_inspections (wk_progress s)) \<and> ready (completion_review m e u s)"

lemma completion_review_director [simp]:
  "ready (completion_review m e u (s\<lparr>wk_director := d\<rparr>)) = ready (completion_review m e u s)"
  by (simp add: ready_iff verification_current_def verification_open_def)

lemma complete_result: "snd (complete_if_ready_with_evidence m e u s) = completable m e u s"
  by (simp add: complete_if_ready_with_evidence_def completable_def Let_def)

lemma complete_accepts:
  "completable m e u s \<Longrightarrow>
   wk_phase (fst (complete_if_ready_with_evidence m e u s)) = PComplete
   \<and> wk_completed_task_revision (fst (complete_if_ready_with_evidence m e u s)) = Some (wk_task_revision s)
   \<and> td_phase (wk_director (fst (complete_if_ready_with_evidence m e u s))) = TDone"
  by (simp add: complete_if_ready_with_evidence_def completable_def Let_def)

lemma complete_rejects:
  "\<not> completable m e u s \<Longrightarrow>
   wk_phase (fst (complete_if_ready_with_evidence m e u s)) \<noteq> PComplete
   \<and> td_phase (wk_director (fst (complete_if_ready_with_evidence m e u s))) \<noteq> TDone"
  by (auto simp: complete_if_ready_with_evidence_def completable_def Let_def phase_when_incomplete_def
      dest!: director_choice_done)

lemma complete_frame [frame_simps, simp]:
  "wk_relevant_files (fst (complete_if_ready_with_evidence m e u s)) = wk_relevant_files s"
  "wk_work (fst (complete_if_ready_with_evidence m e u s)) = wk_work s"
  "wk_verification (fst (complete_if_ready_with_evidence m e u s)) = wk_verification s"
  "wk_unresolved_failures (fst (complete_if_ready_with_evidence m e u s)) = wk_unresolved_failures s"
  "wk_workspace_revision (fst (complete_if_ready_with_evidence m e u s)) = wk_workspace_revision s"
  "wk_verification_steps (fst (complete_if_ready_with_evidence m e u s)) = wk_verification_steps s"
  "wk_decision (fst (complete_if_ready_with_evidence m e u s)) = wk_decision s"
  "wk_recovery (fst (complete_if_ready_with_evidence m e u s)) = wk_recovery s"
  "wk_task_revision (fst (complete_if_ready_with_evidence m e u s)) = wk_task_revision s"
  by (simp_all add: complete_if_ready_with_evidence_def Let_def)

subsection \<open>The operations as a step relation\<close>

datatype workflow_op =
    OpRelevant evidence_provenance rstr
  | OpInspection evidence_provenance
  | OpBegin
  | OpMutation rstr "rstr list"
  | OpPlan "verification_step list"
  | OpCommand rstr bool
  | OpWorkVerification bool rstr "rstr list" "workflow_diagnostic list"
  | OpVerification bool rstr "rstr list" "workflow_diagnostic list"
  | OpFailure workflow_failure
  | OpClear rstr
  | OpRecover
  | OpDrift
  | OpComplete "rstr list" bool bool
  | OpRestore

fun run_op :: "workflow_op \<Rightarrow> workflow_state \<Rightarrow> workflow_state" where
  "run_op (OpRelevant p path) s = record_relevant_file_with_provenance p path s"
| "run_op (OpInspection p) s = record_inspection_with_provenance p s"
| "run_op OpBegin s = begin_modification s"
| "run_op (OpMutation operation ps) s = record_mutation_scope operation ps s"
| "run_op (OpPlan steps) s = set_verification_plan steps s"
| "run_op (OpCommand c b) s = fst (record_verification_command c b s)"
| "run_op (OpWorkVerification b c ps ds) s = record_work_verification b c ps ds s"
| "run_op (OpVerification b c ps ds) s = record_verification_scope b c ps ds s"
| "run_op (OpFailure f) s = record_failure f s"
| "run_op (OpClear k) s = clear_failure k s"
| "run_op OpRecover s = clear_recovery s"
| "run_op OpDrift s = reset_for_workspace_change s"
| "run_op (OpComplete m e u) s = fst (complete_if_ready_with_evidence m e u s)"
| "run_op OpRestore s = workflow_enforce_bounds s"

definition run_ops :: "workflow_op list \<Rightarrow> workflow_state \<Rightarrow> workflow_state" where
  "run_ops ops s = fold run_op ops s"

inductive workflow_move :: "workflow_state \<Rightarrow> workflow_state \<Rightarrow> bool" where
  op: "workflow_move s (run_op op s)"

inductive_cases workflow_moveE: "workflow_move s t"

inductive workflow_reachable :: "workflow_state \<Rightarrow> bool" where
  start: "workflow_reachable workflow_new"
| step: "workflow_reachable s \<Longrightarrow> workflow_move s t \<Longrightarrow> workflow_reachable t"

lemma run_ops_simps [simp]:
  "run_ops [] s = s" "run_ops (op # ops) s = run_ops ops (run_op op s)"
  by (simp_all add: run_ops_def)

lemma run_ops_append [simp]: "run_ops (as @ bs) s = run_ops bs (run_ops as s)"
  by (simp add: run_ops_def)

lemma run_ops_reachable: "workflow_reachable s \<Longrightarrow> workflow_reachable (run_ops ops s)"
  by (induction ops arbitrary: s) (auto intro: workflow_reachable.step workflow_move.op)

text \<open>An invariant of every single operation is an invariant of every run.\<close>

lemma run_ops_invariant:
  "(\<And>op s. Q op \<Longrightarrow> P s \<Longrightarrow> P (run_op op s)) \<Longrightarrow> list_all Q ops \<Longrightarrow> P s \<Longrightarrow> P (run_ops ops s)"
  by (induction ops arbitrary: s) auto

text \<open>The states of the task machine as one predicate: bounds, and what \<open>Complete\<close> means.\<close>

definition phase_ok :: "workflow_state \<Rightarrow> bool" where
  "phase_ok s \<longleftrightarrow>
     (wk_phase s = PComplete \<longrightarrow>
        wk_unresolved_failures s = [] \<and> \<not> verification_open s \<and> wk_completed_task_revision s \<noteq> None)
     \<and> (td_phase (wk_director s) = TDone \<longrightarrow> wk_phase s = PComplete)"

definition workflow_within :: "workflow_state \<Rightarrow> bool" where
  "workflow_within s \<longleftrightarrow>
     length (wk_relevant_files s) \<le> MAX_WORKFLOW_RELEVANT_FILES
     \<and> length (wk_unresolved_failures s) \<le> MAX_WORKFLOW_FAILURES
     \<and> length (wk_verification_steps s) \<le> MAX_WORKFLOW_VERIFICATIONS
     \<and> length (rc_affected_paths (wk_recovery s)) \<le> MAX_WORKFLOW_RECOVERY_PATHS
     \<and> work_within (wk_work s) \<and> decision_within (wk_decision s)"

lemma phase_ok_new: "phase_ok workflow_new"
  by (simp add: phase_ok_def workflow_new_def director_default_def)

lemma not_complete_phase_ok:
  "wk_phase s \<noteq> PComplete \<Longrightarrow> td_phase (wk_director s) \<noteq> TDone \<Longrightarrow> phase_ok s"
  by (simp add: phase_ok_def)

lemma sync_not_done: "wk_phase s \<noteq> PComplete \<Longrightarrow> phase_ok (sync_director m b s)"
  by (auto simp: phase_ok_def dest: director_choice_done)

lemma sync_phase_ok: "phase_ok s \<Longrightarrow> phase_ok (sync_director m b s)"
  by (auto simp: phase_ok_def verification_open_def dest: director_choice_done)

lemma verification_open_frame [simp]:
  "verification_open (s\<lparr>wk_director := d\<rparr>) = verification_open s"
  "verification_open (sync_director m b s) = verification_open s"
  by (simp_all add: verification_open_def)

lemma complete_not_open:
  "completable m e u s \<Longrightarrow> \<not> verification_open s"
  by (auto simp: completable_def ready_iff verification_current_def verification_open_def)

lemma complete_phase_ok: "phase_ok (fst (complete_if_ready_with_evidence m e u s))"
proof (cases "completable m e u s")
  case True
  then show ?thesis
    using complete_accepts [OF True] complete_not_open [OF True]
    by (simp add: phase_ok_def verification_open_def completable_def ready_iff)
next
  case False
  then show ?thesis using complete_rejects [OF False] by (simp add: not_complete_phase_ok)
qed

lemma phase_when_incomplete_not [simp]: "phase_when_incomplete s \<noteq> PComplete"
  by (simp add: phase_when_incomplete_def)

lemma relevant_phase_ok: "phase_ok s \<Longrightarrow> phase_ok (record_relevant_file_with_provenance p path s)"
  by (auto simp: record_relevant_file_with_provenance_def Let_def intro!: sync_not_done)

lemma record_failure_phase [simp]: "wk_phase (record_failure f s) \<noteq> PComplete"
  by (simp add: record_failure_def Let_def)

lemma record_failure_phase_ok: "phase_ok (record_failure f s)"
  by (simp add: record_failure_def Let_def sync_not_done)

lemma clear_failure_phase_ok: "phase_ok s \<Longrightarrow> phase_ok (clear_failure k s)"
  unfolding clear_failure_def Let_def
  by (rule sync_phase_ok) (simp add: phase_ok_def verification_open_def)

lemma restore_phase_ok: "phase_ok s \<Longrightarrow> phase_ok (workflow_enforce_bounds s)"
  by (auto simp: workflow_enforce_bounds_def phase_ok_def verification_open_def
      director_enforce_bounds_def Let_def)

lemma record_work_verification_phase_ok:
  "phase_ok s \<Longrightarrow> phase_ok (record_work_verification b c ps ds s)"
  unfolding record_work_verification_def
  by (rule sync_phase_ok) (simp add: phase_ok_def verification_open_def)

lemma clear_recovery_phase_ok: "phase_ok s \<Longrightarrow> phase_ok (clear_recovery s)"
  unfolding clear_recovery_def Let_def
  by (split if_split, intro conjI impI sync_phase_ok; simp add: phase_ok_def verification_open_def)

lemma set_verification_plan_phase_ok: "phase_ok s \<Longrightarrow> phase_ok (set_verification_plan steps s)"
  by (simp add: set_verification_plan_def Let_def phase_ok_def verification_open_def)

lemma record_verification_command_phase_ok:
  "phase_ok s \<Longrightarrow> phase_ok (fst (record_verification_command c b s))"
  by (simp add: record_verification_command_def Let_def sync_not_done)

lemma run_op_phase_ok: "phase_ok s \<Longrightarrow> phase_ok (run_op op s)"
  by (cases op)
    (simp_all add: relevant_phase_ok record_failure_phase_ok clear_failure_phase_ok
      complete_phase_ok restore_phase_ok record_work_verification_phase_ok clear_recovery_phase_ok
      set_verification_plan_phase_ok record_verification_command_phase_ok
      record_inspection_with_provenance_def begin_modification_def record_mutation_scope_def
      record_verification_scope_def reset_for_workspace_change_def Let_def sync_not_done)

subsection \<open>Bounds\<close>

interpretation relevant_log: bounded_log "append_then_evict MAX_WORKFLOW_RELEVANT_FILES"
  MAX_WORKFLOW_RELEVANT_FILES
  by (rule append_then_evict_log) (simp add: workflow_limits)

lemma workflow_within_new: "workflow_within workflow_new"
  by (simp add: workflow_within_def workflow_new_def recovery_default_def work_within_default
      decision_within_new)

lemma recovery_begin_within:
  "length (rc_affected_paths (recovery_begin c a r ps rc)) \<le> MAX_WORKFLOW_RECOVERY_PATHS"
  unfolding recovery_begin_def by (simp, rule le_trans [OF length_filter_le]) simp

lemma sync_director_within [simp]: "workflow_within (sync_director m b s) = workflow_within s"
  by (simp add: workflow_within_def)

lemma phase_update_within [simp]: "workflow_within (s\<lparr>wk_phase := p\<rparr>) = workflow_within s"
  by (simp add: workflow_within_def)

lemma relevant_within:
  "workflow_within s \<Longrightarrow> workflow_within (record_relevant_file_with_provenance p path s)"
  by (simp add: record_relevant_file_with_provenance_def Let_def workflow_within_def
      relevant_log.push_bounded_length record_decision_evidence_within record_evidence_within)

lemma inspection_within: "workflow_within s \<Longrightarrow> workflow_within (record_inspection_with_provenance p s)"
  by (simp add: record_inspection_with_provenance_def Let_def workflow_within_def
      record_decision_evidence_within record_evidence_within)

lemma decision_within_confidence:
  "decision_within d \<Longrightarrow>
   decision_within (d\<lparr>ds_progress_confidence := min (ds_progress_confidence d) 80\<rparr>)"
proof -
  assume d: "decision_within d"
  have "min (ds_progress_confidence d) 80 \<le> ds_progress_confidence d" by simp
  then have "unat (min (ds_progress_confidence d) 80) \<le> unat (ds_progress_confidence d)"
    by (simp only: word_le_nat_alt)
  with d show ?thesis by (simp add: decision_within_def)
qed

lemma mutation_within: "workflow_within s \<Longrightarrow> workflow_within (record_mutation_scope op ps s)"
  by (simp add: record_mutation_scope_def Let_def workflow_within_def record_mutation_within
      decision_within_confidence)

lemma plan_within: "workflow_within s \<Longrightarrow> workflow_within (set_verification_plan steps s)"
  by (simp add: set_verification_plan_def Let_def workflow_within_def)

lemma command_within:
  "workflow_within s \<Longrightarrow> workflow_within (fst (record_verification_command c b s))"
  by (simp add: record_verification_command_def Let_def workflow_within_def)

lemma work_verification_within:
  "workflow_within s \<Longrightarrow> workflow_within (record_work_verification b c ps ds s)"
  by (simp add: record_work_verification_def workflow_within_def record_verification_within)

lemma verification_within:
  "workflow_within s \<Longrightarrow> workflow_within (record_verification_scope b c ps ds s)"
  by (simp add: record_verification_scope_def Let_def workflow_within_def record_verification_within)

lemma failures_length:
  "length fs \<le> MAX_WORKFLOW_FAILURES \<Longrightarrow> length (drop 1 (fs @ [f])) \<le> MAX_WORKFLOW_FAILURES" by simp

lemma failure_within: "workflow_within s \<Longrightarrow> workflow_within (record_failure f s)"
  by (auto simp: record_failure_def note_failure_def Let_def workflow_within_def
      record_blocker_within record_question_within recovery_begin_within)

lemma clear_within: "workflow_within s \<Longrightarrow> workflow_within (clear_failure k s)"
  by (auto simp: clear_failure_def Let_def workflow_within_def recovery_clear_def
      clear_blocker_within clear_question_within intro: le_trans [OF length_filter_le])

lemma recover_within: "workflow_within s \<Longrightarrow> workflow_within (clear_recovery s)"
  by (simp add: clear_recovery_def Let_def workflow_within_def recovery_clear_def)

lemma drift_within: "workflow_within s \<Longrightarrow> workflow_within (reset_for_workspace_change s)"
  by (simp add: reset_for_workspace_change_def Let_def workflow_within_def recovery_begin_within
      invalidate_for_workspace_change_within decision_within_intros)

lemma completion_within:
  "workflow_within s \<Longrightarrow> workflow_within (fst (complete_if_ready_with_evidence m e u s))"
  by (simp add: workflow_within_def)

lemma recovery_enforce_within:
  "length (rc_affected_paths (recovery_enforce_bounds r)) \<le> MAX_WORKFLOW_RECOVERY_PATHS"
  unfolding recovery_enforce_bounds_def by (simp, rule le_trans [OF length_filter_le]) simp

lemma workflow_enforce_within: "workflow_within (workflow_enforce_bounds s)"
  by (auto simp: workflow_enforce_bounds_def Let_def workflow_within_def work_enforce_within
      decision_enforce_within recovery_enforce_within intro: le_trans [OF length_filter_le])

lemma run_op_within: "workflow_within s \<Longrightarrow> workflow_within (run_op op s)"
  by (cases op)
    (simp_all add: relevant_within inspection_within mutation_within plan_within command_within
      work_verification_within verification_within failure_within clear_within recover_within
      drift_within completion_within workflow_enforce_within begin_modification_def)

subsection \<open>Reachable states\<close>

lemma workflow_reachable_ok: "workflow_reachable s \<Longrightarrow> phase_ok s \<and> workflow_within s"
proof (induction rule: workflow_reachable.induct)
  case start
  then show ?case by (simp add: phase_ok_new workflow_within_new)
next
  case (step s t)
  then show ?case by (auto elim!: workflow_moveE simp: run_op_phase_ok run_op_within)
qed

subsection \<open>The workspace revision and the verification gate\<close>

lemma run_op_revision:
  "wk_workspace_revision (run_op op s) =
     (case op of OpMutation _ _ \<Rightarrow> saturating_add (wk_workspace_revision s) 1
      | _ \<Rightarrow> wk_workspace_revision s)"
  by (cases op) (simp_all add: record_relevant_file_with_provenance_def
      record_inspection_with_provenance_def begin_modification_def record_mutation_scope_def
      set_verification_plan_def record_verification_command_def record_work_verification_def
      record_verification_scope_def record_failure_def note_failure_def clear_failure_def
      clear_recovery_def reset_for_workspace_change_def workflow_enforce_bounds_def Let_def)

lemma run_op_revision_mono: "wk_workspace_revision s \<le> wk_workspace_revision (run_op op s)"
  by (simp add: run_op_revision saturating_add_ge split: workflow_op.split)

lemma run_ops_revision_mono: "wk_workspace_revision s \<le> wk_workspace_revision (run_ops ops s)"
  by (induction ops arbitrary: s) (simp, simp, meson order_trans run_op_revision_mono)

text \<open>
  The operations that may close the verification gate: a passing check, workspace drift, or a plan
  with an optional step (a failing optional command leaves every required step passed, and the code
  then reports the aggregate as passed).  The planner only builds required steps.
\<close>

fun closes_gate :: "workflow_op \<Rightarrow> bool" where
  "closes_gate (OpCommand c b) = b"
| "closes_gate (OpVerification b c ps ds) = b"
| "closes_gate (OpPlan steps) = (\<not> list_all vs_required steps)"
| "closes_gate OpDrift = True"
| "closes_gate _ = False"

definition gated :: "workflow_state \<Rightarrow> bool" where
  "gated s \<longleftrightarrow> verification_open s \<and> wk_phase s \<noteq> PComplete
     \<and> list_all vs_required (wk_verification_steps s)"

lemma gated_not_completable: "gated s \<Longrightarrow> \<not> completable m e u s"
  using complete_not_open by (auto simp: gated_def)

lemma gated_complete: "gated s \<Longrightarrow> gated (fst (complete_if_ready_with_evidence m e u s))"
  using complete_rejects [OF gated_not_completable, of s m e u]
  by (simp add: gated_def verification_open_def)

lemma failed_command_remains:
  assumes "list_ex (pending_command r c) steps" and "list_all vs_required steps"
  shows "\<not> list_all (\<lambda>step. vs_status step = VPassed)
    (filter (\<lambda>step. vs_required step \<and> vs_revision step = r)
      (update_first (pending_command r c) (\<lambda>step. step\<lparr>vs_status := VFailed\<rparr>) steps))"
  using assms by (induction steps) (auto simp: pending_command_def)

lemma plan_steps_required:
  "list_all vs_required steps \<Longrightarrow> list_all vs_required new \<Longrightarrow>
   list_all vs_required (foldl (\<lambda>steps step. plan_step steps r step) steps new)"
  by (induction new arbitrary: steps) (simp_all add: plan_step_def Let_def)

lemma plan_gated:
  "list_all vs_required new \<Longrightarrow> gated s \<Longrightarrow> gated (set_verification_plan new s)"
  using plan_steps_required [of "wk_verification_steps s" new "wk_workspace_revision s"]
  by (auto simp: gated_def verification_open_def set_verification_plan_def Let_def list_all_iff
      dest: in_set_dropD)

lemma command_gated: "gated s \<Longrightarrow> gated (fst (record_verification_command c False s))"
  using failed_command_remains [of "wk_workspace_revision s" c "wk_verification_steps s"]
  by (auto simp: gated_def verification_open_def record_verification_command_def Let_def
      intro!: list_all_update_first)

lemma run_op_gated: "\<not> closes_gate op \<Longrightarrow> gated s \<Longrightarrow> gated (run_op op s)"
proof (cases op)
  case (OpRestore)
  then show "gated s \<Longrightarrow> ?thesis"
    by (auto simp: gated_def verification_open_def workflow_enforce_bounds_def Let_def list_all_iff
        enforce_step_def dest: in_set_takeD)
qed (auto simp: gated_complete plan_gated command_gated,
    auto simp: gated_def verification_open_def
      record_relevant_file_with_provenance_def list_all_iff stale_step_def
      record_inspection_with_provenance_def begin_modification_def record_mutation_scope_def
      record_work_verification_def
      record_verification_scope_def record_failure_def note_failure_def clear_failure_def
      clear_recovery_def Let_def)

lemma run_ops_gated:
  "list_all (\<lambda>op. \<not> closes_gate op) ops \<Longrightarrow> gated s \<Longrightarrow> gated (run_ops ops s)"
  by (rule run_ops_invariant [where Q = "\<lambda>op. \<not> closes_gate op"]) (auto simp: run_op_gated)

lemma mutation_gated:
  "list_all vs_required (wk_verification_steps s) \<Longrightarrow> gated (record_mutation_scope op ps s)"
  by (auto simp: record_mutation_scope_def gated_def verification_open_def Let_def stale_step_def
      list_all_iff)

subsection \<open>Steps planned for an earlier revision\<close>

text \<open>
  A required step of an earlier revision: a mutation marks it stale and keeps it, a new plan only
  appends, and \<open>record_verification_command\<close> looks at steps of the current revision.  So until the
  plan overflows, no run of operations makes the review ready again.
\<close>

definition outdated :: "workflow_state \<Rightarrow> bool" where
  "outdated s \<longleftrightarrow>
     list_ex (\<lambda>step. vs_required step \<and> vs_revision step < wk_workspace_revision s)
       (wk_verification_steps s)"

fun steps_planned :: "workflow_op \<Rightarrow> nat" where
  "steps_planned (OpPlan steps) = length steps"
| "steps_planned _ = 0"

lemma outdated_not_completable: "outdated s \<Longrightarrow> \<not> completable m e u s"
  by (auto simp: outdated_def completable_def ready_iff verification_current_def list_ex_iff
      list_all_iff)

lemma plan_steps_keep: "set steps \<subseteq> set (foldl (\<lambda>steps step. plan_step steps r step) steps new)
    \<and> length (foldl (\<lambda>steps step. plan_step steps r step) steps new) \<le> length steps + length new"
proof (induction new arbitrary: steps)
  case (Cons a new)
  have "set steps \<subseteq> set (plan_step steps r a)" "length (plan_step steps r a) \<le> Suc (length steps)"
    by (auto simp: plan_step_def Let_def)
  with Cons [of "plan_step steps r a"] show ?case by fastforce
qed simp

lemma outdated_subset:
  "outdated s \<Longrightarrow> set (wk_verification_steps s) \<subseteq> set (wk_verification_steps t) \<Longrightarrow>
   wk_workspace_revision t = wk_workspace_revision s \<Longrightarrow> outdated t"
  by (auto simp: outdated_def list_ex_iff)

lemma plan_outdated:
  assumes "outdated s" and "length (wk_verification_steps s) + length new \<le> MAX_WORKFLOW_VERIFICATIONS"
  shows "outdated (set_verification_plan new s)
    \<and> length (wk_verification_steps (set_verification_plan new s))
        \<le> length (wk_verification_steps s) + length new"
  using plan_steps_keep [of "wk_verification_steps s" "wk_workspace_revision s" new] assms
  by (auto intro!: outdated_subset [OF assms(1)] simp: set_verification_plan_def Let_def)

lemma list_ex_map_keep: "(\<And>x. P (f x) = P x) \<Longrightarrow> list_ex P (map f xs) = list_ex P xs"
  by (induction xs) auto

lemma list_ex_update_first_keep:
  "(\<And>x. P (f x) = P x) \<Longrightarrow> list_ex P (update_first Q f xs) = list_ex P xs"
  by (induction xs) auto

lemma mutation_outdated: "outdated s \<Longrightarrow> outdated (record_mutation_scope op ps s)"
proof -
  assume "outdated s"
  moreover have "wk_workspace_revision s \<le> saturating_add (wk_workspace_revision s) 1"
    by (rule saturating_add_ge)
  ultimately show ?thesis
    by (auto simp: outdated_def record_mutation_scope_def Let_def stale_step_def list_ex_iff
        intro: less_le_trans)
qed

lemma run_op_outdated:
  assumes "outdated s"
    and "length (wk_verification_steps s) + steps_planned op \<le> MAX_WORKFLOW_VERIFICATIONS"
  shows "outdated (run_op op s)
    \<and> length (wk_verification_steps (run_op op s)) \<le> length (wk_verification_steps s) + steps_planned op"
proof (cases op)
  case (OpPlan new)
  then show ?thesis using plan_outdated [of s new] assms by simp
next
  case (OpMutation o' ps)
  then show ?thesis using mutation_outdated [OF assms(1)] by (simp add: record_mutation_scope_def Let_def)
next
  case (OpCommand c b)
  then show ?thesis
    using assms(1)
    by (auto simp: outdated_def record_verification_command_def Let_def list_ex_update_first_keep)
next
  case OpDrift
  then show ?thesis
    using assms(1) by (auto simp: outdated_def reset_for_workspace_change_def Let_def stale_step_def
        list_ex_map_keep)
next
  case OpRestore
  then show ?thesis
    using assms by (auto simp: outdated_def workflow_enforce_bounds_def Let_def enforce_step_def
        list_ex_map_keep)
qed (use assms(1) in \<open>auto simp: outdated_def
      record_relevant_file_with_provenance_def
      record_inspection_with_provenance_def begin_modification_def
      record_work_verification_def
      record_verification_scope_def record_failure_def note_failure_def clear_failure_def
      clear_recovery_def Let_def\<close>)

lemma run_ops_outdated:
  "outdated s \<Longrightarrow>
   length (wk_verification_steps s) + sum_list (map steps_planned ops) \<le> MAX_WORKFLOW_VERIFICATIONS \<Longrightarrow>
   outdated (run_ops ops s)"
proof (induction ops arbitrary: s)
  case (Cons op ops)
  have "outdated (run_op op s)
    \<and> length (wk_verification_steps (run_op op s)) \<le> length (wk_verification_steps s) + steps_planned op"
    using Cons.prems by (intro run_op_outdated) auto
  with Cons show ?case by simp
qed simp

end
