(* ===== verification/Workflow_Properties.thy ===== *)
theory Workflow_Properties
  imports Workflow_Invariants
begin

section \<open>Properties of the workflow state machine\<close>

text \<open>
  The theorems about the completion gate and about runs of workflow operations: when a task may be
  reported complete, what reopens it, what a run keeps, how failures enter and leave the state, and
  two situations in which the gate never opens again.
\<close>

subsection \<open>The completion gate\<close>

text \<open>C1: The completion gate is exact.  \<open>complete_if_ready_with_evidence\<close> answers true precisely when
  a relevant file is recorded, something was modified or inspected, the objective is present, every
  criterion is satisfied, no subgoal or blocker is open, no failure is unresolved, the evidence is
  current, the verification is current and user changes are preserved; and exactly then do the
  workflow phase become \<open>Complete\<close> and the director phase \<open>Done\<close>, the revision of the completed
  task being recorded.\<close>

theorem completion_gate_exact:
  "snd (complete_if_ready_with_evidence m e u s) =
     (wk_relevant_files s \<noteq> [] \<and> \<not> (m = [] \<and> wp_inspections (wk_progress s) = 0)
      \<and> as_str (w_objective (wk_work s)) \<noteq> [] \<and> criteria_satisfied (wk_work s)
      \<and> \<not> blocks_completion (wk_work s) \<and> wk_unresolved_failures s = [] \<and> w_blockers (wk_work s) = []
      \<and> e \<and> verification_current m s \<and> u)
   \<and> (wk_phase (fst (complete_if_ready_with_evidence m e u s)) = PComplete)
      = snd (complete_if_ready_with_evidence m e u s)
   \<and> (td_phase (wk_director (fst (complete_if_ready_with_evidence m e u s))) = TDone)
      = snd (complete_if_ready_with_evidence m e u s)"
proof -
  have pos: "0 < n \<longleftrightarrow> n \<noteq> 0" for n :: u16 by (rule word_neq_0_conv [symmetric])
  have "snd (complete_if_ready_with_evidence m e u s) =
     (wk_relevant_files s \<noteq> [] \<and> \<not> (m = [] \<and> wp_inspections (wk_progress s) = 0)
      \<and> as_str (w_objective (wk_work s)) \<noteq> [] \<and> criteria_satisfied (wk_work s)
      \<and> \<not> blocks_completion (wk_work s) \<and> wk_unresolved_failures s = [] \<and> w_blockers (wk_work s) = []
      \<and> e \<and> verification_current m s \<and> u)"
    unfolding complete_result completable_def ready_iff pos by blast
  then show ?thesis
    using complete_accepts [of m e u s] complete_rejects [of m e u s] complete_result [of m e u s] by blast
qed

text \<open>The review explains itself.  Its reasons are exactly the texts of the failed checks, in the
  order of the checks and none dropped by the cap of eight; so a review is ready precisely when it
  gives no reason.\<close>

theorem review_reasons_exact:
  "cr_reasons (completion_review m e u s) = map field (completion_reasons m e u s)
   \<and> ready (completion_review m e u s) = (cr_reasons (completion_review m e u s) = [])"
  by (simp add: completion_review_reasons ready_iff_no_reasons)



subsection \<open>Reachable states\<close>



fun mutation_count :: "workflow_op list \<Rightarrow> nat" where
  "mutation_count [] = 0"
| "mutation_count (OpMutation op ps # ops) = Suc (mutation_count ops)"
| "mutation_count (_ # ops) = mutation_count ops"

lemma mutation_count_Cons: "mutation_count (op # ops) = mutation_count [op] + mutation_count ops"
  by (cases op) simp_all

lemma run_op_count:
  "unat (wk_workspace_revision (run_op op s))
     = min (unat (wk_workspace_revision s) + mutation_count [op]) (2 ^ 32 - 1)"
  using unat_word_less [of "wk_workspace_revision s"]
  by (cases op) (simp_all add: run_op_revision unat_saturating_add del: run_op.simps)

text \<open>The workspace revision counts mutations, and nothing else: after any run it is the start
  revision plus the number of mutations in the run, saturating at the largest 32-bit value.\<close>

theorem revision_counts_mutations:
  "unat (wk_workspace_revision (run_ops ops s))
     = min (unat (wk_workspace_revision s) + mutation_count ops) (2 ^ 32 - 1)"
proof (induction ops arbitrary: s)
  case Nil
  show ?case using unat_word_less [of "wk_workspace_revision s"] by simp
next
  case (Cons op ops)
  show ?case
    by (simp only: run_ops_simps Cons.IH [of "run_op op s"] run_op_count mutation_count_Cons [of op ops])
qed

subsection \<open>Failures\<close>

lemma record_failure_fresh:
  assumes "list_all (\<lambda>g. wf_key g \<noteq> wf_key f) (wk_unresolved_failures s)"
    and "length (wk_unresolved_failures s) < MAX_WORKFLOW_FAILURES"
  shows "wk_unresolved_failures (record_failure f s) = wk_unresolved_failures s @ [f]"
proof -
  have "\<not> list_ex (\<lambda>g. wf_key g = wf_key f) (wk_unresolved_failures s)"
    using assms(1) by (auto simp: list_ex_iff list_all_iff)
  then show ?thesis using assms(2) by (simp add: record_failure_def note_failure_def Let_def)
qed

lemma record_failure_parts:
  "w_blockers (wk_work (record_failure f s)) =
     w_blockers (record_blocker (as_str (wf_key f)) (failure_category_as_str (wf_category f))
       (as_str (wf_message f)) (wf_revision f) (wk_work s))"
  "ds_unresolved_questions (wk_decision (record_failure f s)) =
     ds_unresolved_questions (record_question (''failure:'' @ as_str (wf_key f)) (failure_question f)
       (wk_decision s))"
  by (simp_all add: record_failure_def note_failure_def Let_def)

lemma clear_failure_parts:
  "wk_unresolved_failures (clear_failure key s) =
     filter (\<lambda>f. as_str (wf_key f) \<noteq> key) (wk_unresolved_failures s)"
  "w_blockers (wk_work (clear_failure key s)) =
     filter (\<lambda>b. as_str (wb_key b) \<noteq> key) (w_blockers (wk_work s))"
  "ds_unresolved_questions (wk_decision (clear_failure key s)) =
     filter (\<lambda>q. as_str (dq_key q) \<noteq> ''failure:'' @ key) (ds_unresolved_questions (wk_decision s))"
  by (simp_all add: clear_failure_def clear_blocker_def clear_question_def Let_def)

lemma record_blocker_fresh:
  assumes "list_all (\<lambda>b. as_str (wb_key b) \<noteq> key) (w_blockers s)"
    and "length (w_blockers s) < MAX_WORK_BLOCKERS"
  shows "\<exists>b. w_blockers (record_blocker key c d r s) = w_blockers s @ [b] \<and> wb_key b = bounded key"
proof -
  have "\<not> list_ex (\<lambda>b. as_str (wb_key b) = key) (w_blockers s)"
    using assms(1) by (auto simp: list_ex_iff list_all_iff)
  then show ?thesis
    using assms(2) by (auto simp: record_blocker_def Let_def push_bounded_def append_then_evict_def)
qed

lemma filter_keeps_all: "list_all P xs \<Longrightarrow> filter P xs = xs"
  by (induction xs) auto

definition failure_free :: "rstr \<Rightarrow> workflow_state \<Rightarrow> bool" where
  "failure_free key s \<longleftrightarrow>
     list_all (\<lambda>g. as_str (wf_key g) \<noteq> key) (wk_unresolved_failures s)
     \<and> list_all (\<lambda>b. as_str (wb_key b) \<noteq> key) (w_blockers (wk_work s))
     \<and> list_all (\<lambda>q. as_str (dq_key q) \<noteq> ''failure:'' @ key) (ds_unresolved_questions (wk_decision s))
     \<and> length (wk_unresolved_failures s) < MAX_WORKFLOW_FAILURES
     \<and> length (w_blockers (wk_work s)) < MAX_WORK_BLOCKERS
     \<and> length (ds_unresolved_questions (wk_decision s)) < MAX_DECISION_QUESTIONS"

text \<open>A failure recorded and then cleared leaves no trace where completion looks: for a key of at
  most 184 bytes (so that neither the ledger nor the \<open>failure:\<close> question cuts it) that is not yet
  recorded, and lists that are not full, clearing after recording restores the unresolved failures,
  the blockers and the open questions, while in between the director is in recovery and completion
  is refused.\<close>

theorem failure_record_clear_roundtrip:
  assumes "wf_key f = field key" and "length key \<le> 184" and "failure_free key s"
  shows "wk_unresolved_failures (clear_failure key (record_failure f s)) = wk_unresolved_failures s
    \<and> w_blockers (wk_work (clear_failure key (record_failure f s))) = w_blockers (wk_work s)
    \<and> ds_unresolved_questions (wk_decision (clear_failure key (record_failure f s)))
        = ds_unresolved_questions (wk_decision s)
    \<and> td_phase (wk_director (record_failure f s)) = TRecover
    \<and> \<not> snd (complete_if_ready_with_evidence m e u (record_failure f s))"
proof -
  have key: "as_str (wf_key f) = key"
    using assms(1,2) by (simp add: field_def bounded_new_short workflow_limits)
  have fresh: "list_all (\<lambda>g. wf_key g \<noteq> wf_key f) (wk_unresolved_failures s)"
    using assms(3) key by (auto simp: failure_free_def list_all_iff)
  have f: "wk_unresolved_failures (record_failure f s) = wk_unresolved_failures s @ [f]"
    using assms(3) by (intro record_failure_fresh fresh) (simp add: failure_free_def)
  obtain b where b: "w_blockers (wk_work (record_failure f s)) = w_blockers (wk_work s) @ [b]"
    "as_str (wb_key b) = key"
    using record_blocker_fresh [of key "wk_work s"] assms(2,3)
    by (fastforce simp: record_failure_parts key failure_free_def bounded_short work_limits)
  have q: "ds_unresolved_questions (wk_decision (record_failure f s)) = ds_unresolved_questions (wk_decision s)
    \<or> (\<exists>q. ds_unresolved_questions (wk_decision (record_failure f s)) =
        ds_unresolved_questions (wk_decision s) @ [q] \<and> as_str (dq_key q) = ''failure:'' @ key)"
  proof -
    have k: "as_str (decision_field (''failure:'' @ key)) = ''failure:'' @ key"
      using assms(2) by (simp add: decision_field_def bounded_new_short decision_limits)
    then have "\<not> list_ex (\<lambda>q. dq_key q = decision_field (''failure:'' @ key))
        (ds_unresolved_questions (wk_decision s))"
      using assms(3) by (auto simp: failure_free_def list_ex_iff list_all_iff)
    then show ?thesis using k assms(3)
      by (auto simp: record_failure_parts key record_question_def Let_def evict_then_append_def failure_free_def)
  qed
  have "rc_active (wk_recovery (record_failure f s))"
    by (simp add: record_failure_def note_failure_def Let_def recovery_begin_def)
  then have "td_phase (wk_director (record_failure f s)) = TRecover"
    by (simp add: record_failure_def note_failure_def Let_def director_choice_recover recovery_begin_def)
  moreover have "\<not> completable m e u (record_failure f s)"
    by (simp add: completable_def ready_iff f)
  ultimately show ?thesis
    using assms(3) b q key
    by (auto simp: clear_failure_parts f filter_keeps_all failure_free_def complete_result)
qed

lemma failure_record_clear_roundtrip_witness:
  "w_blockers (wk_work (clear_failure ''shell:cargo''
     (record_failure (failure_new ''shell:cargo'' ''shell'' ''exit'' ''failed'') workflow_new))) = []"
  using failure_record_clear_roundtrip [of "failure_new ''shell:cargo'' ''shell'' ''exit'' ''failed''"
      "''shell:cargo''" workflow_new]
  by (simp add: failure_new_def failure_new_at_revision_def failure_free_def workflow_new_def
      work_default_def decision_new_def workflow_limits work_limits decision_limits)

text \<open>A failure whose key is longer than 192 bytes (keys are built up to 256) never stops blocking:
  the ledger cuts the key when it records the blocker and compares it uncut when it clears it, so
  after the successful retry no failure is left, a blocker is, and completion is refused.\<close>

theorem long_failure_key_never_clears:
  assumes "wf_key f = field key" and "192 < length key" and "length key \<le> 256"
    and "wk_unresolved_failures s = []" and "length (w_blockers (wk_work s)) < MAX_WORK_BLOCKERS"
    and "list_all (\<lambda>b. length (as_str (wb_key b)) \<le> MAX_WORK_FIELD_BYTES) (w_blockers (wk_work s))"
  shows "wk_unresolved_failures (clear_failure key (record_failure f s)) = []
    \<and> w_blockers (wk_work (clear_failure key (record_failure f s))) \<noteq> []
    \<and> \<not> snd (complete_if_ready_with_evidence m e u (clear_failure key (record_failure f s)))"
proof -
  have key: "as_str (wf_key f) = key"
    using assms(1,3) by (simp add: field_def bounded_new_short workflow_limits)
  have "list_all (\<lambda>b. as_str (wb_key b) \<noteq> key) (w_blockers (wk_work s))"
    using assms(2,6) by (auto simp: list_all_iff work_limits)
  then obtain b where b: "w_blockers (wk_work (record_failure f s)) = w_blockers (wk_work s) @ [b]"
    "wb_key b = bounded key"
    using record_blocker_fresh [of key "wk_work s"] assms(5) by (fastforce simp: record_failure_parts key)
  have "as_str (bounded key) \<noteq> key"
    using bounded_length [of key] assms(2) by (auto simp: MAX_WORK_FIELD_BYTES_def)
  then have w: "w_blockers (wk_work (clear_failure key (record_failure f s))) \<noteq> []"
    by (simp add: clear_failure_parts b)
  moreover have "wk_unresolved_failures (record_failure f s) = [f]"
    using record_failure_fresh [of f s] assms(4) by (simp add: workflow_limits)
  ultimately show ?thesis
    by (simp add: clear_failure_parts(1) key complete_result completable_def ready_iff)
qed

lemma long_failure_key_never_clears_witness:
  "w_blockers (wk_work (clear_failure (replicate 200 CHR ''a'')
     (record_failure (failure_new (replicate 200 CHR ''a'') ''shell'' ''exit'' ''failed'') workflow_new))) \<noteq> []"
  using long_failure_key_never_clears [of "failure_new (replicate 200 CHR ''a'') ''shell'' ''exit'' ''failed''"
      "replicate 200 CHR ''a''" workflow_new]
  by (simp add: failure_new_def failure_new_at_revision_def workflow_new_def work_default_def work_limits)

subsection \<open>Plans of an earlier revision\<close>

text \<open>A required step planned for the current revision keeps the gate shut after the next mutation:
  whatever checks are then planned (short of overflowing the sixteen-step plan) and passed,
  completion is refused, because the stale step is kept and no operation looks at it again.\<close>

theorem stale_plan_never_completes:
  assumes "list_ex (\<lambda>step. vs_required step \<and> vs_revision step = wk_workspace_revision s)
      (wk_verification_steps s)"
    and "wk_workspace_revision s \<noteq> - 1"
    and "length (wk_verification_steps s) + sum_list (map steps_planned ops) \<le> MAX_WORKFLOW_VERIFICATIONS"
  shows "\<not> snd (complete_if_ready_with_evidence m e u (run_ops ops (record_mutation_scope op ps s)))"
proof -
  have gt: "wk_workspace_revision s < saturating_add (wk_workspace_revision s) 1"
    by (rule saturating_add_one_gt [OF assms(2)])
  have "outdated (record_mutation_scope op ps s)"
    using assms(1) gt by (auto simp: outdated_def record_mutation_scope_def Let_def stale_step_def list_ex_iff)
  then have "outdated (run_ops ops (record_mutation_scope op ps s))"
    by (rule run_ops_outdated) (use assms(3) in \<open>simp add: record_mutation_scope_def Let_def\<close>)
  then show ?thesis by (simp add: complete_result outdated_not_completable)
qed

lemma stale_plan_never_completes_witness:
  "\<not> snd (complete_if_ready_with_evidence [''a''] True True
     (run_ops [OpPlan [verification_step_new ''cargo test'' '''' 1], OpCommand ''cargo test'' True]
       (record_mutation_scope ''edit'' [''a'']
         (set_verification_plan [verification_step_new ''cargo test'' '''' 0] workflow_new))))"
proof (rule stale_plan_never_completes)
  show "list_ex (\<lambda>step. vs_required step \<and> vs_revision step =
      wk_workspace_revision (set_verification_plan [verification_step_new ''cargo test'' '''' 0] workflow_new))
     (wk_verification_steps (set_verification_plan [verification_step_new ''cargo test'' '''' 0] workflow_new))"
    by (simp add: set_verification_plan_def plan_step_def verification_step_new_def workflow_new_def Let_def
        field_def bounded_new_short workflow_limits)
qed (simp_all add: set_verification_plan_def plan_step_def verification_step_new_def workflow_new_def Let_def
      field_def bounded_new_short workflow_limits)

end
