(* ===== verification/Permission_Broker.thy ===== *)
theory Permission_Broker
  imports Core_Types
begin

section \<open>The permission brokers (aether-agent/src/permission.rs)\<close>

text \<open>
  The trait \<open>PermissionBroker\<close> as a locale, and its three implementations.  A decision future is
  either ready or waits on the receiving half of a oneshot channel; channels are numbered tickets.
  The channel library is not modelled: what the code does to it is recorded in \<open>bs_sent\<close> (the
  \<open>sender.send(decision)\<close> calls), whether a send still found its receiver is an argument, and what
  the receiver yields is the parameter \<open>receive\<close> of \<open>await_decision\<close>, about which \<open>oneshot\<close> states
  the documented behaviour: it yields the value sent on that channel, or an error.
  \<open>bs_poisoned\<close> is the state of the mutex.
\<close>

datatype permission_future = Ready permission_decision | Receive nat

definition await_decision :: "(nat \<Rightarrow> permission_decision option) \<Rightarrow> permission_future \<Rightarrow> permission_decision" where
  "await_decision receive f =
     (case f of Ready d \<Rightarrow> d | Receive t \<Rightarrow> (case receive t of None \<Rightarrow> Deny | Some d \<Rightarrow> d))"

definition oneshot :: "(nat \<times> permission_decision) list \<Rightarrow> (nat \<Rightarrow> permission_decision option) \<Rightarrow> bool" where
  "oneshot sent receive \<longleftrightarrow> (\<forall>t d. receive t = Some d \<longrightarrow> (t, d) \<in> set sent)"

subsection \<open>The trait\<close>

locale permission_broker =
  fixes needs_prompt :: "'s \<Rightarrow> 'd permission_request \<Rightarrow> bool"
    and decide :: "'s \<Rightarrow> 'd permission_request \<Rightarrow> 's \<times> permission_future"
    and cancel :: "'s \<Rightarrow> tool_call_id \<Rightarrow> 's"
  assumes unprompted_is_ready: "\<not> needs_prompt s r \<Longrightarrow> \<exists>d. snd (decide s r) = Ready d"
    and prompt_not_approved: "needs_prompt s r \<Longrightarrow> snd (decide s r) = Ready d \<Longrightarrow> d = Deny"
    and decide_keeps: "needs_prompt (fst (decide s r)) q = needs_prompt s q"
    and cancel_keeps: "needs_prompt (cancel s i) q = needs_prompt s q"
begin

text \<open>What the agent does with a broker: ask and cancel.\<close>

definition ask :: "'d permission_request + tool_call_id \<Rightarrow> 's \<Rightarrow> 's" where
  "ask a s = (case a of Inl r \<Rightarrow> fst (decide s r) | Inr i \<Rightarrow> cancel s i)"

lemma ask_keeps: "needs_prompt (fold ask as s) q = needs_prompt s q"
  by (induction as arbitrary: s) (simp_all add: ask_def decide_keeps cancel_keeps split: sum.split)

lemma asking_never_approves:
  "needs_prompt s r \<Longrightarrow> snd (decide (fold ask as s) r) = Ready d \<Longrightarrow> d = Deny"
  using prompt_not_approved ask_keeps by blast

end

subsection \<open>The two stateless brokers\<close>

definition no_needs_prompt :: "unit \<Rightarrow> 'd permission_request \<Rightarrow> bool" where
  "no_needs_prompt s r = False"

definition no_decide :: "unit \<Rightarrow> 'd permission_request \<Rightarrow> unit \<times> permission_future" where
  "no_decide s r = (s, Ready Deny)"

definition no_cancel :: "unit \<Rightarrow> tool_call_id \<Rightarrow> unit" where
  "no_cancel s i = s"

definition allow_needs_prompt :: "unit \<Rightarrow> 'd permission_request \<Rightarrow> bool" where
  "allow_needs_prompt s r = False"

definition allow_decide :: "unit \<Rightarrow> 'd permission_request \<Rightarrow> unit \<times> permission_future" where
  "allow_decide s r = (s, Ready AllowOnce)"

definition allow_cancel :: "unit \<Rightarrow> tool_call_id \<Rightarrow> unit" where
  "allow_cancel s i = s"

interpretation no_broker: permission_broker no_needs_prompt no_decide no_cancel
  by unfold_locales (simp_all add: no_needs_prompt_def no_decide_def)

interpretation allow_all_broker: permission_broker allow_needs_prompt allow_decide allow_cancel
  by unfold_locales (simp_all add: allow_needs_prompt_def allow_decide_def)

subsection \<open>The session broker\<close>

record 'd broker_state =
  bs_session_grants :: "(rstr \<times> permission_class) set"
  bs_pending :: "tool_call_id \<rightharpoonup> 'd permission_request \<times> nat"
  bs_poisoned :: bool
  bs_next_ticket :: nat
  bs_sent :: "(nat \<times> permission_decision) list"

definition broker_new :: "'d broker_state" where
  "broker_new =
     \<lparr>bs_session_grants = {}, bs_pending = Map.empty, bs_poisoned = False, bs_next_ticket = 0,
      bs_sent = []\<rparr>"

definition has_session_grant :: "rstr \<Rightarrow> permission_class \<Rightarrow> 'd broker_state \<Rightarrow> bool" where
  "has_session_grant tool class s =
     (if bs_poisoned s then False else (tool, class) \<in> bs_session_grants s)"

definition session_needs_prompt :: "'d broker_state \<Rightarrow> 'd permission_request \<Rightarrow> bool" where
  "session_needs_prompt s r = (\<not> has_session_grant (pr_tool r) (pr_class r) s)"

definition session_decide ::
  "'d broker_state \<Rightarrow> 'd permission_request \<Rightarrow> 'd broker_state \<times> permission_future" where
  "session_decide s r =
     (if has_session_grant (pr_tool r) (pr_class r) s then (s, Ready AllowSession)
      else
        (let ticket = bs_next_ticket s; s = s\<lparr>bs_next_ticket := ticket + 1\<rparr>
         in if bs_poisoned s then (s, Ready Deny)
            else (s\<lparr>bs_pending := (bs_pending s)(pr_call_id r \<mapsto> (r, ticket))\<rparr>, Receive ticket)))"

definition session_cancel :: "'d broker_state \<Rightarrow> tool_call_id \<Rightarrow> 'd broker_state" where
  "session_cancel s i =
     (if bs_poisoned s then s else s\<lparr>bs_pending := (bs_pending s)(i := None)\<rparr>)"

text \<open>\<open>receiver_alive\<close>: whether \<open>sender.send\<close> finds its receiver (its \<open>is_ok\<close>).\<close>

definition resolve ::
  "(nat \<Rightarrow> bool) \<Rightarrow> tool_call_id \<Rightarrow> permission_decision \<Rightarrow> 'd broker_state \<Rightarrow> 'd broker_state \<times> bool" where
  "resolve receiver_alive i decision s =
     (if bs_poisoned s then (s, False)
      else
        (case bs_pending s i of
           None \<Rightarrow> (s, False)
         | Some (request, ticket) \<Rightarrow>
             (let s = s\<lparr>bs_pending := (bs_pending s)(i := None)\<rparr>;
                  s = (if decision = AllowSession \<and> pr_class request \<noteq> BrowserAction
                       then s\<lparr>bs_session_grants :=
                              insert (pr_tool request, pr_class request) (bs_session_grants s)\<rparr>
                       else s)
              in (s\<lparr>bs_sent := bs_sent s @ [(ticket, decision)]\<rparr>, receiver_alive ticket))))"

interpretation session_broker: permission_broker session_needs_prompt session_decide session_cancel
  by unfold_locales
    (auto simp: session_needs_prompt_def session_decide_def session_cancel_def has_session_grant_def
      Let_def split: if_splits)

subsection \<open>Runs of the session broker\<close>

datatype 'd broker_op =
    BDecide "'d permission_request"
  | BCancel tool_call_id
  | BResolve tool_call_id permission_decision

fun run_broker :: "(nat \<Rightarrow> bool) \<Rightarrow> 'd broker_op \<Rightarrow> 'd broker_state \<Rightarrow> 'd broker_state" where
  "run_broker alive (BDecide r) s = fst (session_decide s r)"
| "run_broker alive (BCancel i) s = session_cancel s i"
| "run_broker alive (BResolve i d) s = fst (resolve alive i d s)"

text \<open>Tickets are handed out once: pending and answered ones are older than the next, and disjoint.\<close>

definition tickets_ok :: "'d broker_state \<Rightarrow> bool" where
  "tickets_ok s \<longleftrightarrow>
     (\<forall>i r t. bs_pending s i = Some (r, t) \<longrightarrow> t < bs_next_ticket s \<and> t \<notin> fst ` set (bs_sent s)
        \<and> pr_call_id r = i)
     \<and> (\<forall>i j r q t. bs_pending s i = Some (r, t) \<longrightarrow> bs_pending s j = Some (q, t) \<longrightarrow> i = j)
     \<and> (\<forall>t\<in>fst ` set (bs_sent s). t < bs_next_ticket s)
     \<and> distinct (map fst (bs_sent s))"

lemma tickets_new: "tickets_ok broker_new"
  by (simp add: tickets_ok_def broker_new_def)

lemma tickets_decide: "tickets_ok s \<Longrightarrow> tickets_ok (fst (session_decide s r))"
  by (fastforce simp: tickets_ok_def session_decide_def Let_def split: if_splits)

lemma tickets_cancel: "tickets_ok s \<Longrightarrow> tickets_ok (session_cancel s i)"
  by (auto simp: tickets_ok_def session_cancel_def)

lemma tickets_resolve: "tickets_ok s \<Longrightarrow> tickets_ok (fst (resolve alive i d s))"
  by (fastforce simp: tickets_ok_def resolve_def Let_def split: option.splits)

lemma tickets_run: "tickets_ok s \<Longrightarrow> tickets_ok (run_broker alive op s)"
  by (cases op) (simp_all add: tickets_decide tickets_cancel tickets_resolve)

lemma tickets_runs: "tickets_ok s \<Longrightarrow> tickets_ok (fold (run_broker alive) ops s)"
  by (induction ops arbitrary: s) (simp_all add: tickets_run)

subsection \<open>Grants\<close>

text \<open>A grant is in the start state or comes from resolving a pending request of that scope.\<close>

lemma run_broker_grants:
  "(tool, class) \<in> bs_session_grants (run_broker alive op s) \<Longrightarrow>
   (tool, class) \<in> bs_session_grants s
   \<or> (\<exists>i r t. op = BResolve i AllowSession \<and> bs_pending s i = Some (r, t) \<and> pr_tool r = tool
        \<and> pr_class r = class \<and> class \<noteq> BrowserAction)"
  by (cases op) (auto simp: session_decide_def session_cancel_def resolve_def Let_def
      split: if_splits option.splits)

lemma run_broker_pending:
  "bs_pending (run_broker alive op s) i = Some (r, t) \<Longrightarrow>
   bs_pending s i = Some (r, t) \<or> op = BDecide r"
  by (cases op) (auto simp: session_decide_def session_cancel_def resolve_def Let_def
      split: if_splits option.splits)

lemma runs_pending:
  "bs_pending (fold (run_broker alive) ops s) i = Some (r, t) \<Longrightarrow>
   bs_pending s i = Some (r, t) \<or> BDecide r \<in> set ops"
  by (induction ops arbitrary: s) (auto dest: run_broker_pending)

lemma runs_grants:
  "(tool, class) \<in> bs_session_grants (fold (run_broker alive) ops s) \<Longrightarrow>
   (tool, class) \<in> bs_session_grants s
   \<or> (class \<noteq> BrowserAction \<and> (\<exists>i. BResolve i AllowSession \<in> set ops)
      \<and> (\<exists>r. pr_tool r = tool \<and> pr_class r = class
             \<and> (BDecide r \<in> set ops \<or> (\<exists>i t. bs_pending s i = Some (r, t)))))"
proof (induction ops rule: rev_induct)
  case (snoc op ops)
  let ?t = "fold (run_broker alive) ops s"
  have "(tool, class) \<in> bs_session_grants (run_broker alive op ?t)" using snoc.prems by simp
  then consider (old) "(tool, class) \<in> bs_session_grants ?t"
    | (new) i r t where "op = BResolve i AllowSession" "bs_pending ?t i = Some (r, t)"
        "pr_tool r = tool" "pr_class r = class" "class \<noteq> BrowserAction"
    by (auto dest: run_broker_grants)
  then show ?case
  proof cases
    case old
    then show ?thesis using snoc.IH by auto
  next
    case new
    then show ?thesis using runs_pending [of alive ops s i r t] by auto
  qed
qed simp

subsection \<open>Waiting decisions\<close>

text \<open>The value sent on a ticket was resolved for the call the ticket was issued to.\<close>

definition answers_for :: "nat \<Rightarrow> tool_call_id \<Rightarrow> 'd broker_state \<Rightarrow> bool" where
  "answers_for t i s \<longleftrightarrow> t < bs_next_ticket s \<and> t \<notin> fst ` set (bs_sent s)
     \<and> (\<forall>j r. bs_pending s j = Some (r, t) \<longrightarrow> j = i)"

lemma run_answers_for:
  "answers_for t i s \<Longrightarrow> (\<And>d. op \<noteq> BResolve i d) \<Longrightarrow> answers_for t i (run_broker alive op s)"
  by (cases op) (fastforce simp: answers_for_def session_decide_def session_cancel_def resolve_def
      Let_def split: if_splits option.splits)+

lemma runs_answers_for:
  "answers_for t i s \<Longrightarrow> (\<And>d. BResolve i d \<notin> set ops) \<Longrightarrow>
   answers_for t i (fold (run_broker alive) ops s)"
proof (induction ops arbitrary: s)
  case (Cons op ops)
  have "op \<noteq> BResolve i d" "BResolve i d \<notin> set ops" for d
    using Cons.prems(2) [of d] by auto
  then show ?case using Cons.IH [OF run_answers_for [OF Cons.prems(1)]] by simp
qed simp

lemma decide_answers_for:
  "tickets_ok s \<Longrightarrow> session_decide s r = (s', Receive t) \<Longrightarrow> answers_for t (pr_call_id r) s'"
  by (fastforce simp: answers_for_def tickets_ok_def session_decide_def Let_def split: if_splits)

end
