(* ===== verification/Core_Properties.thy ===== *)
theory Core_Properties
  imports Decision Tools Permission_Broker Work_Text
begin

section \<open>Properties of the core types, tool calls and permissions\<close>

text \<open>
  Bounded texts, identifiers, workspace paths, redaction, call fingerprints, footprints, permits,
  the permission brokers and the decision state.
\<close>

subsection \<open>Texts and identifiers\<close>

text \<open>Cutting a well-formed UTF-8 text at a byte limit yields a well-formed prefix within the limit
  that loses at most three bytes more than the limit demands; it is marked truncated exactly when
  the text was longer.\<close>

theorem bounded_text_cut:
  assumes "utf8_valid s"
  shows "utf8_valid (as_str (bounded_new s n)) \<and> prefix (as_str (bounded_new s n)) s
    \<and> length (as_str (bounded_new s n)) \<le> n \<and> min (length s) n \<le> length (as_str (bounded_new s n)) + 3
    \<and> is_truncated (bounded_new s n) = (n < length s)"
  using bounded_cut_utf8 [OF assms, of n] by (simp add: is_truncated_iff)

lemma bounded_text_cut_witness:
  "utf8_valid (as_str (bounded_new [CHR ''a'', CHR 0xC3, CHR 0xA9] 2))"
proof -
  have "utf8_valid [CHR ''a'', CHR 0xC3, CHR 0xA9]"
    by (simp add: utf8_valid.simps utf8_head_def utf8_need_def byte_at_def utf8_second_ok_def cont_byte_def)
  from bounded_text_cut [OF this, of 2] show ?thesis by simp
qed


subsection \<open>Workspace paths\<close>


subsection \<open>Fingerprints, footprints and permits\<close>

text \<open>C29: The byte stream that identifies a tool call is injective: for well-formed JSON inputs, two calls
  of one tool feed the hash the same bytes only if their inputs are the same value.\<close>

theorem fingerprint_identifies_call:
  assumes "json_wf v" and "json_wf w"
  shows "(fingerprint_stream t v = fingerprint_stream t w) = (v = w)"
  by (rule fingerprint_stream_inj [OF assms])

lemma fingerprint_identifies_call_witness:
  "fingerprint_stream ''read'' (JArray [JString ''a'', JString ''b''])
     \<noteq> fingerprint_stream ''read'' (JArray [JString ''ab'', JString ''''])"
  using fingerprint_identifies_call [of "JArray [JString ''a'', JString ''b'']"
      "JArray [JString ''ab'', JString '''']" "''read''"] by simp

text \<open>The conflict relation is symmetric and safe: a call whose effects are unknown conflicts with
  every call, calls that only read never conflict, and a call that writes a resource conflicts with
  every call that touches an overlapping one.\<close>

theorem conflict_relation_safe:
  "conflicts f g = conflicts g f
   \<and> conflicts footprint_unknown g
   \<and> \<not> (only_reads f \<and> only_reads g \<and> conflicts f g)
   \<and> \<not> (writes_to f r \<and> touches g r \<and> \<not> conflicts f g)"
  using conflicts_sym [of f g] reads_never_conflict [of f g] write_conflicts [of f r g]
  by (auto simp: footprint_unknown_def conflicts_def)

text \<open>A permit authorises exactly one call: it validates for a call, tool and class precisely when it
  was issued for that call, that tool and that class; and any other use is answered with
  \<open>PermissionDenied\<close> for the tool.\<close>

theorem permit_is_bound:
  "(permit_validate (permit_new c t k) call_id tool class = Inr ()) = (c = call_id \<and> t = tool \<and> k = class)
   \<and> (\<exists>m. permit_validate (permit_new c t k) call_id tool class \<in> {Inr (), Inl (PermissionDenied tool m)})"
  by (auto simp: permit_validate_def permit_new_def)

text \<open>Preparing a call keeps it: the invocation rebuilt from the prepared action is the invocation
  that was prepared; the action is attributed to the model, needs user authorization exactly when
  the executor asks for a permission, and needs the permission class of the tool's definition.\<close>

theorem prepare_roundtrip:
  "into_invocation (executor_prepare digest tools i) = i
   \<and> pa_provenance (executor_prepare digest tools i) = ProvModel
   \<and> pa_effects (executor_prepare digest tools i) = te_footprint tools i
   \<and> req_user_authorization (pa_requirements (executor_prepare digest tools i))
      = (te_permission_request tools i \<noteq> None)
   \<and> req_permission (pa_requirements (executor_prepare digest tools i))
      = (case find (\<lambda>d. def_name d = inv_name i) (te_definitions tools) of
           None \<Rightarrow> ReadOnly | Some d \<Rightarrow> def_permission d)"
  by (simp add: into_invocation_prepare executor_prepare_simps executor_prepare_permission)

subsection \<open>The permission broker\<close>

text \<open>C30: Session grants come from the user and only from the user: after any run of the broker, a grant
  for a tool and class exists only if a request of that tool and class was put to the broker and some
  request was resolved with \<open>AllowSession\<close>, and never for a browser action.\<close>

theorem grants_need_a_decision:
  assumes "(tool, class) \<in> bs_session_grants (fold (run_broker alive) ops broker_new)"
  shows "class \<noteq> BrowserAction \<and> (\<exists>i. BResolve i AllowSession \<in> set ops)
    \<and> (\<exists>r. pr_tool r = tool \<and> pr_class r = class \<and> BDecide r \<in> set ops)"
  using runs_grants [OF assms] by (auto simp: broker_new_def)

definition shell_request :: "unit permission_request" where
  "shell_request = \<lparr>pr_call_id = ''c1'', pr_tool = ''shell'', pr_class = ProcessExecute,
     pr_operation = ''run'', pr_target = None, pr_details = ()\<rparr>"

lemma grants_need_a_decision_witness:
  "\<exists>r. pr_tool r = ''shell'' \<and> pr_class r = ProcessExecute
     \<and> BDecide r \<in> set [BDecide shell_request, BResolve ''c1'' AllowSession]"
  using grants_need_a_decision [of "''shell''" ProcessExecute "\<lambda>t. True"
      "[BDecide shell_request, BResolve ''c1'' AllowSession]"]
  by (simp add: shell_request_def broker_new_def session_decide_def resolve_def has_session_grant_def)

text \<open>The broker fails closed: a request that has to wait is answered \<open>Deny\<close> unless its own call is
  resolved, whatever else is asked, cancelled or resolved meanwhile, as long as the channel library
  delivers only what was sent.\<close>

theorem unresolved_is_denied:
  assumes "session_decide (fold (run_broker alive) before broker_new) r = (s, Receive t)"
    and "\<forall>d. BResolve (pr_call_id r) d \<notin> set ops"
    and "oneshot (bs_sent (fold (run_broker alive) ops s)) receive"
  shows "await_decision receive (Receive t) = Deny"
proof -
  have "answers_for t (pr_call_id r) s"
    by (rule decide_answers_for [OF tickets_runs [OF tickets_new] assms(1)])
  then have "answers_for t (pr_call_id r) (fold (run_broker alive) ops s)"
    by (rule runs_answers_for) (use assms(2) in blast)
  then have "receive t = None"
    using assms(3) by (cases "receive t") (force simp: oneshot_def answers_for_def)+
  then show ?thesis by (simp add: await_decision_def)
qed

lemma unresolved_is_denied_witness:
  "await_decision (\<lambda>t. None) (Receive 0) = Deny"
proof (rule unresolved_is_denied [where before = "[]" and alive = "\<lambda>t. True" and r = shell_request and ops = "[]"
      and s = "fst (session_decide broker_new shell_request)"])
  show "session_decide (fold (run_broker (\<lambda>t. True)) [] broker_new) shell_request
      = (fst (session_decide broker_new shell_request), Receive 0)"
    by (simp add: session_decide_def broker_new_def has_session_grant_def Let_def)
qed (simp_all add: oneshot_def)

subsection \<open>The decision state\<close>

text \<open>Candidates stay ranked: after inserting or strengthening a candidate the list is sorted by
  descending score (ties by path), holds at most the maximum, and a candidate that fell out is not
  better than any that stayed.\<close>

theorem candidates_best_kept:
  "sorted (map candidate_rank (sort_candidates cs)) \<and> mset (sort_candidates cs) \<subseteq># mset cs
   \<and> length (sort_candidates cs) = min MAX_DECISION_CANDIDATES (length cs)
   \<and> (\<forall>c\<in>set cs - set (sort_candidates cs). \<forall>d\<in>set (sort_candidates cs).
        candidate_rank d \<le> candidate_rank c)"
  using sort_candidates_best [of _ cs]
  by (auto simp: sort_candidates_sorted sort_candidates_mset) (simp add: sort_candidates_def)

lemma candidates_best_kept_witness:
  "sorted (map candidate_rank (sort_candidates
     [\<lparr>dc_path = bounded_text_default, dc_score = 3, dc_evidence = 0, dc_inspected = False,
       dc_modified = False, dc_stale = False\<rparr>]))"
  using candidates_best_kept [of "[\<lparr>dc_path = bounded_text_default, dc_score = 3, dc_evidence = 0,
      dc_inspected = False, dc_modified = False, dc_stale = False\<rparr>]"] by blast

end
