(* ===== verification/Events.thy ===== *)
theory Events
  imports Tools
begin

section \<open>The event stream (aether-core/src/events.rs)\<close>

text \<open>What the agent sends to the terminal and session layer, in order, over a bounded channel.\<close>

record event_sequence =
  seq_value :: u64

definition event_sequence_new :: "u64 \<Rightarrow> event_sequence" where
  "event_sequence_new value = \<lparr>seq_value = value\<rparr>"

record usage_metadata =
  input_tokens :: "u32 option"
  output_tokens :: "u32 option"
  total_tokens :: "u32 option"

datatype agent_event =
    TextDelta bounded_text
  | ToolStarted (started_call: tool_call_id) rstr rstr rstr "rstr option"
  | PermissionRequested "json permission_request"
  | PermissionResolved tool_call_id permission_decision
  | ToolOutput tool_call_id bounded_text
  | ToolFinished tool_call_id bool
  | UsageEvent usage_metadata
  | Warning bounded_text
  | ErrorEvent bounded_text
  | DoneEvent

fun event_kind :: "agent_event \<Rightarrow> rstr" where
  "event_kind (TextDelta _) = ''text_delta''"
| "event_kind (ToolStarted _ _ _ _ _) = ''tool_started''"
| "event_kind (PermissionRequested _) = ''permission_requested''"
| "event_kind (PermissionResolved _ _) = ''permission_resolved''"
| "event_kind (ToolOutput _ _) = ''tool_output''"
| "event_kind (ToolFinished _ _) = ''tool_finished''"
| "event_kind (UsageEvent _) = ''usage''"
| "event_kind (Warning _) = ''warning''"
| "event_kind (ErrorEvent _) = ''error''"
| "event_kind DoneEvent = ''done''"

end
