(* ===== verification/Scheduler.thy ===== *)
theory Scheduler
  imports Events Permission_Broker "HOL-Library.Multiset"
begin

section \<open>The tool scheduler (aether-agent/src/scheduler.rs)\<close>

text \<open>
  One batch of prepared tool calls: permissions are decided in order, then the loop repeatedly picks
  up to four calls none of which conflicts with an earlier unfinished call, starts them together and
  waits for all.  What the runtime supplies is a \<open>sched_env\<close>: what a look at the cancellation token
  sees (the looks are numbered by \<open>ss_tick\<close>), whether the event channel still has its consumer, and
  the executor, whose future is a number of polls that stay pending and then a result or a panic, or
  never ready.  \<open>ss_launched\<close> and \<open>ss_batches\<close> only record what was started.
\<close>

definition DEFAULT_MAX_PARALLEL_TOOLS :: nat where "DEFAULT_MAX_PARALLEL_TOOLS = 4"
definition MAX_TOOL_CALLS_PER_STEP :: nat where "MAX_TOOL_CALLS_PER_STEP = 64"

text \<open>agent.rs, \<open>AgentError\<close>; the backend's own error type is a parameter.\<close>

datatype 'b agent_error =
    BackendFailure 'b
  | EventChannelClosed
  | ToolFailure rstr
  | StepLimit
  | CompletionBlocked
  | TurnCancelled

record scheduled_call =
  sc_action :: prepared_action
  sc_permit :: "execution_permit option"
  sc_preflight :: "tool_result option"
  sc_footprint :: tool_footprint
  sc_permission :: rstr

record completed_call =
  cc_action :: prepared_action
  cc_executed :: bool

record scheduled_tool_result =
  sr_action :: prepared_action
  sr_result :: tool_result
  sr_executed :: bool
  sr_planned :: bool
  sr_planner_actions :: nat

datatype tool_outcome = Returned tool_result | Panicked
datatype tool_future = ReadyAfter nat tool_outcome | NeverReady

record sched_env =
  env_cancelled :: "nat \<Rightarrow> bool"
  env_send_ok :: "nat \<Rightarrow> bool"
  env_execute :: "prepared_action \<Rightarrow> tool_execution_context \<Rightarrow> tool_future option"

record sched_state =
  ss_events :: "agent_event list"
  ss_tick :: nat
  ss_launched :: "(prepared_action \<times> execution_permit) list"
  ss_batches :: "nat list list"

definition sched_start :: sched_state where
  "sched_start = \<lparr>ss_events = [], ss_tick = 0, ss_launched = [], ss_batches = []\<rparr>"

definition look_cancelled :: "sched_env \<Rightarrow> sched_state \<Rightarrow> bool \<times> sched_state" where
  "look_cancelled env s = (env_cancelled env (ss_tick s), s\<lparr>ss_tick := Suc (ss_tick s)\<rparr>)"

definition send_event :: "sched_env \<Rightarrow> agent_event \<Rightarrow> sched_state \<Rightarrow> ('b agent_error + unit) \<times> sched_state" where
  "send_event env e s =
     (if env_send_ok env (length (ss_events s))
      then (Inr (), s\<lparr>ss_events := ss_events s @ [e]\<rparr>) else (Inl EventChannelClosed, s))"

subsection \<open>Ready prefixes\<close>

fun schedule_loop :: "tool_footprint list \<Rightarrow> nat \<Rightarrow> nat list \<Rightarrow> nat list \<Rightarrow> nat list" where
  "schedule_loop footprints limit [] selected = selected"
| "schedule_loop footprints limit (index # rest) selected =
     (if length selected = limit then selected
      else if list_ex (\<lambda>prior. conflicts (footprints ! index) (footprints ! prior)) selected
      then schedule_loop footprints limit rest selected
      else schedule_loop footprints limit rest (selected @ [index]))"

definition schedule_ready_calls :: "tool_footprint list \<Rightarrow> nat \<Rightarrow> nat \<Rightarrow> nat list" where
  "schedule_ready_calls footprints max_parallel slots =
     schedule_loop footprints (min max_parallel slots) [0..<length footprints] []"

subsection \<open>Deciding permissions\<close>

record 's broker_api =
  api_needs_prompt :: "'s \<Rightarrow> json permission_request \<Rightarrow> bool"
  api_decide :: "'s \<Rightarrow> json permission_request \<Rightarrow> 's \<times> permission_future"
  api_cancel :: "'s \<Rightarrow> tool_call_id \<Rightarrow> 's"
  api_receive :: "nat \<Rightarrow> permission_decision option"

definition send_if ::
  "bool \<Rightarrow> sched_env \<Rightarrow> agent_event \<Rightarrow> sched_state \<Rightarrow> ('b agent_error + unit) \<times> sched_state" where
  "send_if b env e s = (if b then send_event env e s else (Inr (), s))"

text \<open>
  The permit of one action.  The \<open>select!\<close> takes the cancellation branch when that look sees the
  token cancelled, otherwise it yields the decision.
\<close>

definition decide_permit ::
  "sched_env \<Rightarrow> 's broker_api \<Rightarrow> prepared_action \<Rightarrow> 's \<Rightarrow> sched_state \<Rightarrow>
   ('b agent_error + execution_permit option) \<times> 's \<times> sched_state" where
  "decide_permit env broker action b s =
     (case pa_permission_request action of
        None \<Rightarrow> (Inr (Some (permit_new (pa_call_id action) (pa_tool action)
                   (req_permission (pa_requirements action)))), b, s)
      | Some request \<Rightarrow>
          (let needs_prompt = api_needs_prompt broker b request;
               (b, future) = api_decide broker b request
           in case send_if needs_prompt env (PermissionRequested request) s of
             (Inl e, s) \<Rightarrow> (Inl e, b, s)
           | (Inr _, s) \<Rightarrow>
          (case look_cancelled env s of (selected_cancel, s) \<Rightarrow>
           if selected_cancel then (Inl TurnCancelled, api_cancel broker b (pa_call_id action), s)
           else
          (let decision = await_decision (api_receive broker) future
           in case look_cancelled env s of (cancelled, s) \<Rightarrow>
           if cancelled then (Inl TurnCancelled, api_cancel broker b (pa_call_id action), s)
           else
          (case send_if needs_prompt env (PermissionResolved (pa_call_id action) decision) s of
             (Inl e, s) \<Rightarrow> (Inl e, b, s)
           | (Inr _, s) \<Rightarrow>
             (Inr (case decision of
                     AllowOnce \<Rightarrow> Some (permit_new (pa_call_id action) (pa_tool action) (pr_class request))
                   | AllowSession \<Rightarrow> Some (permit_new (pa_call_id action) (pa_tool action) (pr_class request))
                   | Deny \<Rightarrow> None), b, s))))))"

definition schedule_call ::
  "(prepared_action \<Rightarrow> tool_result option) \<Rightarrow> prepared_action \<Rightarrow> execution_permit option \<Rightarrow> scheduled_call" where
  "schedule_call gate action permit =
     (let preflight = Option.bind permit (\<lambda>_. gate action)
      in \<lparr>sc_action = action, sc_permit = permit, sc_preflight = preflight,
          sc_footprint = (if permit \<noteq> None \<and> preflight = None then pa_effects action else footprint_empty),
          sc_permission = permission_class_display (req_permission (pa_requirements action))\<rparr>)"

fun prepare_loop ::
  "sched_env \<Rightarrow> 's broker_api \<Rightarrow> (prepared_action \<Rightarrow> tool_result option) \<Rightarrow> prepared_action list \<Rightarrow>
   scheduled_call option list \<Rightarrow> 's \<Rightarrow> sched_state \<Rightarrow>
   ('b agent_error + scheduled_call option list) \<times> 's \<times> sched_state" where
  "prepare_loop env broker gate [] calls b s = (Inr calls, b, s)"
| "prepare_loop env broker gate (action # actions) calls b s =
     (let (cancelled, s) = look_cancelled env s
      in if cancelled then (Inl TurnCancelled, b, s)
         else
           (case decide_permit env broker action b s of
              (Inl e, b, s) \<Rightarrow> (Inl e, b, s)
            | (Inr permit, b, s) \<Rightarrow>
                prepare_loop env broker gate actions (calls @ [Some (schedule_call gate action permit)]) b s))"

definition prepare_calls ::
  "sched_env \<Rightarrow> 's broker_api \<Rightarrow> (prepared_action \<Rightarrow> tool_result option) \<Rightarrow> prepared_action list \<Rightarrow>
   's \<Rightarrow> sched_state \<Rightarrow> ('b agent_error + scheduled_call option list) \<times> 's \<times> sched_state" where
  "prepare_calls env broker gate actions b s =
     (if MAX_TOOL_CALLS_PER_STEP < length actions
      then (Inl (ToolFailure ''tool call batch exceeds the bounded scheduler limit''), b, s)
      else prepare_loop env broker gate actions [] b s)"

subsection \<open>Selecting pending calls\<close>

definition blocked_by_pending_conflict :: "nat \<Rightarrow> scheduled_call option list \<Rightarrow> bool" where
  "blocked_by_pending_conflict index calls =
     list_ex (\<lambda>prior.
       case calls ! prior of
         None \<Rightarrow> False
       | Some prior_call \<Rightarrow>
           (case calls ! index of
              None \<Rightarrow> False
            | Some call \<Rightarrow> conflicts (sc_footprint call) (sc_footprint prior_call))) [0..<index]"

fun select_loop :: "scheduled_call option list \<Rightarrow> nat list \<Rightarrow> nat list \<Rightarrow> nat list" where
  "select_loop calls [] selected = selected"
| "select_loop calls (index # rest) selected =
     (if length selected = DEFAULT_MAX_PARALLEL_TOOLS then selected
      else
        (case calls ! index of
           None \<Rightarrow> select_loop calls rest selected
         | Some call \<Rightarrow>
             if sc_permit call = None \<or> \<not> blocked_by_pending_conflict index calls
             then select_loop calls rest (selected @ [index])
             else select_loop calls rest selected))"

definition select_pending_calls :: "scheduled_call option list \<Rightarrow> nat list" where
  "select_pending_calls calls = select_loop calls [0..<length calls] []"

subsection \<open>Running a batch\<close>

datatype slot = Filled tool_result | Running tool_future

fun announce ::
  "sched_env \<Rightarrow> scheduled_call option list \<Rightarrow> nat list \<Rightarrow> sched_state \<Rightarrow>
   ('b agent_error + unit) \<times> sched_state" where
  "announce env calls [] s = (Inr (), s)"
| "announce env calls (index # rest) s =
     (case calls ! index of
        None \<Rightarrow> (Inl (ToolFailure ''tool scheduler lost a pending call''), s)
      | Some call \<Rightarrow>
          (case send_event env
             (ToolStarted (pa_call_id (sc_action call)) (pa_tool (sc_action call)) (sc_permission call)
               (pa_tool (sc_action call)) None) s of
             (Inl e, s) \<Rightarrow> (Inl e, s)
           | (Inr _, s) \<Rightarrow> announce env calls rest s))"

definition tool_panic_result :: "tool_call_id \<Rightarrow> tool_result" where
  "tool_panic_result call_id =
     result_failure call_id ''operation_failed'' ''tool task panicked'' False DEFAULT_MAX_OUTPUT_BYTES"

definition denied_result :: "tool_call_id \<Rightarrow> tool_result" where
  "denied_result call_id =
     result_failure call_id ''permission_denied'' ''user denied permission for this operation'' False
       DEFAULT_MAX_OUTPUT_BYTES"

definition start_call ::
  "sched_env \<Rightarrow> scheduled_call \<Rightarrow> sched_state \<Rightarrow> (completed_call \<times> slot) \<times> sched_state" where
  "start_call env call s =
     (let action = sc_action call;
          metadata = \<lparr>cc_action = action,
                      cc_executed = (sc_permit call \<noteq> None \<and> sc_preflight call = None)\<rparr>
      in case sc_preflight call of
           Some result \<Rightarrow> ((metadata, Filled result), s)
         | None \<Rightarrow>
             (case sc_permit call of
                None \<Rightarrow> ((metadata, Filled (denied_result (pa_call_id action))), s)
              | Some permit \<Rightarrow>
                  (let s = s\<lparr>ss_launched := ss_launched s @ [(action, permit)]\<rparr>
                   in case env_execute env action
                             (execution_context_new (env_cancelled env (ss_tick s)) permit) of
                        Some future \<Rightarrow> ((metadata, Running future), s)
                      | None \<Rightarrow> ((metadata, Filled (tool_panic_result (pa_call_id action))), s))))"

fun launch ::
  "sched_env \<Rightarrow> nat list \<Rightarrow> scheduled_call option list \<Rightarrow> sched_state \<Rightarrow>
   ('b agent_error + (completed_call \<times> slot) list \<times> scheduled_call option list) \<times> sched_state" where
  "launch env [] calls s = (Inr ([], calls), s)"
| "launch env (index # rest) calls s =
     (case calls ! index of
        None \<Rightarrow> (Inl (ToolFailure ''tool scheduler lost a selected call''), s)
      | Some call \<Rightarrow>
          (let (started, s) = start_call env call s
           in case launch env rest (calls[index := None]) s of
                (Inl e, s) \<Rightarrow> (Inl e, s)
              | (Inr (slots, calls), s) \<Rightarrow> (Inr (started # slots, calls), s)))"

fun poll_slot :: "completed_call \<times> slot \<Rightarrow> completed_call \<times> slot" where
  "poll_slot (m, Filled r) = (m, Filled r)"
| "poll_slot (m, Running NeverReady) = (m, Running NeverReady)"
| "poll_slot (m, Running (ReadyAfter (Suc n) out)) = (m, Running (ReadyAfter n out))"
| "poll_slot (m, Running (ReadyAfter 0 (Returned r))) = (m, Filled r)"
| "poll_slot (m, Running (ReadyAfter 0 Panicked)) = (m, Filled (tool_panic_result (pa_call_id (cc_action m))))"

definition slot_pending :: "completed_call \<times> slot \<Rightarrow> bool" where
  "slot_pending sl = (case snd sl of Filled _ \<Rightarrow> False | Running _ \<Rightarrow> True)"

partial_function (option) wait_for_batch ::
  "sched_env \<Rightarrow> (completed_call \<times> slot) list \<Rightarrow> sched_state \<Rightarrow>
   (('b agent_error + (completed_call \<times> slot) list) \<times> sched_state) option" where
  "wait_for_batch env slots s =
     (case look_cancelled env s of (cancelled, s) \<Rightarrow>
        if cancelled then Some (Inl TurnCancelled, s)
        else if list_ex slot_pending (map poll_slot slots)
        then wait_for_batch env (map poll_slot slots) s
        else Some (Inr (map poll_slot slots), s))"

fun finish_batch ::
  "sched_env \<Rightarrow> (completed_call \<times> slot) list \<Rightarrow> sched_state \<Rightarrow>
   ('b agent_error + (completed_call \<times> tool_result) list) \<times> sched_state" where
  "finish_batch env [] s = (Inr [], s)"
| "finish_batch env ((m, sl) # rest) s =
     (case sl of
        Running _ \<Rightarrow> (Inl (ToolFailure ''tool scheduler lost a result''), s)
      | Filled result \<Rightarrow>
          (case send_event env (ToolOutput (pa_call_id (cc_action m)) (tr_output result)) s of
             (Inl e, s) \<Rightarrow> (Inl e, s)
           | (Inr _, s) \<Rightarrow>
          (case send_event env (ToolFinished (pa_call_id (cc_action m)) (tr_ok result)) s of
             (Inl e, s) \<Rightarrow> (Inl e, s)
           | (Inr _, s) \<Rightarrow>
          (case finish_batch env rest s of
             (Inl e, s) \<Rightarrow> (Inl e, s)
           | (Inr outputs, s) \<Rightarrow> (Inr ((m, result) # outputs), s)))))"

lemma launch_length:
  "launch env is calls s = (Inr (slots, calls'), s') \<Longrightarrow>
   length calls' = length calls \<and> length slots = length is"
  by (induction env "is" calls s arbitrary: slots calls' s' rule: launch.induct)
    (auto simp: Let_def split: option.splits prod.splits sum.splits)

text \<open>The loop over batches; \<open>completed\<close> grows by the size of a nonempty selection.\<close>

function exec_loop ::
  "sched_env \<Rightarrow> scheduled_call option list \<Rightarrow> nat \<Rightarrow> (completed_call \<times> tool_result) list \<Rightarrow> sched_state \<Rightarrow>
   (('b agent_error + (completed_call \<times> tool_result) list) \<times> sched_state) option" where
  "exec_loop env calls completed outputs s =
     (if completed < length calls then
        (case look_cancelled env s of (cancelled, s) \<Rightarrow>
         if cancelled then Some (Inl TurnCancelled, s)
         else
        (case select_pending_calls calls of
           [] \<Rightarrow> Some (Inl (ToolFailure ''tool dependency scheduler made no progress''), s)
         | index # rest \<Rightarrow>
        (case announce env calls (index # rest) (s\<lparr>ss_batches := ss_batches s @ [index # rest]\<rparr>) of
           (Inl e, s) \<Rightarrow> Some (Inl e, s)
         | (Inr _, s) \<Rightarrow>
        (case launch env (index # rest) calls s of
           (Inl e, s) \<Rightarrow> Some (Inl e, s)
         | (Inr (slots, calls'), s) \<Rightarrow>
        (case wait_for_batch env slots s of
           None \<Rightarrow> None
         | Some (Inl e, s) \<Rightarrow> Some (Inl e, s)
         | Some (Inr slots, s) \<Rightarrow>
        (case finish_batch env slots s of
           (Inl e, s) \<Rightarrow> Some (Inl e, s)
         | (Inr outs, s) \<Rightarrow>
             exec_loop env calls' (completed + length (index # rest)) (outputs @ outs) s))))))
      else Some (Inr outputs, s))"
  by pat_completeness auto

termination
  by (relation "measure (\<lambda>(env, calls, completed, outputs, s). length calls - completed)")
    (auto simp del: launch.simps announce.simps dest!: launch_length [OF sym])

declare exec_loop.simps [simp del]

definition execute_prepared_tool_calls_with_gate ::
  "sched_env \<Rightarrow> 's broker_api \<Rightarrow> (prepared_action \<Rightarrow> tool_result option) \<Rightarrow> prepared_action list \<Rightarrow>
   's \<Rightarrow> sched_state \<Rightarrow> (('b agent_error + scheduled_tool_result list) \<times> 's \<times> sched_state) option" where
  "execute_prepared_tool_calls_with_gate env broker gate actions b s =
     (case prepare_calls env broker gate actions b s of
        (Inl e, b, s) \<Rightarrow> Some (Inl e, b, s)
      | (Inr calls, b, s) \<Rightarrow>
          (case exec_loop env calls 0 [] s of
             None \<Rightarrow> None
           | Some (Inl e, s) \<Rightarrow> Some (Inl e, b, s)
           | Some (Inr outputs, s) \<Rightarrow>
               Some (Inr (map (\<lambda>(m, r). \<lparr>sr_action = cc_action m, sr_result = r,
                                         sr_executed = cc_executed m, sr_planned = False,
                                         sr_planner_actions = 0\<rparr>) outputs), b, s)))"

end
