(* ===== verification/Scheduler_Facts.thy ===== *)
theory Scheduler_Facts
  imports Scheduler
begin

section \<open>What the scheduler guarantees\<close>

text \<open>
  The batches depend only on the prepared calls: \<open>batch_plan\<close> is the schedule with the environment
  left out, and every run of \<open>exec_loop\<close> follows it (a prefix when it fails, all of it when it
  succeeds).  Progress, exclusion and order are proved of the plan and carried over.
\<close>

subsection \<open>Selection\<close>

definition eligible :: "scheduled_call option list \<Rightarrow> nat \<Rightarrow> bool" where
  "eligible calls i =
     (case calls ! i of None \<Rightarrow> False
      | Some c \<Rightarrow> sc_permit c = None \<or> \<not> blocked_by_pending_conflict i calls)"

lemma select_loop_filter:
  "length sel \<le> DEFAULT_MAX_PARALLEL_TOOLS \<Longrightarrow>
   select_loop calls is sel =
     sel @ take (DEFAULT_MAX_PARALLEL_TOOLS - length sel) (filter (eligible calls) is)"
proof (induction "is" arbitrary: sel)
  case (Cons i "is")
  show ?case
  proof (cases "length sel = DEFAULT_MAX_PARALLEL_TOOLS")
    case False
    then have lt: "Suc (length sel) \<le> DEFAULT_MAX_PARALLEL_TOOLS" using Cons.prems by simp
    then have "DEFAULT_MAX_PARALLEL_TOOLS - length sel = Suc (DEFAULT_MAX_PARALLEL_TOOLS - Suc (length sel))"
      by simp
    then show ?thesis
      using False Cons.IH [of sel] Cons.IH [of "sel @ [i]"] Cons.prems lt
      by (simp add: eligible_def split: option.split)
  qed simp
qed simp

lemma select_pending_filter:
  "select_pending_calls calls =
     take DEFAULT_MAX_PARALLEL_TOOLS (filter (eligible calls) [0..<length calls])"
  by (simp add: select_pending_calls_def select_loop_filter)

lemma select_pending_length: "length (select_pending_calls calls) \<le> DEFAULT_MAX_PARALLEL_TOOLS"
  by (simp add: select_pending_filter)

lemma select_pending_mem:
  "i \<in> set (select_pending_calls calls) \<Longrightarrow> i < length calls \<and> eligible calls i"
  by (auto simp: select_pending_filter dest!: in_set_takeD)

lemma select_pending_sorted: "sorted_wrt (<) (select_pending_calls calls)"
  by (simp add: select_pending_filter sorted_wrt_take sorted_wrt_filter)

lemma select_pending_distinct: "distinct (select_pending_calls calls)"
  by (simp add: select_pending_filter)

definition pending :: "scheduled_call option list \<Rightarrow> nat set" where
  "pending calls = {i. i < length calls \<and> calls ! i \<noteq> None}"

lemma pending_finite [simp]: "finite (pending calls)"
  by (simp add: pending_def)

lemma eligible_pending: "i < length calls \<Longrightarrow> eligible calls i \<Longrightarrow> i \<in> pending calls"
  by (auto simp: pending_def eligible_def split: option.splits)

text \<open>The first pending call waits for nobody.\<close>

lemma first_pending_eligible:
  assumes "i \<in> pending calls" and "\<And>j. j < i \<Longrightarrow> j \<notin> pending calls"
  shows "eligible calls i"
proof -
  have "\<forall>j<i. calls ! j = None" using assms by (auto simp: pending_def)
  then have "\<not> blocked_by_pending_conflict i calls"
    by (auto simp: blocked_by_pending_conflict_def list_ex_iff)
  then show ?thesis using assms(1) by (auto simp: eligible_def pending_def)
qed

lemma select_pending_progress: "pending calls \<noteq> {} \<Longrightarrow> select_pending_calls calls \<noteq> []"
proof -
  assume "pending calls \<noteq> {}"
  then obtain k where "k \<in> pending calls" by auto
  then obtain i where i: "i \<in> pending calls" and least: "\<And>j. j < i \<Longrightarrow> j \<notin> pending calls"
    using LeastI [of "\<lambda>i. i \<in> pending calls" k] not_less_Least [of _ "\<lambda>i. i \<in> pending calls"] by blast
  have "eligible calls i" by (rule first_pending_eligible [OF i least])
  moreover have "i < length calls" using i by (simp add: pending_def)
  ultimately have "filter (eligible calls) [0..<length calls] \<noteq> []" by (auto simp: filter_empty_conv)
  then show ?thesis by (simp add: select_pending_filter DEFAULT_MAX_PARALLEL_TOOLS_def)
qed

definition permitted :: "scheduled_call option list \<Rightarrow> nat \<Rightarrow> bool" where
  "permitted calls i = (case calls ! i of None \<Rightarrow> False | Some c \<Rightarrow> sc_permit c \<noteq> None)"

definition call_conflict :: "scheduled_call option list \<Rightarrow> nat \<Rightarrow> nat \<Rightarrow> bool" where
  "call_conflict calls i j =
     (case (calls ! i, calls ! j) of
        (Some c, Some d) \<Rightarrow> conflicts (sc_footprint c) (sc_footprint d)
      | _ \<Rightarrow> False)"

lemma call_conflict_sym: "call_conflict calls i j = call_conflict calls j i"
  by (auto simp: call_conflict_def conflicts_sym split: option.split)

text \<open>
  An eligible call that has a permit conflicts with no earlier pending one.  (A denied call runs
  nothing and is never held back; its empty footprint still conflicts with an unknown one.)
\<close>

lemma eligible_no_conflict:
  assumes "permitted calls j" and "eligible calls j" and "i < j" and "j < length calls"
  shows "\<not> call_conflict calls i j"
proof
  assume "call_conflict calls i j"
  then obtain c d where cd: "calls ! i = Some c" "calls ! j = Some d"
    "conflicts (sc_footprint c) (sc_footprint d)"
    by (auto simp: call_conflict_def split: option.splits)
  have "sc_permit d \<noteq> None" using assms(1) cd(2) by (simp add: permitted_def)
  moreover have "blocked_by_pending_conflict j calls"
    using cd assms(3) by (auto simp: blocked_by_pending_conflict_def list_ex_iff conflicts_sym
        intro!: bexI [of _ i])
  ultimately show False using assms(2) cd(2) by (simp add: eligible_def)
qed

subsection \<open>The plan\<close>

definition clear_calls :: "nat list \<Rightarrow> scheduled_call option list \<Rightarrow> scheduled_call option list" where
  "clear_calls is calls = foldl (\<lambda>cs i. cs[i := None]) calls is"

lemma clear_calls_length [simp]: "length (clear_calls is calls) = length calls"
  by (induction "is" arbitrary: calls) (simp_all add: clear_calls_def)

lemma clear_calls_nth:
  "i < length calls \<Longrightarrow> clear_calls is calls ! i = (if i \<in> set is then None else calls ! i)"
proof (induction "is" arbitrary: calls)
  case (Cons j "is")
  have "clear_calls (j # is) calls = clear_calls is (calls[j := None])" by (simp add: clear_calls_def)
  then show ?case using Cons.IH [of "calls[j := None]"] Cons.prems by (auto simp: nth_list_update)
qed (simp add: clear_calls_def)

lemma clear_calls_Nil [simp]: "clear_calls [] calls = calls"
  by (simp add: clear_calls_def)

lemma pending_clear: "pending (clear_calls is calls) = pending calls - set is"
  by (auto simp: pending_def clear_calls_nth split: if_splits)

lemma permitted_clear: "i \<in> pending (clear_calls is calls) \<Longrightarrow>
    permitted (clear_calls is calls) i = permitted calls i"
  by (auto simp: permitted_def pending_def clear_calls_nth split: if_splits)

lemma select_pending_subset: "set (select_pending_calls calls) \<subseteq> pending calls"
  using select_pending_mem eligible_pending by blast

lemma pending_decreases:
  assumes "pending calls \<noteq> {}"
  shows "pending (clear_calls (select_pending_calls calls) calls) \<subset> pending calls"
proof -
  have "select_pending_calls calls \<noteq> []" using assms by (rule select_pending_progress)
  then have "hd (select_pending_calls calls) \<in> set (select_pending_calls calls)" by simp
  then show ?thesis using select_pending_subset [of calls] unfolding pending_clear by blast
qed

function batch_plan :: "scheduled_call option list \<Rightarrow> nat list list" where
  "batch_plan calls =
     (if pending calls = {} then []
      else select_pending_calls calls # batch_plan (clear_calls (select_pending_calls calls) calls))"
  by pat_completeness auto

termination
  by (relation "measure (\<lambda>calls. card (pending calls))")
    (simp_all add: pending_decreases psubset_card_mono)

declare batch_plan.simps [simp del]

lemma batch_plan_calls:
  "distinct (concat (batch_plan calls)) \<and> set (concat (batch_plan calls)) = pending calls"
proof (induction calls rule: batch_plan.induct)
  case (1 calls)
  show ?case
  proof (cases "pending calls = {}")
    case False
    have "distinct (concat (batch_plan (clear_calls (select_pending_calls calls) calls)))
      \<and> set (concat (batch_plan (clear_calls (select_pending_calls calls) calls)))
          = pending calls - set (select_pending_calls calls)"
      using 1 [OF False] by (simp add: pending_clear)
    then show ?thesis
      using select_pending_subset [of calls] select_pending_distinct [of calls] False
      by (subst (1 2) batch_plan.simps) auto
  qed (simp add: batch_plan.simps [of calls])
qed

lemma call_conflict_clear:
  "i \<in> pending (clear_calls is calls) \<Longrightarrow> j \<in> pending (clear_calls is calls) \<Longrightarrow>
   call_conflict (clear_calls is calls) i j = call_conflict calls i j"
  by (auto simp: call_conflict_def pending_def clear_calls_nth split: if_splits)

text \<open>A call starts only in a batch after every earlier call it conflicts with.\<close>

lemma batch_plan_order:
  "permitted calls j \<Longrightarrow> i \<in> pending calls \<Longrightarrow> j \<in> pending calls \<Longrightarrow> i < j \<Longrightarrow> call_conflict calls i j \<Longrightarrow>
   k < length (batch_plan calls) \<Longrightarrow> j \<in> set (batch_plan calls ! k) \<Longrightarrow>
   \<exists>k'<k. i \<in> set (batch_plan calls ! k')"
proof (induction calls arbitrary: k rule: batch_plan.induct)
  case (1 calls)
  let ?sel = "select_pending_calls calls"
  have ne: "pending calls \<noteq> {}" using "1.prems"(2) by auto
  have plan: "batch_plan calls = ?sel # batch_plan (clear_calls ?sel calls)"
    using ne by (simp add: batch_plan.simps [of calls])
  have j: "j \<notin> set ?sel"
    using eligible_no_conflict [of calls j i] select_pending_mem "1.prems" by blast
  then obtain l where k: "k = Suc l" using "1.prems"(7) plan by (cases k) auto
  show ?case
  proof (cases "i \<in> set ?sel")
    case True
    then show ?thesis using plan k by (intro exI [of _ 0]) simp
  next
    case False
    have "i \<in> pending (clear_calls ?sel calls)" "j \<in> pending (clear_calls ?sel calls)"
      using "1.prems" False j by (simp_all add: pending_clear)
    then have "\<exists>k'<l. i \<in> set (batch_plan (clear_calls ?sel calls) ! k')"
      using "1.IH" [OF ne, of l] "1.prems" plan k by (simp add: permitted_clear call_conflict_clear)
    then obtain k' where "k' < l" "i \<in> set (batch_plan (clear_calls ?sel calls) ! k')" by auto
    then show ?thesis using plan k by (intro exI [of _ "Suc k'"]) simp
  qed
qed

lemma batch_plan_exclusive:
  "permitted calls i \<Longrightarrow> permitted calls j \<Longrightarrow> b \<in> set (batch_plan calls) \<Longrightarrow> i \<in> set b \<Longrightarrow> j \<in> set b \<Longrightarrow> i \<noteq> j \<Longrightarrow>
   length b \<le> DEFAULT_MAX_PARALLEL_TOOLS \<and> \<not> call_conflict calls i j"
proof (induction calls rule: batch_plan.induct)
  case (1 calls)
  let ?sel = "select_pending_calls calls"
  have ne: "pending calls \<noteq> {}" using "1.prems"(3) by (auto simp: batch_plan.simps [of calls])
  then consider "b = ?sel" | "b \<in> set (batch_plan (clear_calls ?sel calls))"
    using "1.prems"(3) by (auto simp: batch_plan.simps [of calls])
  then show ?case
  proof cases
    case 1
    have "\<not> call_conflict calls i j" if "i < j" "permitted calls j" "i \<in> set ?sel" "j \<in> set ?sel" for i j
      using that eligible_no_conflict [of calls j i] select_pending_mem by blast
    then show ?thesis
      using 1 "1.prems" select_pending_length call_conflict_sym by (metis linorder_neqE_nat)
  next
    case 2
    have "i \<in> pending (clear_calls ?sel calls)" "j \<in> pending (clear_calls ?sel calls)"
      using 2 "1.prems" batch_plan_calls [of "clear_calls ?sel calls"] by auto
    then show ?thesis
      using "1.IH" [OF ne] 2 "1.prems" by (simp add: permitted_clear call_conflict_clear)
  qed
qed

subsection \<open>Every run follows the plan\<close>

definition completed_of :: "scheduled_call option list \<Rightarrow> nat \<Rightarrow> completed_call" where
  "completed_of calls i =
     (let c = the (calls ! i)
      in \<lparr>cc_action = sc_action c, cc_executed = (sc_permit c \<noteq> None \<and> sc_preflight c = None)\<rparr>)"

text \<open>What starting call \<open>i\<close> hands to the executor.\<close>

definition launched_by :: "scheduled_call option list \<Rightarrow> nat \<Rightarrow> (prepared_action \<times> execution_permit) list" where
  "launched_by calls i =
     (let c = the (calls ! i)
      in case (sc_preflight c, sc_permit c) of (None, Some p) \<Rightarrow> [(sc_action c, p)] | _ \<Rightarrow> [])"

definition launched_all :: "scheduled_call option list \<Rightarrow> nat list \<Rightarrow> (prepared_action \<times> execution_permit) list" where
  "launched_all calls is = concat (map (launched_by calls) is)"

definition stop_error :: "'b agent_error \<Rightarrow> bool" where
  "stop_error e \<longleftrightarrow> e = TurnCancelled \<or> e = EventChannelClosed"

definition same_trace :: "sched_state \<Rightarrow> sched_state \<Rightarrow> bool" where
  "same_trace s t \<longleftrightarrow> ss_batches t = ss_batches s \<and> ss_launched t = ss_launched s"

lemma announce_cases:
  "set is \<subseteq> pending calls \<Longrightarrow>
   (\<exists>t. announce env calls is s = (Inl EventChannelClosed, t) \<and> same_trace s t)
   \<or> (\<exists>t. announce env calls is s = (Inr (), t) \<and> same_trace s t)"
proof (induction "is" arbitrary: s)
  case (Cons i "is")
  obtain c where c: "calls ! i = Some c" using Cons.prems by (auto simp: pending_def)
  let ?t = "s\<lparr>ss_events := ss_events s @ [ToolStarted (pa_call_id (sc_action c)) (pa_tool (sc_action c))
      (sc_permission c) (pa_tool (sc_action c)) None]\<rparr>"
  show ?case
  proof (cases "env_send_ok env (length (ss_events s))")
    case True
    then show ?thesis
      using Cons.IH [of ?t] Cons.prems by (auto simp: c send_event_def same_trace_def)
  qed (simp add: c send_event_def same_trace_def)
qed (simp add: same_trace_def)

lemma start_call_trace:
  "start_call env c s = (r, t) \<Longrightarrow> calls ! i = Some c \<Longrightarrow>
   fst r = completed_of calls i \<and> ss_batches t = ss_batches s
   \<and> ss_launched t = ss_launched s @ launched_by calls i"
  by (auto simp: start_call_def completed_of_def launched_by_def Let_def split: option.splits)

lemma launch_trace:
  "set is \<subseteq> pending calls \<Longrightarrow> distinct is \<Longrightarrow>
   \<exists>slots t. (launch env is calls s :: ('b agent_error + _) \<times> _) = (Inr (slots, clear_calls is calls), t)
     \<and> map fst slots = map (completed_of calls) is \<and> ss_batches t = ss_batches s
     \<and> ss_launched t = ss_launched s @ launched_all calls is"
proof (induction "is" arbitrary: calls s)
  case (Cons i "is")
  obtain c where c: "calls ! i = Some c" using Cons.prems by (auto simp: pending_def)
  obtain st s1 where st: "start_call env c s = (st, s1)" by fastforce
  have sub: "set is \<subseteq> pending (calls[i := None])"
    using Cons.prems by (auto simp: pending_def nth_list_update)
  then obtain slots t where l: "(launch env is (calls[i := None]) s1 :: ('b agent_error + _) \<times> _) =
      (Inr (slots, clear_calls is (calls[i := None])), t)"
    "map fst slots = map (completed_of (calls[i := None])) is" "ss_batches t = ss_batches s1"
    "ss_launched t = ss_launched s1 @ launched_all (calls[i := None]) is"
    using Cons.IH [OF sub, of s1] Cons.prems(2) by auto
  have same: "completed_of (calls[i := None]) j = completed_of calls j"
    "launched_by (calls[i := None]) j = launched_by calls j" if "j \<in> set is" for j
  proof -
    have "calls[i := None] ! j = calls ! j" using that Cons.prems(2) by (cases "i = j") auto
    then show "completed_of (calls[i := None]) j = completed_of calls j"
      "launched_by (calls[i := None]) j = launched_by calls j"
      by (simp_all only: completed_of_def launched_by_def)
  qed
  then have "launched_all (calls[i := None]) is = launched_all calls is"
    by (simp add: launched_all_def cong: map_cong)
  then show ?case
    using start_call_trace [OF st c] l same
    by (simp add: c st clear_calls_def launched_all_def cong: map_cong)
qed (simp add: launched_all_def)

lemma poll_slot_fst [simp]: "fst (poll_slot sl) = fst sl"
  by (cases sl rule: poll_slot.cases) simp_all

definition batch_waited ::
  "(completed_call \<times> slot) list \<Rightarrow> sched_state \<Rightarrow>
   ('b agent_error + (completed_call \<times> slot) list) \<times> sched_state \<Rightarrow> bool" where
  "batch_waited slots s y \<longleftrightarrow> same_trace s (snd y)
     \<and> (case fst y of Inl e \<Rightarrow> e = TurnCancelled
        | Inr done \<Rightarrow> map fst done = map fst slots \<and> \<not> list_ex slot_pending done)"

lemma wait_for_batch_trace:
  assumes "wait_for_batch env slots s = Some y"
  shows "batch_waited slots s y"
proof (rule wait_for_batch.raw_induct [where P = "\<lambda>env slots s y. batch_waited slots s y", OF _ assms])
  fix wait and env :: sched_env and slots s
    and y :: "('b agent_error + (completed_call \<times> slot) list) \<times> sched_state"
  assume IH: "\<And>env slots s y. wait env slots s = Some y \<Longrightarrow> batch_waited slots s y"
    and body: "(case look_cancelled env s of (cancelled, s) \<Rightarrow>
        if cancelled then Some (Inl TurnCancelled, s)
        else if list_ex slot_pending (map poll_slot slots) then wait env (map poll_slot slots) s
        else Some (Inr (map poll_slot slots), s)) = Some y"
  let ?s = "s\<lparr>ss_tick := Suc (ss_tick s)\<rparr>"
  have fst: "map fst (map poll_slot slots) = map fst slots" by simp
  show "batch_waited slots s y"
  proof (cases "env_cancelled env (ss_tick s)")
    case True
    then show ?thesis using body by (auto simp: batch_waited_def look_cancelled_def same_trace_def)
  next
    case False
    show ?thesis
    proof (cases "list_ex slot_pending (map poll_slot slots)")
      case True
      then have "wait env (map poll_slot slots) ?s = Some y"
        using body False by (simp add: look_cancelled_def del: list.map_comp)
      from IH [OF this] show ?thesis unfolding batch_waited_def same_trace_def fst by simp
    next
      case no: False
      then have "y = (Inr (map poll_slot slots), ?s)"
        using body False by (simp add: look_cancelled_def del: list.map_comp)
      then show ?thesis using no fst by (simp add: batch_waited_def same_trace_def del: list.map_comp)
    qed
  qed
qed

lemma finish_batch_trace:
  "\<not> list_ex slot_pending slots \<Longrightarrow>
   (\<exists>t. finish_batch env slots s = (Inl EventChannelClosed, t) \<and> same_trace s t)
   \<or> (\<exists>outs t. finish_batch env slots s = (Inr outs, t) \<and> same_trace s t \<and> map fst outs = map fst slots)"
proof (induction slots arbitrary: s)
  case (Cons sl slots)
  obtain m r where sl: "sl = (m, Filled r)"
    using Cons.prems by (cases sl; cases "snd sl") (auto simp: slot_pending_def)
  let ?t = "s\<lparr>ss_events := ss_events s @ [ToolOutput (pa_call_id (cc_action m)) (tr_output r),
      ToolFinished (pa_call_id (cc_action m)) (tr_ok r)]\<rparr>"
  consider "\<not> env_send_ok env (length (ss_events s))"
    | "env_send_ok env (length (ss_events s))" "\<not> env_send_ok env (Suc (length (ss_events s)))"
    | "env_send_ok env (length (ss_events s))" "env_send_ok env (Suc (length (ss_events s)))" by blast
  then show ?case
  proof cases
    case 3
    then show ?thesis
      using Cons.IH [of ?t] Cons.prems by (auto simp: sl send_event_def same_trace_def)
  qed (simp_all add: sl send_event_def same_trace_def)
qed (simp add: same_trace_def)

definition loop_invariant :: "scheduled_call option list \<Rightarrow> nat \<Rightarrow> bool" where
  "loop_invariant calls completed \<longleftrightarrow> completed + card (pending calls) = length calls"

text \<open>One turn of the loop: it stops for one of the two allowed reasons, or runs the next batch.\<close>

lemma exec_loop_step:
  assumes inv: "loop_invariant calls completed" and todo: "pending calls \<noteq> {}"
    and run: "exec_loop env calls completed outs s = Some (r :: 'b agent_error + _, t)"
  defines "sel \<equiv> select_pending_calls calls"
  obtains (stopped) e where "r = Inl e" "stop_error e"
      "(ss_batches t = ss_batches s \<and> ss_launched t = ss_launched s)
       \<or> (ss_batches t = ss_batches s @ [sel]
          \<and> (ss_launched t = ss_launched s \<or> ss_launched t = ss_launched s @ launched_all calls sel))"
  | (continued) outs1 s1 where
      "exec_loop env (clear_calls sel calls) (completed + length sel) (outs @ outs1) s1 = Some (r, t)"
      "map fst outs1 = map (completed_of calls) sel" "ss_batches s1 = ss_batches s @ [sel]"
      "ss_launched s1 = ss_launched s @ launched_all calls sel"
proof -
  have lt: "completed < length calls"
    using inv todo by (simp add: loop_invariant_def) (metis card_gt_0_iff less_add_same_cancel1 pending_finite)
  obtain i rest where sel: "sel = i # rest"
    using select_pending_progress [OF todo] by (cases sel) (auto simp: sel_def)
  have sub: "set sel \<subseteq> pending calls" "distinct sel"
    using select_pending_subset select_pending_distinct by (simp_all add: sel_def)
  let ?s1 = "s\<lparr>ss_tick := Suc (ss_tick s)\<rparr>"
  let ?s2 = "?s1\<lparr>ss_batches := ss_batches s @ [sel]\<rparr>"
  note body = run [unfolded exec_loop.simps [of env calls completed outs s] look_cancelled_def
      sel_def [symmetric] sel]
  show thesis
  proof (cases "env_cancelled env (ss_tick s)")
    case True
    then show thesis using body lt by (intro stopped) (auto simp: stop_error_def)
  next
    case go: False
    consider (closed) t1 where "announce env calls sel ?s2 = (Inl EventChannelClosed :: 'b agent_error + unit, t1)"
        "same_trace ?s2 t1"
      | (told) t1 where "announce env calls sel ?s2 = (Inr () :: 'b agent_error + unit, t1)" "same_trace ?s2 t1"
      using announce_cases [OF sub(1)] by blast
    then show thesis
    proof cases
      case closed
      then show thesis
        using body lt go sel by (intro stopped) (auto simp: stop_error_def same_trace_def
            simp del: announce.simps)
    next
      case told
      obtain slots t2 where l: "(launch env sel calls t1 :: ('b agent_error + _) \<times> _) =
          (Inr (slots, clear_calls sel calls), t2)"
        "map fst slots = map (completed_of calls) sel" "ss_batches t2 = ss_batches t1"
        "ss_launched t2 = ss_launched t1 @ launched_all calls sel"
        using launch_trace [OF sub] by blast
      obtain w t3 where w: "wait_for_batch env slots t2 = Some (w :: 'b agent_error + _, t3)"
        using body lt go told l sel
        by (cases "wait_for_batch env slots t2 :: (('b agent_error + _) \<times> _) option")
          (auto simp del: announce.simps launch.simps)
      note wt = wait_for_batch_trace [OF w, unfolded batch_waited_def same_trace_def]
      show thesis
      proof (cases w)
        case (Inl e)
        then show thesis
          using body lt go told l w sel wt
          by (intro stopped) (auto simp: stop_error_def same_trace_def simp del: announce.simps launch.simps)
      next
        case (Inr slots')
        then have "\<not> list_ex slot_pending slots'" using wt by simp
        then consider (closed) t4 where "finish_batch env slots' t3 = (Inl EventChannelClosed :: 'b agent_error + _, t4)"
            "same_trace t3 t4"
          | (finished) outs1 t4 where "finish_batch env slots' t3 = (Inr outs1 :: 'b agent_error + _, t4)"
            "same_trace t3 t4" "map fst outs1 = map fst slots'"
          using finish_batch_trace by blast
        then show thesis
        proof cases
          case closed
          then show thesis
            using body lt go told l w Inr sel wt
            by (intro stopped) (auto simp: stop_error_def same_trace_def
                simp del: announce.simps launch.simps)
        next
          case finished
          then show thesis
            using body lt go told l w Inr sel wt
            by (intro continued [of outs1 t4]) (auto simp: same_trace_def
                simp del: announce.simps launch.simps)
        qed
      qed
    qed
  qed
qed

definition follows_plan ::
  "scheduled_call option list \<Rightarrow> (completed_call \<times> tool_result) list \<Rightarrow> sched_state \<Rightarrow>
   ('b agent_error + (completed_call \<times> tool_result) list) \<Rightarrow> sched_state \<Rightarrow> bool" where
  "follows_plan calls outs s r t \<longleftrightarrow>
     (let plan = batch_plan calls
      in (\<exists>k. ss_batches t = ss_batches s @ take k plan
            \<and> (\<exists>l\<le>k. ss_launched t = ss_launched s @ launched_all calls (concat (take l plan))))
         \<and> (case r of
              Inl e \<Rightarrow> stop_error e
            | Inr outs' \<Rightarrow>
                ss_batches t = ss_batches s @ plan
                \<and> ss_launched t = ss_launched s @ launched_all calls (concat plan)
                \<and> map fst outs' = map fst outs @ map (completed_of calls) (concat plan)))"

lemma clear_same:
  "i \<in> pending (clear_calls is calls) \<Longrightarrow>
   completed_of (clear_calls is calls) i = completed_of calls i
   \<and> launched_by (clear_calls is calls) i = launched_by calls i"
  by (auto simp: pending_clear pending_def completed_of_def launched_by_def clear_calls_nth)

lemma launched_all_append: "launched_all calls (as @ bs) = launched_all calls as @ launched_all calls bs"
  by (simp add: launched_all_def)

lemma launched_all_clear:
  "set js \<subseteq> pending (clear_calls is calls) \<Longrightarrow>
   launched_all (clear_calls is calls) js = launched_all calls js"
  unfolding launched_all_def by (intro arg_cong [of _ _ concat] map_cong) (auto dest: clear_same)

lemma invariant_clear:
  "loop_invariant calls completed \<Longrightarrow> set is \<subseteq> pending calls \<Longrightarrow> distinct is \<Longrightarrow>
   loop_invariant (clear_calls is calls) (completed + length is)"
  using card_mono [of "pending calls" "set is"]
  by (simp add: loop_invariant_def pending_clear card_Diff_subset distinct_card)

lemma exec_loop_follows_plan:
  "loop_invariant calls completed \<Longrightarrow>
   exec_loop env calls completed outs s = Some (r :: 'b agent_error + _, t) \<Longrightarrow>
   follows_plan calls outs s r t"
proof (induction "card (pending calls)" arbitrary: calls completed outs s rule: less_induct)
  case less
  show ?case
  proof (cases "pending calls = {}")
    case True
    then have "completed = length calls" using less.prems(1) by (simp add: loop_invariant_def)
    then show ?thesis
      using True less.prems(2) by (auto simp: exec_loop.simps [of env calls] batch_plan.simps [of calls]
          follows_plan_def launched_all_def Let_def)
  next
    case False
    let ?sel = "select_pending_calls calls"
    let ?next = "clear_calls ?sel calls"
    have plan: "batch_plan calls = ?sel # batch_plan ?next"
      using False by (simp add: batch_plan.simps [of calls])
    have sub: "set ?sel \<subseteq> pending calls" "distinct ?sel"
      using select_pending_subset select_pending_distinct by simp_all
    from less.prems(1) False less.prems(2) show ?thesis
    proof (cases rule: exec_loop_step)
      case (stopped e)
      obtain k l :: nat where "l \<le> k" "k \<le> 1" "ss_batches t = ss_batches s @ take k [?sel]"
        "ss_launched t = ss_launched s @ launched_all calls (concat (take l [?sel]))"
      proof -
        have nil: "launched_all calls [] = []" by (simp add: launched_all_def)
        from stopped(3) consider
            "ss_batches t = ss_batches s" "ss_launched t = ss_launched s"
          | "ss_batches t = ss_batches s @ [?sel]" "ss_launched t = ss_launched s"
          | "ss_batches t = ss_batches s @ [?sel]" "ss_launched t = ss_launched s @ launched_all calls ?sel"
          by blast
        then show thesis using that [of 0 0] that [of 0 1] that [of 1 1] nil by cases auto
      qed
      moreover from this have "take k [?sel] = take k (batch_plan calls)"
        "take l [?sel] = take l (batch_plan calls)"
        by (auto simp: plan take_Cons split: nat.split)
      ultimately show ?thesis using stopped by (auto simp: follows_plan_def Let_def)
    next
      case (continued outs1 s1)
      have "pending ?next \<subset> pending calls" by (rule pending_decreases [OF False])
      then have "card (pending ?next) < card (pending calls)" by (simp add: psubset_card_mono)
      from less.hyps [OF this invariant_clear [OF less.prems(1) sub] continued(1)]
      have rest: "follows_plan ?next (outs @ outs1) s1 r t" .
      have mem: "set (concat (take l (batch_plan ?next))) \<subseteq> pending ?next" for l
        using batch_plan_calls [of ?next] set_take_subset [of l "batch_plan ?next"] by fastforce
      have same: "launched_all ?next (concat (take l (batch_plan ?next))) =
          launched_all calls (concat (take l (batch_plan ?next)))" for l
        by (rule launched_all_clear) (rule mem)
      have completed: "map (completed_of ?next) (concat (batch_plan ?next)) =
          map (completed_of calls) (concat (batch_plan ?next))"
        using batch_plan_calls [of ?next] clear_same by (intro map_cong) auto
      obtain k l where kl: "ss_batches t = ss_batches s1 @ take k (batch_plan ?next)" "l \<le> k"
        "ss_launched t = ss_launched s1 @ launched_all calls (concat (take l (batch_plan ?next)))"
        using rest same by (auto simp: follows_plan_def Let_def)
      have "\<exists>k. ss_batches t = ss_batches s @ take k (batch_plan calls)
            \<and> (\<exists>l\<le>k. ss_launched t = ss_launched s @ launched_all calls (concat (take l (batch_plan calls))))"
        using kl continued plan
        by (intro exI [of _ "Suc k"] conjI exI [of _ "Suc l"]) (simp_all add: launched_all_append)
      moreover have "case r of Inl e \<Rightarrow> stop_error e
          | Inr outs' \<Rightarrow> ss_batches t = ss_batches s @ batch_plan calls
              \<and> ss_launched t = ss_launched s @ launched_all calls (concat (batch_plan calls))
              \<and> map fst outs' = map fst outs @ map (completed_of calls) (concat (batch_plan calls))"
        using rest continued plan completed same [of "length (batch_plan ?next)"]
        by (cases r) (auto simp: follows_plan_def Let_def launched_all_append)
      ultimately show ?thesis by (simp add: follows_plan_def Let_def)
    qed
  qed
qed

subsection \<open>Returning\<close>

text \<open>The executor's promise: no future stays pending forever.\<close>

definition futures_finish :: "sched_env \<Rightarrow> bool" where
  "futures_finish env \<longleftrightarrow> (\<forall>a c. env_execute env a c \<noteq> Some NeverReady)"

fun slot_polls :: "completed_call \<times> slot \<Rightarrow> nat" where
  "slot_polls (m, Running (ReadyAfter n out)) = Suc n"
| "slot_polls (m, _) = 0"

definition slot_finite :: "completed_call \<times> slot \<Rightarrow> bool" where
  "slot_finite sl \<longleftrightarrow> snd sl \<noteq> Running NeverReady"

lemma poll_finite: "slot_finite sl \<Longrightarrow> slot_finite (poll_slot sl)"
  by (cases sl rule: poll_slot.cases) (simp_all add: slot_finite_def)

lemma poll_polls: "slot_polls (poll_slot sl) \<le> slot_polls sl"
  by (cases sl rule: poll_slot.cases) simp_all

lemma poll_polls_less: "slot_finite sl \<Longrightarrow> slot_pending (poll_slot sl) \<Longrightarrow> slot_polls (poll_slot sl) < slot_polls sl"
  by (cases sl rule: poll_slot.cases) (simp_all add: slot_finite_def slot_pending_def)

lemma poll_batch_less:
  "list_all slot_finite slots \<Longrightarrow> list_ex slot_pending (map poll_slot slots) \<Longrightarrow>
   sum_list (map slot_polls (map poll_slot slots)) < sum_list (map slot_polls slots)"
proof (induction slots)
  case (Cons sl slots)
  have "sum_list (map slot_polls (map poll_slot slots)) \<le> sum_list (map slot_polls slots)"
    by (simp add: comp_def sum_list_mono poll_polls)
  then show ?case
    using Cons poll_polls [of sl] poll_polls_less [of sl]
    by (cases "slot_pending (poll_slot sl)") (auto simp: add_mono_thms_linordered_field)
qed simp

lemma wait_for_batch_returns:
  "list_all slot_finite slots \<Longrightarrow> \<exists>y. wait_for_batch env slots s = Some (y :: ('b agent_error + _) \<times> _)"
proof (induction "sum_list (map slot_polls slots)" arbitrary: slots s rule: less_induct)
  case less
  show ?case
  proof (cases "env_cancelled env (ss_tick s) \<or> \<not> list_ex slot_pending (map poll_slot slots)")
    case True
    then show ?thesis
      by (subst wait_for_batch.simps) (auto simp: look_cancelled_def)
  next
    case False
    have "list_all slot_finite (map poll_slot slots)"
      using less.prems by (auto simp: list_all_iff poll_finite)
    then have "\<exists>y. wait_for_batch env (map poll_slot slots) (s\<lparr>ss_tick := Suc (ss_tick s)\<rparr>)
        = Some (y :: ('b agent_error + _) \<times> _)"
      using False by (intro less.hyps poll_batch_less less.prems) auto
    then show ?thesis
      using False by (subst wait_for_batch.simps) (simp add: look_cancelled_def)
  qed
qed

lemma start_call_finite:
  "futures_finish env \<Longrightarrow> start_call env c s = (r, t) \<Longrightarrow> slot_finite r"
  by (auto simp: start_call_def slot_finite_def futures_finish_def Let_def split: option.splits)

lemma launch_finite:
  "futures_finish env \<Longrightarrow> launch env is calls s = (Inr (slots, calls') :: 'b agent_error + _, t) \<Longrightarrow>
   list_all slot_finite slots"
  by (induction env "is" calls s arbitrary: slots calls' t rule: launch.induct)
    (auto simp: Let_def split: option.splits prod.splits sum.splits dest: start_call_finite)

lemma exec_loop_None:
  assumes "exec_loop env calls completed outs s = (None :: (('b agent_error + _) \<times> _) option)"
  obtains (wait) "is" slots calls' s1 s2 where
      "launch env is calls s1 = (Inr (slots, calls') :: 'b agent_error + _, s2)"
      "wait_for_batch env slots s2 = (None :: (('b agent_error + _) \<times> _) option)"
  | (more) calls' n outs' s1 where "completed < length calls" "length calls' = length calls"
      "completed < n" "exec_loop env calls' n outs' s1 = (None :: (('b agent_error + _) \<times> _) option)"
  using assms unfolding exec_loop.simps [of env calls completed outs s]
  by (auto simp del: launch.simps announce.simps split: if_splits prod.splits list.splits sum.splits
      option.splits dest!: launch_length) (blast intro: less_add_Suc1)

lemma exec_loop_returns:
  assumes env: "futures_finish env"
  shows "\<exists>y. exec_loop env calls completed outs s = Some (y :: ('b agent_error + _) \<times> _)"
proof (induction "length calls - completed" arbitrary: calls completed outs s rule: less_induct)
  case less
  show ?case
  proof (rule ccontr)
    assume "\<nexists>y. exec_loop env calls completed outs s = Some (y :: ('b agent_error + _) \<times> _)"
    then have "exec_loop env calls completed outs s = (None :: (('b agent_error + _) \<times> _) option)"
      by (metis option.exhaust)
    then show False
    proof (cases rule: exec_loop_None)
      case (wait "is" slots calls' s1 s2)
      then show False using wait_for_batch_returns [OF launch_finite [OF env wait(1)], where 'b = 'b and env = env and s = s2]
        by auto
    next
      case (more calls' n outs' s1)
      then have "length calls' - n < length calls - completed" by simp
      from less [OF this, of outs' s1] more(4) show False by auto
    qed
  qed
qed

subsection \<open>Permits\<close>

definition permit_class_of :: "prepared_action \<Rightarrow> permission_class" where
  "permit_class_of a =
     (case pa_permission_request a of
        None \<Rightarrow> req_permission (pa_requirements a) | Some r \<Rightarrow> pr_class r)"

text \<open>A permit is bound to its call; a call that asks has one only after a decision to allow.\<close>

definition permit_ok ::
  "'s broker_api \<Rightarrow> prepared_action \<Rightarrow> execution_permit option \<Rightarrow> bool" where
  "permit_ok broker a p \<longleftrightarrow>
     (p = None \<or> p = Some (permit_new (pa_call_id a) (pa_tool a) (permit_class_of a)))
     \<and> (case pa_permission_request a of
          None \<Rightarrow> p \<noteq> None
        | Some r \<Rightarrow> p \<noteq> None \<longrightarrow>
            (\<exists>b. await_decision (api_receive broker) (snd (api_decide broker b r)) \<noteq> Deny))"

lemma send_if_trace:
  "send_if c env e s = (r, t) \<Longrightarrow> same_trace s t \<and> (r = Inl EventChannelClosed \<or> r = Inr ())"
  by (auto simp: send_if_def send_event_def same_trace_def split: if_splits)

lemma same_trace_trans: "same_trace s t \<Longrightarrow> same_trace t u \<Longrightarrow> same_trace s u"
  by (simp add: same_trace_def)

lemma look_trace: "look_cancelled env s = (c, t) \<Longrightarrow> same_trace s t"
  by (auto simp: look_cancelled_def same_trace_def)

lemma decide_permit_trace:
  assumes "decide_permit env broker a b s = (r :: 'c agent_error + _, b', t)"
  shows "same_trace s t \<and> (case r of Inl e \<Rightarrow> stop_error e | Inr p \<Rightarrow> permit_ok broker a p)"
proof (cases "pa_permission_request a")
  case None
  then show ?thesis
    using assms by (auto simp: decide_permit_def permit_ok_def permit_class_of_def same_trace_def)
next
  case (Some q)
  obtain b1 f where d: "api_decide broker b q = (b1, f)" by fastforce
  let ?ask = "api_needs_prompt broker b q" and ?d = "await_decision (api_receive broker) f"
  have allow: "permit_ok broker a (case ?d of
        AllowOnce \<Rightarrow> Some (permit_new (pa_call_id a) (pa_tool a) (pr_class q))
      | AllowSession \<Rightarrow> Some (permit_new (pa_call_id a) (pa_tool a) (pr_class q)) | Deny \<Rightarrow> None)"
    using d Some by (cases ?d) (auto simp: permit_ok_def permit_class_of_def intro!: exI [of _ b])
  obtain r1 s1 where 1: "send_if ?ask env (PermissionRequested q) s = (r1 :: 'c agent_error + unit, s1)"
    by fastforce
  obtain c2 s2 where 2: "look_cancelled env s1 = (c2, s2)" by fastforce
  obtain c3 s3 where 3: "look_cancelled env s2 = (c3, s3)" by fastforce
  obtain r4 s4 where 4: "send_if ?ask env (PermissionResolved (pa_call_id a) ?d) s3 =
      (r4 :: 'c agent_error + unit, s4)" by fastforce
  have t: "same_trace s s1" "same_trace s s2" "same_trace s s3" "same_trace s s4"
    using send_if_trace [OF 1] look_trace [OF 2] look_trace [OF 3] send_if_trace [OF 4]
    by (auto intro: same_trace_trans)
  show ?thesis
    using assms t allow send_if_trace [OF 1] send_if_trace [OF 4]
    unfolding decide_permit_def Some Let_def d 1 2 3 4 option.case prod.case
    by (auto simp: 1 2 3 4 stop_error_def split: if_splits sum.splits)
qed

lemma prepare_loop_trace:
  assumes "prepare_loop env broker gate actions calls b s = (r :: 'b agent_error + _, b', t)"
  shows "same_trace s t \<and> (case r of Inl e \<Rightarrow> stop_error e
     | Inr calls' \<Rightarrow> \<exists>ps. list_all2 (permit_ok broker) actions ps
         \<and> calls' = calls @ map (\<lambda>(a, p). Some (schedule_call gate a p)) (zip actions ps))"
  using assms
proof (induction actions arbitrary: calls b s)
  case Nil
  then show ?case by (auto simp: same_trace_def)
next
  case (Cons a actions)
  obtain c s0 where look: "look_cancelled env s = (c, s0)" by fastforce
  obtain r1 b1 s1 where d: "decide_permit env broker a b s0 = (r1 :: 'b agent_error + _, b1, s1)"
    by (metis prod_cases3)
  note dt = decide_permit_trace [OF d]
  have t: "same_trace s s0" "same_trace s s1"
    using look_trace [OF look] dt by (auto intro: same_trace_trans)
  consider (cancelled) c | (failed) e where "\<not> c" "r1 = Inl e" | (go) p where "\<not> c" "r1 = Inr p"
    by (cases c; cases r1) auto
  then show ?case
  proof cases
    case cancelled
    then show ?thesis using Cons.prems look t by (auto simp: stop_error_def)
  next
    case failed
    then show ?thesis using Cons.prems look d dt t by auto
  next
    case go
    then have "prepare_loop env broker gate actions (calls @ [Some (schedule_call gate a p)]) b1 s1
        = (r, b', t)"
      using Cons.prems look d by simp
    note IH = Cons.IH [OF this]
    show ?thesis
    proof (cases r)
      case (Inl e)
      then show ?thesis using IH t(2) by (auto intro: same_trace_trans)
    next
      case (Inr calls')
      then obtain ps where "list_all2 (permit_ok broker) actions ps"
        "calls' = calls @ [Some (schedule_call gate a p)]
          @ map (\<lambda>(a, p). Some (schedule_call gate a p)) (zip actions ps)"
        using IH by auto
      then show ?thesis
        using Inr IH t(2) dt go by (auto intro: same_trace_trans intro!: exI [of _ "p # ps"])
    qed
  qed
qed

subsection \<open>The whole step\<close>

definition prepared_calls ::
  "(prepared_action \<Rightarrow> tool_result option) \<Rightarrow> prepared_action list \<Rightarrow> execution_permit option list \<Rightarrow>
   scheduled_call option list" where
  "prepared_calls gate actions ps = map (\<lambda>(a, p). Some (schedule_call gate a p)) (zip actions ps)"

lemma prepared_calls_simps:
  "length ps = length actions \<Longrightarrow> length (prepared_calls gate actions ps) = length actions"
  "length ps = length actions \<Longrightarrow> i < length actions \<Longrightarrow>
   prepared_calls gate actions ps ! i = Some (schedule_call gate (actions ! i) (ps ! i))"
  "length ps = length actions \<Longrightarrow> pending (prepared_calls gate actions ps) = {..<length actions}"
  by (auto simp: prepared_calls_def pending_def)

lemma prepared_invariant:
  "length ps = length actions \<Longrightarrow> loop_invariant (prepared_calls gate actions ps) 0"
  by (simp add: loop_invariant_def prepared_calls_simps)

definition step_result :: "completed_call \<times> tool_result \<Rightarrow> scheduled_tool_result" where
  "step_result = (\<lambda>(m, r). \<lparr>sr_action = cc_action m, sr_result = r, sr_executed = cc_executed m,
     sr_planned = False, sr_planner_actions = 0\<rparr>)"

lemma execute_cases:
  assumes "execute_prepared_tool_calls_with_gate env broker gate actions b s =
    Some (r :: 'c agent_error + _, b', t)"
  obtains (too_many) "MAX_TOOL_CALLS_PER_STEP < length actions" "t = s"
      "r = Inl (ToolFailure ''tool call batch exceeds the bounded scheduler limit'')"
  | (stopped) e where "r = Inl e" "stop_error e" "same_trace s t"
  | (ran) ps q s1 where "list_all2 (permit_ok broker) actions ps" "same_trace s s1"
      "follows_plan (prepared_calls gate actions ps) [] s1 q t"
      "r = map_sum id (map step_result) q"
proof -
  obtain p b1 s1 where p: "prepare_calls env broker gate actions b s = (p :: 'c agent_error + _, b1, s1)"
    by (metis prod_cases3)
  show thesis
  proof (cases "MAX_TOOL_CALLS_PER_STEP < length actions")
    case True
    then show thesis
      using assms by (intro too_many)
        (auto simp: execute_prepared_tool_calls_with_gate_def prepare_calls_def)
  next
    case few: False
    then have loop: "prepare_loop env broker gate actions [] b s = (p, b1, s1)"
      using p by (simp add: prepare_calls_def)
    note trace = prepare_loop_trace [OF loop]
    show thesis
    proof (cases p)
      case (Inl e)
      then show thesis
        using assms p trace by (intro stopped)
          (auto simp: execute_prepared_tool_calls_with_gate_def)
    next
      case (Inr calls)
      then obtain ps where ps: "list_all2 (permit_ok broker) actions ps"
        "calls = prepared_calls gate actions ps"
        using trace by (auto simp: prepared_calls_def)
      then have inv: "loop_invariant calls 0"
        by (simp add: prepared_invariant list_all2_lengthD)
      obtain q u where q: "exec_loop env calls 0 [] s1 = Some (q :: 'c agent_error + _, u)"
        using assms p Inr
        by (cases "exec_loop env calls 0 [] s1 :: (('c agent_error + _) \<times> _) option")
          (auto simp: execute_prepared_tool_calls_with_gate_def)
      have "r = map_sum id (map step_result) q" "u = t"
        using assms p Inr q
        by (auto simp: execute_prepared_tool_calls_with_gate_def step_result_def split: sum.splits)
      with exec_loop_follows_plan [OF inv q] ps trace Inr show thesis
        by (intro ran [of ps s1 q]) auto
    qed
  qed
qed

lemma plan_of_prepared:
  assumes "length ps = length actions"
  shows "mset (concat (batch_plan (prepared_calls gate actions ps))) = mset [0..<length actions]"
proof -
  have "distinct (concat (batch_plan (prepared_calls gate actions ps)))"
    "set (concat (batch_plan (prepared_calls gate actions ps))) = set [0..<length actions]"
    using batch_plan_calls [of "prepared_calls gate actions ps"]
    by (simp_all add: prepared_calls_simps assms atLeast0LessThan del: set_concat)
  then show ?thesis
    by (subst set_eq_iff_mset_eq_distinct [symmetric]) (assumption | rule distinct_upt)+
qed

lemma ran_actions:
  assumes ps: "length ps = length actions"
    and "map fst outs = map (completed_of (prepared_calls gate actions ps))
      (concat (batch_plan (prepared_calls gate actions ps)))"
  shows "mset (map sr_action (map step_result outs)) = mset actions"
proof -
  let ?calls = "prepared_calls gate actions ps"
  have "map sr_action (map step_result outs) = map cc_action (map fst outs)"
    by (auto simp: step_result_def split: prod.split)
  also have "\<dots> = map (\<lambda>i. actions ! i) (concat (batch_plan ?calls))"
    unfolding assms(2) map_map
  proof (rule map_cong [OF refl])
    fix i assume "i \<in> set (concat (batch_plan ?calls))"
    then have "i < length actions"
      using batch_plan_calls [of ?calls] by (simp add: prepared_calls_simps ps del: set_concat)
    then show "(cc_action \<circ> completed_of ?calls) i = actions ! i"
      by (simp add: completed_of_def prepared_calls_simps ps schedule_call_def Let_def)
  qed
  finally have "mset (map sr_action (map step_result outs)) =
      image_mset (\<lambda>i. actions ! i) (mset (concat (batch_plan ?calls)))" by simp
  also have "\<dots> = mset actions"
    unfolding plan_of_prepared [OF ps] by (metis map_nth mset_map)
  finally show ?thesis .
qed

lemma launched_all_permits:
  assumes ps: "list_all2 (permit_ok broker) actions ps" and "set is \<subseteq> {..<length actions}"
    and "(a, p) \<in> set (launched_all (prepared_calls gate actions ps) is)"
  shows "a \<in> set actions \<and> gate a = None \<and> permit_ok broker a (Some p)"
proof -
  have len: "length ps = length actions" using ps by (simp add: list_all2_lengthD)
  obtain i where i: "i \<in> set is" "(a, p) \<in> set (launched_by (prepared_calls gate actions ps) i)"
    using assms(3) by (auto simp: launched_all_def)
  then have lt: "i < length actions" using assms(2) by auto
  then have eq: "a = actions ! i" "ps ! i = Some p" "gate a = None"
    using i(2) by (cases "ps ! i"; auto simp: launched_by_def prepared_calls_simps len
        schedule_call_def Let_def split: option.splits)+
  moreover have "permit_ok broker (actions ! i) (ps ! i)"
    using ps lt by (simp add: list_all2_nthD)
  ultimately show ?thesis using lt by simp
qed

end
