(* ===== verification/Scheduler_Properties.thy ===== *)
theory Scheduler_Properties
  imports Scheduler_Facts
begin

section \<open>Properties of the tool scheduler\<close>

text \<open>
  The guarantees of a whole scheduling step over the model of the code: its results, what it starts,
  with which permits and beside which other calls, and that it returns.
\<close>

lemma plan_index: "b \<in> set (batch_plan calls) \<Longrightarrow> i \<in> set b \<Longrightarrow> i \<in> pending calls"
  using batch_plan_calls [of calls] by auto

lemma executed_footprint:
  "gate a = None \<Longrightarrow> p \<noteq> None \<Longrightarrow> sc_footprint (schedule_call gate a p) = pa_effects a"
  by (cases p) (simp_all add: schedule_call_def)

lemma executed_call:
  "length ps = length actions \<Longrightarrow> i < length actions \<Longrightarrow> ps ! i \<noteq> None \<Longrightarrow>
   permitted (prepared_calls gate actions ps) i"
  by (simp add: permitted_def prepared_calls_simps schedule_call_def Let_def)

lemma executed_conflict:
  "length ps = length actions \<Longrightarrow> i < length actions \<Longrightarrow> j < length actions \<Longrightarrow>
   ps ! i \<noteq> None \<Longrightarrow> ps ! j \<noteq> None \<Longrightarrow> gate (actions ! i) = None \<Longrightarrow> gate (actions ! j) = None \<Longrightarrow>
   call_conflict (prepared_calls gate actions ps) i j = conflicts (pa_effects (actions ! i)) (pa_effects (actions ! j))"
  using executed_footprint [of gate "actions ! i" "ps ! i"] executed_footprint [of gate "actions ! j" "ps ! j"]
  by (simp add: call_conflict_def prepared_calls_simps)

text \<open>The environment and the call of the witnesses: nothing is cancelled, the executor answers at once.\<close>

definition answer :: tool_result where
  "answer = result_failure ''c1'' ''not_found'' ''no such file'' False 64"

definition calm_env :: sched_env where
  "calm_env = \<lparr>env_cancelled = (\<lambda>t. False), env_send_ok = (\<lambda>n. True),
     env_execute = (\<lambda>a c. Some (ReadyAfter 1 (Returned answer)))\<rparr>"

definition silent_broker :: "unit broker_api" where
  "silent_broker = \<lparr>api_needs_prompt = (\<lambda>s r. True), api_decide = (\<lambda>s r. (s, Receive 0)),
     api_cancel = (\<lambda>s i. s), api_receive = (\<lambda>t. None)\<rparr>"

lemma calm_env_finishes: "futures_finish calm_env"
  by (simp add: futures_finish_def calm_env_def)


definition read_call :: "rstr \<Rightarrow> rstr \<Rightarrow> prepared_action" where
  "read_call i path = \<lparr>pa_call_id = i, pa_tool = ''read'', pa_normalized_input = JNull, pa_fingerprint = [],
     pa_effects = read_workspace [path],
     pa_requirements = \<lparr>req_permission = ReadOnly, req_user_authorization = False,
       req_current_workspace_evidence = False\<rparr>,
     pa_paths = [path], pa_classification = ClassRead, pa_provenance = ProvModel,
     pa_permission_request = None, pa_command_effects = None\<rparr>"

text \<open>A step with one call that reads: it starts, is pending for one poll, and returns.\<close>

definition calm_state :: sched_state where
  "calm_state = \<lparr>ss_events = [ToolStarted ''c1'' ''read'' (permission_class_display ReadOnly) ''read'' None,
       ToolOutput ''c1'' (tr_output answer), ToolFinished ''c1'' (tr_ok answer)],
     ss_tick = 4, ss_launched = [(read_call ''c1'' ''a'', permit_new ''c1'' ''read'' ReadOnly)],
     ss_batches = [[0]]\<rparr>"

lemma calm_run:
  "execute_prepared_tool_calls_with_gate calm_env silent_broker (\<lambda>a. None) [read_call ''c1'' ''a''] () sched_start
     = Some (Inr [\<lparr>sr_action = read_call ''c1'' ''a'', sr_result = answer, sr_executed = True,
         sr_planned = False, sr_planner_actions = 0\<rparr>] :: unit agent_error + _, (), calm_state)"
  apply (simp add: execute_prepared_tool_calls_with_gate_def prepare_calls_def calm_env_def silent_broker_def
      sched_start_def look_cancelled_def decide_permit_def read_call_def schedule_call_def
      MAX_TOOL_CALLS_PER_STEP_def)
  apply (simp add: exec_loop.simps look_cancelled_def select_pending_calls_def DEFAULT_MAX_PARALLEL_TOOLS_def
      blocked_by_pending_conflict_def send_event_def start_call_def wait_for_batch.simps slot_pending_def
      Let_def calm_state_def read_call_def)
  done

text \<open>C31: A step that succeeds returns exactly one result for every call of the model, whatever order the
  batches ran in.\<close>

theorem results_are_the_calls:
  assumes "execute_prepared_tool_calls_with_gate env broker gate actions b s
    = Some (Inr rs :: 'c agent_error + _, b', t)"
  shows "mset (map sr_action rs) = mset actions"
  using assms
proof (cases rule: execute_cases)
  case (ran ps q s1)
  then obtain outs where q: "q = Inr outs" "rs = map step_result outs" by (cases q) auto
  have "length ps = length actions" using ran(1) by (simp add: list_all2_lengthD)
  moreover have "map fst outs = map (completed_of (prepared_calls gate actions ps))
      (concat (batch_plan (prepared_calls gate actions ps)))"
    using ran(3) q by (simp add: follows_plan_def Let_def)
  ultimately show ?thesis using ran_actions q(2) by blast
qed auto

lemma launched_gated:
  assumes "execute_prepared_tool_calls_with_gate env broker gate actions b sched_start
    = Some (r :: 'c agent_error + _, b', t)"
    and "(a, p) \<in> set (ss_launched t)"
  shows "a \<in> set actions" "gate a = None" "permit_ok broker a (Some p)"
proof -
  have none: False if "same_trace sched_start t"
    using that assms(2) by (simp add: same_trace_def sched_start_def)
  from assms(1) have "a \<in> set actions \<and> gate a = None \<and> permit_ok broker a (Some p)"
  proof (cases rule: execute_cases)
    case too_many
    then show ?thesis using none by (simp add: same_trace_def)
  next
    case stopped
    then show ?thesis using none by simp
  next
    case (ran ps q s1)
    let ?calls = "prepared_calls gate actions ps"
    obtain l where l: "ss_launched t = ss_launched s1 @ launched_all ?calls (concat (take l (batch_plan ?calls)))"
      using ran(3) by (auto simp: follows_plan_def Let_def)
    have len: "length ps = length actions" using ran(1) by (simp add: list_all2_lengthD)
    have "set (concat (take l (batch_plan ?calls))) \<subseteq> {..<length actions}"
      using plan_index [of _ ?calls] by (auto simp: prepared_calls_simps(3) [OF len] dest: in_set_takeD)
    moreover have "(a, p) \<in> set (launched_all ?calls (concat (take l (batch_plan ?calls))))"
      using l assms(2) ran(2) by (simp add: same_trace_def sched_start_def)
    ultimately show ?thesis by (rule launched_all_permits [OF ran(1)])
  qed
  then show "a \<in> set actions" "gate a = None" "permit_ok broker a (Some p)" by blast+
qed

text \<open>C32: Nothing runs without a permit: every call handed to the executor is one of the prepared calls, was
  let through by the gate, carries a permit that validates for this call, tool and class, and, where
  the call asks for permission, a decision of the broker allowed it.\<close>

theorem launched_only_permitted:
  assumes "execute_prepared_tool_calls_with_gate env broker gate actions b sched_start
    = Some (r :: 'c agent_error + _, b', t)"
    and "(a, p) \<in> set (ss_launched t)"
  shows "a \<in> set actions \<and> gate a = None
    \<and> permit_validate p (pa_call_id a) (pa_tool a) (permit_class_of a) = Inr ()
    \<and> (\<forall>q. pa_permission_request a = Some q \<longrightarrow>
         (\<exists>b. await_decision (api_receive broker) (snd (api_decide broker b q)) \<noteq> Deny))"
  using launched_gated [OF assms] by (auto simp: permit_ok_def permit_validate_def permit_new_def)

lemma results_are_the_calls_witness:
  "mset (map sr_action [\<lparr>sr_action = read_call ''c1'' ''a'', sr_result = answer, sr_executed = True,
     sr_planned = False, sr_planner_actions = 0\<rparr>]) = mset [read_call ''c1'' ''a'']"
  by (rule results_are_the_calls [OF calm_run])

lemma launched_only_permitted_witness:
  "permit_validate (permit_new ''c1'' ''read'' ReadOnly) ''c1'' ''read'' ReadOnly = Inr ()"
  using launched_only_permitted [OF calm_run, of "read_call ''c1'' ''a''" "permit_new ''c1'' ''read'' ReadOnly"]
  by (simp add: calm_state_def read_call_def permit_class_of_def)

text \<open>Which calls of a step run, and which of them clash.\<close>

definition runs ::
  "(prepared_action \<Rightarrow> tool_result option) \<Rightarrow> prepared_action list \<Rightarrow> execution_permit option list \<Rightarrow> nat \<Rightarrow> bool" where
  "runs gate actions ps i = (i < length actions \<and> ps ! i \<noteq> None \<and> gate (actions ! i) = None)"

definition clash :: "prepared_action list \<Rightarrow> nat \<Rightarrow> nat \<Rightarrow> bool" where
  "clash actions i j = conflicts (pa_effects (actions ! i)) (pa_effects (actions ! j))"

lemma plan_batch_length: "b \<in> set (batch_plan calls) \<Longrightarrow> length b \<le> DEFAULT_MAX_PARALLEL_TOOLS"
proof (induction calls rule: batch_plan.induct)
  case (1 calls)
  show ?case
  proof (cases "pending calls = {}")
    case False
    then show ?thesis
      using 1 select_pending_length by (subst (asm) (2) batch_plan.simps) auto
  qed (use 1 in \<open>simp add: batch_plan.simps\<close>)
qed

lemma runs_clash:
  assumes "length ps = length actions" "runs gate actions ps i" "runs gate actions ps j"
  shows "permitted (prepared_calls gate actions ps) i" "i \<in> pending (prepared_calls gate actions ps)"
    "clash actions i j = call_conflict (prepared_calls gate actions ps) i j"
  using assms executed_call [of ps actions i gate] executed_conflict [of ps actions i j gate]
  by (simp_all add: runs_def clash_def prepared_calls_simps)

lemma distinct_concat_take: "distinct (concat xs) \<Longrightarrow> distinct (concat (take k xs))"
  by (metis append_take_drop_id concat_append distinct_append)





subsection \<open>Ready prefixes\<close>

lemma schedule_loop_keeps:
  assumes "length sel \<le> limit" and "sorted_wrt (\<lambda>i j. i < j \<and> \<not> conflicts (fs ! i) (fs ! j)) sel"
    and "sorted_wrt (<) is" and "\<forall>i\<in>set sel. \<forall>j\<in>set is. i < j"
  shows "sorted_wrt (\<lambda>i j. i < j \<and> \<not> conflicts (fs ! i) (fs ! j)) (schedule_loop fs limit is sel)
    \<and> length (schedule_loop fs limit is sel) \<le> limit
    \<and> set sel \<subseteq> set (schedule_loop fs limit is sel)
    \<and> set (schedule_loop fs limit is sel) \<subseteq> set sel \<union> set is
    \<and> (length (schedule_loop fs limit is sel) = limit
       \<or> (\<forall>j\<in>set is - set (schedule_loop fs limit is sel).
            \<exists>i\<in>set (schedule_loop fs limit is sel). i < j \<and> conflicts (fs ! i) (fs ! j)))"
  using assms
proof (induction fs limit "is" sel rule: schedule_loop.induct)
  case (2 fs limit index rest sel)
  consider "length sel = limit"
    | "length sel \<noteq> limit" "list_ex (\<lambda>prior. conflicts (fs ! index) (fs ! prior)) sel"
    | "length sel \<noteq> limit" "\<not> list_ex (\<lambda>prior. conflicts (fs ! index) (fs ! prior)) sel" by blast
  then show ?case
  proof cases
    case 1
    then show ?thesis using 2(4) by auto
  next
    case 2
    then show ?thesis using "2.IH"(1) [OF 2] "2.prems"
      by (auto simp: list_ex_iff conflicts_sym)
  next
    case 3
    then show ?thesis using "2.IH"(2) [OF 3] "2.prems"
      by (auto simp: list_ex_iff conflicts_sym sorted_wrt_append)
  qed
qed simp

text \<open>The ready prefix is safe and greedy: the selected calls are pairwise free of conflicts, in order,
  within both limits, and when there was room left every call passed over conflicts with an earlier
  selected one.\<close>

theorem ready_prefix_safe_and_greedy:
  "sorted_wrt (\<lambda>i j. i < j \<and> \<not> conflicts (fs ! i) (fs ! j)) (schedule_ready_calls fs n slots)
   \<and> length (schedule_ready_calls fs n slots) \<le> min n slots
   \<and> set (schedule_ready_calls fs n slots) \<subseteq> {..<length fs}
   \<and> (length (schedule_ready_calls fs n slots) = min n slots
      \<or> (\<forall>j\<in>{..<length fs} - set (schedule_ready_calls fs n slots).
           \<exists>i\<in>set (schedule_ready_calls fs n slots). i < j \<and> conflicts (fs ! i) (fs ! j)))"
  using schedule_loop_keeps [of "[]" "min n slots" fs "[0..<length fs]"]
  by (simp add: schedule_ready_calls_def atLeast0LessThan)

lemma ready_prefix_safe_and_greedy_witness:
  "length (schedule_ready_calls [read_workspace [''a''], exclusive_workspace] 4 4) \<le> min 4 4"
  using ready_prefix_safe_and_greedy [of "[read_workspace [''a''], exclusive_workspace]" 4 4] by blast

end
