(* ===== verification/Commands.thy ===== *)
theory Commands
  imports Footprints Paths
begin

section \<open>Command intelligence (aether-core/src/command.rs)\<close>

text \<open>
  The classification of a direct argv and the extraction of its effects (paths, packages, manifests,
  what it writes, whether the record is incomplete).  The record and its footprint are in theory
  Footprints.  A \<open>&mut CommandEffects\<close> parameter is the record passed in and returned.
\<close>

definition MAX_COMMAND_ARGS :: nat where "MAX_COMMAND_ARGS = 256"
definition MAX_COMMAND_BYTES :: nat where "MAX_COMMAND_BYTES = 16 * 1024"
definition MAX_COMMAND_PATHS :: nat where "MAX_COMMAND_PATHS = 32"
definition MAX_COMMAND_PACKAGES :: nat where "MAX_COMMAND_PACKAGES = 16"
definition MAX_COMMAND_FIELD_BYTES :: nat where "MAX_COMMAND_FIELD_BYTES = 256"

lemmas command_limits = MAX_COMMAND_ARGS_def MAX_COMMAND_BYTES_def MAX_COMMAND_PATHS_def
  MAX_COMMAND_PACKAGES_def MAX_COMMAND_FIELD_BYTES_def

subsection \<open>Slices\<close>

fun position :: "('a \<Rightarrow> bool) \<Rightarrow> 'a list \<Rightarrow> nat option" where
  "position P [] = None"
| "position P (x # xs) = (if P x then Some 0 else map_option Suc (position P xs))"

definition get :: "'a list \<Rightarrow> nat \<Rightarrow> 'a option" where
  "get xs i = (if i < length xs then Some (xs ! i) else None)"

definition one_of :: "rstr option \<Rightarrow> rstr list \<Rightarrow> bool" where
  "one_of word words = (case word of None \<Rightarrow> False | Some w \<Rightarrow> w \<in> set words)"

definition has_arg :: "rstr list \<Rightarrow> rstr \<Rightarrow> bool" where
  "has_arg args word = (word \<in> set args)"

text \<open>The arguments after the first \<open>--\<close>.\<close>

definition after_separator :: "rstr list \<Rightarrow> rstr list" where
  "after_separator args = drop 1 (dropWhile (\<lambda>arg. arg \<noteq> ''--'') args)"

subsection \<open>Names and paths\<close>

definition base_name :: "rstr \<Rightarrow> rstr" where
  "base_name program =
     (case rev (path_components program) of Normal name # _ \<Rightarrow> name | _ \<Rightarrow> program)"

definition slash :: "char \<Rightarrow> bool" where
  "slash c = (c = CHR ''/'' \<or> c = CHR 0x5C)"

definition has_parent_part :: "rstr \<Rightarrow> bool" where
  "has_parent_part path = list_ex (\<lambda>part. part = ''..'')
     (split_on CHR ''/'' (map (\<lambda>c. if slash c then CHR ''/'' else c) path))"

definition rooted :: "rstr \<Rightarrow> bool" where
  "rooted path = (starts_with path ''/'' \<or> starts_with path [CHR 0x5C] \<or> get path 1 = Some CHR '':'')"

definition trim_matches :: "(char \<Rightarrow> bool) \<Rightarrow> rstr \<Rightarrow> rstr" where
  "trim_matches P s = rev (dropWhile P (rev (dropWhile P s)))"

fun trim_dot_slash :: "rstr \<Rightarrow> rstr" where
  "trim_dot_slash (c # d # s) =
     (if c = CHR ''.'' \<and> d = CHR ''/'' then trim_dot_slash s else c # d # s)"
| "trim_dot_slash s = s"

definition normalize_path :: "rstr \<Rightarrow> rstr \<Rightarrow> rstr" where
  "normalize_path cwd path =
     (if rooted path then [] else if has_parent_part path then []
      else
        (let path = (case strip_prefix path ''./'' of None \<Rightarrow> path | Some rest \<Rightarrow> rest);
             cwd = trim_dot_slash (trim_matches slash cwd);
             joined = (if cwd = [] \<or> cwd = ''.'' then path else if path = ''.'' then cwd
                       else cwd @ ''/'' @ path)
         in trim_matches (\<lambda>c. c = CHR ''/'') joined))"

definition cwd_scope :: "rstr \<Rightarrow> rstr" where
  "cwd_scope cwd =
     (let scope = normalize_path [] (if cwd = [] then ''.'' else cwd)
      in if scope = [] \<or> MAX_COMMAND_FIELD_BYTES < length scope then ''.'' else scope)"

definition looks_like_path :: "rstr \<Rightarrow> bool" where
  "looks_like_path value =
     (value = ''.'' \<or> value = ''..'' \<or> contains_str value ''/'' \<or> contains_str value [CHR 0x5C]
      \<or> starts_with value ''.''
      \<or> list_ex (ends_with value)
          [''.rs'', ''.toml'', ''.lock'', ''.json'', ''.js'', ''.jsx'', ''.ts'', ''.tsx'', ''.py'',
           ''.md'', ''.txt'', ''.yaml'', ''.yml''])"

definition unsafe_path_token :: "rstr \<Rightarrow> bool" where
  "unsafe_path_token value =
     (let candidate = (if CHR ''='' \<in> set value then drop 1 (dropWhile (\<lambda>c. c \<noteq> CHR ''='') value)
                       else value)
      in rooted candidate \<or> has_parent_part candidate)"

definition add_value :: "rstr list \<Rightarrow> rstr \<Rightarrow> rstr list" where
  "add_value values value =
     (if MAX_COMMAND_PACKAGES \<le> length values \<or> value = [] \<or> MAX_COMMAND_FIELD_BYTES < length value
         \<or> value \<in> set values then values else values @ [value])"

definition add_path :: "rstr list \<Rightarrow> rstr \<Rightarrow> rstr list" where
  "add_path paths path =
     (if MAX_COMMAND_PATHS \<le> length paths \<or> path = [] \<or> MAX_COMMAND_FIELD_BYTES < length path
         \<or> path \<in> set paths then paths else paths @ [path])"

definition add_path_with_cwd :: "rstr list \<Rightarrow> rstr \<Rightarrow> rstr \<Rightarrow> rstr list" where
  "add_path_with_cwd paths cwd path =
     (if path = [] \<or> starts_with path ''-'' then paths
      else if normalize_path cwd path = [] then paths
      else add_path paths (normalize_path cwd path))"

definition add_cwd_path :: "rstr \<Rightarrow> rstr \<Rightarrow> command_effects \<Rightarrow> command_effects" where
  "add_cwd_path cwd path e = e\<lparr>ce_paths := add_path_with_cwd (ce_paths e) cwd path\<rparr>"

definition add_cwd_manifest :: "rstr \<Rightarrow> rstr \<Rightarrow> command_effects \<Rightarrow> command_effects" where
  "add_cwd_manifest cwd path e = e\<lparr>ce_manifests := add_path_with_cwd (ce_manifests e) cwd path\<rparr>"

definition add_package :: "rstr \<Rightarrow> command_effects \<Rightarrow> command_effects" where
  "add_package value e = e\<lparr>ce_packages := add_value (ce_packages e) value\<rparr>"

definition scope_if_no_paths :: "rstr \<Rightarrow> command_effects \<Rightarrow> command_effects" where
  "scope_if_no_paths cwd e = (if ce_paths e = [] then e\<lparr>ce_paths := [cwd_scope cwd]\<rparr> else e)"

subsection \<open>Admission\<close>

fun argv_bytes_ok :: "nat \<Rightarrow> rstr list \<Rightarrow> bool" where
  "argv_bytes_ok bytes [] = True"
| "argv_bytes_ok bytes (arg # args) =
     (if MAX_COMMAND_BYTES < bytes + length arg then False else argv_bytes_ok (bytes + length arg) args)"

definition bounded_argv :: "rstr \<Rightarrow> rstr list \<Rightarrow> bool" where
  "bounded_argv program args =
     (if MAX_COMMAND_ARGS < length args then False else argv_bytes_ok (length program) args)"

definition has_shell_syntax :: "rstr list \<Rightarrow> bool" where
  "has_shell_syntax args =
     list_ex (\<lambda>arg.
       arg \<in> set [''|'', ''>'', ''>>'', ''<'', '';'', ''&&'', ''||'', ''&'']
       \<or> contains_str arg ''&&'' \<or> contains_str arg ''||'' \<or> contains_str arg ''|''
       \<or> contains_str arg '';'' \<or> contains_str arg ''>'' \<or> contains_str arg ''<''
       \<or> starts_with arg ''>'' \<or> starts_with arg ''<'' \<or> starts_with arg ''$(''
       \<or> contains_str arg [CHR 0x60]) args"

subsection \<open>Subcommands and option values\<close>

fun subcommand_loop :: "rstr list \<Rightarrow> bool \<Rightarrow> rstr list \<Rightarrow> rstr option" where
  "subcommand_loop value_options skip_next [] = None"
| "subcommand_loop value_options skip_next (arg # args) =
     (if skip_next then subcommand_loop value_options False args
      else if arg \<in> set value_options then subcommand_loop value_options True args
      else if starts_with arg ''-'' then subcommand_loop value_options False args
      else Some arg)"

definition first_subcommand :: "rstr list \<Rightarrow> rstr list \<Rightarrow> rstr option" where
  "first_subcommand args value_options = subcommand_loop value_options False args"

definition cargo_subcommand :: "rstr list \<Rightarrow> rstr option" where
  "cargo_subcommand args =
     subcommand_loop
       [''-p'', ''--package'', ''--manifest-path'', ''--target-dir'', ''--profile'', ''--features'',
        ''--config'', ''--color'', ''--message-format'', ''-j'', ''--jobs''] False args"

definition node_subcommand :: "rstr list \<Rightarrow> rstr option" where
  "node_subcommand args =
     first_subcommand args
       [''--prefix'', ''--userconfig'', ''--registry'', ''--cache'', ''--filter'', ''--dir'', ''--cwd'',
        ''-w'', ''--workspace'']"

definition git_subcommand :: "rstr list \<Rightarrow> rstr option" where
  "git_subcommand args =
     first_subcommand args [''-C'', ''--git-dir'', ''--work-tree'', ''--namespace'', ''--config-env'']"

definition equals_value :: "rstr \<Rightarrow> rstr \<Rightarrow> rstr option" where
  "equals_value arg name = Option.bind (strip_prefix arg name) (\<lambda>v. strip_prefix v ''='')"

text \<open>The inner loop over the names: \<open>Some r\<close> when it returns \<open>r\<close>.\<close>

fun option_value_names :: "rstr list \<Rightarrow> rstr \<Rightarrow> rstr option \<Rightarrow> rstr option option" where
  "option_value_names [] arg next = None"
| "option_value_names (name # names) arg next =
     (if arg = name then Some next
      else case equals_value arg name of
        Some value \<Rightarrow> Some (Some value)
      | None \<Rightarrow> option_value_names names arg next)"

fun option_value :: "rstr list \<Rightarrow> rstr list \<Rightarrow> rstr option" where
  "option_value names [] = None"
| "option_value names (arg # args) =
     (case option_value_names names arg (get args 0) of
        Some r \<Rightarrow> r
      | None \<Rightarrow> option_value names args)"

definition option_values_names :: "rstr list \<Rightarrow> rstr \<Rightarrow> rstr option \<Rightarrow> rstr list \<Rightarrow> rstr list" where
  "option_values_names names arg next values =
     foldl (\<lambda>values name.
       case (if arg = name then next else equals_value arg name) of
         Some value \<Rightarrow> add_value values value
       | None \<Rightarrow> values) values names"

fun option_values :: "rstr list \<Rightarrow> rstr list \<Rightarrow> rstr list \<Rightarrow> rstr list" where
  "option_values names [] values = values"
| "option_values names (arg # args) values =
     option_values names args (option_values_names names arg (get args 0) values)"

subsection \<open>Classification\<close>

definition classify_cargo :: "rstr list \<Rightarrow> command_class" where
  "classify_cargo args =
     (let sub = cargo_subcommand args
      in if sub = Some ''locate-project'' then Inspection
         else if one_of sub [''metadata'', ''tree'']
                 \<and> (has_arg args ''--offline'' \<or> has_arg args ''--frozen'') then Inspection
         else if one_of sub [''check'', ''test'', ''clippy'', ''bench''] then Verification
         else if sub = Some ''build'' then Build
         else if sub = Some ''fmt'' \<and> has_arg args ''--check'' then Verification
         else if sub = Some ''fmt'' then Formatting
         else if sub = Some ''fix'' then MutationClass
         else if one_of sub [''add'', ''remove'', ''install'', ''uninstall'', ''update'', ''upgrade'']
              then DependencyManagement
         else if sub = Some ''run'' then Build
         else UnknownClass)"

definition classify_python :: "rstr list \<Rightarrow> command_class" where
  "classify_python args =
     (case position (\<lambda>arg. arg = ''-m'') args of
        None \<Rightarrow> UnknownClass
      | Some index \<Rightarrow>
          (let m = get args (index + 1)
           in if one_of m [''pytest'', ''unittest'', ''compileall'', ''mypy''] then Verification
              else if m = Some ''ruff'' \<and> get args (index + 2) = Some ''format'' then Formatting
              else if m = Some ''ruff'' then Verification
              else if one_of m [''pip'', ''pip3'', ''uv''] then DependencyManagement
              else UnknownClass))"

definition classify_node :: "rstr list \<Rightarrow> command_class" where
  "classify_node args =
     (let sub = node_subcommand args
      in if one_of sub [''test'', ''lint'', ''typecheck''] then Verification
         else if sub = Some ''run'' then
           (let script = get args 1
            in if one_of script [''test'', ''lint'', ''typecheck'', ''check''] then Verification
               else if script = Some ''build'' then Build
               else if one_of script [''format'', ''fmt''] then Formatting
               else UnknownClass)
         else if sub = Some ''build'' then Build
         else if one_of sub [''format'', ''fmt''] then Formatting
         else if one_of sub [''install'', ''add'', ''remove'', ''update'', ''upgrade'', ''uninstall'', ''ci'']
              then DependencyManagement
         else UnknownClass)"

definition classify_dependency_manager :: "rstr list \<Rightarrow> command_class" where
  "classify_dependency_manager args =
     (let first = first_subcommand args
            [''--proxy'', ''--index-url'', ''--extra-index-url'', ''--python''];
          sub = (if first = Some ''pip'' then
                   (case position (\<lambda>arg. arg = ''pip'') args of
                      None \<Rightarrow> None
                    | Some index \<Rightarrow> first_subcommand (drop (index + 1) args) [])
                 else first)
      in if sub = Some ''run'' \<and> one_of (get args 1) [''pytest'', ''mypy'', ''ruff'', ''black'']
         then Verification
         else if one_of sub [''install'', ''add'', ''remove'', ''uninstall'', ''update'', ''sync'']
         then DependencyManagement
         else if one_of sub [''list'', ''show'', ''tree'', ''freeze''] then Inspection
         else UnknownClass)"

definition classify_formatter :: "rstr list \<Rightarrow> command_class" where
  "classify_formatter args =
     (if has_arg args ''--check'' \<or> has_arg args ''check'' then Verification
      else if get args 0 = Some ''format'' then Formatting
      else UnknownClass)"

definition classify_git :: "rstr list \<Rightarrow> command_class" where
  "classify_git args =
     (let sub = git_subcommand args
      in if sub = Some ''diff'' \<and> has_arg args ''--check'' then Verification
         else if one_of sub
           [''status'', ''diff'', ''show'', ''log'', ''branch'', ''tag'', ''rev-parse'', ''ls-files'',
            ''grep'', ''shortlog'', ''describe''] then GitRead
         else if one_of sub
           [''add'', ''commit'', ''checkout'', ''switch'', ''restore'', ''reset'', ''clean'', ''rm'',
            ''mv'', ''apply'', ''stash'', ''rebase'', ''merge'', ''cherry-pick'', ''pull'', ''push'',
            ''fetch'', ''clone'', ''init'', ''worktree''] then GitMutation
         else UnknownClass)"

definition classify_bounded :: "rstr \<Rightarrow> rstr list \<Rightarrow> command_class" where
  "classify_bounded program args =
     (let name = base_name program
      in if name = ''cargo'' then classify_cargo args
         else if name \<in> set [''rustc'', ''clippy-driver'', ''pytest'', ''mypy'', ''tsc''] then Verification
         else if name = ''rustfmt'' then (if has_arg args ''--check'' then Verification else Formatting)
         else if name \<in> set [''python'', ''python3''] then classify_python args
         else if name \<in> set [''npm'', ''pnpm'', ''yarn''] then classify_node args
         else if name \<in> set [''pip'', ''pip3'', ''uv'', ''poetry''] then classify_dependency_manager args
         else if name = ''ruff'' then classify_formatter args
         else if name = ''black'' then (if has_arg args ''--check'' then Verification else Formatting)
         else if name \<in> set [''rg'', ''grep'', ''egrep'', ''fgrep''] then Search
         else if name \<in> set [''find'', ''ls'', ''dir'', ''pwd'', ''stat'', ''head'', ''tail'', ''cat'',
                             ''wc'', ''file'', ''du''] then Inspection
         else if name = ''git'' then classify_git args
         else UnknownClass)"

definition classify_command :: "rstr \<Rightarrow> rstr list \<Rightarrow> command_class" where
  "classify_command program args =
     (if \<not> bounded_argv program args \<or> has_shell_syntax args then UnknownClass
      else classify_bounded program args)"

subsection \<open>Effects\<close>

fun positional_loop ::
  "rstr list \<Rightarrow> rstr list \<Rightarrow> rstr \<Rightarrow> bool \<Rightarrow> bool \<Rightarrow> rstr list \<Rightarrow> command_effects \<Rightarrow> command_effects" where
  "positional_loop skip_words value_options cwd skip_next separated [] e = e"
| "positional_loop skip_words value_options cwd skip_next separated (arg # args) e =
     (if skip_next then positional_loop skip_words value_options cwd False separated args e
      else if arg = ''--'' then positional_loop skip_words value_options cwd False True args e
      else if \<not> separated \<and> arg \<in> set skip_words
           then positional_loop skip_words value_options cwd False separated args e
      else if \<not> separated \<and> starts_with arg ''-''
           then positional_loop skip_words value_options cwd (arg \<in> set value_options) separated args e
      else positional_loop skip_words value_options cwd False separated args (add_cwd_path cwd arg e))"

definition analyze_positional_paths ::
  "rstr list \<Rightarrow> rstr \<Rightarrow> rstr list \<Rightarrow> rstr list \<Rightarrow> command_effects \<Rightarrow> command_effects" where
  "analyze_positional_paths args cwd skip_words value_options e =
     positional_loop skip_words value_options cwd False False args e"

definition add_all_paths :: "rstr \<Rightarrow> rstr list \<Rightarrow> command_effects \<Rightarrow> command_effects" where
  "add_all_paths cwd paths e = foldl (\<lambda>e path. add_cwd_path cwd path e) e paths"

definition builds_target :: "rstr list \<Rightarrow> command_class \<Rightarrow> bool" where
  "builds_target args class =
     (class = Build \<or> (is_verification class \<and> cargo_subcommand args \<noteq> Some ''fmt''))"

definition analyze_cargo :: "rstr list \<Rightarrow> rstr \<Rightarrow> command_effects \<Rightarrow> command_effects" where
  "analyze_cargo args cwd e =
     (let e = foldl (\<lambda>e value. add_package value e) e (option_values [''-p'', ''--package''] args []);
          e = add_cwd_manifest cwd (case option_value [''--manifest-path''] args of
                                      Some manifest \<Rightarrow> manifest | None \<Rightarrow> ''Cargo.toml'') e;
          e = add_cwd_manifest cwd ''Cargo.lock'' e;
          e = (case option_value [''--target-dir''] args of
                 Some target \<Rightarrow> add_cwd_path cwd target e
               | None \<Rightarrow> if builds_target args (ce_class e) then add_cwd_path cwd ''target'' e else e);
          e = add_all_paths cwd (after_separator args) e;
          e = e\<lparr>ce_writes_workspace := is_mutation (ce_class e),
                ce_writes_artifacts := builds_target args (ce_class e)\<rparr>;
          e = (if (ce_class e = Formatting \<or> ce_class e = MutationClass) \<and> \<not> has_arg args ''--''
               then e\<lparr>ce_uncertain := True\<rparr> else e);
          e = (if ce_class e = MutationClass \<and> cargo_subcommand args = Some ''fix'' \<and> ce_paths e = []
               then e\<lparr>ce_uncertain := True\<rparr> else e);
          e = (if cargo_subcommand args = Some ''run'' then e\<lparr>ce_uncertain := True\<rparr> else e)
      in e\<lparr>ce_verification_scope :=
             (case ce_packages e of
                [package] \<Rightarrow> Some (''package:'' @ package)
              | _ \<Rightarrow> if has_arg args ''--workspace'' then Some ''workspace''
                     else Some (cwd_scope cwd))\<rparr>)"

definition analyze_git :: "rstr list \<Rightarrow> rstr \<Rightarrow> command_effects \<Rightarrow> command_effects" where
  "analyze_git args cwd e =
     (let sub = git_subcommand args;
          e = (if ce_class e = GitRead \<or> ce_class e = Verification then
                 scope_if_no_paths cwd (add_all_paths cwd (after_separator args) e)
               else
                 (let e = e\<lparr>ce_writes_workspace := True\<rparr>
                  in if one_of sub [''add'', ''rm'', ''mv'', ''restore''] then
                       (let start = (case position (\<lambda>arg. Some arg = sub) args of
                                       None \<Rightarrow> 0 | Some index \<Rightarrow> index + 1)
                        in analyze_positional_paths (drop start args) cwd []
                             [''-m'', ''--message'', ''-C'', ''--pathspec-from-file''] e)
                     else add_all_paths cwd (after_separator args) e))
      in e\<lparr>ce_verification_scope := Some (cwd_scope cwd)\<rparr>)"

fun search_loop :: "rstr \<Rightarrow> bool \<Rightarrow> bool \<Rightarrow> rstr list \<Rightarrow> command_effects \<Rightarrow> command_effects" where
  "search_loop cwd skip_next pattern_seen [] e = e"
| "search_loop cwd skip_next pattern_seen (arg # args) e =
     (if skip_next then search_loop cwd False pattern_seen args e
      else if arg = ''--'' then search_loop cwd False True args e
      else if starts_with arg ''-'' \<and> \<not> pattern_seen then
        search_loop cwd
          (arg \<in> set [''-e'', ''--regexp'', ''-g'', ''--glob'', ''-t'', ''--type'', ''-C'', ''-A'', ''-B'',
                      ''-m'', ''--max-count'']) pattern_seen args e
      else if \<not> pattern_seen then search_loop cwd False True args e
      else search_loop cwd False pattern_seen args (add_cwd_path cwd arg e))"

definition analyze_search :: "rstr list \<Rightarrow> rstr \<Rightarrow> command_effects \<Rightarrow> command_effects" where
  "analyze_search args cwd e = scope_if_no_paths cwd (search_loop cwd False False args e)"

fun find_loop :: "rstr \<Rightarrow> bool \<Rightarrow> rstr list \<Rightarrow> command_effects \<Rightarrow> command_effects" where
  "find_loop cwd predicates [] e = e"
| "find_loop cwd predicates (arg # args) e =
     (if starts_with arg ''-'' then find_loop cwd True args e
      else if \<not> predicates then find_loop cwd predicates args (add_cwd_path cwd arg e)
      else find_loop cwd predicates args e)"

definition analyze_find :: "rstr list \<Rightarrow> rstr \<Rightarrow> command_effects \<Rightarrow> command_effects" where
  "analyze_find args cwd e = scope_if_no_paths cwd (find_loop cwd False args e)"

definition analyze_paths :: "rstr list \<Rightarrow> rstr \<Rightarrow> command_effects \<Rightarrow> command_effects" where
  "analyze_paths args cwd e =
     scope_if_no_paths cwd
       (analyze_positional_paths args cwd []
         [''-A'', ''--all'', ''-B'', ''--bytes'', ''-C'', ''--context'', ''-c'', ''--count'', ''-d'',
          ''--max-depth'', ''-f'', ''--format'', ''-n'', ''--lines'', ''-T'', ''--time-style''] e)"

fun packages_loop ::
  "rstr list \<Rightarrow> rstr list \<Rightarrow> rstr \<Rightarrow> bool \<Rightarrow> bool \<Rightarrow> bool \<Rightarrow> rstr list \<Rightarrow> command_effects \<Rightarrow>
   command_effects" where
  "packages_loop wrapper value_options cwd seen ignore_next path_next [] e = e"
| "packages_loop wrapper value_options cwd seen ignore_next path_next (arg # args) e =
     (if ignore_next then packages_loop wrapper value_options cwd seen False path_next args e
      else if path_next then
        packages_loop wrapper value_options cwd seen False False args (add_cwd_path cwd arg e)
      else if \<not> seen then
        (if arg \<in> set wrapper then packages_loop wrapper value_options cwd seen False False args e
         else if starts_with arg ''-''
              then packages_loop wrapper value_options cwd seen (arg \<in> set value_options) False args e
         else packages_loop wrapper value_options cwd True False False args e)
      else if arg = ''--'' then e
      else if starts_with arg ''-'' then
        packages_loop wrapper value_options cwd seen False
          (arg \<in> set [''-r'', ''--requirement'', ''--file'']) args e
      else if starts_with arg ''@'' \<or> \<not> looks_like_path arg
           then packages_loop wrapper value_options cwd seen False False args (add_package arg e)
      else packages_loop wrapper value_options cwd seen False False args (add_cwd_path cwd arg e))"

definition add_dependency_packages ::
  "rstr list \<Rightarrow> rstr \<Rightarrow> rstr list \<Rightarrow> rstr list \<Rightarrow> command_effects \<Rightarrow> command_effects" where
  "add_dependency_packages args cwd wrapper value_options e =
     packages_loop wrapper value_options cwd False False False args e"

definition analyze_node :: "rstr \<Rightarrow> rstr list \<Rightarrow> rstr \<Rightarrow> command_effects \<Rightarrow> command_effects" where
  "analyze_node command args cwd e =
     (let manifest = (if command = ''pnpm'' then ''pnpm-lock.yaml''
                      else if command = ''yarn'' then ''yarn.lock'' else ''package-lock.json'');
          e = add_cwd_manifest cwd manifest (add_cwd_manifest cwd ''package.json'' e);
          e = foldl (\<lambda>e package. add_package package e) e (option_values [''--workspace'', ''-w''] args []);
          e = (if ce_class e = DependencyManagement then
                 add_dependency_packages args cwd []
                   [''--workspace'', ''-w'', ''--prefix'', ''--registry'', ''--cache'', ''--cwd''] e
               else e);
          e = e\<lparr>ce_writes_workspace := (is_mutation (ce_class e) \<or> ce_class e = Formatting),
                ce_verification_scope := Some (cwd_scope cwd)\<rparr>;
          e = add_all_paths cwd (after_separator args) e;
          e = (if ce_class e = Build then add_cwd_path cwd ''dist'' (e\<lparr>ce_writes_artifacts := True\<rparr>)
               else if ce_class e = Verification then e\<lparr>ce_writes_artifacts := True\<rparr> else e)
      in if ce_class e = Formatting \<and> ce_paths e = [] then e\<lparr>ce_uncertain := True\<rparr> else e)"

definition python_command :: "rstr \<Rightarrow> rstr list \<Rightarrow> rstr option" where
  "python_command program args =
     (if program \<in> set [''python'', ''python3''] then
        Option.bind (position (\<lambda>arg. arg = ''-m'') args) (\<lambda>index. get args (index + 1))
      else Some program)"

definition add_python_manifest :: "rstr \<Rightarrow> rstr option \<Rightarrow> command_effects \<Rightarrow> command_effects" where
  "add_python_manifest cwd command e =
     (let e = add_cwd_manifest cwd ''pyproject.toml'' e
      in if command = Some ''uv'' then add_cwd_manifest cwd ''uv.lock'' e
         else if command = Some ''poetry'' then add_cwd_manifest cwd ''poetry.lock'' e
         else if one_of command [''pip'', ''pip3''] then add_cwd_manifest cwd ''requirements.txt'' e
         else e)"

definition analyze_python :: "rstr \<Rightarrow> rstr list \<Rightarrow> rstr \<Rightarrow> command_effects \<Rightarrow> command_effects" where
  "analyze_python program args cwd e =
     (let e = add_python_manifest cwd (python_command program args) e;
          e = e\<lparr>ce_writes_workspace := is_mutation (ce_class e),
                ce_writes_artifacts := is_verification (ce_class e),
                ce_verification_scope := Some (cwd_scope cwd)\<rparr>;
          remaining = drop (if get args 0 = Some ''-m'' then 2 else 0) args;
          e = (if ce_class e = DependencyManagement then
                 add_dependency_packages remaining cwd [''pip'', ''pip3'', ''uv'', ''poetry'']
                   [''--index-url'', ''--extra-index-url'', ''--proxy''] e
               else e)
      in analyze_positional_paths remaining cwd
           [''pytest'', ''unittest'', ''compileall'', ''mypy'', ''ruff'', ''pip'', ''pip3'', ''uv'',
            ''poetry'', ''install'', ''add'', ''remove'', ''uninstall'', ''update'', ''sync'', ''run'',
            ''check'', ''format'', ''discover'']
           [''-m'', ''--maxfail'', ''--max-count'', ''-k'', ''--config-file'', ''--config'', ''-r'',
            ''--requirement''] e)"

definition uncertain_format :: "command_effects \<Rightarrow> command_effects" where
  "uncertain_format e =
     (if ce_class e = Formatting \<and> ce_paths e = [] then e\<lparr>ce_uncertain := True\<rparr> else e)"

definition analyze_formatter_paths :: "rstr list \<Rightarrow> rstr \<Rightarrow> command_effects \<Rightarrow> command_effects" where
  "analyze_formatter_paths args cwd e =
     uncertain_format
       (analyze_positional_paths args cwd [''check'', ''format''] [''--config'', ''--config-file'']
         (e\<lparr>ce_writes_workspace := (ce_class e = Formatting),
            ce_verification_scope := Some (cwd_scope cwd)\<rparr>))"

definition analyze_rustfmt :: "rstr list \<Rightarrow> rstr \<Rightarrow> command_effects \<Rightarrow> command_effects" where
  "analyze_rustfmt args cwd e =
     uncertain_format
       (analyze_positional_paths args cwd [] [''--emit'', ''--edition'', ''--config-path'', ''--print-config'']
         (e\<lparr>ce_writes_workspace := (ce_class e = Formatting),
            ce_verification_scope := Some (cwd_scope cwd)\<rparr>))"

definition analyze_compiler :: "rstr \<Rightarrow> rstr list \<Rightarrow> rstr \<Rightarrow> command_effects \<Rightarrow> command_effects" where
  "analyze_compiler command args cwd e =
     (let e = analyze_positional_paths args cwd []
                [''--crate-name'', ''--edition'', ''--extern'', ''-L'', ''-o'', ''--out-dir'',
                 ''--project'', ''-p'', ''--outFile'', ''--outDir'']
                (e\<lparr>ce_verification_scope := Some (cwd_scope cwd)\<rparr>)
      in if command = ''tsc'' then add_cwd_manifest cwd ''tsconfig.json'' e else e)"

text \<open>The dispatch on the command, then the artifact directory.\<close>

definition analyze_kind :: "rstr \<Rightarrow> rstr list \<Rightarrow> rstr \<Rightarrow> command_effects \<Rightarrow> command_effects" where
  "analyze_kind command args cwd e =
     (if command = ''cargo'' then analyze_cargo args cwd e
      else if command = ''git'' then analyze_git args cwd e
      else if command \<in> set [''rg'', ''grep'', ''egrep'', ''fgrep''] then analyze_search args cwd e
      else if command = ''find'' then analyze_find args cwd e
      else if command \<in> set [''ls'', ''dir'', ''pwd'', ''stat'', ''head'', ''tail'', ''cat'', ''wc'',
                              ''file'', ''du''] then analyze_paths args cwd e
      else if command \<in> set [''npm'', ''pnpm'', ''yarn''] then analyze_node command args cwd e
      else if command \<in> set [''python'', ''python3'', ''pytest'', ''mypy'', ''pip'', ''pip3'', ''uv'',
                              ''poetry''] then analyze_python command args cwd e
      else if command \<in> set [''ruff'', ''black''] then analyze_formatter_paths args cwd e
      else if command = ''rustfmt'' then analyze_rustfmt args cwd e
      else if command \<in> set [''rustc'', ''clippy-driver'', ''tsc''] then analyze_compiler command args cwd e
      else e)"

definition analyze_command :: "rstr \<Rightarrow> rstr list \<Rightarrow> rstr \<Rightarrow> command_effects" where
  "analyze_command program args cwd =
     (let class = classify_command program args;
          e = command_effects_default\<lparr>ce_class := class\<rparr>
      in if class = UnknownClass then e\<lparr>ce_uncertain := True\<rparr>
         else
           (let e = (if MAX_COMMAND_FIELD_BYTES < length cwd \<or> unsafe_path_token cwd
                        \<or> list_ex unsafe_path_token args then e\<lparr>ce_uncertain := True\<rparr> else e);
                command = base_name program;
                e = analyze_kind command args cwd e;
                e = (if command \<in> set [''rustc'', ''clippy-driver'', ''tsc'']
                     then e\<lparr>ce_writes_artifacts := True\<rparr> else e)
            in if ce_writes_artifacts e \<and> ''target'' \<notin> set (ce_paths e)
               then e\<lparr>ce_paths := add_path (ce_paths e) ''target''\<rparr> else e))"

end
