(* ===== verification/Commands_Facts.thy ===== *)
theory Commands_Facts
  imports Commands
begin

section \<open>What a command's effect record promises\<close>

text \<open>
  Every analysis builds the record by the same few steps.  The locale \<open>effect_builder\<close> states which
  properties of a record survive them and proves once that they survive each analysis; it is
  interpreted on the size bounds of the record, on the confinement of its paths to the workspace, on
  the class and on the \<open>uncertain\<close> flag.
\<close>

subsection \<open>Parts of a path\<close>

lemma split_on_from_step: "split_on_from sep acc s = (rev acc @ hd (split_on_from sep [] s)) # tl (split_on_from sep [] s)"
proof (induction s arbitrary: acc)
  case (Cons c s)
  show ?case
  proof (cases "c = sep")
    case False
    have "split_on_from sep [c] s = (c # hd (split_on_from sep [] s)) # tl (split_on_from sep [] s)"
      using Cons.IH [of "[c]"] by simp
    moreover have "split_on_from sep (c # acc) s =
        (rev acc @ c # hd (split_on_from sep [] s)) # tl (split_on_from sep [] s)"
      using Cons.IH [of "c # acc"] by simp
    ultimately show ?thesis using False by simp
  qed simp
qed simp

lemma split_on_simps:
  "split_on sep [] = [[]]"
  "split_on sep (c # s) = (if c = sep then [] # split_on sep s
     else (c # hd (split_on sep s)) # tl (split_on sep s))"
  using split_on_from_step [of sep "[c]" s] by (simp_all add: split_on_def)

lemma split_on_not_Nil [simp]: "split_on sep s \<noteq> []"
  by (cases s) (simp_all add: split_on_simps)

lemma split_on_append_sep: "split_on sep (a @ sep # b) = split_on sep a @ split_on sep b"
proof (induction a)
  case (Cons c a)
  have "hd (split_on sep a @ split_on sep b) = hd (split_on sep a)"
    "tl (split_on sep a @ split_on sep b) = tl (split_on sep a) @ split_on sep b" by simp_all
  with Cons show ?case by (simp add: split_on_simps)
qed (simp add: split_on_simps)

definition parts :: "rstr \<Rightarrow> rstr list" where
  "parts s = split_on CHR ''/'' (map (\<lambda>c. if slash c then CHR ''/'' else c) s)"

lemma has_parent_part_parts: "has_parent_part s \<longleftrightarrow> ''..'' \<in> set (parts s)"
  by (simp add: has_parent_part_def parts_def list_ex_iff)

lemma slash_slash [simp]: "slash CHR ''/''"
  by (simp add: slash_def)

lemma parts_simps:
  "parts [] = [[]]"
  "slash c \<Longrightarrow> parts (c # s) = [] # parts s"
  by (simp_all add: parts_def split_on_simps)

lemma parts_append_slash: "slash c \<Longrightarrow> parts (a @ c # b) = parts a @ parts b"
  by (simp add: parts_def split_on_append_sep)

lemma parts_dropWhile:
  "(\<And>c. P c \<Longrightarrow> slash c) \<Longrightarrow> set (parts (dropWhile P s)) \<subseteq> set (parts s)"
  by (induction s) (auto simp: parts_simps)

lemma parts_drop_last:
  "(\<And>c. P c \<Longrightarrow> slash c) \<Longrightarrow> set (parts (rev (dropWhile P (rev s)))) \<subseteq> set (parts s)"
proof (induction s rule: rev_induct)
  case (snoc c s)
  then show ?case using parts_append_slash [of c s "[]"] by (auto simp: parts_simps)
qed simp

lemma parts_trim_matches: "(\<And>c. P c \<Longrightarrow> slash c) \<Longrightarrow> set (parts (trim_matches P s)) \<subseteq> set (parts s)"
  unfolding trim_matches_def using parts_dropWhile [of P s] parts_drop_last [of P "dropWhile P s"]
  by blast

lemma parts_dot_slash: "set (parts s) \<subseteq> set (parts (CHR ''.'' # CHR ''/'' # s))"
  using parts_append_slash [of "CHR ''/''" "''.''" s] by simp

lemma parts_trim_dot_slash: "set (parts (trim_dot_slash s)) \<subseteq> set (parts s)"
proof (induction s rule: trim_dot_slash.induct)
  case (1 c d s)
  then show ?case using parts_dot_slash [of s] by auto
qed simp_all

lemma strip_prefix_dot_slash: "strip_prefix path ''./'' = Some rest \<Longrightarrow> path = CHR ''.'' # CHR ''/'' # rest"
  by (auto simp: strip_prefix_def starts_with_def split: if_splits)
    (metis append_Cons append_Nil append_take_drop_id numeral_2_eq_2)

text \<open>The path a record holds: no part of it climbs, and it is not absolute.\<close>

definition confined :: "rstr \<Rightarrow> bool" where
  "confined p \<longleftrightarrow> \<not> has_parent_part p \<and> \<not> starts_with p ''/''"

lemma trim_matches_hd: "trim_matches P s \<noteq> [] \<Longrightarrow> \<not> P (hd (trim_matches P s))"
proof -
  let ?d = "dropWhile P s"
  assume ne: "trim_matches P s \<noteq> []"
  have "?d = trim_matches P s @ rev (takeWhile P (rev ?d))"
    unfolding trim_matches_def by (metis rev_append rev_rev_ident takeWhile_dropWhile_id)
  then have "hd (trim_matches P s) = hd ?d" "?d \<noteq> []" using ne
    by (metis hd_append2, metis append_is_Nil_conv)
  then show ?thesis using hd_dropWhile [of P s] by simp
qed

lemma normalize_path_confined:
  assumes "\<not> has_parent_part cwd"
  shows "confined (normalize_path cwd path)"
proof (cases "rooted path \<or> has_parent_part path")
  case True
  then show ?thesis
    by (auto simp: normalize_path_def confined_def has_parent_part_def starts_with_def split_on_simps)
next
  case False
  define stem where "stem = (case strip_prefix path ''./'' of None \<Rightarrow> path | Some rest \<Rightarrow> rest)"
  define base where "base = trim_dot_slash (trim_matches slash cwd)"
  define joined where "joined = (if base = [] \<or> base = ''.'' then stem else if stem = ''.'' then base
      else base @ ''/'' @ stem)"
  have stem: "set (parts stem) \<subseteq> set (parts path)"
    using parts_dot_slash
    by (auto simp: stem_def split: option.splits dest!: strip_prefix_dot_slash)
  have base: "set (parts base) \<subseteq> set (parts cwd)"
    unfolding base_def using parts_trim_dot_slash parts_trim_matches [of slash cwd] by blast
  have "set (parts joined) \<subseteq> set (parts path) \<union> set (parts cwd)"
    using stem base parts_append_slash [of "CHR ''/''" base stem] by (auto simp: joined_def)
  then have "''..'' \<notin> set (parts joined)"
    using False assms by (auto simp: has_parent_part_parts)
  moreover have n: "normalize_path cwd path = trim_matches (\<lambda>c. c = CHR ''/'') joined"
    using False unfolding normalize_path_def Let_def joined_def base_def stem_def by simp
  ultimately have "\<not> has_parent_part (normalize_path cwd path)"
    using parts_trim_matches [of "\<lambda>c. c = CHR ''/''" joined] by (auto simp: has_parent_part_parts)
  moreover have "\<not> starts_with (normalize_path cwd path) ''/''"
    using trim_matches_hd [of "\<lambda>c. c = CHR ''/''" joined] unfolding n
    by (cases "trim_matches (\<lambda>c. c = CHR ''/'') joined") (auto simp: starts_with_def)
  ultimately show ?thesis by (simp add: confined_def)
qed

lemma no_parent_Nil [simp]: "\<not> has_parent_part []"
  by (simp add: has_parent_part_parts parts_simps)

lemma cwd_scope_confined: "confined (cwd_scope cwd)"
  using normalize_path_confined [of "[]" "if cwd = [] then ''.'' else cwd"]
  by (auto simp: cwd_scope_def Let_def confined_def has_parent_part_def starts_with_def slash_def
      split_on_simps)

lemma cwd_scope_length: "cwd_scope cwd \<noteq> [] \<and> length (cwd_scope cwd) \<le> MAX_COMMAND_FIELD_BYTES"
  by (simp add: cwd_scope_def Let_def command_limits)

subsection \<open>Properties every step of an analysis keeps\<close>

text \<open>The record before the artifact directory is added.\<close>

definition dispatched :: "rstr \<Rightarrow> rstr list \<Rightarrow> rstr \<Rightarrow> command_effects" where
  "dispatched program args cwd =
     (let e = analyze_kind (base_name program) args cwd
            (command_effects_default\<lparr>ce_class := classify_command program args,
               ce_uncertain := (MAX_COMMAND_FIELD_BYTES < length cwd \<or> unsafe_path_token cwd
                                \<or> list_ex unsafe_path_token args)\<rparr>)
      in if base_name program \<in> set [''rustc'', ''clippy-driver'', ''tsc'']
         then e\<lparr>ce_writes_artifacts := True\<rparr> else e)"

locale effect_builder =
  fixes cwd :: rstr
    and Q :: "command_effects \<Rightarrow> bool"
  assumes add_path: "Q e \<Longrightarrow> Q (add_cwd_path cwd p e)"
    and add_manifest: "Q e \<Longrightarrow> Q (add_cwd_manifest cwd p e)"
    and add_pkg: "Q e \<Longrightarrow> Q (add_package p e)"
    and scope_paths: "Q e \<Longrightarrow> Q (scope_if_no_paths cwd e)"
    and set_workspace: "Q e \<Longrightarrow> Q (e\<lparr>ce_writes_workspace := b\<rparr>)"
    and set_artifacts: "Q e \<Longrightarrow> Q (e\<lparr>ce_writes_artifacts := b\<rparr>)"
    and set_scope: "Q e \<Longrightarrow> Q (e\<lparr>ce_verification_scope := s\<rparr>)"
    and set_uncertain: "Q e \<Longrightarrow> Q (e\<lparr>ce_uncertain := True\<rparr>)"
begin

lemmas keeps = add_path add_manifest add_pkg scope_paths set_workspace set_artifacts set_scope
  set_uncertain

lemma positional_loop: "Q e \<Longrightarrow> Q (positional_loop skip opts cwd sn sep args e)"
  by (induction args arbitrary: sn sep e) (auto simp: keeps)

lemma positional: "Q e \<Longrightarrow> Q (analyze_positional_paths args cwd skip opts e)"
  by (simp add: analyze_positional_paths_def positional_loop)

lemma all_paths: "Q e \<Longrightarrow> Q (add_all_paths cwd ps e)"
  by (induction ps arbitrary: e) (auto simp: add_all_paths_def keeps)

lemma all_packages: "Q e \<Longrightarrow> Q (foldl (\<lambda>e v. add_package v e) e vs)"
  by (induction vs arbitrary: e) (auto simp: keeps)

lemma packages_loop: "Q e \<Longrightarrow> Q (packages_loop w opts cwd seen ig pn args e)"
  proof (induction args arbitrary: seen ig pn e)
  case (Cons arg args)
  show ?case
    by (simp only: packages_loop.simps split: if_split) (intro conjI impI Cons keeps)
qed simp

lemma search: "Q e \<Longrightarrow> Q (search_loop cwd sn seen args e)"
  by (induction args arbitrary: sn seen e) (auto simp: keeps)

lemma finds: "Q e \<Longrightarrow> Q (find_loop cwd predicates args e)"
  by (induction args arbitrary: predicates e) (auto simp: keeps)

lemmas builds = keeps positional all_paths all_packages packages_loop search finds

lemma let_record: "Q t \<Longrightarrow> (\<And>x. Q x \<Longrightarrow> Q (f x)) \<Longrightarrow> Q (Let t f)"
  by (simp add: Let_def)

lemma let_other: "(\<And>x. Q (f x)) \<Longrightarrow> Q (Let t f)"
  by (simp add: Let_def)

lemma if_record: "(b \<Longrightarrow> Q x) \<Longrightarrow> (\<not> b \<Longrightarrow> Q y) \<Longrightarrow> Q (if b then x else y)"
  by simp

lemma option_record: "(m = None \<Longrightarrow> Q x) \<Longrightarrow> (\<And>v. m = Some v \<Longrightarrow> Q (f v)) \<Longrightarrow>
  Q (case m of None \<Rightarrow> x | Some v \<Rightarrow> f v)"
  by (cases m) simp_all

lemmas record_intros = let_record if_record option_record builds

lemma uncertain_format: "Q e \<Longrightarrow> Q (uncertain_format e)"
  by (simp add: uncertain_format_def builds)

lemma cargo: "Q e \<Longrightarrow> Q (analyze_cargo args cwd e)"
  unfolding analyze_cargo_def by (intro record_intros)

lemma git: "Q e \<Longrightarrow> Q (analyze_git args cwd e)"
  unfolding analyze_git_def by (rule let_record let_other builds if_record | assumption)+

lemma node: "Q e \<Longrightarrow> Q (analyze_node command args cwd e)"
  unfolding analyze_node_def add_dependency_packages_def by (rule let_other) (intro record_intros)

lemma python_manifest: "Q e \<Longrightarrow> Q (add_python_manifest cwd c e)"
  unfolding add_python_manifest_def by (intro record_intros)

lemma python: "Q e \<Longrightarrow> Q (analyze_python program args cwd e)"
  unfolding analyze_python_def add_dependency_packages_def
  by (rule let_record let_other python_manifest builds if_record | assumption)+

lemma kind: "Q e \<Longrightarrow> Q (analyze_kind command args cwd e)"
  by (simp add: analyze_kind_def cargo git node python builds uncertain_format analyze_search_def
      analyze_find_def analyze_paths_def analyze_formatter_paths_def analyze_rustfmt_def
      analyze_compiler_def Let_def)

lemma dispatched_keeps:
  "Q (command_effects_default\<lparr>ce_class := classify_command program args,
       ce_uncertain := (MAX_COMMAND_FIELD_BYTES < length cwd \<or> unsafe_path_token cwd
          \<or> list_ex unsafe_path_token args)\<rparr>) \<Longrightarrow> Q (dispatched program args cwd)"
  unfolding dispatched_def by (rule let_record let_other kind builds if_record | assumption)+

end

text \<open>The lists of a record: capped, without duplicates, every entry non-empty and bounded.\<close>

definition entries :: "nat \<Rightarrow> rstr list \<Rightarrow> bool" where
  "entries limit xs \<longleftrightarrow> length xs \<le> limit \<and> distinct xs
     \<and> list_all (\<lambda>x. x \<noteq> [] \<and> length x \<le> MAX_COMMAND_FIELD_BYTES) xs"

definition record_bounded :: "command_effects \<Rightarrow> bool" where
  "record_bounded e \<longleftrightarrow> entries MAX_COMMAND_PATHS (ce_paths e)
     \<and> entries MAX_COMMAND_PATHS (ce_manifests e) \<and> entries MAX_COMMAND_PACKAGES (ce_packages e)"

definition record_confined :: "command_effects \<Rightarrow> bool" where
  "record_confined e \<longleftrightarrow> list_all confined (ce_paths e) \<and> list_all confined (ce_manifests e)"

lemma entries_add_value: "entries MAX_COMMAND_PACKAGES xs \<Longrightarrow> entries MAX_COMMAND_PACKAGES (add_value xs v)"
  by (auto simp: entries_def add_value_def)

lemma entries_add_path: "entries MAX_COMMAND_PATHS xs \<Longrightarrow> entries MAX_COMMAND_PATHS (add_path xs v)"
  by (auto simp: entries_def add_path_def)

lemma entries_add_cwd: "entries MAX_COMMAND_PATHS xs \<Longrightarrow> entries MAX_COMMAND_PATHS (add_path_with_cwd xs cwd v)"
  by (simp add: add_path_with_cwd_def entries_add_path)

lemma entries_scope: "entries MAX_COMMAND_PATHS [cwd_scope cwd]"
  using cwd_scope_length by (simp add: entries_def command_limits)

interpretation bounded_record: effect_builder cwd record_bounded for cwd
  by unfold_locales
    (auto simp: record_bounded_def add_cwd_path_def add_cwd_manifest_def add_package_def
      scope_if_no_paths_def entries_add_value entries_add_cwd entries_scope)

lemma confined_add_path: "list_all confined xs \<Longrightarrow> confined p \<Longrightarrow> list_all confined (add_path xs p)"
  by (simp add: add_path_def)

interpretation confined_record:
  effect_builder cwd "\<lambda>e. has_parent_part cwd \<or> record_confined e" for cwd
  by unfold_locales
    (auto simp: record_confined_def add_cwd_path_def add_cwd_manifest_def add_package_def
      scope_if_no_paths_def add_path_with_cwd_def confined_add_path normalize_path_confined
      cwd_scope_confined)

interpretation class_record: effect_builder cwd "\<lambda>e. ce_class e = c" for cwd c
  by unfold_locales
    (auto simp: add_cwd_path_def add_cwd_manifest_def add_package_def scope_if_no_paths_def)

interpretation uncertain_record: effect_builder cwd ce_uncertain for cwd
  by unfold_locales
    (auto simp: add_cwd_path_def add_cwd_manifest_def add_package_def scope_if_no_paths_def)

lemma has_target: "ce_paths (if b then e\<lparr>ce_paths := add_path (ce_paths e) t\<rparr> else e) =
    (if b then add_path (ce_paths e) t else ce_paths e)"
  by simp

lemma default_bounded: "record_bounded (command_effects_default\<lparr>ce_class := c, ce_uncertain := u\<rparr>)"
  by (simp add: record_bounded_def command_effects_default_def entries_def)

lemma analyze_command_dispatched:
  "analyze_command program args cwd =
     (if classify_command program args = UnknownClass
      then command_effects_default\<lparr>ce_class := UnknownClass, ce_uncertain := True\<rparr>
      else let e = dispatched program args cwd
           in if ce_writes_artifacts e \<and> ''target'' \<notin> set (ce_paths e)
              then e\<lparr>ce_paths := add_path (ce_paths e) ''target''\<rparr> else e)"
proof -
  have flag: "(if b then d\<lparr>ce_uncertain := True\<rparr> else d) = d\<lparr>ce_uncertain := b\<rparr>"
    if "\<not> ce_uncertain d" for b and d :: command_effects
    using that by (cases d) simp
  have d: "\<not> ce_uncertain (command_effects_default\<lparr>ce_class := c\<rparr>)" for c
    by (simp add: command_effects_default_def)
  show ?thesis
    unfolding analyze_command_def dispatched_def Let_def flag [OF d] by simp
qed

lemma analyze_command_class: "ce_class (analyze_command program args cwd) = classify_command program args"
  using class_record.dispatched_keeps [where program = program and args = args and cwd = cwd
    and c = "classify_command program args"]
  by (simp add: analyze_command_dispatched Let_def)

lemma target_entry: "record_bounded e \<Longrightarrow> record_bounded (e\<lparr>ce_paths := add_path (ce_paths e) t\<rparr>)"
  by (simp add: record_bounded_def entries_add_path)

lemma record_of_analysis_bounded: "record_bounded (analyze_command program args cwd)"
  using bounded_record.dispatched_keeps [where program = program and args = args and cwd = cwd]
    default_bounded
  by (auto simp: analyze_command_dispatched Let_def target_entry)

lemma record_of_analysis_confined:
  "\<not> has_parent_part cwd \<Longrightarrow> record_confined (analyze_command program args cwd)"
  using confined_record.dispatched_keeps [where program = program and args = args and cwd = cwd]
  by (simp add: analyze_command_dispatched Let_def record_confined_def command_effects_default_def
      confined_add_path confined_def has_parent_part_def starts_with_def split_on_simps slash_def)

lemma analyze_command_uncertain:
  assumes "\<not> bounded_argv program args \<or> has_shell_syntax args
    \<or> MAX_COMMAND_FIELD_BYTES < length cwd \<or> unsafe_path_token cwd \<or> list_ex unsafe_path_token args"
  shows "ce_uncertain (analyze_command program args cwd)"
proof (cases "classify_command program args = UnknownClass")
  case False
  then have "ce_uncertain (dispatched program args cwd)"
    using assms by (intro uncertain_record.dispatched_keeps) (auto simp: classify_command_def)
  with False show ?thesis by (simp add: analyze_command_dispatched Let_def)
qed (simp add: analyze_command_dispatched)

subsection \<open>A mutating class writes the workspace\<close>

lemma add_records_flags [simp]:
  "ce_writes_workspace (add_cwd_path cwd p e) = ce_writes_workspace e"
  "ce_writes_workspace (add_cwd_manifest cwd p e) = ce_writes_workspace e"
  "ce_writes_workspace (add_package p e) = ce_writes_workspace e"
  "ce_writes_workspace (scope_if_no_paths cwd e) = ce_writes_workspace e"
  "ce_writes_workspace (uncertain_format e) = ce_writes_workspace e"
  by (simp_all add: add_cwd_path_def add_cwd_manifest_def add_package_def scope_if_no_paths_def
      uncertain_format_def)

lemma add_records_class [simp]:
  "ce_class (add_cwd_path cwd p e) = ce_class e"
  "ce_class (add_cwd_manifest cwd p e) = ce_class e"
  "ce_class (add_package p e) = ce_class e"
  "ce_class (scope_if_no_paths cwd e) = ce_class e"
  "ce_class (uncertain_format e) = ce_class e"
  by (simp_all add: add_cwd_path_def add_cwd_manifest_def add_package_def scope_if_no_paths_def
      uncertain_format_def)

lemma flag_loops [simp]:
  "ce_writes_workspace (positional_loop skip opts cwd sn sep args e) = ce_writes_workspace e"
  "ce_class (positional_loop skip opts cwd sn sep args e) = ce_class e"
  by (induction args arbitrary: sn sep e) simp_all

lemma package_loops [simp]:
  "ce_writes_workspace (packages_loop w opts cwd seen ig pn args e) = ce_writes_workspace e"
  "ce_class (packages_loop w opts cwd seen ig pn args e) = ce_class e"
  by (induction args arbitrary: seen ig pn e) simp_all

lemma path_folds [simp]:
  "ce_writes_workspace (add_all_paths cwd ps e) = ce_writes_workspace e"
  "ce_class (add_all_paths cwd ps e) = ce_class e"
  unfolding add_all_paths_def by (induction ps arbitrary: e) simp_all

lemma package_folds [simp]:
  "ce_writes_workspace (foldl (\<lambda>e v. add_package v e) e vs) = ce_writes_workspace e"
  "ce_class (foldl (\<lambda>e v. add_package v e) e vs) = ce_class e"
  by (induction vs arbitrary: e) simp_all

lemma flag_analyses [simp]:
  "ce_writes_workspace (analyze_positional_paths args cwd skip opts e) = ce_writes_workspace e"
  "ce_class (analyze_positional_paths args cwd skip opts e) = ce_class e"
  "ce_writes_workspace (add_python_manifest cwd c e) = ce_writes_workspace e"
  "ce_class (add_python_manifest cwd c e) = ce_class e"
  by (simp_all add: analyze_positional_paths_def add_python_manifest_def Let_def)

text \<open>Stepping through the local rebindings of the record.\<close>

lemma let_class: "ce_class t = c \<Longrightarrow> (\<And>x. ce_class x = c \<Longrightarrow> ce_writes_workspace (f x) = v) \<Longrightarrow>
    ce_writes_workspace (Let t f) = v"
  by (simp add: Let_def)

lemma let_flag: "ce_class t = c \<and> ce_writes_workspace t = w \<Longrightarrow>
    (\<And>x. ce_class x = c \<Longrightarrow> ce_writes_workspace x = w \<Longrightarrow> ce_writes_workspace (f x) = v) \<Longrightarrow>
    ce_writes_workspace (Let t f) = v"
  by (simp add: Let_def)

lemma let_name: "(\<And>x. ce_writes_workspace (f x) = v) \<Longrightarrow> ce_writes_workspace (Let t f) = v"
  by (simp add: Let_def)

lemma cargo_writes: "ce_writes_workspace (analyze_cargo args cwd e) = is_mutation (ce_class e)"
  unfolding analyze_cargo_def
  apply (rule let_class [where c = "ce_class e"], simp)
  apply (rule let_class [where c = "ce_class e"], simp)
  apply (rule let_class [where c = "ce_class e"], simp)
  apply (rule let_class [where c = "ce_class e"], simp split: option.split)
  apply (rule let_class [where c = "ce_class e"], simp)
  apply (rule let_flag [where c = "ce_class e" and w = "is_mutation (ce_class e)"], simp)+
  apply simp
  done

lemma git_writes: "ce_class e = GitMutation \<Longrightarrow> ce_writes_workspace (analyze_git args cwd e)"
  by (simp add: analyze_git_def Let_def)

lemma node_writes:
  "ce_writes_workspace (analyze_node command args cwd e) = (is_mutation (ce_class e) \<or> ce_class e = Formatting)"
  unfolding analyze_node_def add_dependency_packages_def 
  apply (rule let_name)
  apply (rule let_class [where c = "ce_class e"], simp)
  apply (rule let_class [where c = "ce_class e"], simp)
  apply (rule let_class [where c = "ce_class e"], simp)
  apply (rule let_flag [where c = "ce_class e" and w = "is_mutation (ce_class e) \<or> ce_class e = Formatting"], simp)+
  apply simp
  done

lemma python_writes: "ce_writes_workspace (analyze_python program args cwd e) = is_mutation (ce_class e)"
  by (simp add: analyze_python_def add_dependency_packages_def Let_def)

lemma formatter_writes:
  "ce_writes_workspace (analyze_formatter_paths args cwd e) = (ce_class e = Formatting)"
  "ce_writes_workspace (analyze_rustfmt args cwd e) = (ce_class e = Formatting)"
  by (simp_all add: analyze_formatter_paths_def analyze_rustfmt_def)

lemmas kind_writes = cargo_writes git_writes node_writes python_writes formatter_writes

lemma classify_mutation:
  "is_mutation (classify_dependency_manager args) \<Longrightarrow> classify_dependency_manager args = DependencyManagement"
  "is_mutation (classify_formatter args) \<Longrightarrow> classify_formatter args = Formatting"
  "is_mutation (classify_git args) \<Longrightarrow> classify_git args = GitMutation"
  by (auto simp: classify_dependency_manager_def classify_formatter_def classify_git_def is_mutation_def
      Let_def split: if_splits)

lemma analyze_kind_writes:
  assumes m: "is_mutation (classify_bounded program args)" and c: "ce_class e = classify_bounded program args"
  shows "ce_writes_workspace (analyze_kind (base_name program) args cwd e)"
proof -
  let ?n = "base_name program"
  have not: "\<not> is_mutation Verification" "\<not> is_mutation Search" "\<not> is_mutation Inspection"
    "\<not> is_mutation UnknownClass" by (simp_all add: is_mutation_def)
  have "?n \<in> set [''cargo'', ''git'', ''npm'', ''pnpm'', ''yarn'', ''python'', ''python3'', ''pip'', ''pip3'',
      ''uv'', ''poetry'', ''ruff'', ''black'', ''rustfmt'']"
  proof (rule ccontr)
    assume "\<not> ?thesis"
    then show False using m unfolding classify_bounded_def Let_def by (simp add: not split: if_splits)
  qed
  then consider "?n = ''cargo''" | "?n = ''git''" | "?n \<in> set [''npm'', ''pnpm'', ''yarn'']"
    | "?n \<in> set [''python'', ''python3'', ''pip'', ''pip3'', ''uv'', ''poetry'']"
    | "?n = ''ruff''" | "?n = ''black''" | "?n = ''rustfmt''"
    by (simp only: set_simps insert_iff empty_iff) blast
  then show ?thesis
  proof cases
    case 1
    then show ?thesis using m c by (simp add: analyze_kind_def kind_writes)
  next
    case 2
    then show ?thesis using m c classify_mutation(3) [of args]
      by (simp add: analyze_kind_def kind_writes classify_bounded_def)
  next
    case 3
    then show ?thesis using m c by (auto simp: analyze_kind_def kind_writes)
  next
    case 4
    then show ?thesis using m c by (auto simp: analyze_kind_def kind_writes)
  next
    case 5
    then show ?thesis using m c classify_mutation(2) [of args]
      by (simp add: analyze_kind_def kind_writes classify_bounded_def)
  next
    case 6
    then show ?thesis using m c
      by (simp add: analyze_kind_def kind_writes classify_bounded_def is_mutation_def split: if_splits)
  next
    case 7
    then show ?thesis using m c
      by (simp add: analyze_kind_def kind_writes classify_bounded_def is_mutation_def split: if_splits)
  qed
qed

lemma mutation_writes:
  assumes m: "is_mutation (classify_command program args)"
  shows "ce_writes_workspace (analyze_command program args cwd)"
proof -
  have c: "classify_command program args = classify_bounded program args"
    "classify_command program args \<noteq> UnknownClass"
    using m by (auto simp: classify_command_def is_mutation_def split: if_splits)
  have step: "ce_writes_workspace (let e = r in if b then e\<lparr>ce_writes_artifacts := True\<rparr> else e)
      = ce_writes_workspace r" for r :: command_effects and b by (simp add: Let_def)
  have "ce_writes_workspace (dispatched program args cwd)"
    unfolding dispatched_def step using m c(1) by (intro analyze_kind_writes) simp_all
  then show ?thesis using c(2) by (simp add: analyze_command_dispatched Let_def)
qed

end
