(* ===== verification/Command_Properties.thy ===== *)
theory Command_Properties
  imports Commands_Facts
begin

section \<open>Properties of the command analysis\<close>

text \<open>
  What the scheduler may rely on when it reads the effect record of a direct command, and two cases
  in which the record does not say what it is read for.
\<close>

text \<open>The record of any command is bounded (at most 32 paths, manifests and packages, each non-empty, of at
  most 256 bytes and listed once) and, for a working directory without a parent reference, confined:
  no recorded path or manifest is absolute or climbs.\<close>

theorem command_record_safe:
  "record_bounded (analyze_command program args cwd)
   \<and> (has_parent_part cwd \<or> record_confined (analyze_command program args cwd))"
  using record_of_analysis_bounded [of program args cwd] record_of_analysis_confined [of cwd program args]
  by blast

text \<open>A command that is not understood runs alone: with too many or too long arguments, shell syntax, an
  over-long or escaping working directory, or an argument that escapes, its footprint conflicts with
  every other call.\<close>

theorem opaque_command_runs_alone:
  assumes "\<not> bounded_argv program args \<or> has_shell_syntax args
    \<or> MAX_COMMAND_FIELD_BYTES < length cwd \<or> unsafe_path_token cwd \<or> list_ex unsafe_path_token args"
  shows "conflicts (command_footprint (analyze_command program args cwd)) f"
  using analyze_command_uncertain [OF assms] by (simp add: command_footprint_def footprint_unknown_def)

lemma opaque_command_runs_alone_witness:
  "conflicts (command_footprint (analyze_command ''cat'' [''../secret''] [])) footprint_empty"
proof (rule opaque_command_runs_alone)
  have "unsafe_path_token ''../secret''"
    by (simp add: unsafe_path_token_def has_parent_part_def slash_def split_on_simps)
  then show "\<not> bounded_argv ''cat'' [''../secret''] \<or> has_shell_syntax [''../secret'']
    \<or> MAX_COMMAND_FIELD_BYTES < length ([] :: rstr) \<or> unsafe_path_token []
    \<or> list_ex unsafe_path_token [''../secret'']" by simp
qed

text \<open>A mutating command owns what it records: a command of a mutating class (formatting, mutation,
  dependency management, git mutation) conflicts with every call that touches a path overlapping one of its
  recorded paths or manifests.\<close>

theorem mutating_command_owns_paths:
  assumes "is_mutation (classify_command program args)"
    and "p \<in> set (ce_paths (analyze_command program args cwd) @ ce_manifests (analyze_command program args cwd))"
    and "touches f (WorkspacePath p)"
  shows "conflicts (command_footprint (analyze_command program args cwd)) f"
proof (rule write_conflicts [OF command_footprint_writes assms(3)])
  let ?e = "analyze_command program args cwd"
  show "ce_writes_workspace ?e" by (rule mutation_writes [OF assms(1)])
  show "\<not> is_read_only (ce_class ?e)"
    using assms(1) by (auto simp: analyze_command_class is_mutation_def is_read_only_def)
  show "length (ce_paths ?e @ ce_manifests ?e) \<le> MAX_TOOL_FOOTPRINT_RESOURCES"
    using record_of_analysis_bounded [of program args cwd]
    by (simp add: record_bounded_def entries_def command_limits MAX_TOOL_FOOTPRINT_RESOURCES_def)
qed (rule assms(2))

lemma mutating_command_owns_paths_witness:
  "conflicts (command_footprint (analyze_command ''git'' [''add'', ''src/a.rs''] []))
     (read_workspace [''src/a.rs''])"
proof (rule mutating_command_owns_paths)
  show "is_mutation (classify_command ''git'' [''add'', ''src/a.rs''])" by code_simp
  show "''src/a.rs'' \<in> set (ce_paths (analyze_command ''git'' [''add'', ''src/a.rs''] [])
      @ ce_manifests (analyze_command ''git'' [''add'', ''src/a.rs''] []))" by code_simp
  show "touches (read_workspace [''src/a.rs'']) (WorkspacePath ''src/a.rs'')"
    by (simp add: touches_def read_workspace_def from_effects_def MAX_TOOL_FOOTPRINT_RESOURCES_def)
qed

subsection \<open>Records that miss what they are read for\<close>

text \<open>The scope of the workspace root shields nothing: \<open>git restore .\<close> is recorded as writing the path
  \<open>.\<close>, which overlaps no other path, so the scheduler may run it beside a call that reads
  \<open>src/main.rs\<close>.\<close>

theorem root_scope_shields_nothing:
  "ce_paths (analyze_command ''git'' [''restore'', ''.''] []) = [''.'']
   \<and> ce_writes_workspace (analyze_command ''git'' [''restore'', ''.''] [])
   \<and> \<not> conflicts (command_footprint (analyze_command ''git'' [''restore'', ''.''] []))
       (read_workspace [''src/main.rs''])"
  by code_simp

text \<open>An escaping argument with an equals sign is not noticed: only the text after the first \<open>=\<close> is
  judged, so \<open>cat ../x=y\<close> yields a certain record that reads the workspace root, without the path.\<close>

theorem escaping_argument_unnoticed:
  "ce_class (analyze_command ''cat'' [''../x=y''] []) = Inspection
   \<and> ce_paths (analyze_command ''cat'' [''../x=y''] []) = [''.'']
   \<and> \<not> ce_uncertain (analyze_command ''cat'' [''../x=y''] [])"
  by code_simp

end
