(* ===== verification/Guardrails.thy ===== *)
theory Guardrails
  imports Workflow Tools Commands Contracts
begin

section \<open>Loop guardrails (aether-agent/src/guardrails.rs)\<close>

text \<open>
  Per-turn state that suppresses redundant calls: a cache of successful observations, a circuit
  breaker for repeated failures and a detector of steps without progress.  A \<open>VecDeque\<close> is a list
  (front first), the atomic counter a field; the BLAKE3 hash of a byte stream is the parameter
  \<open>blake\<close>, of which the code keeps sixteen bytes.
\<close>

definition MAX_OBSERVATIONS :: nat where "MAX_OBSERVATIONS = 64"
definition MAX_FAILURE_OBSERVATIONS :: nat where "MAX_FAILURE_OBSERVATIONS = 16"
definition NO_PROGRESS_LIMIT :: u8 where "NO_PROGRESS_LIMIT = 3"

lemmas guardrail_limits = MAX_OBSERVATIONS_def MAX_FAILURE_OBSERVATIONS_def NO_PROGRESS_LIMIT_def

datatype call_kind = KObservation | KVerification

record observation =
  ob_fingerprint :: rstr
  ob_revision :: u32
  ob_result :: tool_result

record failure_observation =
  fo_fingerprint :: rstr
  fo_revision :: u32
  fo_attempts :: u8
  fo_result :: tool_result

record workflow_observation =
  wo_workspace_revision :: u32
  wo_progress :: "u16 list"
  wo_unresolved_failures :: rstr
  wo_phase :: workflow_phase
  wo_candidate_files :: rstr

record loop_guardrails =
  lg_observations :: "observation list"
  lg_failures :: "failure_observation list"
  lg_last_progress :: "rstr option"
  lg_no_progress :: u8
  lg_prevented :: u16

definition guardrails_new :: loop_guardrails where
  "guardrails_new = \<lparr>lg_observations = [], lg_failures = [], lg_last_progress = None,
     lg_no_progress = 0, lg_prevented = 0\<rparr>"

subsection \<open>Projections of the workflow\<close>

definition truncated_hash :: "rstr \<Rightarrow> rstr" where
  "truncated_hash hash = take 16 hash"

definition digest_failures :: "(rstr \<Rightarrow> rstr) \<Rightarrow> workflow_failure list \<Rightarrow> rstr" where
  "digest_failures blake failures =
     (if failures = [] then zero_fingerprint
      else truncated_hash (blake (concat (map (\<lambda>f. as_str (wf_key f) @ as_str (wf_tool f)
             @ as_str (wf_code f) @ as_str (wf_message f)) failures))))"

definition flag_byte :: "bool \<Rightarrow> char" where
  "flag_byte b = (if b then CHR 0x01 else CHR 0x00)"

definition digest_candidates :: "(rstr \<Rightarrow> rstr) \<Rightarrow> decision_candidate list \<Rightarrow> rstr" where
  "digest_candidates blake candidates =
     truncated_hash (blake (concat (map (\<lambda>c. as_str (dc_path c) @ le_bytes 2 (unat (dc_score c))
       @ le_bytes 2 (unat (dc_evidence c))
       @ [flag_byte (dc_inspected c), flag_byte (dc_modified c), flag_byte (dc_stale c)]) candidates)))"

definition progress_view :: "workflow_state \<Rightarrow> u16 list" where
  "progress_view s = [wp_discoveries (wk_progress s), wp_inspections (wk_progress s),
     wp_mutations (wk_progress s), wp_verifications (wk_progress s)]"

definition workflow_observation_from :: "(rstr \<Rightarrow> rstr) \<Rightarrow> workflow_state \<Rightarrow> workflow_observation" where
  "workflow_observation_from blake s =
     \<lparr>wo_workspace_revision = wk_workspace_revision s, wo_progress = progress_view s,
      wo_unresolved_failures = digest_failures blake (wk_unresolved_failures s),
      wo_phase = wk_phase s,
      wo_candidate_files = digest_candidates blake (ds_candidate_files (wk_decision s))\<rparr>"

definition failure_state_changed :: "workflow_observation \<Rightarrow> workflow_observation \<Rightarrow> bool" where
  "failure_state_changed self after =
     (wo_unresolved_failures self \<noteq> zero_fingerprint
      \<and> wo_unresolved_failures self \<noteq> wo_unresolved_failures after)"

subsection \<open>Classification and fingerprints\<close>

definition guard_command_effects :: "json \<Rightarrow> command_effects option" where
  "guard_command_effects input =
     Option.bind (Option.bind (json_get input ''program'') json_as_str) (\<lambda>program.
     Option.bind
       (case json_get input ''args'' of
          None \<Rightarrow> Some []
        | Some value \<Rightarrow> Option.bind (json_as_array value) (\<lambda>vs. those (map json_as_str vs)))
       (\<lambda>args. Some (analyze_command program args
          (case Option.bind (json_get input ''cwd'') json_as_str of None \<Rightarrow> [] | Some cwd \<Rightarrow> cwd))))"

definition verification_command :: "json \<Rightarrow> bool" where
  "verification_command input =
     (case guard_command_effects input of None \<Rightarrow> False | Some e \<Rightarrow> ce_class e = Verification)"

definition guard_classify :: "rstr \<Rightarrow> json \<Rightarrow> call_kind option" where
  "guard_classify name input =
     (if name \<in> set [''read'', ''search'', ''find'', ''list''] then Some KObservation
      else if name \<in> set [''shell'', ''process''] \<and> verification_command input then Some KVerification
      else None)"

definition prepared_kind :: "prepared_action \<Rightarrow> call_kind option" where
  "prepared_kind action =
     (case pa_classification action of
        ClassRead \<Rightarrow> Some KObservation
      | ClassVerification \<Rightarrow> Some KVerification
      | ClassMutation \<Rightarrow> None
      | ClassOther \<Rightarrow> None)"

text \<open>This \<open>hash_value\<close> writes neither tags nor lengths of strings.\<close>

fun guard_hash_value :: "json \<Rightarrow> rstr" where
  "guard_hash_value JNull = ''n''"
| "guard_hash_value (JBool b) = (if b then ''t'' else ''f'')"
| "guard_hash_value (JNumber n) = n"
| "guard_hash_value (JString s) = s"
| "guard_hash_value (JArray vs) = concat (map guard_hash_value vs)"
| "guard_hash_value (JObject kvs) =
     concat (map (\<lambda>(k, h). k @ h) (sort_key fst (map (\<lambda>(k, v). (k, guard_hash_value v)) kvs)))"

definition kind_byte :: "call_kind \<Rightarrow> char" where
  "kind_byte kind = (case kind of KObservation \<Rightarrow> CHR 0x00 | KVerification \<Rightarrow> CHR 0x01)"

definition call_fingerprint :: "(rstr \<Rightarrow> rstr) \<Rightarrow> call_kind \<Rightarrow> rstr \<Rightarrow> json \<Rightarrow> rstr" where
  "call_fingerprint blake kind name input =
     truncated_hash (blake (kind_byte kind # name @ guard_hash_value input))"

definition progress_fingerprint :: "(rstr \<Rightarrow> rstr) \<Rightarrow> workflow_observation \<Rightarrow> tool_result \<Rightarrow> rstr" where
  "progress_fingerprint blake workflow result =
     truncated_hash (blake (le_bytes 4 (unat (wo_workspace_revision workflow))
       @ concat (map (\<lambda>c. le_bytes 2 (unat c)) (wo_progress workflow)) @ as_str (tr_output result)))"

subsection \<open>Preflight\<close>

definition count_prevented :: "loop_guardrails \<Rightarrow> loop_guardrails" where
  "count_prevented g = g\<lparr>lg_prevented := saturating_add (lg_prevented g) 1\<rparr>"

definition repeated_failure_result :: "tool_call_id \<Rightarrow> tool_result \<Rightarrow> tool_result" where
  "repeated_failure_result call_id last_failure =
     (let result = result_failure call_id ''repeated_failure''
            ''guardrail: repeated failure for the same action; change arguments or approach'' False
            DEFAULT_MAX_OUTPUT_BYTES
      in case tr_error last_failure of
           None \<Rightarrow> result
         | Some error \<Rightarrow>
             result\<lparr>tr_output := bounded_new
               (as_str (tr_output result) @ ''; last failure='' @ err_code error) DEFAULT_MAX_OUTPUT_BYTES\<rparr>)"

definition preflight_failure_fingerprint ::
  "tool_call_id \<Rightarrow> rstr \<Rightarrow> u32 \<Rightarrow> loop_guardrails \<Rightarrow> tool_result option \<times> loop_guardrails" where
  "preflight_failure_fingerprint call_id fp revision g =
     (case find (\<lambda>item. fo_revision item = revision \<and> fo_fingerprint item = fp
                        \<and> NO_PROGRESS_LIMIT \<le> fo_attempts item) (rev (lg_failures g)) of
        None \<Rightarrow> (None, g)
      | Some failure \<Rightarrow> (Some (repeated_failure_result call_id (fo_result failure)), count_prevented g))"

definition cached_result :: "tool_call_id \<Rightarrow> rstr \<Rightarrow> u32 \<Rightarrow> tool_result \<Rightarrow> tool_result" where
  "cached_result call_id name revision result =
     result\<lparr>tr_call_id := call_id,
       tr_output := bounded_new (''guardrail: redundant '' @ name
         @ '' skipped; cached observation for workspace revision '' @ nat_to_decimal (unat revision)
         @ '':'' @ [CHR 0x0A] @ as_str (tr_output result)) DEFAULT_MAX_OUTPUT_BYTES\<rparr>"

definition find_observation :: "rstr \<Rightarrow> u32 \<Rightarrow> loop_guardrails \<Rightarrow> observation option" where
  "find_observation fp revision g =
     find (\<lambda>item. ob_revision item = revision \<and> ob_fingerprint item = fp) (rev (lg_observations g))"

definition preflight ::
  "(rstr \<Rightarrow> rstr) \<Rightarrow> tool_call_id \<Rightarrow> rstr \<Rightarrow> json \<Rightarrow> u32 \<Rightarrow> loop_guardrails \<Rightarrow>
   tool_result option \<times> loop_guardrails" where
  "preflight blake call_id name input revision g =
     (case guard_classify name input of
        None \<Rightarrow> (None, g)
      | Some kind \<Rightarrow>
          (let fp = call_fingerprint blake kind name input
           in case preflight_failure_fingerprint call_id fp revision g of
                (Some result, g) \<Rightarrow> (Some result, g)
              | (None, g) \<Rightarrow>
                  (case find_observation fp revision g of
                     None \<Rightarrow> (None, g)
                   | Some item \<Rightarrow>
                       (Some (cached_result call_id name revision (ob_result item)), count_prevented g))))"

definition preflight_failure ::
  "(rstr \<Rightarrow> rstr) \<Rightarrow> tool_call_id \<Rightarrow> rstr \<Rightarrow> json \<Rightarrow> u32 \<Rightarrow> loop_guardrails \<Rightarrow>
   tool_result option \<times> loop_guardrails" where
  "preflight_failure blake call_id name input revision g =
     (case guard_classify name input of
        None \<Rightarrow> (None, g)
      | Some kind \<Rightarrow>
          preflight_failure_fingerprint call_id (call_fingerprint blake kind name input) revision g)"

definition preflight_failure_prepared ::
  "prepared_action \<Rightarrow> u32 \<Rightarrow> loop_guardrails \<Rightarrow> tool_result option \<times> loop_guardrails" where
  "preflight_failure_prepared action revision g =
     (case prepared_kind action of
        None \<Rightarrow> (None, g)
      | Some kind \<Rightarrow> preflight_failure_fingerprint (pa_call_id action) (pa_fingerprint action) revision g)"

text \<open>Here the counter is advanced by \<open>fetch_add\<close>, which wraps.\<close>

definition preflight_prepared ::
  "prepared_action \<Rightarrow> u32 \<Rightarrow> loop_guardrails \<Rightarrow> tool_result option \<times> loop_guardrails" where
  "preflight_prepared action revision g =
     (case prepared_kind action of
        None \<Rightarrow> (None, g)
      | Some kind \<Rightarrow>
          (case preflight_failure_fingerprint (pa_call_id action) (pa_fingerprint action) revision g of
             (Some result, g) \<Rightarrow> (Some result, g)
           | (None, g) \<Rightarrow>
               (case find_observation (pa_fingerprint action) revision g of
                  None \<Rightarrow> (None, g)
                | Some item \<Rightarrow>
                    (Some (cached_result (pa_call_id action) (pa_tool action) revision (ob_result item)),
                     g\<lparr>lg_prevented := lg_prevented g + 1\<rparr>))))"

definition has_cached_prepared :: "prepared_action \<Rightarrow> u32 \<Rightarrow> loop_guardrails \<Rightarrow> bool" where
  "has_cached_prepared action revision g =
     (prepared_kind action \<noteq> None
      \<and> list_ex (\<lambda>item. ob_revision item = revision \<and> ob_fingerprint item = pa_fingerprint action)
          (lg_observations g))"

definition has_cached_observation ::
  "(rstr \<Rightarrow> rstr) \<Rightarrow> rstr \<Rightarrow> json \<Rightarrow> u32 \<Rightarrow> loop_guardrails \<Rightarrow> bool" where
  "has_cached_observation blake name input revision g =
     (case guard_classify name input of
        None \<Rightarrow> False
      | Some kind \<Rightarrow>
          list_ex (\<lambda>item. ob_revision item = revision
            \<and> ob_fingerprint item = call_fingerprint blake kind name input) (lg_observations g))"


subsection \<open>Observing results\<close>

text \<open>The failure part of \<open>observe_impl_with_fingerprint\<close>.\<close>

definition note_failed_call :: "rstr \<Rightarrow> u32 \<Rightarrow> tool_result \<Rightarrow> loop_guardrails \<Rightarrow> loop_guardrails" where
  "note_failed_call fp revision result g =
     (let same = (\<lambda>item. fo_revision item = revision \<and> fo_fingerprint item = fp)
      in if list_ex same (lg_failures g) then
           g\<lparr>lg_failures := update_first same
              (\<lambda>item. item\<lparr>fo_attempts := saturating_add (fo_attempts item) 1, fo_result := result\<rparr>)
              (lg_failures g)\<rparr>
         else
           g\<lparr>lg_failures := evict_then_append MAX_FAILURE_OBSERVATIONS (lg_failures g)
              \<lparr>fo_fingerprint = fp, fo_revision = revision, fo_attempts = 1, fo_result = result\<rparr>\<rparr>)"

definition note_successful_call :: "rstr \<Rightarrow> u32 \<Rightarrow> tool_result \<Rightarrow> loop_guardrails \<Rightarrow> loop_guardrails" where
  "note_successful_call fp revision result g =
     (if list_ex (\<lambda>item. ob_revision item = revision \<and> ob_fingerprint item = fp) (lg_observations g)
      then g
      else g\<lparr>lg_observations := evict_then_append MAX_OBSERVATIONS (lg_observations g)
              \<lparr>ob_fingerprint = fp, ob_revision = revision, ob_result = result\<rparr>\<rparr>)"

definition repeated :: "rstr \<Rightarrow> u32 \<Rightarrow> loop_guardrails \<Rightarrow> bool" where
  "repeated fp revision g =
     list_ex (\<lambda>item. fo_revision item = revision \<and> fo_fingerprint item = fp
                     \<and> NO_PROGRESS_LIMIT \<le> fo_attempts item) (lg_failures g)"

definition state_advanced :: "workflow_observation \<Rightarrow> workflow_observation \<Rightarrow> bool" where
  "state_advanced before after =
     (wo_workspace_revision before \<noteq> wo_workspace_revision after
      \<or> wo_progress before \<noteq> wo_progress after
      \<or> wo_unresolved_failures before \<noteq> wo_unresolved_failures after
      \<or> wo_phase before \<noteq> wo_phase after)"

definition repeated_feedback :: rstr where
  "repeated_feedback = ''guardrail: repeated failure circuit breaker; change arguments or approach''"

definition no_progress_feedback :: rstr where
  "no_progress_feedback = ''guardrail: no progress across 3 successful tool steps; change arguments or approach, modify the workspace, or finish with the evidence already collected''"

definition completion_feedback :: rstr where
  "completion_feedback = ''completion_ready: required verification passed and no unresolved failures remain; summarize and finish''"

definition observe_impl_with_fingerprint ::
  "(rstr \<Rightarrow> rstr) \<Rightarrow> rstr \<Rightarrow> json \<Rightarrow> tool_result \<Rightarrow> workflow_observation \<Rightarrow> workflow_observation \<Rightarrow>
   call_kind option \<Rightarrow> rstr option \<Rightarrow> loop_guardrails \<Rightarrow> rstr option \<times> loop_guardrails" where
  "observe_impl_with_fingerprint blake name input result before after kind action_fingerprint g =
     (let fp = (case action_fingerprint of
                  Some f \<Rightarrow> f | None \<Rightarrow> call_fingerprint blake KObservation name input);
          revision = wo_workspace_revision after;
          g = (if \<not> tr_ok result \<and> kind \<noteq> None then note_failed_call fp revision result g else g);
          g = (if tr_ok result \<and> kind \<noteq> None then note_successful_call fp revision result g else g)
      in if \<not> tr_ok result then
           (if kind \<noteq> None \<and> repeated fp revision g then (Some repeated_feedback, g)
            else (None, g\<lparr>lg_no_progress := saturating_add (lg_no_progress g) 1\<rparr>))
         else
           (let progress = progress_fingerprint blake after result;
                g = (if state_advanced before after \<or> lg_last_progress g \<noteq> Some progress
                     then g\<lparr>lg_no_progress := 0\<rparr>
                     else g\<lparr>lg_no_progress := saturating_add (lg_no_progress g) 1\<rparr>);
                g = g\<lparr>lg_last_progress := Some progress\<rparr>
            in if NO_PROGRESS_LIMIT \<le> lg_no_progress g then
                 (Some no_progress_feedback, g\<lparr>lg_no_progress := 0\<rparr>)
               else if wo_phase after = PComplete \<and> wo_unresolved_failures after = zero_fingerprint then
                 (Some completion_feedback, g)
               else (None, g)))"

definition observe_impl ::
  "(rstr \<Rightarrow> rstr) \<Rightarrow> rstr \<Rightarrow> json \<Rightarrow> tool_result \<Rightarrow> workflow_observation \<Rightarrow> workflow_observation \<Rightarrow>
   loop_guardrails \<Rightarrow> rstr option \<times> loop_guardrails" where
  "observe_impl blake name input result before after g =
     (let kind = guard_classify name input;
          fp = map_option (\<lambda>kind. call_fingerprint blake kind name input) kind
      in observe_impl_with_fingerprint blake name input result before after kind fp g)"

definition observe ::
  "(rstr \<Rightarrow> rstr) \<Rightarrow> rstr \<Rightarrow> json \<Rightarrow> tool_result \<Rightarrow> workflow_state \<Rightarrow> workflow_state \<Rightarrow>
   loop_guardrails \<Rightarrow> rstr option \<times> loop_guardrails" where
  "observe blake name input result before after g =
     observe_impl blake name input result (workflow_observation_from blake before)
       (workflow_observation_from blake after) g"

definition observe_snapshot_prepared ::
  "(rstr \<Rightarrow> rstr) \<Rightarrow> prepared_action \<Rightarrow> tool_result \<Rightarrow> workflow_observation \<Rightarrow> workflow_observation \<Rightarrow>
   loop_guardrails \<Rightarrow> rstr option \<times> loop_guardrails" where
  "observe_snapshot_prepared blake action result before after g =
     observe_impl_with_fingerprint blake (pa_tool action) (pa_normalized_input action) result before after
       (prepared_kind action) (Some (pa_fingerprint action)) g"

interpretation observation_log: bounded_log "evict_then_append MAX_OBSERVATIONS" MAX_OBSERVATIONS
  by (rule evict_then_append_log) (simp add: guardrail_limits)

interpretation failure_log: bounded_log "evict_then_append MAX_FAILURE_OBSERVATIONS" MAX_FAILURE_OBSERVATIONS
  by (rule evict_then_append_log) (simp add: guardrail_limits)

end
