(* ===== verification/Guardrail_Facts.thy ===== *)
theory Guardrail_Facts
  imports Guardrails
begin

section \<open>What the guardrails remember\<close>

text \<open>
  A run of the guardrails is a list of observed results and preflights of prepared calls.  Everything
  the state holds stems from the run: \<open>remembers\<close> is the invariant.
\<close>

datatype guard_op =
    GObserve prepared_action tool_result workflow_observation workflow_observation
  | GPreflight prepared_action u32

fun run_guard :: "(rstr \<Rightarrow> rstr) \<Rightarrow> guard_op \<Rightarrow> loop_guardrails \<Rightarrow> loop_guardrails" where
  "run_guard blake (GObserve a r before after) g = snd (observe_snapshot_prepared blake a r before after g)"
| "run_guard blake (GPreflight a revision) g = snd (preflight_prepared a revision g)"

fun failed_call :: "rstr \<Rightarrow> u32 \<Rightarrow> guard_op \<Rightarrow> bool" where
  "failed_call fp revision (GObserve a r before after) =
     (\<not> tr_ok r \<and> prepared_kind a \<noteq> None \<and> pa_fingerprint a = fp \<and> wo_workspace_revision after = revision)"
| "failed_call fp revision (GPreflight a n) = False"

definition failures_of :: "rstr \<Rightarrow> u32 \<Rightarrow> guard_op list \<Rightarrow> nat" where
  "failures_of fp revision ops = length (filter (failed_call fp revision) ops)"

definition observed :: "rstr \<Rightarrow> u32 \<Rightarrow> tool_result \<Rightarrow> guard_op list \<Rightarrow> bool" where
  "observed fp revision r ops \<longleftrightarrow>
     (\<exists>a before after. GObserve a r before after \<in> set ops \<and> tr_ok r \<and> prepared_kind a \<noteq> None
        \<and> pa_fingerprint a = fp \<and> wo_workspace_revision after = revision)"

definition remembers :: "guard_op list \<Rightarrow> loop_guardrails \<Rightarrow> bool" where
  "remembers ops g \<longleftrightarrow>
     length (lg_observations g) \<le> MAX_OBSERVATIONS \<and> length (lg_failures g) \<le> MAX_FAILURE_OBSERVATIONS
     \<and> list_all (\<lambda>item. observed (ob_fingerprint item) (ob_revision item) (ob_result item) ops)
         (lg_observations g)
     \<and> list_all (\<lambda>item. unat (fo_attempts item) \<le> failures_of (fo_fingerprint item) (fo_revision item) ops)
         (lg_failures g)"

lemma remembers_cong:
  "lg_observations h = lg_observations g \<Longrightarrow> lg_failures h = lg_failures g \<Longrightarrow> remembers ops h = remembers ops g"
  by (simp add: remembers_def)

lemma failures_of_snoc:
  "failures_of fp revision (ops @ [op]) = failures_of fp revision ops + (if failed_call fp revision op then 1 else 0)"
  by (simp add: failures_of_def)

lemma observed_mono: "observed fp revision r ops \<Longrightarrow> observed fp revision r (ops @ [op])"
  by (auto simp: observed_def)

lemma remembers_mono: "remembers ops g \<Longrightarrow> remembers (ops @ [op]) g"
  by (auto simp: remembers_def list_all_iff failures_of_snoc intro: observed_mono le_SucI)

text \<open>What an observation changes, up to the progress counters.\<close>

definition noted :: "rstr \<Rightarrow> u32 \<Rightarrow> call_kind option \<Rightarrow> tool_result \<Rightarrow> loop_guardrails \<Rightarrow> loop_guardrails" where
  "noted fp revision kind r g =
     (if kind = None then g else if tr_ok r then note_successful_call fp revision r g
      else note_failed_call fp revision r g)"

lemma observe_noted:
  "lg_observations (snd (observe_impl_with_fingerprint blake n i r before after kind (Some fp) g))
      = lg_observations (noted fp (wo_workspace_revision after) kind r g)"
  "lg_failures (snd (observe_impl_with_fingerprint blake n i r before after kind (Some fp) g))
      = lg_failures (noted fp (wo_workspace_revision after) kind r g)"
  by (cases kind; cases "tr_ok r"; simp add: noted_def observe_impl_with_fingerprint_def Let_def)+

lemma saturating_inc_le: "unat (saturating_add (a :: u8) 1) \<le> unat a + 1"
  by (simp add: unat_saturating_add)

lemma remembers_failed:
  assumes "remembers ops g" and "failed_call fp revision op"
  shows "remembers (ops @ [op]) (note_failed_call fp revision r g)"
proof -
  let ?ok = "\<lambda>item. unat (fo_attempts item) \<le> failures_of (fo_fingerprint item) (fo_revision item) (ops @ [op])"
  let ?new = "\<lparr>fo_fingerprint = fp, fo_revision = revision, fo_attempts = 1, fo_result = r\<rparr>"
  have m: "remembers (ops @ [op]) g" by (rule remembers_mono [OF assms(1)])
  have old: "unat (fo_attempts item) \<le> failures_of (fo_fingerprint item) (fo_revision item) ops"
    if "item \<in> set (lg_failures g)" for item
    using assms(1) that by (simp add: remembers_def list_all_iff)
  show ?thesis
  proof (cases "list_ex (\<lambda>item. fo_revision item = revision \<and> fo_fingerprint item = fp) (lg_failures g)")
    case True
    have "unat (saturating_add (fo_attempts item) 1) \<le> failures_of fp revision (ops @ [op])"
      if "item \<in> set (lg_failures g)" "fo_revision item = revision" "fo_fingerprint item = fp" for item
      using old [OF that(1)] that saturating_inc_le [of "fo_attempts item"] assms(2)
      by (simp add: failures_of_snoc)
    then have "list_all ?ok (update_first (\<lambda>item. fo_revision item = revision \<and> fo_fingerprint item = fp)
        (\<lambda>item. item\<lparr>fo_attempts := saturating_add (fo_attempts item) 1, fo_result := r\<rparr>) (lg_failures g))"
      using m set_update_first_subset by (fastforce simp: remembers_def list_all_iff)
    then show ?thesis
      using m True by (simp add: remembers_def note_failed_call_def Let_def)
  next
    case False
    have len: "length (lg_failures g) \<le> MAX_FAILURE_OBSERVATIONS" using assms(1) by (simp add: remembers_def)
    have "?ok ?new" using assms(2) by (simp add: failures_of_snoc)
    then have "list_all ?ok (evict_then_append MAX_FAILURE_OBSERVATIONS (lg_failures g) ?new)"
      using m failure_log.push_set [OF len, of ?new] by (auto simp: remembers_def list_all_iff)
    then show ?thesis
      using m False len failure_log.push_bounded_length [OF len]
      by (simp add: remembers_def note_failed_call_def Let_def)
  qed
qed

lemma remembers_successful:
  assumes "remembers ops g" and "observed fp revision r (ops @ [op])"
  shows "remembers (ops @ [op]) (note_successful_call fp revision r g)"
proof -
  let ?new = "\<lparr>ob_fingerprint = fp, ob_revision = revision, ob_result = r\<rparr>"
  have m: "remembers (ops @ [op]) g" by (rule remembers_mono [OF assms(1)])
  have len: "length (lg_observations g) \<le> MAX_OBSERVATIONS" using assms(1) by (simp add: remembers_def)
  have "list_all (\<lambda>item. observed (ob_fingerprint item) (ob_revision item) (ob_result item) (ops @ [op]))
      (evict_then_append MAX_OBSERVATIONS (lg_observations g) ?new)"
    using m assms(2) observation_log.push_set [OF len, of ?new] by (fastforce simp: remembers_def list_all_iff)
  then show ?thesis
    using m observation_log.push_bounded_length [OF len]
    by (simp add: remembers_def note_successful_call_def)
qed

lemma preflight_failure_state:
  "lg_observations (snd (preflight_failure_fingerprint i fp n g)) = lg_observations g"
  "lg_failures (snd (preflight_failure_fingerprint i fp n g)) = lg_failures g"
  by (simp_all add: preflight_failure_fingerprint_def count_prevented_def split: option.split)

lemma preflight_state:
  "lg_observations (snd (preflight_prepared a n g)) = lg_observations g"
  "lg_failures (snd (preflight_prepared a n g)) = lg_failures g"
  by (simp_all add: preflight_prepared_def preflight_failure_fingerprint_def count_prevented_def
      split: option.split)

lemma remembers_step: "remembers ops g \<Longrightarrow> remembers (ops @ [op]) (run_guard blake op g)"
proof (cases op)
  case (GPreflight a n)
  assume "remembers ops g"
  then have "remembers (ops @ [op]) g" by (rule remembers_mono)
  then show ?thesis using GPreflight preflight_state by (simp cong: remembers_cong)
next
  case (GObserve a r before after)
  assume r: "remembers ops g"
  let ?g = "noted (pa_fingerprint a) (wo_workspace_revision after) (prepared_kind a) r g"
  have "remembers (ops @ [op]) ?g"
  proof (cases "prepared_kind a = None")
    case True
    then show ?thesis using remembers_mono [OF r] by (simp add: noted_def)
  next
    case False
    then show ?thesis
      using remembers_failed [OF r, of "pa_fingerprint a" "wo_workspace_revision after" op r]
        remembers_successful [OF r, of "pa_fingerprint a" "wo_workspace_revision after" r op] GObserve
      by (cases "tr_ok r") (auto simp: noted_def observed_def)
  qed
  then show ?thesis
    using GObserve observe_noted [where fp = "pa_fingerprint a" and kind = "prepared_kind a" and r = r and after = after]
    by (simp add: observe_snapshot_prepared_def) (metis remembers_cong)
qed

lemma remembers_run: "remembers ops (fold (run_guard blake) ops guardrails_new)"
proof (induction ops rule: rev_induct)
  case Nil
  show ?case by (simp add: remembers_def guardrails_new_def)
next
  case (snoc op ops)
  then show ?case using remembers_step by simp
qed

lemma failure_answer:
  "\<not> tr_ok (repeated_failure_result i r)
   \<and> map_option err_code (tr_error (repeated_failure_result i r)) = Some ''repeated_failure''
   \<and> map_option err_retryable (tr_error (repeated_failure_result i r)) = Some False"
  by (simp add: repeated_failure_result_def result_failure_def Let_def split: option.split)

lemma find_rev_member: "find P (rev xs) = Some x \<Longrightarrow> x \<in> set xs \<and> P x"
  by (metis find_Some_iff nth_mem set_rev)

lemma find_rev_none: "find P (rev xs) = None \<longleftrightarrow> \<not> list_ex P xs"
  by (auto simp: find_None_iff list_ex_iff)

lemma preflight_cases:
  assumes "preflight_prepared a n g = (Some r, h)"
  obtains (failed) item where "item \<in> set (lg_failures g)" "fo_revision item = n"
      "fo_fingerprint item = pa_fingerprint a" "NO_PROGRESS_LIMIT \<le> fo_attempts item"
      "r = repeated_failure_result (pa_call_id a) (fo_result item)"
  | (cached) item where "item \<in> set (lg_observations g)" "ob_revision item = n"
      "ob_fingerprint item = pa_fingerprint a" "\<not> repeated (pa_fingerprint a) n g"
      "r = cached_result (pa_call_id a) (pa_tool a) n (ob_result item)"
  using assms
  by (auto simp: preflight_prepared_def preflight_failure_fingerprint_def find_observation_def
      repeated_def find_rev_none dest: find_rev_member split: option.splits)

subsection \<open>The circuit breaker\<close>

text \<open>How often the failures remember a call at a revision.\<close>

definition attempts :: "rstr \<Rightarrow> u32 \<Rightarrow> loop_guardrails \<Rightarrow> nat" where
  "attempts fp revision g =
     (case find (\<lambda>item. fo_revision item = revision \<and> fo_fingerprint item = fp) (lg_failures g) of
        None \<Rightarrow> 0 | Some item \<Rightarrow> unat (fo_attempts item))"

lemma find_update_first:
  "(\<And>x. P x \<Longrightarrow> P (f x)) \<Longrightarrow> find P (update_first P f xs) = map_option f (find P xs)"
  by (induction xs) auto

lemma find_drop_none: "find P xs = None \<Longrightarrow> find P (drop k xs) = None"
  by (auto simp: find_None_iff dest: in_set_dropD)

lemma find_append_none: "find P xs = None \<Longrightarrow> find P (xs @ ys) = find P ys"
  by (induction xs) (auto split: if_splits)

lemma attempts_note:
  "attempts fp n (note_failed_call fp n r g) = min (attempts fp n g + 1) 255"
proof (cases "find (\<lambda>item. fo_revision item = n \<and> fo_fingerprint item = fp) (lg_failures g)")
  case None
  then have no: "\<not> list_ex (\<lambda>item. fo_revision item = n \<and> fo_fingerprint item = fp) (lg_failures g)"
    by (auto simp: find_None_iff list_ex_iff)
  show ?thesis
    using None find_append_none [OF None] find_append_none [OF find_drop_none [OF None, of 1]]
    by (simp add: note_failed_call_def Let_def no attempts_def evict_then_append_def)
next
  case (Some item)
  then have ex: "list_ex (\<lambda>item. fo_revision item = n \<and> fo_fingerprint item = fp) (lg_failures g)"
    by (auto simp: find_Some_iff list_ex_iff)
  show ?thesis
    using Some by (simp add: note_failed_call_def Let_def ex attempts_def find_update_first unat_saturating_add)
qed

lemma attempts_repeated: "3 \<le> attempts fp n g \<Longrightarrow> repeated fp n g"
  by (auto simp: attempts_def repeated_def list_ex_iff NO_PROGRESS_LIMIT_def word_le_nat_alt
      split: option.splits dest!: find_Some_split)

lemma observe_failure:
  assumes "\<not> tr_ok r" and "prepared_kind a \<noteq> None"
  shows "attempts (pa_fingerprint a) (wo_workspace_revision after)
      (snd (observe_snapshot_prepared blake a r before after g))
    = min (attempts (pa_fingerprint a) (wo_workspace_revision after) g + 1) 255"
proof -
  have "attempts fp n h = attempts fp n k" if "lg_failures h = lg_failures k" for fp n h k
    using that by (simp add: attempts_def)
  from this [OF observe_noted(2)] show ?thesis
    using assms by (cases "prepared_kind a") (simp_all add: observe_snapshot_prepared_def noted_def attempts_note)
qed

lemma repeated_blocks:
  assumes "repeated (pa_fingerprint a) n g" and "prepared_kind a \<noteq> None"
  shows "\<exists>r h. preflight_prepared a n g = (Some r, h) \<and> \<not> tr_ok r"
proof -
  have "find (\<lambda>item. fo_revision item = n \<and> fo_fingerprint item = pa_fingerprint a
      \<and> NO_PROGRESS_LIMIT \<le> fo_attempts item) (rev (lg_failures g)) \<noteq> None"
    using assms(1) by (simp add: find_rev_none repeated_def)
  then show ?thesis
    using assms(2) failure_answer by (auto simp: preflight_prepared_def preflight_failure_fingerprint_def)
qed

subsection \<open>Steps without progress\<close>

lemma observe_success:
  assumes "tr_ok r" and "\<not> state_advanced before after"
  shows "lg_last_progress (snd (observe_snapshot_prepared blake a r before after g)) = Some (progress_fingerprint blake after r)"
    "(let n = (if lg_last_progress g = Some (progress_fingerprint blake after r) then saturating_add (lg_no_progress g) 1 else 0)
      in if 3 \<le> n then fst (observe_snapshot_prepared blake a r before after g) = Some no_progress_feedback
         else lg_no_progress (snd (observe_snapshot_prepared blake a r before after g)) = n)"
proof -
  have last: "lg_last_progress (note_successful_call fp n r g) = lg_last_progress g"
    "lg_no_progress (note_successful_call fp n r g) = lg_no_progress g" for fp n
    by (simp_all add: note_successful_call_def)
  show "lg_last_progress (snd (observe_snapshot_prepared blake a r before after g)) = Some (progress_fingerprint blake after r)"
    using assms by (simp add: observe_snapshot_prepared_def observe_impl_with_fingerprint_def Let_def)
  show "(let n = (if lg_last_progress g = Some (progress_fingerprint blake after r) then saturating_add (lg_no_progress g) 1 else 0)
      in if 3 \<le> n then fst (observe_snapshot_prepared blake a r before after g) = Some no_progress_feedback
         else lg_no_progress (snd (observe_snapshot_prepared blake a r before after g)) = n)"
    using assms(1,2) 
    by (cases "prepared_kind a") (simp_all add: observe_snapshot_prepared_def
        observe_impl_with_fingerprint_def Let_def last NO_PROGRESS_LIMIT_def)
qed

end
