(* ===== verification/Guardrail_Properties.thy ===== *)
theory Guardrail_Properties
  imports Guardrail_Facts Commands_Facts
begin

section \<open>Properties of the guardrails\<close>

text \<open>What a preflight may answer, when it must refuse, and where the public cache confuses calls.\<close>

text \<open>C35: The guardrails answer only what happened: after any run, a preflight that answers for a call either
  serves, word for word, an earlier successful result of the same fingerprint at the same workspace
  revision, or refuses with a non-retryable \<open>repeated_failure\<close>, and then the call has failed at least
  three times at that revision.\<close>

theorem guard_answers_are_real:
  assumes "preflight_prepared a revision (fold (run_guard blake) ops guardrails_new) = (Some r, h)"
  shows "(\<exists>past. observed (pa_fingerprint a) revision past ops
      \<and> r = cached_result (pa_call_id a) (pa_tool a) revision past)
    \<or> (map_option err_code (tr_error r) = Some ''repeated_failure'' \<and> \<not> tr_ok r
      \<and> 3 \<le> failures_of (pa_fingerprint a) revision ops)"
proof -
  have g: "remembers ops (fold (run_guard blake) ops guardrails_new)" by (rule remembers_run)
  from assms show ?thesis
  proof (cases rule: preflight_cases)
    case (failed item)
    have "unat (fo_attempts item) \<le> failures_of (pa_fingerprint a) revision ops"
      using g failed by (auto simp: remembers_def list_all_iff)
    moreover have "3 \<le> unat (fo_attempts item)"
      using failed(4) by (simp add: NO_PROGRESS_LIMIT_def word_le_nat_alt)
    ultimately show ?thesis using failed(5) failure_answer by simp
  next
    case (cached item)
    then have "observed (pa_fingerprint a) revision (ob_result item) ops"
      using g by (auto simp: remembers_def list_all_iff)
    then show ?thesis using cached(5) by blast
  qed
qed

definition read_action :: "rstr \<Rightarrow> prepared_action" where
  "read_action i = \<lparr>pa_call_id = i, pa_tool = ''read'', pa_normalized_input = JNull, pa_fingerprint = ''f'',
     pa_effects = read_workspace [''a''],
     pa_requirements = \<lparr>req_permission = ReadOnly, req_user_authorization = False,
       req_current_workspace_evidence = False\<rparr>,
     pa_paths = [''a''], pa_classification = ClassRead, pa_provenance = ProvModel,
     pa_permission_request = None, pa_command_effects = None\<rparr>"

definition idle :: workflow_observation where
  "idle = workflow_observation_from (\<lambda>s. s) workflow_new"

lemma guard_answers_are_real_witness:
  "\<exists>past. observed ''f'' 0 past
      [GObserve (read_action ''c1'') (result_success_text ''c1'' ''text'' 64) idle idle]"
proof -
  let ?ops = "[GObserve (read_action ''c1'') (result_success_text ''c1'' ''text'' 64) idle idle]"
  have "find_observation ''f'' 0 (fold (run_guard (\<lambda>s. s)) ?ops guardrails_new)
      = Some \<lparr>ob_fingerprint = ''f'', ob_revision = 0, ob_result = result_success_text ''c1'' ''text'' 64\<rparr>"
    "lg_failures (fold (run_guard (\<lambda>s. s)) ?ops guardrails_new) = []"
    by (simp_all add: observe_snapshot_prepared_def observe_noted noted_def read_action_def idle_def
        workflow_observation_from_def workflow_new_def prepared_kind_def note_successful_call_def
        result_success_text_def guardrails_new_def evict_then_append_def find_observation_def guardrail_limits)
  then have "\<exists>r h. preflight_prepared (read_action ''c2'') 0 (fold (run_guard (\<lambda>s. s)) ?ops guardrails_new)
      = (Some r, h)"
    by (simp add: preflight_prepared_def preflight_failure_fingerprint_def read_action_def prepared_kind_def
        del: fold_simps)
  then obtain r h where "preflight_prepared (read_action ''c2'') 0
      (fold (run_guard (\<lambda>s. s)) ?ops guardrails_new) = (Some r, h)" by blast
  from guard_answers_are_real [OF this] show ?thesis
    by (auto simp: read_action_def failures_of_def result_success_text_def)
qed

text \<open>The circuit breaker trips: from any state of the guardrails, three failures of a call in a row at one
  workspace revision make the next preflight refuse it, and the third failure is already answered
  with the circuit-breaker feedback.\<close>

theorem circuit_breaker_trips:
  assumes "prepared_kind a \<noteq> None" and "list_all (\<lambda>r. \<not> tr_ok r) [r1, r2, r3]"
    and "wo_workspace_revision after = n"
  shows "let see = (\<lambda>r g. observe_snapshot_prepared blake a r before after g) in
    fst (see r3 (snd (see r2 (snd (see r1 g))))) = Some repeated_feedback
    \<and> (\<exists>r h. preflight_prepared a n (snd (see r3 (snd (see r2 (snd (see r1 g)))))) = (Some r, h)
        \<and> \<not> tr_ok r)"
proof -
  define see where "see = (\<lambda>r g. observe_snapshot_prepared blake a r before after g)"
  let ?g = "snd (see r3 (snd (see r2 (snd (see r1 g)))))"
  have "3 \<le> attempts (pa_fingerprint a) n ?g"
    using assms(1-3) observe_failure [of _ a after blake before] unfolding see_def by auto
  then have rep: "repeated (pa_fingerprint a) n ?g" by (rule attempts_repeated)
  moreover have "fst (see r g) = (if repeated (pa_fingerprint a) n (snd (see r g))
      then Some repeated_feedback else None)" if "\<not> tr_ok r" for r g
    using that assms(1,3) unfolding see_def
    by (simp add: observe_snapshot_prepared_def observe_impl_with_fingerprint_def Let_def repeated_def)
  ultimately show ?thesis
    using assms(1,2) repeated_blocks [OF rep] by (simp add: see_def [symmetric])
qed

lemma circuit_breaker_trips_witness:
  "\<exists>r h. preflight_prepared (read_action ''c4'') 0
     (fold (run_guard (\<lambda>s. s)) (map (\<lambda>i. GObserve (read_action ''c4'')
        (result_failure i ''io'' ''failed'' True 64) idle idle) [''c1'', ''c2'', ''c3'']) guardrails_new)
     = (Some r, h) \<and> \<not> tr_ok r"
  using circuit_breaker_trips [of "read_action ''c4''" "result_failure ''c1'' ''io'' ''failed'' True 64"
      "result_failure ''c2'' ''io'' ''failed'' True 64" "result_failure ''c3'' ''io'' ''failed'' True 64"
      idle 0 "\<lambda>s. s" idle guardrails_new]
  by (simp add: read_action_def prepared_kind_def result_failure_def idle_def workflow_observation_from_def
      workflow_new_def)

text \<open>Standing still is noticed: of any four successful observations in a row with the same result and
  no advance of the workflow, at least one is answered with the no-progress feedback.\<close>

theorem no_progress_noticed:
  assumes "tr_ok r" and "\<not> state_advanced before after"
  shows "let see = (\<lambda>g. observe_snapshot_prepared blake a r before after g) in
    Some no_progress_feedback \<in> fst ` {see g, see (snd (see g)), see (snd (see (snd (see g)))),
    see (snd (see (snd (see (snd (see g))))))}"
proof (rule ccontr)
  define see where "see = (\<lambda>g. observe_snapshot_prepared blake a r before after g)"
  assume "\<not> ?thesis"
  then have none: "fst (see g) \<noteq> Some no_progress_feedback"
    "fst (see (snd (see g))) \<noteq> Some no_progress_feedback"
    "fst (see (snd (see (snd (see g))))) \<noteq> Some no_progress_feedback"
    "fst (see (snd (see (snd (see (snd (see g))))))) \<noteq> Some no_progress_feedback"
    by (auto simp: see_def [symmetric])
  note step = observe_success [OF assms(1,2), where blake = blake and a = a]
  have grow: "lg_no_progress (snd (see h)) = saturating_add (lg_no_progress h) 1
      \<and> saturating_add (lg_no_progress h) 1 < 3"
    if "lg_last_progress h = Some (progress_fingerprint blake after r)"
      "fst (see h) \<noteq> Some no_progress_feedback" for h
    using step(2) [of h] that by (auto simp: Let_def see_def split: if_splits)
  have "unat (lg_no_progress (snd (see h))) = unat (lg_no_progress h) + 1 \<and> unat (lg_no_progress h) < 2"
    if "lg_last_progress h = Some (progress_fingerprint blake after r)"
      "fst (see h) \<noteq> Some no_progress_feedback" for h
    using grow [OF that] by (auto simp: unat_saturating_add word_less_nat_alt)
  moreover have "lg_last_progress (snd (see h)) = Some (progress_fingerprint blake after r)" for h
    using step(1) by (simp add: see_def)
  ultimately have "unat (lg_no_progress (snd (see (snd (see h))))) = unat (lg_no_progress (snd (see h))) + 1
      \<and> unat (lg_no_progress (snd (see h))) < 2"
    if "fst (see (snd (see h))) \<noteq> Some no_progress_feedback" for h using that by blast
  from this [OF none(2)] this [OF none(3)] this [OF none(4)]
  show False by simp
qed

lemma no_progress_noticed_witness:
  "\<not> state_advanced idle idle \<and> (\<exists>g. fst (observe_snapshot_prepared (\<lambda>s. s) (read_action ''c'')
     (result_success_text ''c'' ''same'' 64) idle idle g) = Some no_progress_feedback)"
  using no_progress_noticed [of "result_success_text ''c'' ''same'' 64" idle idle "\<lambda>s. s" "read_action ''c''"
      guardrails_new]
  by (auto simp: result_success_text_def state_advanced_def) (metis fst_conv)+

lemma same_fingerprint_served:
  assumes "guard_classify n i = Some k" and "guard_classify n j = Some k" and "tr_ok r"
    and "call_fingerprint blake k n j = call_fingerprint blake k n i"
  shows "\<exists>r'. fst (preflight blake c n j (wk_workspace_revision t) (snd (observe blake n i r s t guardrails_new)))
    = Some r' \<and> tr_ok r'"
proof -
  let ?g = "snd (observe blake n i r s t guardrails_new)"
  have "lg_failures ?g = []" "lg_observations ?g = [\<lparr>ob_fingerprint = call_fingerprint blake k n i,
      ob_revision = wk_workspace_revision t, ob_result = r\<rparr>]"
    using assms(1,3) by (simp_all add: observe_def observe_impl_def observe_noted noted_def
        note_successful_call_def guardrails_new_def evict_then_append_def guardrail_limits
        workflow_observation_from_def)
  then show ?thesis
    using assms by (simp add: preflight_def preflight_failure_fingerprint_def find_observation_def
        cached_result_def)
qed

definition cargo_call :: "rstr list \<Rightarrow> json" where
  "cargo_call args = JObject [(''args'', JArray (map JString args)), (''program'', JString ''cargo'')]"

lemma cargo_verification:
  "verification_command (cargo_call [''test'', ''--'', ''lib''])" "verification_command (cargo_call [''test'', ''--lib''])"
proof -
  have "classify_command ''cargo'' [''test'', ''--'', ''lib''] = Verification"
    "classify_command ''cargo'' [''test'', ''--lib''] = Verification" by code_simp+
  then show "verification_command (cargo_call [''test'', ''--'', ''lib''])"
    "verification_command (cargo_call [''test'', ''--lib''])"
    by (simp_all add: verification_command_def guard_command_effects_def cargo_call_def json_get_def
        json_as_str_def json_as_array_def analyze_command_class)
qed

text \<open>The public cache confuses calls: its fingerprint writes neither tags nor lengths, so for every
  hash function the passing result of \<open>cargo test --lib\<close> is served for \<open>cargo test -- lib\<close>, another
  selection of tests.\<close>

theorem cache_confuses_calls:
  "\<exists>r. fst (preflight blake ''c2'' ''shell'' (cargo_call [''test'', ''--'', ''lib'']) 0
    (snd (observe blake ''shell'' (cargo_call [''test'', ''--lib'']) (result_success_text ''c1'' ''passed'' 64)
      workflow_new workflow_new guardrails_new))) = Some r \<and> tr_ok r"
proof -
  have "guard_classify ''shell'' (cargo_call [''test'', ''--'', ''lib'']) = Some KVerification"
    "guard_classify ''shell'' (cargo_call [''test'', ''--lib'']) = Some KVerification"
    by (simp_all add: guard_classify_def cargo_verification)
  moreover have "call_fingerprint blake KVerification ''shell'' (cargo_call [''test'', ''--'', ''lib''])
      = call_fingerprint blake KVerification ''shell'' (cargo_call [''test'', ''--lib''])"
    by (simp add: cargo_call_def call_fingerprint_def)
  moreover have "tr_ok (result_success_text ''c1'' ''passed'' 64)" by (simp add: result_success_text_def)
  ultimately show ?thesis
    using same_fingerprint_served [where t = workflow_new and s = workflow_new and blake = blake and c = "''c2''"]
    by (simp add: workflow_new_def)
qed

end
