(* ===== verification/Patch.thy ===== *)
theory Patch
  imports Paths
begin

section \<open>Exact patches (aether-tools/src/patch.rs)\<close>

text \<open>
  \<open>apply_patch_text\<close>: the hunks of a patch against the text of a file.  Line numbers start at 1, every
  context and deletion line must match exactly, and the declared counts and output positions are
  checked.  \<open>usize\<close> values are natural numbers: each is compared with a length before it is used.
  A line whose first character has more than one byte makes \<open>split_at(1)\<close> panic.
\<close>

record patch_hunk =
  ph_old_start :: nat
  ph_old_count :: nat
  ph_new_start :: nat
  ph_new_count :: nat
  ph_lines :: "rstr list"

datatype patch_failure = PatchRejected rstr | PatchPanics

abbreviation bad_line :: patch_failure where
  "bad_line \<equiv> PatchRejected ''hunk lines must begin with space, plus, or minus''"

text \<open>The loop over the lines of one hunk, from \<open>(output, source_index, old_seen, new_seen)\<close>.\<close>

fun hunk_lines ::
  "rstr list \<Rightarrow> rstr list \<Rightarrow> rstr list \<Rightarrow> nat \<Rightarrow> nat \<Rightarrow> nat \<Rightarrow> patch_failure + rstr list \<times> nat \<times> nat" where
  "hunk_lines source_lines [] output source_index old_seen new_seen = Inr (output, old_seen, new_seen)"
| "hunk_lines source_lines (line # rest) output source_index old_seen new_seen =
     (if line = [] then Inl bad_line
      else if \<not> is_char_boundary line 1 then Inl PatchPanics
      else
        (let kind = take 1 line; content = drop 1 line
         in if kind = '' '' then
              (if length source_lines \<le> source_index \<or> source_lines ! source_index \<noteq> content
               then Inl (PatchRejected ''context line does not match exactly'')
               else hunk_lines source_lines rest (output @ [content]) (source_index + 1) (old_seen + 1)
                      (new_seen + 1))
            else if kind = ''-'' then
              (if length source_lines \<le> source_index \<or> source_lines ! source_index \<noteq> content
               then Inl (PatchRejected ''deletion line does not match exactly'')
               else hunk_lines source_lines rest output (source_index + 1) (old_seen + 1) new_seen)
            else if kind = ''+'' then
              hunk_lines source_lines rest (output @ [content]) source_index old_seen (new_seen + 1)
            else Inl bad_line))"

text \<open>The loop over the hunks, from \<open>(output, source_cursor)\<close>, and the tail of the file.\<close>

fun patch_hunks ::
  "rstr list \<Rightarrow> patch_hunk list \<Rightarrow> rstr list \<Rightarrow> nat \<Rightarrow> patch_failure + rstr list" where
  "patch_hunks source_lines [] output source_cursor = Inr (output @ drop source_cursor source_lines)"
| "patch_hunks source_lines (hunk # hunks) output source_cursor =
     (if ph_old_start hunk = 0 \<or> ph_new_start hunk = 0
      then Inl (PatchRejected ''hunk line numbers must be at least 1'')
      else
        (let start = ph_old_start hunk - 1
         in if start < source_cursor \<or> length source_lines < start
            then Inl (PatchRejected ''hunks overlap, are out of order, or point outside the file'')
            else if length source_lines - start < ph_old_count hunk
            then Inl (PatchRejected ''hunk consumes more source lines than available'')
            else
              (let output = output @ drop source_cursor (take start source_lines)
               in if ph_new_start hunk \<noteq> length output + 1
                  then Inl (PatchRejected ''new hunk location does not match the exact output position'')
                  else
                    (case hunk_lines source_lines (ph_lines hunk) output start 0 0 of
                       Inl e \<Rightarrow> Inl e
                     | Inr (output, old_seen, new_seen) \<Rightarrow>
                         if old_seen \<noteq> ph_old_count hunk \<or> new_seen \<noteq> ph_new_count hunk
                         then Inl (PatchRejected ''hunk line counts do not match declared counts'')
                         else patch_hunks source_lines hunks output (start + ph_old_count hunk)))))"

definition source_newline :: "rstr \<Rightarrow> rstr" where
  "source_newline source =
     (if contains_str source [CHR 0x0D, CHR 0x0A] then [CHR 0x0D, CHR 0x0A] else [CHR 0x0A])"

definition source_lines_of :: "rstr \<Rightarrow> rstr list" where
  "source_lines_of source =
     (let ls = (if source = [] then [] else map strip_cr (split_on CHR 0x0A source))
      in if ends_with source [CHR 0x0A] then butlast ls else ls)"

definition apply_patch_text :: "rstr \<Rightarrow> patch_hunk list \<Rightarrow> patch_failure + rstr" where
  "apply_patch_text source hunks =
     (case patch_hunks (source_lines_of source) hunks [] 0 of
        Inl e \<Rightarrow> Inl e
      | Inr output \<Rightarrow>
          Inr (join (source_newline source) output
               @ (if ends_with source [CHR 0x0A] then source_newline source else [])))"

subsection \<open>A specification without positions\<close>

text \<open>What a hunk deletes or keeps, and what it adds or keeps.\<close>

definition old_lines :: "rstr list \<Rightarrow> rstr list" where
  "old_lines ls = map (drop 1) (filter (\<lambda>l. take 1 l \<noteq> ''+'') ls)"

definition new_lines :: "rstr list \<Rightarrow> rstr list" where
  "new_lines ls = map (drop 1) (filter (\<lambda>l. take 1 l \<noteq> ''-'') ls)"

abbreviation old_side :: "patch_hunk \<Rightarrow> rstr list" where
  "old_side h \<equiv> old_lines (ph_lines h)"

abbreviation new_side :: "patch_hunk \<Rightarrow> rstr list" where
  "new_side h \<equiv> new_lines (ph_lines h)"

definition line_ok :: "rstr \<Rightarrow> bool" where
  "line_ok l \<longleftrightarrow> l \<noteq> [] \<and> is_char_boundary l 1 \<and> take 1 l \<in> {'' '', ''-'', ''+''}"

text \<open>
  \<open>placed c n hs gaps\<close>: starting after old line \<open>c\<close> and new line \<open>n\<close>, the hunks stand behind the gaps,
  and their numbers say exactly that.  \<open>spliced side hs gaps rest\<close> is the text they describe.
\<close>

fun placed :: "nat \<Rightarrow> nat \<Rightarrow> patch_hunk list \<Rightarrow> rstr list list \<Rightarrow> bool" where
  "placed c n [] gaps = (gaps = [])"
| "placed c n (h # hs) [] = False"
| "placed c n (h # hs) (g # gaps) =
     (list_all line_ok (ph_lines h)
      \<and> ph_old_start h = c + length g + 1 \<and> ph_new_start h = n + length g + 1
      \<and> ph_old_count h = length (old_side h) \<and> ph_new_count h = length (new_side h)
      \<and> placed (c + length g + length (old_side h)) (n + length g + length (new_side h)) hs gaps)"

fun spliced ::
  "(patch_hunk \<Rightarrow> rstr list) \<Rightarrow> patch_hunk list \<Rightarrow> rstr list list \<Rightarrow> rstr list \<Rightarrow> rstr list" where
  "spliced side (h # hs) (g # gaps) rest = g @ side h @ spliced side hs gaps rest"
| "spliced side _ _ rest = rest"

text \<open>The patch turned around: deletions become additions.\<close>

definition invert_line :: "rstr \<Rightarrow> rstr" where
  "invert_line l =
     (if take 1 l = ''-'' then CHR ''+'' # drop 1 l
      else if take 1 l = ''+'' then CHR ''-'' # drop 1 l else l)"

definition invert_hunk :: "patch_hunk \<Rightarrow> patch_hunk" where
  "invert_hunk h = \<lparr>ph_old_start = ph_new_start h, ph_old_count = ph_new_count h,
     ph_new_start = ph_old_start h, ph_new_count = ph_old_count h, ph_lines = map invert_line (ph_lines h)\<rparr>"


lemma old_new_lines_simps [simp]:
  "old_lines [] = []" "new_lines [] = []"
  "old_lines (l # ls) = (if take 1 l = ''+'' then [] else [drop 1 l]) @ old_lines ls"
  "new_lines (l # ls) = (if take 1 l = ''-'' then [] else [drop 1 l]) @ new_lines ls"
  by (simp_all add: old_lines_def new_lines_def)

lemma at_index: "(i < length xs \<and> xs ! i = x) = prefix [x] (drop i xs)"
  by (cases "i < length xs") (auto simp: Cons_nth_drop_Suc [symmetric])

lemma prefix_drop_Cons: "prefix (x # ys) (drop i xs) = (i < length xs \<and> xs ! i = x \<and> prefix ys (drop (Suc i) xs))"
  by (cases "i < length xs") (auto simp: Cons_nth_drop_Suc [symmetric])

lemma hunk_lines_spec:
  "hunk_lines src ls out i os ns = Inr (out', os', ns') \<longleftrightarrow>
     list_all line_ok ls \<and> prefix (old_lines ls) (drop i src)
     \<and> out' = out @ new_lines ls \<and> os' = os + length (old_lines ls) \<and> ns' = ns + length (new_lines ls)"
proof (induction src ls out i os ns arbitrary: out' os' ns' rule: hunk_lines.induct)
  case (2 src line rest out i os ns)
  show ?case
  proof (cases "line_ok line")
    case False
    then show ?thesis by (auto simp: line_ok_def Let_def)
  next
    case True
    then obtain c where line: "line \<noteq> []" "is_char_boundary line 1" "take 1 line = [c]" "c \<in> set '' -+''"
      by (auto simp: line_ok_def)
    have eq: "(length src \<le> i \<or> src ! i \<noteq> drop 1 line) \<longleftrightarrow> \<not> (i < length src \<and> src ! i = drop 1 line)"
      by auto
    from line(4) consider "c = CHR '' ''" | "c = CHR ''-''" | "c = CHR ''+''" by auto
    then show ?thesis
      using "2.IH" line True
      by cases (simp_all add: prefix_drop_Cons eq Let_def conj_ac del: not_less not_le)
  qed
qed auto

text \<open>One step of the loop over the hunks, with the line numbers solved.\<close>

lemma patch_hunks_Cons:
  "patch_hunks src (h # hs) out c = Inr res \<longleftrightarrow>
     (\<exists>start. ph_old_start h = Suc start \<and> c \<le> start \<and> start \<le> length src
       \<and> ph_old_count h \<le> length src - start
       \<and> ph_new_start h = length out + length (drop c (take start src)) + 1
       \<and> list_all line_ok (ph_lines h) \<and> prefix (old_side h) (drop start src)
       \<and> ph_old_count h = length (old_side h) \<and> ph_new_count h = length (new_side h)
       \<and> patch_hunks src hs (out @ drop c (take start src) @ new_side h) (start + ph_old_count h) = Inr res)"
proof -
  have res: "(case hunk_lines src (ph_lines h) out' start 0 0 of Inl e \<Rightarrow> Inl e
      | Inr (output, old_seen, new_seen) \<Rightarrow>
          if old_seen \<noteq> ph_old_count h \<or> new_seen \<noteq> ph_new_count h
          then Inl (PatchRejected m) else patch_hunks src hs output (start + ph_old_count h)) = Inr res
    \<longleftrightarrow> list_all line_ok (ph_lines h) \<and> prefix (old_side h) (drop start src)
       \<and> ph_old_count h = length (old_side h) \<and> ph_new_count h = length (new_side h)
       \<and> patch_hunks src hs (out' @ new_side h) (start + ph_old_count h) = Inr res" for out' start m
  proof (cases "list_all line_ok (ph_lines h) \<and> prefix (old_side h) (drop start src)")
    case True
    then have "hunk_lines src (ph_lines h) out' start 0 0
        = Inr (out' @ new_side h, length (old_side h), length (new_side h))"
      by (simp add: hunk_lines_spec)
    then show ?thesis using True by auto
  next
    case False
    then have "hunk_lines src (ph_lines h) out' start 0 0 \<noteq> Inr x" for x
      using False by (cases x) (auto simp: hunk_lines_spec)
    then obtain e where "hunk_lines src (ph_lines h) out' start 0 0 = Inl e" by (metis sum.exhaust)
    then show ?thesis using False by auto
  qed
  show ?thesis
  proof (cases "ph_old_start h")
    case 0
    then show ?thesis by simp
  next
    case (Suc start)
    then show ?thesis
      by (simp add: Let_def res)
  qed
qed

lemma patch_hunks_spec:
  "c \<le> length src \<Longrightarrow>
   patch_hunks src hs out c = Inr res \<longleftrightarrow>
     (\<exists>gaps rest. placed c (length out) hs gaps \<and> drop c src = spliced old_side hs gaps rest
        \<and> res = out @ spliced new_side hs gaps rest)"
proof (induction hs arbitrary: out c)
  case (Cons h hs)
  show ?case
  proof
    assume "patch_hunks src (h # hs) out c = Inr res"
    then obtain start where s: "ph_old_start h = Suc start" "c \<le> start" "start \<le> length src"
      "ph_old_count h \<le> length src - start"
      "ph_new_start h = length out + length (drop c (take start src)) + 1"
      "list_all line_ok (ph_lines h)" "prefix (old_side h) (drop start src)"
      "ph_old_count h = length (old_side h)" "ph_new_count h = length (new_side h)"
      and rec: "patch_hunks src hs (out @ drop c (take start src) @ new_side h) (start + ph_old_count h) = Inr res"
      unfolding patch_hunks_Cons by blast
    let ?g = "drop c (take start src)"
    have len: "length ?g = start - c" using s(3) by simp
    have "start + ph_old_count h \<le> length src" using s(3,4) by simp
    from rec [unfolded Cons.IH [OF this]]
    obtain gaps rest where ih: "placed (start + ph_old_count h) (length (out @ ?g @ new_side h)) hs gaps"
      "drop (start + ph_old_count h) src = spliced old_side hs gaps rest"
      "res = (out @ ?g @ new_side h) @ spliced new_side hs gaps rest" by blast
    have "drop c src = ?g @ drop start src"
      using append_take_drop_id [of "start - c" "drop c src"] s(2) by (simp add: drop_take)
    moreover have "drop start src = old_side h @ drop (start + ph_old_count h) src"
    proof -
      obtain zs where zs: "drop start src = old_side h @ zs" using s(7) by (auto simp: prefix_def)
      have "drop (start + ph_old_count h) src = drop (length (old_side h)) (drop start src)"
        by (simp add: s(8) add.commute)
      then show ?thesis by (simp add: zs)
    qed
    moreover have "placed c (length out) (h # hs) (?g # gaps)"
      using s ih(1) len by (simp add: add_ac)
    ultimately show "\<exists>gaps rest. placed c (length out) (h # hs) gaps
        \<and> drop c src = spliced old_side (h # hs) gaps rest
        \<and> res = out @ spliced new_side (h # hs) gaps rest"
      using ih(2,3) by (intro exI [of _ "?g # gaps"] exI [of _ rest]) simp
  next
    assume "\<exists>gaps rest. placed c (length out) (h # hs) gaps
        \<and> drop c src = spliced old_side (h # hs) gaps rest
        \<and> res = out @ spliced new_side (h # hs) gaps rest"
    then obtain g gaps rest where g: "placed c (length out) (h # hs) (g # gaps)"
      "drop c src = g @ old_side h @ spliced old_side hs gaps rest"
      "res = out @ g @ new_side h @ spliced new_side hs gaps rest"
      by (metis list.exhaust placed.simps(2) spliced.simps(1))
    let ?start = "c + length g"
    have gap: "drop c (take ?start src) = g"
      using g(2) by (simp add: drop_take)
    have at: "drop ?start src = old_side h @ spliced old_side hs gaps rest"
      using g(2) by (metis add.commute append_eq_conv_conj drop_drop)
    have "length (drop c src) = length g + length (old_side h) + length (spliced old_side hs gaps rest)"
      by (simp add: g(2))
    then have len: "?start + length (old_side h) \<le> length src"
      using Cons.prems by simp
    have after: "drop (?start + length (old_side h)) src = spliced old_side hs gaps rest"
      using at by (metis add.commute append_eq_conv_conj drop_drop)
    have "patch_hunks src hs (out @ g @ new_side h) (?start + length (old_side h)) = Inr res"
      unfolding Cons.IH [OF len] using g(1,3) after
      by (intro exI [of _ gaps] exI [of _ rest]) (simp add: add_ac)
    then show "patch_hunks src (h # hs) out c = Inr res"
      unfolding patch_hunks_Cons using g(1) len gap at
      by (intro exI [of _ ?start]) (auto simp: prefix_def)
  qed
qed auto

subsection \<open>Turning a patch around\<close>

lemma invert_line_simps:
  assumes "line_ok l"
  shows "line_ok (invert_line l)" "drop 1 (invert_line l) = drop 1 l"
    "(take 1 (invert_line l) = ''+'') = (take 1 l = ''-'')" "(take 1 (invert_line l) = ''-'') = (take 1 l = ''+'')"
proof -
  have b: "is_char_boundary (c # cs) 1 = is_char_boundary (d # cs) 1" for c d cs
    by (cases cs) (simp_all add: is_char_boundary_def)
  show "line_ok (invert_line l)" using assms b by (cases l) (auto simp: line_ok_def invert_line_def)
qed (use assms in \<open>auto simp: line_ok_def invert_line_def\<close>)

lemma invert_sides:
  assumes "list_all line_ok (ph_lines h)"
  shows "old_side (invert_hunk h) = new_side h" "new_side (invert_hunk h) = old_side h"
    "list_all line_ok (ph_lines (invert_hunk h))"
proof -
  have "list_all line_ok ls \<Longrightarrow> old_lines (map invert_line ls) = new_lines ls
      \<and> new_lines (map invert_line ls) = old_lines ls \<and> list_all line_ok (map invert_line ls)" for ls
    by (induction ls) (simp_all add: invert_line_simps [unfolded One_nat_def])
  from this [OF assms] show "old_side (invert_hunk h) = new_side h" "new_side (invert_hunk h) = old_side h"
    "list_all line_ok (ph_lines (invert_hunk h))" by (simp_all add: invert_hunk_def)
qed

lemma invert_placed:
  "placed c n hs gaps \<Longrightarrow> placed n c (map invert_hunk hs) gaps
     \<and> spliced old_side (map invert_hunk hs) gaps rest = spliced new_side hs gaps rest
     \<and> spliced new_side (map invert_hunk hs) gaps rest = spliced old_side hs gaps rest"
proof (induction c n hs gaps rule: placed.induct)
  case (3 c n h hs g gaps)
  then have h: "list_all line_ok (ph_lines h)" by simp
  show ?case using 3 by (simp add: invert_sides [OF h]) (simp add: invert_hunk_def)
qed simp_all

lemma patch_lines_inverse:
  assumes "patch_hunks src hs [] 0 = Inr out"
  shows "patch_hunks out (map invert_hunk hs) [] 0 = Inr src"
proof -
  obtain gaps rest where g: "placed 0 0 hs gaps" "src = spliced old_side hs gaps rest"
    "out = spliced new_side hs gaps rest"
    using assms patch_hunks_spec [of 0 src hs "[]" out] by auto
  show ?thesis
    by (subst patch_hunks_spec, simp, intro exI [of _ gaps] exI [of _ rest])
      (use invert_placed [OF g(1), of rest] g(2,3) in simp)
qed

subsection \<open>Texts and lines\<close>

definition lf :: rstr where "lf = [CHR 0x0A]"
definition crlf :: rstr where "crlf = [CHR 0x0D, CHR 0x0A]"

text \<open>A line as an editor sees it: without a line feed, and not ending in a carriage return.\<close>

definition plain_line :: "rstr \<Rightarrow> bool" where
  "plain_line l \<longleftrightarrow> CHR 0x0A \<notin> set l \<and> strip_cr l = l"

definition text_of :: "rstr \<Rightarrow> bool \<Rightarrow> rstr list \<Rightarrow> rstr" where
  "text_of newline final ls = join newline ls @ (if final then newline else [])"

text \<open>A file whose lines all end alike, so that its text determines its lines and back.\<close>

definition uniform :: "rstr \<Rightarrow> bool \<Rightarrow> rstr list \<Rightarrow> bool" where
  "uniform newline final ls \<longleftrightarrow>
     list_all plain_line ls \<and> ls \<noteq> [] \<and> (final \<or> last ls \<noteq> [])
     \<and> (newline = lf \<or> newline = crlf \<and> (final \<or> 1 < length ls))"

lemma contains_crlf_line:
  "CHR 0x0A \<notin> set a \<Longrightarrow>
   contains_str (a @ CHR 0x0A # b) crlf = (a \<noteq> [] \<and> last a = CHR 0x0D \<or> contains_str b crlf)"
proof (induction a)
  case (Cons c a)
  then show ?case by (cases a) (auto simp: crlf_def starts_with_def)
qed (simp add: crlf_def starts_with_def)

lemma contains_crlf_none: "CHR 0x0A \<notin> set a \<Longrightarrow> \<not> contains_str a crlf"
proof (induction a)
  case (Cons c a)
  then show ?case by (cases a) (auto simp: crlf_def starts_with_def)
qed (simp add: crlf_def)

lemma plain_line_last: "plain_line l \<Longrightarrow> l \<noteq> [] \<Longrightarrow> last l \<noteq> CHR 0x0D"
  by (auto simp: plain_line_def strip_cr_def split: if_splits) (metis append_butlast_last_id not_Cons_self2 self_append_conv)

lemma contains_crlf_join:
  "list_all plain_line ls \<Longrightarrow> newline = lf \<or> newline = crlf \<Longrightarrow>
   contains_str (join newline ls) crlf = (newline = crlf \<and> 1 < length ls)"
proof (induction newline ls rule: join.induct)
  case (2 sep x)
  then show ?case by (simp add: contains_crlf_none plain_line_def)
next
  case (3 sep x y xs)
  have x: "CHR 0x0A \<notin> set x" "x \<noteq> [] \<Longrightarrow> last x \<noteq> CHR 0x0D"
    using 3(2) plain_line_last [of x] by (auto simp: plain_line_def)
  then have "contains_str (x @ lf @ t) crlf = contains_str t crlf" "contains_str (x @ crlf @ t) crlf" for t
    using contains_crlf_line [of x t] contains_crlf_line [of "x @ [CHR 0x0D]" t]
    by (auto simp: lf_def crlf_def)
  then show ?case using 3 by (auto simp: lf_def crlf_def)
qed (simp add: crlf_def)

text \<open>The pieces of such a text between its line feeds.\<close>

lemma split_join_newline:
  assumes "list_all plain_line ls" and "ls \<noteq> []" and "newline = cr @ lf" and "CHR 0x0A \<notin> set cr"
  shows "split_on CHR 0x0A (join newline ls) = map (\<lambda>l. l @ cr) (butlast ls) @ [last ls]"
  using assms
proof (induction newline ls rule: join.induct)
  case (2 sep x)
  then show ?case by (simp add: plain_line_def split_on_def split_on_from_no_sep)
next
  case (3 sep x y xs)
  then have ih: "split_on CHR 0x0A (join sep (y # xs)) = map (\<lambda>l. l @ cr) (butlast (y # xs)) @ [last (y # xs)]"
    by simp
  have "CHR 0x0A \<notin> set (x @ cr)" using 3 by (simp add: plain_line_def)
  from split_on_from_sep [OF this, of "[]" "join sep (y # xs)"] ih show ?case
    using 3 by (simp add: split_on_def lf_def)
qed simp

lemma strip_cr_line: "plain_line l \<Longrightarrow> cr = [] \<or> cr = [CHR 0x0D] \<Longrightarrow> strip_cr (l @ cr) = l"
  by (auto simp: plain_line_def strip_cr_def)

lemma text_of_final: "ls \<noteq> [] \<Longrightarrow> text_of newline True ls = join newline (ls @ [[]])"
  by (simp add: text_of_def join_snoc)

lemma join_last: "ls \<noteq> [] \<Longrightarrow> last ls \<noteq> [] \<Longrightarrow> join newline ls \<noteq> [] \<and> last (join newline ls) = last (last ls)"
  by (induction newline ls rule: join.induct) auto

lemma ends_with_char: "ends_with s [c] = (s \<noteq> [] \<and> last s = c)"
  by (cases s rule: rev_cases) (auto simp: ends_with_def)

lemma text_of_uniform:
  assumes u: "uniform newline final ls"
  shows "source_newline (text_of newline final ls) = newline"
    and "ends_with (text_of newline final ls) [CHR 0x0A] = final"
    and "source_lines_of (text_of newline final ls) = ls"
proof -
  obtain cr where cr: "newline = cr @ lf" "cr = [] \<or> cr = [CHR 0x0D]"
    using u by (auto simp: uniform_def lf_def crlf_def)
  have plain: "list_all plain_line ls" "ls \<noteq> []" "list_all plain_line (ls @ [[]])"
    using u by (auto simp: uniform_def plain_line_def strip_cr_def)
  have nl: "newline = lf \<or> newline = crlf" using cr by (auto simp: lf_def crlf_def)
  show "source_newline (text_of newline final ls) = newline"
  proof -
    have "contains_str (text_of newline final ls) crlf = (newline = crlf)"
    proof (cases final)
      case True
      then show ?thesis
        using contains_crlf_join [OF plain(3) nl] plain(2) by (simp add: text_of_final)
    next
      case False
      then have "newline = lf \<or> 1 < length ls" using u by (auto simp: uniform_def)
      then show ?thesis
        using contains_crlf_join [OF plain(1) nl] False
        by (auto simp: text_of_def) (simp add: lf_def crlf_def)
    qed
    then show ?thesis using nl by (auto simp: source_newline_def lf_def crlf_def)
  qed
  have strip: "map strip_cr (map (\<lambda>l. l @ cr) ms) = ms" if "list_all plain_line ms" for ms
    using that cr(2) by (induction ms) (simp_all add: strip_cr_line)
  have lfs: "CHR 0x0A \<notin> set cr" using cr(2) by auto
  have stripped: "map strip_cr (split_on CHR 0x0A (join newline ms)) = ms"
    if "list_all plain_line ms" "ms \<noteq> []" for ms
  proof -
    have "list_all plain_line (butlast ms)" "plain_line (last ms)"
      using that by (auto simp: list_all_iff dest: in_set_butlastD)
    then show ?thesis
      using strip [of "butlast ms"] that(2)
      by (simp add: split_join_newline [OF that cr(1) lfs] plain_line_def)
  qed
  show ends: "ends_with (text_of newline final ls) [CHR 0x0A] = final"
  proof (cases final)
    case True
    then show ?thesis using cr(1) by (simp add: text_of_def ends_with_char lf_def)
  next
    case False
    then have "last ls \<noteq> []" using u by (simp add: uniform_def)
    moreover have "plain_line (last ls)" using plain(1,2) by (simp add: list_all_iff)
    ultimately have "last (last ls) \<noteq> CHR 0x0A" by (auto simp: plain_line_def dest: last_in_set)
    then show ?thesis using False join_last [OF plain(2) \<open>last ls \<noteq> []\<close>]
      by (simp add: text_of_def ends_with_char)
  qed
  show "source_lines_of (text_of newline final ls) = ls"
  proof (cases final)
    case True
    then show ?thesis
      using ends stripped [OF plain(3)] plain(2) cr(1)
      by (simp add: source_lines_of_def Let_def text_of_final join_snoc lf_def del: map_append)
  next
    case False
    then have "last ls \<noteq> []" using u by (simp add: uniform_def)
    then show ?thesis
      using False ends stripped [OF plain(1,2)] join_last [OF plain(2)]
      by (simp add: source_lines_of_def Let_def text_of_def)
  qed
qed

lemma apply_patch_lines:
  assumes "uniform newline final ls"
  shows "apply_patch_text (text_of newline final ls) hs =
    (case patch_hunks ls hs [] 0 of Inl e \<Rightarrow> Inl e | Inr out \<Rightarrow> Inr (text_of newline final out))"
  unfolding apply_patch_text_def text_of_uniform [OF assms] by (simp only: text_of_def)

end
