(* ===== verification/Output_Buffer.thy ===== *)
theory Output_Buffer
  imports Limits "HOL-Library.Sublist" "HOL-Library.AList"
begin

section \<open>Bounded process output (aether-tools/src/common.rs)\<close>

text \<open>
  The byte buffer of one stream of a persistent process, and the limits of a process run.  The lock is
  not modelled (it is never poisoned: no operation panics while holding it), nor the wake-ups.
\<close>

definition MAX_INPUT_BYTES :: nat where "MAX_INPUT_BYTES = 4 * 1024 * 1024"
definition MAX_PROCESS_READ_BYTES :: nat where "MAX_PROCESS_READ_BYTES = 64 * 1024"
definition MAX_PERSISTENT_PROCESSES :: nat where "MAX_PERSISTENT_PROCESSES = 16"
definition MIN_PROCESS_TIMEOUT_MS :: u64 where "MIN_PROCESS_TIMEOUT_MS = 1"
definition MAX_PROCESS_TIMEOUT_MS :: u64 where "MAX_PROCESS_TIMEOUT_MS = 600000"

record output_buffer =
  ob_bytes :: rstr
  ob_dropped :: u64
  ob_eof :: bool
  ob_capacity :: nat

record buffered_read =
  br_bytes :: rstr
  br_eof :: bool
  br_dropped :: u64
  br_buffered :: nat

definition buffer_new :: "nat \<Rightarrow> output_buffer" where
  "buffer_new capacity =
     \<lparr>ob_bytes = [], ob_dropped = 0, ob_eof = False, ob_capacity = max capacity 1\<rparr>"

definition buffer_push :: "rstr \<Rightarrow> output_buffer \<Rightarrow> output_buffer" where
  "buffer_push bytes b =
     (if ob_capacity b \<le> length bytes then
        (let retained = drop (length bytes - ob_capacity b) bytes;
             dropped = length (ob_bytes b) + length bytes - length retained
         in b\<lparr>ob_bytes := retained, ob_dropped := saturating_add (ob_dropped b) (of_nat dropped)\<rparr>)
      else
        (let overflow = length (ob_bytes b) + length bytes - ob_capacity b
         in b\<lparr>ob_bytes := drop overflow (ob_bytes b) @ bytes,
              ob_dropped := saturating_add (ob_dropped b) (of_nat overflow)\<rparr>))"

definition buffer_mark_eof :: "output_buffer \<Rightarrow> output_buffer" where
  "buffer_mark_eof b = b\<lparr>ob_eof := True\<rparr>"

definition buffer_take :: "nat \<Rightarrow> output_buffer \<Rightarrow> buffered_read \<times> output_buffer" where
  "buffer_take limit b =
     (let count = min limit (length (ob_bytes b));
          bytes = take count (ob_bytes b);
          b = b\<lparr>ob_bytes := drop count (ob_bytes b)\<rparr>
      in (\<lparr>br_bytes = bytes, br_eof = (ob_eof b \<and> ob_bytes b = []), br_dropped = ob_dropped b,
           br_buffered = length (ob_bytes b)\<rparr>, b))"

definition buffer_is_ready :: "output_buffer \<Rightarrow> bool" where
  "buffer_is_ready b = (ob_bytes b \<noteq> [] \<or> ob_eof b)"

subsection \<open>Limits of a run\<close>

text \<open>\<open>Ord::clamp\<close> panics when \<open>lo\<close> exceeds \<open>hi\<close>; a workspace limit is at least 1, so it never does here.\<close>

definition clamp :: "'a::linorder \<Rightarrow> 'a \<Rightarrow> 'a \<Rightarrow> 'a" where
  "clamp x lo hi = (if x < lo then lo else if hi < x then hi else x)"

definition bounded_limit :: "nat option \<Rightarrow> nat \<Rightarrow> nat" where
  "bounded_limit requested workspace_limit =
     clamp (case requested of None \<Rightarrow> workspace_limit | Some n \<Rightarrow> n) 1 (min workspace_limit MAX_INPUT_BYTES)"

record process_runtime =
  pr_output_limit :: nat
  pr_timeout :: u64

definition runtime_finite :: "nat \<Rightarrow> nat option \<Rightarrow> u64 option \<Rightarrow> process_runtime" where
  "runtime_finite max_output requested_bytes requested_timeout =
     \<lparr>pr_output_limit = bounded_limit requested_bytes max_output,
      pr_timeout = clamp (case requested_timeout of None \<Rightarrow> 120000 | Some t \<Rightarrow> t)
        MIN_PROCESS_TIMEOUT_MS MAX_PROCESS_TIMEOUT_MS\<rparr>"

definition runtime_persistent_read :: "nat \<Rightarrow> nat option \<Rightarrow> u64 option \<Rightarrow> process_runtime" where
  "runtime_persistent_read max_output requested_bytes requested_timeout =
     (let max_read_output = max (max_output div 8) 1
      in \<lparr>pr_output_limit = bounded_limit requested_bytes (min MAX_PROCESS_READ_BYTES max_read_output),
          pr_timeout = clamp (case requested_timeout of None \<Rightarrow> 1000 | Some t \<Rightarrow> t)
            MIN_PROCESS_TIMEOUT_MS MAX_PROCESS_TIMEOUT_MS\<rparr>)"

subsection \<open>The registry of persistent processes\<close>

text \<open>Entries are a finite map; the identifier counter wraps as an \<open>AtomicU64\<close> does.\<close>

record 'h process_registry =
  reg_entries :: "(u64 \<times> 'h) list"
  reg_next_id :: u64

definition registry_new :: "'h process_registry" where
  "registry_new = \<lparr>reg_entries = [], reg_next_id = 1\<rparr>"

definition registry_allocate_id :: "'h process_registry \<Rightarrow> u64 \<times> 'h process_registry" where
  "registry_allocate_id r = (reg_next_id r, r\<lparr>reg_next_id := reg_next_id r + 1\<rparr>)"

definition registry_insert ::
  "u64 \<Rightarrow> 'h \<Rightarrow> 'h process_registry \<Rightarrow> 'h process_registry option" where
  "registry_insert i handle r =
     (if MAX_PERSISTENT_PROCESSES \<le> length (reg_entries r) then None
      else Some (r\<lparr>reg_entries := AList.update i handle (reg_entries r)\<rparr>))"

definition registry_get :: "u64 \<Rightarrow> 'h process_registry \<Rightarrow> 'h option" where
  "registry_get i r = map_of (reg_entries r) i"

definition registry_remove :: "u64 \<Rightarrow> 'h process_registry \<Rightarrow> 'h option \<times> 'h process_registry" where
  "registry_remove i r = (map_of (reg_entries r) i, r\<lparr>reg_entries := AList.delete i (reg_entries r)\<rparr>)"

subsection \<open>The stream behind a buffer\<close>

text \<open>
  What a run of a buffer did: all bytes pushed, all bytes taken, and how many were dropped, counted
  without the width of the counter.
\<close>

datatype buffer_op = BPush rstr | BTake nat | BEof

record stream_log =
  sl_pushed :: rstr
  sl_taken :: rstr
  sl_dropped :: nat

fun run_buffer :: "buffer_op \<Rightarrow> output_buffer \<times> stream_log \<Rightarrow> output_buffer \<times> stream_log" where
  "run_buffer (BPush bytes) (b, l) =
     (buffer_push bytes b,
      l\<lparr>sl_pushed := sl_pushed l @ bytes,
        sl_dropped := sl_dropped l + (length (ob_bytes b) + length bytes - ob_capacity b)\<rparr>)"
| "run_buffer (BTake n) (b, l) =
     (let (r, b) = buffer_take n b in (b, l\<lparr>sl_taken := sl_taken l @ br_bytes r\<rparr>))"
| "run_buffer BEof (b, l) = (buffer_mark_eof b, l)"

definition log_new :: stream_log where
  "log_new = \<lparr>sl_pushed = [], sl_taken = [], sl_dropped = 0\<rparr>"

definition accounts :: "nat \<Rightarrow> nat \<Rightarrow> rstr \<Rightarrow> u64 \<Rightarrow> rstr \<Rightarrow> rstr \<Rightarrow> nat \<Rightarrow> bool" where
  "accounts capacity cap bytes dropped pushed taken lost \<longleftrightarrow>
     cap = max capacity 1 \<and> length bytes \<le> cap \<and> suffix bytes pushed
     \<and> length taken + lost + length bytes = length pushed
     \<and> unat dropped = min lost (2 ^ 64 - 1) \<and> subseq (taken @ bytes) pushed"

definition buffer_accounts :: "nat \<Rightarrow> output_buffer \<times> stream_log \<Rightarrow> bool" where
  "buffer_accounts capacity = (\<lambda>(b, l).
     accounts capacity (ob_capacity b) (ob_bytes b) (ob_dropped b) (sl_pushed l) (sl_taken l) (sl_dropped l))"

lemma suffix_dropI: "suffix xs ys \<Longrightarrow> suffix (drop n xs) ys"
  using suffix_drop suffix_order.trans by blast

lemma subseq_front: "subseq (xs @ ys) zs \<Longrightarrow> subseq xs zs"
  using prefix_imp_subseq [of xs "xs @ ys"] by (auto intro: subseq_order.trans)

lemma subseq_drop: "subseq (drop n xs) xs"
  by (rule suffix_imp_subseq) (rule suffix_drop)

lemma counted:
  assumes "unat a = min n (2 ^ 64 - 1)" and "k < 2 ^ 64"
  shows "unat (saturating_add a (of_nat k :: u64)) = min (n + k) (2 ^ 64 - 1)"
  using assms by (simp add: unat_saturating_add unsigned_of_nat take_bit_nat_eq_self)

lemma accounts_push:
  assumes a: "buffer_accounts capacity (b, l)" and "max capacity 1 < 2 ^ 63" and "length bytes < 2 ^ 63"
  shows "buffer_accounts capacity (run_buffer (BPush bytes) (b, l))"
proof -
  let ?d = "length (ob_bytes b) + length bytes - ob_capacity b"
  have inv: "ob_capacity b = max capacity 1" "length (ob_bytes b) \<le> ob_capacity b"
    "suffix (ob_bytes b) (sl_pushed l)"
    "length (sl_taken l) + sl_dropped l + length (ob_bytes b) = length (sl_pushed l)"
    "unat (ob_dropped b) = min (sl_dropped l) (2 ^ 64 - 1)" "subseq (sl_taken l @ ob_bytes b) (sl_pushed l)"
    using a by (simp_all add: buffer_accounts_def accounts_def)
  have "?d < 2 ^ 64" using assms(2,3) inv(1,2) by simp
  note count = counted [OF inv(5) this]
  show ?thesis
  proof (cases "ob_capacity b \<le> length bytes")
    case True
    then have kept: "length (drop (length bytes - ob_capacity b) bytes) = ob_capacity b" by simp
    have "subseq (sl_taken l @ drop (length bytes - ob_capacity b) bytes) (sl_pushed l @ bytes)"
      by (intro list_emb_append_mono subseq_front [OF inv(6)] subseq_drop)
    moreover have "suffix (drop (length bytes - ob_capacity b) bytes) (sl_pushed l @ bytes)"
      by (intro suffix_dropI) (simp add: suffix_def)
    ultimately show ?thesis
      using True inv count by (simp add: buffer_accounts_def accounts_def buffer_push_def Let_def)
  next
    case False
    let ?b = "drop ?d (ob_bytes b) @ bytes"
    have "subseq (sl_taken l @ drop ?d (ob_bytes b)) (sl_pushed l)"
      by (rule subseq_order.trans [OF list_emb_append_mono [OF subseq_order.refl subseq_drop] inv(6)])
    then have seq: "subseq (sl_taken l @ ?b) (sl_pushed l @ bytes)"
      unfolding append_assoc [symmetric] by (rule list_emb_append_mono) (rule subseq_order.refl)
    obtain zs where "sl_pushed l = zs @ drop ?d (ob_bytes b)"
      using suffix_dropI [OF inv(3), of ?d] by (auto simp only: suffix_def)
    then have suf: "suffix ?b (sl_pushed l @ bytes)" by (simp only: append_assoc suffix_def) blast
    have len: "length ?b = length (ob_bytes b) - ?d + length bytes" by simp
    have push: "buffer_push bytes b = b\<lparr>ob_bytes := ?b,
        ob_dropped := saturating_add (ob_dropped b) (of_nat ?d)\<rparr>"
      using False by (simp add: buffer_push_def Let_def)
    have "accounts capacity (ob_capacity b) ?b (saturating_add (ob_dropped b) (of_nat ?d))
        (sl_pushed l @ bytes) (sl_taken l) (sl_dropped l + ?d)"
      unfolding accounts_def length_append [of "sl_pushed l"] len
      by (intro conjI inv(1) seq suf count) (use inv(2,4) False in linarith)+
    then show ?thesis by (simp add: buffer_accounts_def push)
  qed
qed

lemma accounts_take:
  assumes "buffer_accounts capacity (b, l)"
  shows "buffer_accounts capacity (run_buffer (BTake n) (b, l))"
proof -
  have "(sl_taken l @ take c (ob_bytes b)) @ drop c (ob_bytes b) = sl_taken l @ ob_bytes b" for c by simp
  then show ?thesis
    using assms by (auto simp: buffer_accounts_def accounts_def buffer_take_def Let_def intro: suffix_dropI)
qed

definition storable :: "buffer_op \<Rightarrow> bool" where
  "storable op = (case op of BPush bytes \<Rightarrow> length bytes < 2 ^ 63 | _ \<Rightarrow> True)"

lemma run_buffer_accounts:
  assumes "max capacity 1 < 2 ^ 63" and "list_all storable ops" and "buffer_accounts capacity s"
  shows "buffer_accounts capacity (fold run_buffer ops s)"
  using assms(2,3)
proof (induction ops arbitrary: s)
  case (Cons op ops)
  obtain b l where s: "s = (b, l)" by fastforce
  have "buffer_accounts capacity (run_buffer op s)"
    using Cons.prems assms(1) unfolding s
    by (cases op) (simp_all add: accounts_push accounts_take storable_def del: run_buffer.simps(1,2),
        simp add: buffer_accounts_def buffer_mark_eof_def)
  then show ?case using Cons by simp
qed simp

lemma accounts_new: "buffer_accounts capacity (buffer_new capacity, log_new)"
  by (simp add: buffer_accounts_def accounts_def buffer_new_def log_new_def)

end
