(* ===== verification/File_Commit.thy ===== *)
theory File_Commit
  imports Output_Buffer Core_Types
begin

section \<open>Installing files (aether-tools/src/common.rs and patch.rs)\<close>

text \<open>
  How \<open>write\<close> and \<open>patch\<close> replace files: stage the bytes beside the destination, check that nothing
  changed, rename, and roll back the files already replaced when a later one fails.  The operating
  system is an environment: the n-th file-system call may fail (\<open>os_fault\<close>), other processes may act
  before it (\<open>os_outside\<close>), and a look at the cancellation flag may see it set (\<open>os_cancelled\<close>).  A
  directory is a map from paths to files; a file that is open for reading keeps the bytes it had.
  Directories, permissions and the targets of symbolic links are not modelled.
\<close>

datatype io_kind = NotFound | AlreadyExists | Unsupported_IO | CrossesDevices | OtherKind

record io_error =
  io_kind :: io_kind
  io_os_code :: "int option"
  io_text :: rstr

datatype tool_internal_error =
    CoreFailure core_error
  | IoFailure io_error
  | InputFailure rstr
  | PatternFailure rstr
  | TimeoutFailure
  | DestinationExists rstr
  | ConcurrentModification rstr
  | ProcessTerminationFailed u64 rstr
  | RollbackFailed rstr "rstr list"

record file_node =
  fn_bytes :: rstr
  fn_modified :: "nat option"
  fn_symlink :: bool

record file_system =
  fs_files :: "rstr \<Rightarrow> file_node option"
  fs_calls :: nat
  fs_looks :: nat
  fs_next_temp :: u64

record os_env =
  os_fault :: "nat \<Rightarrow> io_error option"
  os_outside :: "nat \<Rightarrow> (rstr \<Rightarrow> file_node option) \<Rightarrow> (rstr \<Rightarrow> file_node option)"
  os_cancelled :: "nat \<Rightarrow> bool"
  os_temp_name :: "rstr \<Rightarrow> u64 \<Rightarrow> rstr"
  os_stamp :: "nat \<Rightarrow> nat option"
  os_hash :: "rstr \<Rightarrow> rstr"
  os_debug :: "rstr list \<Rightarrow> rstr"

subsection \<open>Results and calls\<close>

type_synonym 'a fs_op = "file_system \<Rightarrow> (tool_internal_error + 'a) \<times> file_system"

text \<open>The \<open>?\<close> operator.\<close>

definition attempt :: "'a fs_op \<Rightarrow> ('a \<Rightarrow> 'b fs_op) \<Rightarrow> 'b fs_op" where
  "attempt m f w = (case m w of (Inl e, w) \<Rightarrow> (Inl e, w) | (Inr x, w) \<Rightarrow> f x w)"

definition pass :: "'a \<Rightarrow> 'a fs_op" where
  "pass x w = (Inr x, w)"

definition fail :: "tool_internal_error \<Rightarrow> 'a fs_op" where
  "fail e w = (Inl e, w)"

text \<open>A call: the others act, then it fails or sees the files.\<close>

definition os_call :: "os_env \<Rightarrow> file_system \<Rightarrow> io_error option \<times> file_system" where
  "os_call env w =
     (os_fault env (fs_calls w),
      w\<lparr>fs_files := os_outside env (fs_calls w) (fs_files w), fs_calls := Suc (fs_calls w)\<rparr>)"

text \<open>\<open>cancellation.check()?\<close>; \<open>live\<close> is false for the fresh flag of a rollback.\<close>

definition check_cancelled :: "os_env \<Rightarrow> bool \<Rightarrow> unit fs_op" where
  "check_cancelled env live w =
     (if live \<and> os_cancelled env (fs_looks w) then (Inl (CoreFailure Cancelled), w\<lparr>fs_looks := Suc (fs_looks w)\<rparr>)
      else (Inr (), w\<lparr>fs_looks := Suc (fs_looks w)\<rparr>))"

definition simple_call :: "os_env \<Rightarrow> unit fs_op" where
  "simple_call env w =
     (case os_call env w of (Some e, w) \<Rightarrow> (Inl (IoFailure e), w) | (None, w) \<Rightarrow> (Inr (), w))"

definition not_found :: io_error where
  "not_found = \<lparr>io_kind = NotFound, io_os_code = Some 2, io_text = ''No such file or directory (os error 2)''\<rparr>"

definition already_exists :: io_error where
  "already_exists = \<lparr>io_kind = AlreadyExists, io_os_code = Some 17, io_text = ''File exists (os error 17)''\<rparr>"

text \<open>\<open>symlink_metadata\<close>, \<open>metadata\<close> and \<open>File::open\<close>: the file, or why not.\<close>

definition look_up :: "os_env \<Rightarrow> rstr \<Rightarrow> file_node fs_op" where
  "look_up env path w =
     (case os_call env w of
        (Some e, w) \<Rightarrow> (Inl (IoFailure e), w)
      | (None, w) \<Rightarrow>
          (case fs_files w path of
             None \<Rightarrow> (Inl (IoFailure not_found), w)
           | Some node \<Rightarrow> (Inr node, w)))"

definition remove_file :: "os_env \<Rightarrow> rstr \<Rightarrow> file_system \<Rightarrow> file_system" where
  "remove_file env path w =
     (case os_call env w of
        (Some e, w) \<Rightarrow> w
      | (None, w) \<Rightarrow> w\<lparr>fs_files := (fs_files w)(path := None)\<rparr>)"

subsection \<open>The state and the hash of a file\<close>

datatype file_state = Missing | Present nat "nat option" bool

definition node_state :: "file_node \<Rightarrow> file_state" where
  "node_state node = Present (length (fn_bytes node)) (fn_modified node) (fn_symlink node)"

definition file_state :: "os_env \<Rightarrow> rstr \<Rightarrow> file_state fs_op" where
  "file_state env path w =
     (case look_up env path w of
        (Inr node, w) \<Rightarrow> (Inr (node_state node), w)
      | (Inl (IoFailure e), w) \<Rightarrow>
          if io_kind e = NotFound then (Inr Missing, w) else (Inl (IoFailure e), w)
      | (Inl e, w) \<Rightarrow> (Inl e, w))"

text \<open>The read loop of \<open>hash_file\<close>, 32 KiB at a time.\<close>

function hash_loop :: "os_env \<Rightarrow> bool \<Rightarrow> rstr \<Rightarrow> nat \<Rightarrow> unit fs_op" where
  "hash_loop env live bytes seen w =
     (case attempt (check_cancelled env live) (\<lambda>_. simple_call env) w of
        (Inl e, w) \<Rightarrow> (Inl e, w)
      | (Inr _, w) \<Rightarrow>
          if bytes = [] then (Inr (), w)
          else if MAX_INPUT_BYTES < seen + min (32 * 1024) (length bytes)
          then (Inl (InputFailure ''precondition file exceeds the bounded input limit''), w)
          else hash_loop env live (drop (32 * 1024) bytes) (seen + min (32 * 1024) (length bytes)) w)"
  by pat_completeness auto

termination
  by (relation "measure (\<lambda>(env, live, bytes, seen, w). length bytes)") auto

declare hash_loop.simps [simp del]

definition hash_file :: "os_env \<Rightarrow> bool \<Rightarrow> rstr \<Rightarrow> rstr fs_op" where
  "hash_file env live path =
     attempt (look_up env path) (\<lambda>node.
     attempt (hash_loop env live (fn_bytes node) 0) (\<lambda>_. pass (os_hash env (fn_bytes node))))"

subsection \<open>Staging and installing\<close>

record staged_replacement =
  sr_destination :: rstr
  sr_temporary :: rstr

definition cleanup :: "os_env \<Rightarrow> staged_replacement \<Rightarrow> file_system \<Rightarrow> file_system" where
  "cleanup env r w = remove_file env (sr_temporary r) w"

text \<open>The loop that opens a temporary file with \<open>create_new\<close>; \<open>temporary_path\<close> takes the next number.\<close>

fun open_temporary :: "os_env \<Rightarrow> nat \<Rightarrow> rstr \<Rightarrow> rstr fs_op" where
  "open_temporary env 0 path w =
     (Inl (IoFailure \<lparr>io_kind = AlreadyExists, io_os_code = None,
        io_text = ''could not allocate a collision-free temporary file''\<rparr>), w)"
| "open_temporary env (Suc tries) path w =
     (let candidate = os_temp_name env path (fs_next_temp w);
          w = w\<lparr>fs_next_temp := fs_next_temp w + 1\<rparr>
      in case os_call env w of
           (Some e, w) \<Rightarrow>
             if io_kind e = AlreadyExists then open_temporary env tries path w else (Inl (IoFailure e), w)
         | (None, w) \<Rightarrow>
             if fs_files w candidate \<noteq> None then open_temporary env tries path w
             else (Inr candidate, w\<lparr>fs_files := (fs_files w)(candidate \<mapsto>
                     \<lparr>fn_bytes = [], fn_modified = os_stamp env (fs_calls w), fn_symlink = False\<rparr>)\<rparr>))"

text \<open>One chunk of at most 64 KiB through the open handle.\<close>

definition write_chunk :: "os_env \<Rightarrow> rstr \<Rightarrow> rstr \<Rightarrow> unit fs_op" where
  "write_chunk env path chunk w =
     (case os_call env w of
        (Some e, w) \<Rightarrow> (Inl (IoFailure e), w)
      | (None, w) \<Rightarrow>
          (Inr (), w\<lparr>fs_files := (fs_files w)(path := map_option
             (\<lambda>node. node\<lparr>fn_bytes := fn_bytes node @ chunk, fn_modified := os_stamp env (fs_calls w)\<rparr>)
             (fs_files w path))\<rparr>))"

function write_chunks :: "os_env \<Rightarrow> bool \<Rightarrow> rstr \<Rightarrow> rstr \<Rightarrow> unit fs_op" where
  "write_chunks env live path bytes w =
     (if bytes = [] then (Inr (), w)
      else
        (case attempt (check_cancelled env live) (\<lambda>_. write_chunk env path (take (64 * 1024) bytes)) w of
           (Inl e, w) \<Rightarrow> (Inl e, w)
         | (Inr _, w) \<Rightarrow> write_chunks env live path (drop (64 * 1024) bytes) w))"
  by pat_completeness auto

termination
  by (relation "measure (\<lambda>(env, live, path, bytes, w). length bytes)") auto

declare write_chunks.simps [simp del]

text \<open>The closure that fills the temporary file.\<close>

definition fill_temporary :: "os_env \<Rightarrow> bool \<Rightarrow> bool \<Rightarrow> rstr \<Rightarrow> rstr \<Rightarrow> rstr \<Rightarrow> staged_replacement fs_op" where
  "fill_temporary env live has_permissions path temporary bytes =
     attempt (write_chunks env live temporary bytes) (\<lambda>_.
     attempt (simple_call env) (\<lambda>_.
     attempt (if has_permissions then simple_call env else pass ()) (\<lambda>_.
     attempt (simple_call env) (\<lambda>_.
     attempt (check_cancelled env live) (\<lambda>_.
       pass \<lparr>sr_destination = path, sr_temporary = temporary\<rparr>)))))"

definition metadata_permissions :: "os_env \<Rightarrow> rstr \<Rightarrow> bool fs_op" where
  "metadata_permissions env path w =
     (case look_up env path w of
        (Inr node, w) \<Rightarrow> (Inr True, w)
      | (Inl (IoFailure e), w) \<Rightarrow>
          if io_kind e = NotFound then (Inr False, w) else (Inl (IoFailure e), w)
      | (Inl e, w) \<Rightarrow> (Inl e, w))"

definition stage_replacement :: "os_env \<Rightarrow> bool \<Rightarrow> rstr \<Rightarrow> rstr \<Rightarrow> staged_replacement fs_op" where
  "stage_replacement env live path bytes =
     (if MAX_INPUT_BYTES < length bytes
      then fail (InputFailure ''write exceeds the bounded input limit'')
      else
        attempt (check_cancelled env live) (\<lambda>_.
        attempt (metadata_permissions env path) (\<lambda>permissions.
        attempt (open_temporary env 32 path) (\<lambda>temporary w.
          case fill_temporary env live permissions path temporary bytes w of
            (Inl e, w) \<Rightarrow> (Inl e, remove_file env temporary w)
          | (Inr staged, w) \<Rightarrow> (Inr staged, w)))))"

definition no_replace_conflict :: "bool \<Rightarrow> rstr \<Rightarrow> tool_internal_error" where
  "no_replace_conflict create_only destination =
     (if create_only then DestinationExists destination else ConcurrentModification destination)"

definition should_fallback_to_hard_link :: "io_error \<Rightarrow> bool" where
  "should_fallback_to_hard_link e =
     (io_kind e = Unsupported_IO \<or> io_kind e = CrossesDevices
      \<or> (case io_os_code e of None \<Rightarrow> False | Some code \<Rightarrow> code \<in> {18, 38, 45, 78, 95}))"

text \<open>\<open>rename\<close>, with and without replacing, and \<open>hard_link\<close>.\<close>

definition rename_file :: "os_env \<Rightarrow> bool \<Rightarrow> rstr \<Rightarrow> rstr \<Rightarrow> io_error option \<times> file_system \<Rightarrow> io_error option \<times> file_system" where
  "rename_file env replace source destination = (\<lambda>(fault, w).
     case fault of
       Some e \<Rightarrow> (Some e, w)
     | None \<Rightarrow>
         if fs_files w source = None then (Some not_found, w)
         else if \<not> replace \<and> fs_files w destination \<noteq> None then (Some already_exists, w)
         else (None, w\<lparr>fs_files := (fs_files w)(source := None, destination := fs_files w source)\<rparr>))"

definition hard_link :: "rstr \<Rightarrow> rstr \<Rightarrow> io_error option \<times> file_system \<Rightarrow> io_error option \<times> file_system" where
  "hard_link source destination = (\<lambda>(fault, w).
     case fault of
       Some e \<Rightarrow> (Some e, w)
     | None \<Rightarrow>
         if fs_files w source = None then (Some not_found, w)
         else if fs_files w destination \<noteq> None then (Some already_exists, w)
         else (None, w\<lparr>fs_files := (fs_files w)(destination := fs_files w source)\<rparr>))"

definition install_without_replacement :: "os_env \<Rightarrow> bool \<Rightarrow> staged_replacement \<Rightarrow> bool \<Rightarrow> unit fs_op" where
  "install_without_replacement env live staged create_only =
     attempt (check_cancelled env live) (\<lambda>_ w.
       case rename_file env False (sr_temporary staged) (sr_destination staged) (os_call env w) of
         (None, w) \<Rightarrow> (Inr (), w)
       | (Some e, w) \<Rightarrow>
           if io_kind e = AlreadyExists then (Inl (no_replace_conflict create_only (sr_destination staged)), w)
           else if should_fallback_to_hard_link e then
             (case hard_link (sr_temporary staged) (sr_destination staged) (os_call env w) of
                (None, w) \<Rightarrow> (Inr (), remove_file env (sr_temporary staged) w)
              | (Some e, w) \<Rightarrow>
                  if io_kind e = AlreadyExists
                  then (Inl (no_replace_conflict create_only (sr_destination staged)), w)
                  else (Inl (IoFailure e), w))
           else (Inl (IoFailure e), w))"

definition install_replacement ::
  "os_env \<Rightarrow> bool \<Rightarrow> staged_replacement \<Rightarrow> file_state \<Rightarrow> bool \<Rightarrow> unit fs_op" where
  "install_replacement env live staged initial_state create_only =
     attempt (check_cancelled env live) (\<lambda>_.
       if create_only \<or> initial_state = Missing
       then install_without_replacement env live staged create_only
       else (\<lambda>w. case rename_file env True (sr_temporary staged) (sr_destination staged) (os_call env w) of
               (None, w) \<Rightarrow> (Inr (), w)
             | (Some e, w) \<Rightarrow> (Inl (IoFailure e), w)))"

definition atomic_write :: "os_env \<Rightarrow> bool \<Rightarrow> rstr \<Rightarrow> rstr \<Rightarrow> unit fs_op" where
  "atomic_write env live path bytes =
     attempt (file_state env path) (\<lambda>initial_state.
     attempt (stage_replacement env live path bytes) (\<lambda>staged w.
       case install_replacement env live staged initial_state False w of
         (Inl e, w) \<Rightarrow> (Inl e, cleanup env staged w)
       | (Inr _, w) \<Rightarrow> (Inr (), w)))"

subsection \<open>Committing a patch (patch.rs)\<close>

record prepared_file =
  pf_display :: rstr
  pf_path :: rstr
  pf_initial_state :: file_state
  pf_old_bytes :: rstr
  pf_old_hash :: rstr
  pf_new_bytes :: rstr

definition revalidate_prepared :: "os_env \<Rightarrow> bool \<Rightarrow> prepared_file \<Rightarrow> unit fs_op" where
  "revalidate_prepared env live file =
     attempt (file_state env (pf_path file)) (\<lambda>state w.
       if state \<noteq> pf_initial_state file then (Inl (ConcurrentModification (pf_display file)), w)
       else
         (case hash_file env live (pf_path file) w of
            (Inr current, w) \<Rightarrow>
              if current = pf_old_hash file then (Inr (), w)
              else (Inl (ConcurrentModification (pf_display file)), w)
          | (Inl (IoFailure e), w) \<Rightarrow>
              if io_kind e = NotFound then (Inl (ConcurrentModification (pf_display file)), w)
              else (Inl (IoFailure e), w)
          | (Inl e, w) \<Rightarrow> (Inl e, w)))"

text \<open>The staging loop; an unchanged file is skipped.  A staged entry carries its file instead of its index.\<close>

fun stage_loop ::
  "os_env \<Rightarrow> bool \<Rightarrow> prepared_file list \<Rightarrow> (prepared_file \<times> staged_replacement) list \<Rightarrow>
   (prepared_file \<times> staged_replacement) list fs_op" where
  "stage_loop env live [] staged w = (Inr staged, w)"
| "stage_loop env live (file # files) staged w =
     (if pf_old_bytes file = pf_new_bytes file then stage_loop env live files staged w
      else
        (case stage_replacement env live (pf_path file) (pf_new_bytes file) w of
           (Inr replacement, w) \<Rightarrow> stage_loop env live files (staged @ [(file, replacement)]) w
         | (Inl e, w) \<Rightarrow> (Inl e, fold (\<lambda>(_, r). cleanup env r) staged w)))"

definition core_error_display :: "core_error \<Rightarrow> rstr" where
  "core_error_display e = (case e of
     InvalidInput operation message \<Rightarrow> ''invalid input for '' @ operation @ '': '' @ message
   | PathEscape path \<Rightarrow> ''path escapes workspace: '' @ path
   | LimitExceeded operation limit \<Rightarrow> operation @ '' exceeded limit of '' @ nat_to_decimal limit @ '' bytes''
   | PermissionRequired operation class \<Rightarrow> ''permission required for '' @ operation @ '': '' @ class
   | PermissionDenied operation reason \<Rightarrow> ''permission denied for '' @ operation @ '': '' @ reason
   | ResourceLimit resource limit \<Rightarrow> resource @ '' limit reached ('' @ nat_to_decimal limit @ '')''
   | Cancelled \<Rightarrow> ''operation cancelled''
   | Unsupported operation \<Rightarrow> ''unsupported: '' @ operation
   | FeatureUnavailable feature \<Rightarrow> ''feature unavailable: '' @ feature
   | IoError operation message \<Rightarrow> operation @ '' failed: '' @ message
   | Serialization operation message \<Rightarrow> ''serialization failed for '' @ operation @ '': '' @ message)"

definition error_display :: "os_env \<Rightarrow> tool_internal_error \<Rightarrow> rstr" where
  "error_display env e = (case e of
     CoreFailure c \<Rightarrow> core_error_display c
   | IoFailure i \<Rightarrow> ''I/O operation failed: '' @ io_text i
   | InputFailure m \<Rightarrow> ''invalid input: '' @ m
   | PatternFailure m \<Rightarrow> ''invalid pattern: '' @ m
   | TimeoutFailure \<Rightarrow> ''operation timed out''
   | DestinationExists path \<Rightarrow> ''destination already exists: '' @ path
   | ConcurrentModification path \<Rightarrow> ''concurrent modification detected: '' @ path
   | ProcessTerminationFailed i m \<Rightarrow>
       ''process '' @ nat_to_decimal (unat i) @ '' termination failed: '' @ m
   | RollbackFailed commit results \<Rightarrow>
       ''HIGH-SEVERITY rollback incomplete after commit error: '' @ commit @ ''; results: '' @ os_debug env results)"

fun rollback_loop :: "os_env \<Rightarrow> (rstr \<times> rstr) list \<Rightarrow> file_system \<Rightarrow> rstr list \<times> file_system" where
  "rollback_loop env [] w = ([], w)"
| "rollback_loop env ((path, bytes) # rest) w =
     (case atomic_write env False path bytes w of
        (Inr _, w) \<Rightarrow> (let (results, w) = rollback_loop env rest w in ((path @ '': restored'') # results, w))
      | (Inl e, w) \<Rightarrow>
          (let (results, w) = rollback_loop env rest w
           in ((path @ '': rollback failed: '' @ error_display env e) # results, w)))"

definition finish_commit_failure ::
  "os_env \<Rightarrow> tool_internal_error \<Rightarrow> (rstr \<times> rstr) list \<Rightarrow> unit fs_op" where
  "finish_commit_failure env commit_error applied w =
     (let (results, w) = rollback_loop env (rev applied) w
      in if list_all (\<lambda>result. ends_with result '': restored'') results then (Inl commit_error, w)
         else (Inl (RollbackFailed (error_display env commit_error) results), w))"

text \<open>The commit loop over the staged files not yet installed; \<open>staged\<close> are all of them.\<close>

fun commit_loop ::
  "os_env \<Rightarrow> bool \<Rightarrow> (prepared_file \<times> staged_replacement) list \<Rightarrow>
   (prepared_file \<times> staged_replacement) list \<Rightarrow> (rstr \<times> rstr) list \<Rightarrow> unit fs_op" where
  "commit_loop env live staged [] applied w = (Inr (), w)"
| "commit_loop env live staged ((file, replacement) # rest) applied w =
     (case attempt (revalidate_prepared env live file)
             (\<lambda>_. install_replacement env live replacement (pf_initial_state file) False) w of
        (Inr _, w) \<Rightarrow>
          commit_loop env live staged rest (applied @ [(pf_path file, pf_old_bytes file)])
            (cleanup env replacement w)
      | (Inl e, w) \<Rightarrow>
          finish_commit_failure env e applied (fold (\<lambda>(_, r). cleanup env r) staged w))"

definition commit_prepared :: "os_env \<Rightarrow> bool \<Rightarrow> prepared_file list \<Rightarrow> unit fs_op" where
  "commit_prepared env live prepared =
     attempt (stage_loop env live prepared []) (\<lambda>staged. commit_loop env live staged staged [])"

end
