(* ===== verification/Commit_Facts.thy ===== *)
theory Commit_Facts
  imports File_Commit
begin

section \<open>What the file operations leave behind\<close>

text \<open>
  The facts assume an \<open>honest\<close> operating system: nobody else writes to the workspace meanwhile, and
  a call that fails for a reason of its own reports neither a missing nor an existing file.  Calls
  may still fail at any point.
\<close>

definition honest :: "os_env \<Rightarrow> bool" where
  "honest env \<longleftrightarrow> (\<forall>n f. os_outside env n f = f)
     \<and> (\<forall>n e. os_fault env n = Some e \<longrightarrow>
          io_kind e \<noteq> NotFound \<and> io_kind e \<noteq> AlreadyExists \<and> \<not> ends_with (io_text e) ''restored'')"

definition contents :: "file_system \<Rightarrow> rstr \<Rightarrow> rstr option" where
  "contents w p = map_option fn_bytes (fs_files w p)"

text \<open>An error that a rollback reports without seeming to have succeeded.\<close>

definition plain_error :: "tool_internal_error \<Rightarrow> bool" where
  "plain_error e \<longleftrightarrow> (\<exists>i. e = IoFailure i \<and> \<not> ends_with (io_text i) ''restored'')
     \<or> e = InputFailure ''write exceeds the bounded input limit''"

lemma attempt_eq:
  "attempt m f w = (Inr x, w') \<longleftrightarrow> (\<exists>y v. m w = (Inr y, v) \<and> f y v = (Inr x, w'))"
  "attempt m f w = (Inl e, w') \<longleftrightarrow> m w = (Inl e, w') \<or> (\<exists>y v. m w = (Inr y, v) \<and> f y v = (Inl e, w'))"
  by (auto simp: attempt_def split: sum.splits prod.splits)

lemma pass_eq [simp]: "pass x w = (r, w') \<longleftrightarrow> r = Inr x \<and> w' = w"
  by (auto simp: pass_def)

lemma fail_eq [simp]: "fail e w = (r, w') \<longleftrightarrow> r = Inl e \<and> w' = w"
  by (auto simp: fail_def)

lemma os_call_honest:
  assumes "honest env" and "os_call env w = (fault, w')"
  shows "fs_files w' = fs_files w"
    "fault = Some e \<Longrightarrow> io_kind e \<noteq> NotFound \<and> io_kind e \<noteq> AlreadyExists \<and> \<not> ends_with (io_text e) ''restored''"
  using assms by (auto simp: os_call_def honest_def)

lemma check_cancelled_keeps:
  "check_cancelled env live w = (r, w') \<Longrightarrow> fs_files w' = fs_files w \<and> (live \<or> r = Inr ())"
  by (auto simp: check_cancelled_def split: if_splits)

lemma simple_call_keeps:
  assumes "honest env" and "simple_call env w = (r, w')"
  shows "fs_files w' = fs_files w \<and> (\<forall>e. r = Inl e \<longrightarrow> plain_error e)"
proof (cases "os_call env w")
  case (Pair fault v)
  then show ?thesis
    using assms os_call_honest [OF assms(1) Pair]
    by (auto simp: simple_call_def plain_error_def split: option.splits)
qed

lemma look_up_keeps:
  assumes "honest env" and "look_up env p w = (r, w')"
  shows "fs_files w' = fs_files w \<and> (case r of Inr node \<Rightarrow> fs_files w p = Some node
    | Inl e \<Rightarrow> plain_error e \<and> (\<exists>i. e = IoFailure i \<and> (io_kind i = NotFound \<longrightarrow> fs_files w p = None)))"
proof (cases "os_call env w")
  case (Pair fault v)
  have "\<not> ends_with (io_text not_found) ''restored''" "io_kind not_found = NotFound"
    by (simp_all add: not_found_def ends_with_def)
  then show ?thesis
    using assms os_call_honest [OF assms(1) Pair] Pair
    by (auto simp: look_up_def plain_error_def split: option.splits)
qed

lemma file_state_keeps:
  assumes "honest env" and "file_state env p w = (r, w')"
  shows "fs_files w' = fs_files w \<and> (case r of Inr s \<Rightarrow> fs_files w p \<noteq> None \<longrightarrow> s \<noteq> Missing | Inl e \<Rightarrow> plain_error e)"
proof (cases "look_up env p w")
  case (Pair s v)
  then show ?thesis
    using assms look_up_keeps [OF assms(1) Pair]
    by (auto simp: file_state_def node_state_def split: sum.splits tool_internal_error.splits if_splits)
qed

lemma hash_loop_keeps: "honest env \<Longrightarrow> hash_loop env live bytes n w = (r, w') \<Longrightarrow> fs_files w' = fs_files w"
proof (induction env live bytes n w rule: hash_loop.induct)
  case (1 env live bytes n w)
  obtain q v where q: "attempt (check_cancelled env live) (\<lambda>_. simple_call env) w = (q, v)" by fastforce
  then have v: "fs_files v = fs_files w"
    using 1(2) by (cases q) (auto simp: attempt_eq dest!: check_cancelled_keeps simple_call_keeps [rotated])
  show ?case
  proof (cases q)
    case (Inl e)
    then show ?thesis using 1(3) q v by (simp add: hash_loop.simps [of env live bytes])
  next
    case (Inr u)
    then show ?thesis
      using 1(3) q v 1(1) [OF q [symmetric] Inr] 1(2)
      by (auto simp: hash_loop.simps [of env live bytes] split: if_splits)
  qed
qed

lemma hash_file_keeps: "honest env \<Longrightarrow> hash_file env live p w = (r, w') \<Longrightarrow> fs_files w' = fs_files w"
  by (cases r) (auto simp: hash_file_def attempt_eq dest!: look_up_keeps [rotated] hash_loop_keeps [rotated])

lemma metadata_keeps:
  assumes "honest env" and "metadata_permissions env p w = (r, w')"
  shows "fs_files w' = fs_files w \<and> (\<forall>e. r = Inl e \<longrightarrow> plain_error e)"
proof (cases "look_up env p w")
  case (Pair s v)
  then show ?thesis
    using assms look_up_keeps [OF assms(1) Pair]
    by (auto simp: metadata_permissions_def split: sum.splits tool_internal_error.splits if_splits)
qed

lemma revalidate_keeps:
  assumes "honest env" and "revalidate_prepared env live f w = (r, w')"
  shows "fs_files w' = fs_files w"
proof (cases "file_state env (pf_path f) w")
  case (Pair s v)
  obtain h u where h: "hash_file env live (pf_path f) v = (h, u)" by fastforce
  show ?thesis
    using assms Pair h file_state_keeps [OF assms(1) Pair] hash_file_keeps [OF assms(1) h]
    by (auto simp: revalidate_prepared_def attempt_def split: sum.splits tool_internal_error.splits if_splits)
qed

lemma remove_file_keeps:
  assumes "honest env"
  shows "fs_files (remove_file env p w) = fs_files w \<or> fs_files (remove_file env p w) = (fs_files w)(p := None)"
proof (cases "os_call env w")
  case (Pair fault v)
  then show ?thesis using os_call_honest [OF assms Pair] by (auto simp: remove_file_def split: option.split)
qed

lemma remove_file_other: "honest env \<Longrightarrow> p \<noteq> q \<Longrightarrow> fs_files (remove_file env p w) q = fs_files w q"
  using remove_file_keeps [of env p w] by auto

subsection \<open>Staging\<close>

lemma new_node: "\<exists>node. fn_bytes node = bytes
    \<and> f(t \<mapsto> \<lparr>fn_bytes = bytes, fn_modified = m, fn_symlink = l\<rparr>) = f(t \<mapsto> node)"
  by (rule exI [of _ "\<lparr>fn_bytes = bytes, fn_modified = m, fn_symlink = l\<rparr>"]) simp

lemma same_node: "f t = Some n \<Longrightarrow> \<exists>n'. f = f(t \<mapsto> n')"
  by (metis fun_upd_triv)

lemma open_temporary_fresh:
  assumes "honest env" and "open_temporary env n p w = (r, w')"
  shows "case r of Inr t \<Rightarrow> fs_files w t = None \<and> (\<exists>node. fn_bytes node = [] \<and> fs_files w' = (fs_files w)(t \<mapsto> node))
    | Inl e \<Rightarrow> fs_files w' = fs_files w \<and> plain_error e"
  using assms(2)
proof (induction n arbitrary: w)
  case 0
  then show ?case by (auto simp: plain_error_def ends_with_def)
next
  case (Suc n)
  let ?w = "w\<lparr>fs_next_temp := fs_next_temp w + 1\<rparr>"
  obtain fault v where c: "os_call env ?w = (fault, v)" by fastforce
  have v: "fs_files v = fs_files w" using os_call_honest(1) [OF assms(1) c] by simp
  show ?case
    using Suc.prems Suc.IH [of v] c v os_call_honest(2) [OF assms(1) c]
    by (auto simp: Let_def plain_error_def new_node split: option.splits if_splits sum.splits)
qed

lemma write_chunks_fills:
  "honest env \<Longrightarrow> write_chunks env live t bytes w = (r, w') \<Longrightarrow> fs_files w t = Some node \<Longrightarrow>
   \<exists>node'. fs_files w' = (fs_files w)(t \<mapsto> node') \<and> (case r of Inr _ \<Rightarrow> fn_bytes node' = fn_bytes node @ bytes
     | Inl e \<Rightarrow> live \<or> plain_error e)"
proof (induction env live t bytes w arbitrary: node rule: write_chunks.induct)
  case (1 env live t bytes w)
  show ?case
  proof (cases "bytes = []")
    case True
    then have "r = Inr ()" "w' = w" using 1(3) by (simp_all add: write_chunks.simps [of env live t "[]"])
    then show ?thesis using 1(4) True by (intro exI [of _ node]) (simp add: fun_upd_idem)
  next
    case False
    obtain q v where q: "attempt (check_cancelled env live) (\<lambda>_. write_chunk env t (take (64 * 1024) bytes)) w = (q, v)"
      by fastforce
    have step: "\<exists>node'. fs_files v = (fs_files w)(t \<mapsto> node')
        \<and> (case q of Inr _ \<Rightarrow> fn_bytes node' = fn_bytes node @ take (64 * 1024) bytes | Inl e \<Rightarrow> live \<or> plain_error e)"
    proof -
      obtain c u where c: "check_cancelled env live w = (c, u)" by fastforce
      obtain fault x where x: "os_call env u = (fault, x)" by fastforce
      show ?thesis
        using q c x check_cancelled_keeps [OF c] os_call_honest [OF 1(2) x] 1(4)
        by (cases c; cases fault) (auto simp: attempt_def write_chunk_def plain_error_def same_node)
    qed
    show ?thesis
    proof (cases q)
      case (Inl e)
      then show ?thesis using 1(3) q step False by (auto simp: write_chunks.simps [of env live t bytes])
    next
      case (Inr u)
      then obtain node1 where n1: "fs_files v = (fs_files w)(t \<mapsto> node1)"
        "fn_bytes node1 = fn_bytes node @ take (64 * 1024) bytes" using step by auto
      have "write_chunks env live t (drop (64 * 1024) bytes) v = (r, w')"
        using 1(3) q Inr False by (simp add: write_chunks.simps [of env live t bytes])
      moreover have "fs_files v t = Some node1" using n1(1) by simp
      ultimately obtain node' where "fs_files w' = (fs_files v)(t \<mapsto> node')"
        "case r of Inr _ \<Rightarrow> fn_bytes node' = fn_bytes node1 @ drop (64 * 1024) bytes
          | Inl e \<Rightarrow> live \<or> plain_error e" using 1(1) [OF False q [symmetric] Inr 1(2)] by blast
      then show ?thesis using n1 by (intro exI [of _ node']) (auto split: sum.splits)
    qed
  qed
qed

lemma fill_temporary_fills:
  assumes h: "honest env" and f: "fill_temporary env live perms p t bytes w = (r, w')"
    and node: "fs_files w t = Some node"
  shows "\<exists>node'. fs_files w' = (fs_files w)(t \<mapsto> node') \<and> (case r of
      Inr s \<Rightarrow> fn_bytes node' = fn_bytes node @ bytes \<and> s = \<lparr>sr_destination = p, sr_temporary = t\<rparr>
    | Inl e \<Rightarrow> live \<or> plain_error e)"
proof -
  obtain q v where q: "write_chunks env live t bytes w = (q, v)" by fastforce
  note fill = write_chunks_fills [OF h q node]
  have rest: "fs_files w' = fs_files v \<and> (case r of Inr s \<Rightarrow> s = \<lparr>sr_destination = p, sr_temporary = t\<rparr>
      | Inl e \<Rightarrow> live \<or> plain_error e)" if "q = Inr u" for u
    using f that q
    by (cases r; cases perms)
      (auto simp: fill_temporary_def attempt_eq dest!: simple_call_keeps [OF h] check_cancelled_keeps)
  show ?thesis
  proof (cases q)
    case (Inl e)
    then show ?thesis using f q fill by (auto simp: fill_temporary_def attempt_def)
  next
    case (Inr u)
    then show ?thesis using fill rest [OF Inr] by (auto split: sum.splits)
  qed
qed

lemma stage_fresh:
  assumes h: "honest env" and s: "stage_replacement env live p bytes w = (r, w')"
  shows "case r of
      Inr s \<Rightarrow> sr_destination s = p \<and> fs_files w (sr_temporary s) = None
        \<and> (\<exists>node. fn_bytes node = bytes \<and> fs_files w' = (fs_files w)(sr_temporary s \<mapsto> node))
    | Inl e \<Rightarrow> (\<forall>q. fs_files w q \<noteq> None \<longrightarrow> fs_files w' q = fs_files w q) \<and> (live \<or> plain_error e)"
proof (cases "MAX_INPUT_BYTES < length bytes")
  case True
  then show ?thesis using s by (auto simp: stage_replacement_def plain_error_def)
next
  case False
  obtain c u where c: "check_cancelled env live w = (c, u)" by fastforce
  obtain m x where m: "metadata_permissions env p u = (m, x)" by fastforce
  obtain t y where t: "open_temporary env 32 p x = (t, y)" by fastforce
  note keep = check_cancelled_keeps [OF c] metadata_keeps [OF h m] open_temporary_fresh [OF h t]
  consider (early) e where "c = Inl e \<or> c = Inr () \<and> m = Inl e \<or> c = Inr () \<and> (\<exists>b. m = Inr b) \<and> t = Inl e"
    | (go) b tmp where "c = Inr ()" "m = Inr b" "t = Inr tmp"
    by (cases c; cases m; cases t) auto
  then show ?thesis
  proof cases
    case early
    then show ?thesis using s False c m t keep by (auto simp: stage_replacement_def attempt_def)
  next
    case go
    obtain node where node: "fs_files x tmp = None" "fn_bytes node = []" "fs_files y = (fs_files x)(tmp \<mapsto> node)"
      using keep(3) go by auto
    obtain f z where f: "fill_temporary env live b p tmp bytes y = (f, z)" by fastforce
    have "fs_files y tmp = Some node" using node by simp
    from fill_temporary_fills [OF h f this, unfolded node(2) append_Nil] obtain node' where node': "fs_files z = (fs_files y)(tmp \<mapsto> node')"
      "case f of Inr s \<Rightarrow> fn_bytes node' = bytes \<and> s = \<lparr>sr_destination = p, sr_temporary = tmp\<rparr>
       | Inl e \<Rightarrow> live \<or> plain_error e" by blast
    have x: "fs_files x = fs_files w" using keep(1,2) by simp
    have res: "(r, w') = (case (f, z) of (Inl e, w) \<Rightarrow> (Inl e, remove_file env tmp w) | (Inr staged, w) \<Rightarrow> (Inr staged, w))"
      using s False c m t go f by (simp add: stage_replacement_def attempt_def)
    show ?thesis
    proof (cases f)
      case (Inl e)
      have "fs_files w' q = fs_files w q" if "fs_files w q \<noteq> None" for q
      proof -
        have "tmp \<noteq> q" using that node(1) x by auto
        then show ?thesis using that Inl res node node' x remove_file_other [OF h, of tmp q z] by auto
      qed
      then show ?thesis using Inl res node'(2) by auto
    next
      case (Inr s')
      then show ?thesis using res node node' x by auto
    qed
  qed
qed

subsection \<open>Installing\<close>

lemma install_replaces:
  assumes h: "honest env" and i: "install_replacement env live s st False w = (r, w')"
    and "st \<noteq> Missing" and "fs_files w (sr_temporary s) = Some node" and "sr_temporary s \<noteq> sr_destination s"
  shows "case r of Inr _ \<Rightarrow> fs_files w' = (fs_files w)(sr_temporary s := None, sr_destination s \<mapsto> node)
    | Inl e \<Rightarrow> fs_files w' = fs_files w \<and> (live \<or> plain_error e)"
proof -
  obtain c u where c: "check_cancelled env live w = (c, u)" by fastforce
  obtain fault x where x: "os_call env u = (fault, x)" by fastforce
  show ?thesis
    using i c x check_cancelled_keeps [OF c] os_call_honest [OF h x] assms(3-5)
    by (cases c; cases fault) (auto simp: install_replacement_def attempt_def rename_file_def plain_error_def)
qed

lemma atomic_write_replaces:
  assumes h: "honest env" and a: "atomic_write env live p bytes w = (r, w')" and old: "fs_files w p \<noteq> None"
  shows "(\<forall>q. fs_files w q \<noteq> None \<and> (q \<noteq> p \<or> (\<exists>e. r = Inl e)) \<longrightarrow> fs_files w' q = fs_files w q)
    \<and> (case r of Inr _ \<Rightarrow> contents w' p = Some bytes | Inl e \<Rightarrow> live \<or> plain_error e)"
proof -
  obtain st v where st: "file_state env p w = (st, v)" by fastforce
  note v = file_state_keeps [OF h st]
  show ?thesis
  proof (cases st)
    case (Inl e)
    then show ?thesis using a st v by (auto simp: atomic_write_def attempt_def)
  next
    case (Inr state)
    obtain sg u where sg: "stage_replacement env live p bytes v = (sg, u)" by fastforce
    note u = stage_fresh [OF h sg]
    show ?thesis
    proof (cases sg)
      case (Inl e)
      then show ?thesis using a st v Inr sg u by (auto simp: atomic_write_def attempt_def)
    next
      case (Inr s)
      then obtain node where s: "sr_destination s = p" "fs_files v (sr_temporary s) = None" "fn_bytes node = bytes"
        "fs_files u = (fs_files v)(sr_temporary s \<mapsto> node)" using u by auto
      have ne: "sr_temporary s \<noteq> p" using s(2) old v by auto
      obtain q x where q: "install_replacement env live s state False u = (q, x)" by fastforce
      have "state \<noteq> Missing" using v \<open>st = Inr state\<close> old by simp
      note ins = install_replaces [OF h q this, of node]
      have res: "(r, w') = (case (q, x) of (Inl e, w) \<Rightarrow> (Inl e, cleanup env s w) | (Inr _, w) \<Rightarrow> (Inr (), w))"
        using a st \<open>st = Inr state\<close> sg Inr q by (simp add: atomic_write_def attempt_def)
      show ?thesis
      proof (cases q)
        case (Inl e)
        have "fs_files w' y = fs_files w y" if "fs_files w y \<noteq> None" for y
        proof -
          have "y \<noteq> sr_temporary s" using that s(2) v by auto
          then show ?thesis
            using that Inl res ins ne s v remove_file_other [OF h, of "sr_temporary s" y x] by (auto simp: cleanup_def)
        qed
        then show ?thesis using Inl res ins ne s by auto
      next
        case (Inr _)
        then show ?thesis using res ins ne s v by (auto simp: contents_def)
      qed
    qed
  qed
qed

subsection \<open>Rolling back\<close>

lemma ends_with_suffix: "ends_with s p = suffix p s"
proof
  assume "ends_with s p"
  then have "s = take (length s - length p) s @ p" by (metis append_take_drop_id ends_with_def)
  then show "suffix p s" unfolding suffix_def by blast
qed (auto simp: ends_with_def suffix_def)

lemma suffix_word:
  assumes "suffix word (ys @ [CHR '' ''] @ t)" and "CHR '' '' \<notin> set word"
  shows "suffix word t"
proof -
  obtain zs where z: "ys @ [CHR '' ''] @ t = zs @ word" using assms(1) by (auto simp: suffix_def)
  show ?thesis
  proof (cases "length zs \<le> length ys")
    case True
    then have "CHR '' '' \<in> set word" using z by (auto simp: append_eq_append_conv2)
    then show ?thesis using assms(2) by simp
  next
    case False
    then obtain us where "zs = ys @ [CHR '' ''] @ us" "t = us @ word"
      using z by (auto simp: append_eq_append_conv2 Cons_eq_append_conv)
    then show ?thesis by (simp add: suffix_def)
  qed
qed

lemma rollback_text:
  assumes "plain_error e"
  shows "\<not> ends_with (path @ '': rollback failed: '' @ error_display env e) '': restored''"
proof
  assume "ends_with (path @ '': rollback failed: '' @ error_display env e) '': restored''"
  then have "suffix '': restored'' (path @ '': rollback failed: '' @ error_display env e)"
    by (simp only: ends_with_suffix)
  moreover have "suffix ''restored'' '': restored''" by (simp add: suffix_def)
  ultimately have "suffix ''restored'' ((path @ '': rollback failed:'') @ [CHR '' ''] @ error_display env e)"
    by (auto intro: suffix_order.trans)
  then have d: "suffix ''restored'' (error_display env e)" by (rule suffix_word) simp
  from assms consider i where "e = IoFailure i" "\<not> ends_with (io_text i) ''restored''"
    | "e = InputFailure ''write exceeds the bounded input limit''" by (auto simp: plain_error_def)
  then show False
  proof cases
    case 1
    then have "suffix ''restored'' (''I/O operation failed:'' @ [CHR '' ''] @ io_text i)"
      using d by (simp add: error_display_def)
    then have "suffix ''restored'' (io_text i)" by (rule suffix_word) simp
    then show ?thesis using 1 by (simp add: ends_with_suffix)
  next
    case 2
    then have "ends_with ''invalid input: write exceeds the bounded input limit'' ''restored''"
      using d by (simp add: error_display_def ends_with_suffix)
    then show ?thesis by (simp add: ends_with_def)
  qed
qed

lemma contents_None: "contents w p = None \<longleftrightarrow> fs_files w p = None"
  by (simp add: contents_def)

lemma rollback_restores:
  assumes h: "honest env"
  shows "rollback_loop env as w = (results, w') \<Longrightarrow> distinct (map fst as) \<Longrightarrow>
    (\<And>p. p \<in> fst ` set as \<Longrightarrow> contents w p \<noteq> None) \<Longrightarrow>
    (\<forall>q. contents w q \<noteq> None \<and> q \<notin> fst ` set as \<longrightarrow> contents w' q = contents w q)
    \<and> (\<forall>(p, b)\<in>set as. contents w' p = contents w p \<or> contents w' p = Some b)
    \<and> (list_all (\<lambda>result. ends_with result '': restored'') results \<longrightarrow> (\<forall>(p, b)\<in>set as. contents w' p = Some b))"
proof (induction "as" arbitrary: w w' results)
  case (Cons a "as")
  obtain p b where a: "a = (p, b)" by fastforce
  obtain r v where v: "atomic_write env False p b w = (r, v)" by fastforce
  obtain results1 w1 where rest: "rollback_loop env as v = (results1, w1)" by fastforce
  have "fs_files w p \<noteq> None" using Cons.prems(3) [of p] a by (simp add: contents_None)
  note step = atomic_write_replaces [OF h v this]
  have same: "contents v q = contents w q" if "contents w q \<noteq> None" "q \<noteq> p" for q
    using step that by (simp add: contents_def)
  have w': "w' = w1" "(\<exists>u. r = Inr u) \<longrightarrow> results = (p @ '': restored'') # results1"
    "\<forall>e. r = Inl e \<longrightarrow> results = (p @ '': rollback failed: '' @ error_display env e) # results1"
    using Cons.prems(1) a v rest by (cases r; auto)+
  have ne: "contents v q \<noteq> None" if m: "q \<in> fst ` set as" for q
  proof -
    have "q \<noteq> p" using m Cons.prems(2) a by auto
    then show ?thesis using same [of q] Cons.prems(3) [of q] m a by simp
  qed
  have d: "distinct (map fst as)" "p \<notin> fst ` set as" using Cons.prems(2) a by auto
  have IH: "(\<forall>q. contents v q \<noteq> None \<and> q \<notin> fst ` set as \<longrightarrow> contents w1 q = contents v q)
    \<and> (\<forall>(p, b)\<in>set as. contents w1 p = contents v p \<or> contents w1 p = Some b)
    \<and> (list_all (\<lambda>result. ends_with result '': restored'') results1 \<longrightarrow> (\<forall>(p, b)\<in>set as. contents w1 p = Some b))"
    by (rule Cons.IH [OF rest d(1)]) (rule ne)
  have p: "contents v p \<noteq> None" "(\<exists>u. r = Inr u) \<Longrightarrow> contents v p = Some b"
    "\<not> (\<exists>u. r = Inr u) \<Longrightarrow> contents v p = contents w p"
    using step \<open>fs_files w p \<noteq> None\<close> by (cases r; auto simp: contents_def)+
  have keep: "contents w' q = contents v q" if "contents v q \<noteq> None" "q \<notin> fst ` set as" for q
    using IH w'(1) that by simp
  have each1: "contents w' q = contents v q \<or> contents w' q = Some c" if "(q, c) \<in> set as" for q c
    using IH w'(1) that by (auto dest!: conjunct2 [THEN conjunct1])
  have all1: "contents w' q = Some c"
    if "list_all (\<lambda>result. ends_with result '': restored'') results1" "(q, c) \<in> set as" for q c
    using IH w'(1) that by (auto dest!: conjunct2 [THEN conjunct2])
  have q: "contents w' p = contents v p" using keep d p(1) by blast
  have pw: "contents v p = contents w p \<or> contents v p = Some b" using p(2,3) by blast
  have others: "contents w' x = contents w x" if "contents w x \<noteq> None" "x \<notin> fst ` set (a # as)" for x
  proof -
    have "x \<noteq> p" "x \<notin> fst ` set as" using that(2) a by auto
    with same [OF that(1)] keep [of x] that(1) show ?thesis by simp
  qed
  have each: "contents w' x = contents w x \<or> contents w' x = Some c" if "(x, c) \<in> set (a # as)" for x c
  proof (cases "(x, c) \<in> set as")
    case False
    then have "x = p" "c = b" using that a by auto
    then show ?thesis using q pw by simp
  next
    case True
    then have "x \<noteq> p" using d(2) by force
    moreover have "contents w x \<noteq> None" using Cons.prems(3) [of x] that by force
    ultimately show ?thesis using each1 [OF True] same [of x] by simp
  qed
  have all: "contents w' x = Some c"
    if ok: "list_all (\<lambda>result. ends_with result '': restored'') results" and m: "(x, c) \<in> set (a # as)" for x c
  proof -
    have r: "\<exists>u. r = Inr u"
    proof (rule ccontr)
      assume "\<not> ?thesis"
      then obtain e where e: "r = Inl e" by (cases r) auto
      then have "plain_error e" using step by simp
      from rollback_text [OF this] show False using ok w'(3) e by auto
    qed
    then have ok1: "list_all (\<lambda>result. ends_with result '': restored'') results1" using ok w'(2) by auto
    show ?thesis
    proof (cases "(x, c) \<in> set as")
      case False
      then have "x = p" "c = b" using m a by auto
      then show ?thesis using q p(2) r by simp
    qed (rule all1 [OF ok1])
  qed
  show ?case using others each all by blast
qed simp

subsection \<open>Committing\<close>

text \<open>Every file that existed is as it was.\<close>

definition files_kept :: "file_system \<Rightarrow> file_system \<Rightarrow> bool" where
  "files_kept w0 w \<longleftrightarrow> (\<forall>q. fs_files w0 q \<noteq> None \<longrightarrow> fs_files w q = fs_files w0 q)"

text \<open>The replacement waits in a new file.\<close>

definition waiting :: "file_system \<Rightarrow> file_system \<Rightarrow> prepared_file \<times> staged_replacement \<Rightarrow> bool" where
  "waiting w0 w = (\<lambda>(f, s). sr_destination s = pf_path f \<and> fs_files w0 (sr_temporary s) = None
     \<and> contents w (sr_temporary s) = Some (pf_new_bytes f))"

lemma cleanup_other: "honest env \<Longrightarrow> sr_temporary s \<noteq> q \<Longrightarrow> fs_files (cleanup env s w) q = fs_files w q"
  by (simp add: cleanup_def remove_file_other)

lemma cleanup_all_other:
  "honest env \<Longrightarrow> q \<notin> (sr_temporary \<circ> snd) ` set staged \<Longrightarrow>
   fs_files (fold (\<lambda>(_, s). cleanup env s) staged w) q = fs_files w q"
  by (induction staged arbitrary: w) (auto simp: cleanup_other)

lemma stage_loop_waits:
  assumes h: "honest env"
  shows "stage_loop env live files staged w = (r, w') \<Longrightarrow> files_kept w0 w \<Longrightarrow> list_all (waiting w0 w) staged \<Longrightarrow>
    distinct (map (sr_temporary \<circ> snd) staged) \<Longrightarrow>
    files_kept w0 w' \<and> (case r of Inl _ \<Rightarrow> True | Inr staged' \<Rightarrow>
      map fst staged' = map fst staged @ filter (\<lambda>f. pf_old_bytes f \<noteq> pf_new_bytes f) files
      \<and> list_all (waiting w0 w') staged' \<and> distinct (map (sr_temporary \<circ> snd) staged'))"
proof (induction files arbitrary: staged w)
  case Nil
  then show ?case by (auto simp: comp_def)
next
  case (Cons f files)
  show ?case
  proof (cases "pf_old_bytes f = pf_new_bytes f")
    case True
    then show ?thesis using Cons.prems Cons.IH [of staged w] by (cases r) (auto simp: comp_def)
  next
    case False
    obtain q v where q: "stage_replacement env live (pf_path f) (pf_new_bytes f) w = (q, v)" by fastforce
    note fresh = stage_fresh [OF h q]
    show ?thesis
    proof (cases q)
      case (Inl e)
      have w': "r = Inl e" "w' = fold (\<lambda>(_, s). cleanup env s) staged v"
        using Cons.prems(1) False q Inl by auto
      have "fs_files w' y = fs_files w0 y" if "fs_files w0 y \<noteq> None" for y
      proof -
        have "y \<notin> (sr_temporary \<circ> snd) ` set staged"
          using that Cons.prems(3) by (auto simp: list_all_iff waiting_def)
        then have "fs_files w' y = fs_files v y" using w'(2) cleanup_all_other [OF h] by simp
        also have "\<dots> = fs_files w y" using fresh Inl that Cons.prems(2) by (auto simp: files_kept_def)
        finally show ?thesis using that Cons.prems(2) by (simp add: files_kept_def)
      qed
      then show ?thesis using w'(1) by (simp add: files_kept_def)
    next
      case (Inr s)
      obtain node where s: "sr_destination s = pf_path f" "fs_files w (sr_temporary s) = None"
        "fn_bytes node = pf_new_bytes f" "fs_files v = (fs_files w)(sr_temporary s \<mapsto> node)"
        using fresh Inr by auto
      have none: "fs_files w0 (sr_temporary s) = None"
        using s(2) Cons.prems(2) unfolding files_kept_def by metis
      have new: "sr_temporary s \<notin> (sr_temporary \<circ> snd) ` set staged"
      proof
        assume "sr_temporary s \<in> (sr_temporary \<circ> snd) ` set staged"
        then obtain g t where "(g, t) \<in> set staged" "sr_temporary s = sr_temporary t" by auto
        then have "contents w (sr_temporary s) = Some (pf_new_bytes g)"
          using Cons.prems(3) by (auto simp: list_all_iff waiting_def)
        then show False using s(2) by (simp add: contents_def)
      qed
      have "files_kept w0 v" using Cons.prems(2) none s(4) by (auto simp: files_kept_def)
      moreover have "list_all (waiting w0 v) (staged @ [(f, s)])"
        using Cons.prems(3) s none by (auto simp: list_all_iff waiting_def contents_def)
      moreover have "distinct (map (sr_temporary \<circ> snd) (staged @ [(f, s)]))" using Cons.prems(4) new by (simp add: comp_def)
      ultimately show ?thesis
        using Cons.IH [of "staged @ [(f, s)]" v] Cons.prems(1) False q Inr by (cases r) (auto simp: comp_def)
    qed
  qed
qed

text \<open>Prepared against the files of \<open>w0\<close>.\<close>

definition prepared_for :: "file_system \<Rightarrow> prepared_file \<Rightarrow> bool" where
  "prepared_for w0 f \<longleftrightarrow> contents w0 (pf_path f) = Some (pf_old_bytes f) \<and> pf_initial_state f \<noteq> Missing"

text \<open>The files in \<open>fs\<close> are replaced, all others are as in \<open>w0\<close>.\<close>

definition replaced :: "file_system \<Rightarrow> prepared_file list \<Rightarrow> file_system \<Rightarrow> bool" where
  "replaced w0 fs w \<longleftrightarrow> (\<forall>f\<in>set fs. contents w (pf_path f) = Some (pf_new_bytes f))
     \<and> (\<forall>q. contents w0 q \<noteq> None \<and> q \<notin> pf_path ` set fs \<longrightarrow> contents w q = contents w0 q)"

text \<open>Either all files are restored, or the failure says so and every file is old or new.\<close>

definition rolled_back :: "file_system \<Rightarrow> prepared_file list \<Rightarrow> tool_internal_error \<Rightarrow> file_system \<Rightarrow> bool" where
  "rolled_back w0 fs e w \<longleftrightarrow> replaced w0 [] w
     \<or> (\<exists>c results. e = RollbackFailed c results)
       \<and> (\<forall>q. contents w0 q \<noteq> None \<longrightarrow> contents w q = contents w0 q
             \<or> (\<exists>f\<in>set fs. pf_path f = q \<and> contents w q = Some (pf_new_bytes f)))"

lemma finish_rolls_back:
  assumes h: "honest env" and rep: "replaced w0 fs w" and pre: "list_all (prepared_for w0) fs"
    and d: "distinct (map pf_path fs)"
    and fin: "finish_commit_failure env e (map (\<lambda>f. (pf_path f, pf_old_bytes f)) fs) w = (r, w')"
  shows "\<exists>e'. r = Inl e' \<and> rolled_back w0 fs e' w'"
proof -
  let ?as = "rev (map (\<lambda>f. (pf_path f, pf_old_bytes f)) fs)"
  obtain results u where u: "rollback_loop env ?as w = (results, u)" by fastforce
  have "map fst ?as = rev (map pf_path fs)" by (simp add: rev_map comp_def)
  then have da: "distinct (map fst ?as)" using d by simp
  have fst_as: "fst ` set ?as = pf_path ` set fs" by force
  have "contents w p \<noteq> None" if "p \<in> fst ` set ?as" for p
    using that rep by (auto simp: replaced_def)
  note roll = rollback_restores [OF h u da this, unfolded fst_as]
  have w': "w' = u" using fin u by (simp add: finish_commit_failure_def split: if_splits)
  have old: "contents w0 (pf_path f) = Some (pf_old_bytes f)" if "f \<in> set fs" for f
    using pre that by (simp add: list_all_iff prepared_for_def)
  have outside: "contents w' q = contents w0 q" if "contents w0 q \<noteq> None" "q \<notin> pf_path ` set fs" for q
  proof -
    have "contents w q = contents w0 q" using rep that by (simp add: replaced_def)
    then show ?thesis using roll that w' by simp
  qed
  have inside: "contents w' (pf_path f) = contents w0 (pf_path f) \<or> contents w' (pf_path f) = Some (pf_new_bytes f)"
    if "f \<in> set fs" for f
  proof -
    have "\<forall>(p, b)\<in>set ?as. contents w' p = contents w p \<or> contents w' p = Some b" using roll w' by blast
    then show ?thesis using that rep old [OF that] by (auto simp: replaced_def)
  qed
  show ?thesis
  proof (cases "list_all (\<lambda>result. ends_with result '': restored'') results")
    case True
    then have "\<forall>(p, b)\<in>set ?as. contents w' p = Some b" using roll w' by blast
    then have "contents w' q = contents w0 q" if "contents w0 q \<noteq> None" for q
      using outside [OF that] old by (cases "q \<in> pf_path ` set fs") auto
    then show ?thesis using fin u True by (auto simp: finish_commit_failure_def rolled_back_def replaced_def)
  next
    case False
    then have "r = Inl (RollbackFailed (error_display env e) results)"
      using fin u by (simp add: finish_commit_failure_def)
    moreover have "contents w' q = contents w0 q \<or> (\<exists>f\<in>set fs. pf_path f = q \<and> contents w' q = Some (pf_new_bytes f))"
      if "contents w0 q \<noteq> None" for q
      using outside [OF that] inside by (cases "q \<in> pf_path ` set fs") auto
    ultimately show ?thesis by (auto simp: rolled_back_def)
  qed
qed

lemma replaced_step:
  assumes rep: "replaced w0 fs w" and f: "pf_path f \<notin> pf_path ` set fs"
    and p: "contents w' (pf_path f) = Some (pf_new_bytes f)"
    and same: "\<And>q. contents w0 q \<noteq> None \<Longrightarrow> q \<noteq> pf_path f \<Longrightarrow> contents w' q = contents w q"
    and pre: "list_all (prepared_for w0) fs"
  shows "replaced w0 (fs @ [f]) w'"
proof -
  have "contents w' (pf_path g) = Some (pf_new_bytes g)" if "g \<in> set fs" for g
  proof -
    have "contents w0 (pf_path g) \<noteq> None" using pre that by (simp add: list_all_iff prepared_for_def)
    moreover have "pf_path g \<noteq> pf_path f" using f that by (metis imageI)
    ultimately show ?thesis using same rep that by (simp add: replaced_def)
  qed
  then show ?thesis using rep p same by (auto simp: replaced_def)
qed

lemma commit_loop_all_or_nothing:
  assumes h: "honest env"
    and temps: "\<And>s. s \<in> snd ` set staged \<Longrightarrow> fs_files w0 (sr_temporary s) = None"
  shows "commit_loop env live staged rest (map (\<lambda>f. (pf_path f, pf_old_bytes f)) fs) w = (r, w') \<Longrightarrow>
    replaced w0 fs w \<Longrightarrow> list_all (waiting w0 w) rest \<Longrightarrow> distinct (map (sr_temporary \<circ> snd) rest) \<Longrightarrow>
    distinct (map pf_path (fs @ map fst rest)) \<Longrightarrow> list_all (prepared_for w0) (fs @ map fst rest) \<Longrightarrow>
    (case r of Inr _ \<Rightarrow> replaced w0 (fs @ map fst rest) w' | Inl e \<Rightarrow> rolled_back w0 (fs @ map fst rest) e w')"
proof (induction rest arbitrary: fs w)
  case Nil
  then show ?case by auto
next
  case (Cons x rest)
  obtain f s where x: "x = (f, s)" by fastforce
  have s: "sr_destination s = pf_path f" "fs_files w0 (sr_temporary s) = None"
    "contents w (sr_temporary s) = Some (pf_new_bytes f)"
    using Cons.prems(3) x by (simp_all add: waiting_def)
  have f: "contents w0 (pf_path f) = Some (pf_old_bytes f)" "pf_initial_state f \<noteq> Missing"
    using Cons.prems(6) x by (simp_all add: prepared_for_def)
  obtain c u where c: "revalidate_prepared env live f w = (c, u)" by fastforce
  note u = revalidate_keeps [OF h c]
  obtain q v where q: "install_replacement env live s (pf_initial_state f) False u = (q, v)" by fastforce
  obtain node where node: "fs_files u (sr_temporary s) = Some node" "fn_bytes node = pf_new_bytes f"
    using s(3) u by (auto simp: contents_def)
  have ne: "sr_temporary s \<noteq> pf_path f" using s(2) f(1) by (auto simp: contents_def)
  note ins = install_replaces [OF h q f(2) node(1), unfolded s(1), OF ne]
  show ?case
  proof (cases "(\<exists>y. c = Inr y) \<and> (\<exists>y. q = Inr y)")
    case True
    then have v: "fs_files v = (fs_files u)(sr_temporary s := None, pf_path f \<mapsto> node)" using ins by auto
    let ?w = "cleanup env s v"
    have files: "fs_files ?w p = ((fs_files w)(sr_temporary s := None, pf_path f \<mapsto> node)) p" for p
      using remove_file_keeps [OF h, of "sr_temporary s" v] v u ne by (auto simp: cleanup_def)
    have loop: "commit_loop env live staged rest (map (\<lambda>f. (pf_path f, pf_old_bytes f)) (fs @ [f])) ?w = (r, w')"
      using Cons.prems(1) x c q True by (auto simp: attempt_def)
    have "replaced w0 (fs @ [f]) ?w"
    proof (rule replaced_step [OF Cons.prems(2)])
      show "pf_path f \<notin> pf_path ` set fs" using Cons.prems(5) x by auto
      show "contents ?w (pf_path f) = Some (pf_new_bytes f)" using files node by (simp add: contents_def)
      show "contents ?w p = contents w p" if "contents w0 p \<noteq> None" "p \<noteq> pf_path f" for p
        using files that s(2) by (auto simp: contents_def)
      show "list_all (prepared_for w0) fs" using Cons.prems(6) by simp
    qed
    moreover have "list_all (waiting w0 ?w) rest"
    proof -
      have "contents ?w (sr_temporary t) = Some (pf_new_bytes g)" if "(g, t) \<in> set rest" for g t
      proof -
        have t: "fs_files w0 (sr_temporary t) = None" "contents w (sr_temporary t) = Some (pf_new_bytes g)"
          using Cons.prems(3) that by (auto simp: list_all_iff waiting_def)
        have "sr_temporary t \<noteq> sr_temporary s" using Cons.prems(4) that x by (force simp: image_iff)
        moreover have "sr_temporary t \<noteq> pf_path f" using t(1) f(1) by (auto simp: contents_def)
        ultimately show ?thesis using files t(2) by (simp add: contents_def)
      qed
      then show ?thesis using Cons.prems(3) by (auto simp: list_all_iff waiting_def)
    qed
    ultimately show ?thesis
      using Cons.IH [OF loop] Cons.prems(4,5,6) x by (cases r) (simp_all add: comp_def)
  next
    case False
    let ?w = "fold (\<lambda>(_, s). cleanup env s) staged"
    obtain e y where e: "finish_commit_failure env e (map (\<lambda>f. (pf_path f, pf_old_bytes f)) fs) (?w y) = (r, w')"
      "fs_files y = fs_files w"
    proof (cases c)
      case (Inl e)
      then show ?thesis using that [of e u] Cons.prems(1) x c u by (simp add: attempt_def)
    next
      case (Inr a)
      then obtain e where "q = Inl e" using False by (cases q) auto
      then show ?thesis using that [of e v] Cons.prems(1) x c q Inr u ins by (simp add: attempt_def)
    qed
    have same: "contents (?w y) p = contents w p" if "contents w0 p \<noteq> None" for p
    proof -
      have "p \<notin> (sr_temporary \<circ> snd) ` set staged" using that temps by (force simp: contents_def)
      from cleanup_all_other [OF h this, of y] show ?thesis using e(2) by (simp add: contents_def)
    qed
    have "contents w0 (pf_path g) \<noteq> None" if "g \<in> set fs" for g
      using Cons.prems(6) that by (simp add: list_all_iff prepared_for_def)
    then have "replaced w0 fs (?w y)" using Cons.prems(2) same by (simp add: replaced_def)
    from finish_rolls_back [OF h this _ _ e(1)] Cons.prems(5,6)
    obtain e' where "r = Inl e'" "rolled_back w0 fs e' w'" by auto
    then show ?thesis by (auto simp: rolled_back_def)
  qed
qed

lemma commit_prepared_all_or_nothing:
  assumes h: "honest env" and d: "distinct (map pf_path prepared)" and pre: "list_all (prepared_for w0) prepared"
    and c: "commit_prepared env live prepared w0 = (r, w')"
  shows "case r of Inr _ \<Rightarrow> replaced w0 prepared w' | Inl e \<Rightarrow> rolled_back w0 prepared e w'"
proof -
  let ?fs = "filter (\<lambda>f. pf_old_bytes f \<noteq> pf_new_bytes f) prepared"
  obtain q v where q: "stage_loop env live prepared [] w0 = (q, v)" by fastforce
  have stage: "files_kept w0 v \<and> (case q of Inl _ \<Rightarrow> True | Inr staged \<Rightarrow>
      map fst staged = ?fs \<and> list_all (waiting w0 v) staged
      \<and> distinct (map (sr_temporary \<circ> snd) staged))"
    using stage_loop_waits [OF h q, of w0] by (cases q) (auto simp: files_kept_def)
  have v: "replaced w0 [] v" using stage by (auto simp: replaced_def files_kept_def contents_def)
  show ?thesis
  proof (cases q)
    case (Inl e)
    then show ?thesis using c q v by (auto simp: commit_prepared_def attempt_def rolled_back_def)
  next
    case (Inr staged)
    have loop: "commit_loop env live staged staged (map (\<lambda>f. (pf_path f, pf_old_bytes f)) []) v = (r, w')"
      using c q Inr by (simp add: commit_prepared_def attempt_def)
    have st: "map fst staged = ?fs" "list_all (waiting w0 v) staged" "distinct (map (sr_temporary \<circ> snd) staged)"
      using stage Inr by auto
    have "fs_files w0 (sr_temporary s) = None" if "s \<in> snd ` set staged" for s
      using st(2) that by (auto simp: list_all_iff waiting_def)
    from commit_loop_all_or_nothing [OF h this loop v st(2,3)]
    have loop: "case r of Inr _ \<Rightarrow> replaced w0 ?fs w' | Inl e \<Rightarrow> rolled_back w0 ?fs e w'"
      using st(1) d pre by (cases r) (simp_all add: distinct_map_filter list_all_iff)
    show ?thesis
    proof (cases r)
      case (Inl e)
      then show ?thesis using loop by (auto simp: rolled_back_def)
    next
      case (Inr u)
      then have rep: "replaced w0 ?fs w'" using loop by simp
      have "contents w' (pf_path f) = Some (pf_new_bytes f)" if "f \<in> set prepared" for f
      proof (cases "pf_old_bytes f = pf_new_bytes f")
        case True
        have "pf_path f \<notin> pf_path ` set ?fs"
        proof
          assume "pf_path f \<in> pf_path ` set ?fs"
          then obtain g where "g \<in> set ?fs" "pf_path g = pf_path f" by force
          then have "g = f" using d that by (auto simp: distinct_map inj_on_def)
          then show False using True \<open>g \<in> set ?fs\<close> by simp
        qed
        then show ?thesis using rep pre that True by (simp add: replaced_def list_all_iff prepared_for_def)
      next
        case False
        then show ?thesis using rep that by (simp add: replaced_def)
      qed
      moreover have "contents w' p = contents w0 p" if "contents w0 p \<noteq> None" "p \<notin> pf_path ` set prepared" for p
        using rep that by (auto simp: replaced_def)
      ultimately show ?thesis using Inr by (simp add: replaced_def)
    qed
  qed
qed

end
