(* ===== verification/Tool_Properties.thy ===== *)
theory Tool_Properties
  imports Patch Commit_Facts
begin

section \<open>Properties of the tools\<close>

text \<open>Exact patches: what an accepted patch does, and that it can be taken back.\<close>

subsection \<open>Patches\<close>

text \<open>C37: A patch does exactly what its hunks say.  On a file whose lines end alike it is accepted precisely
  when the lines of the file are gaps with the old sides of the hunks between them, at the line
  numbers and with the counts the hunks declare; the result is the same gaps with the new sides
  between them, with the newline and the final newline of the file.\<close>

theorem patch_is_exact:
  assumes "uniform newline final ls"
  shows "apply_patch_text (text_of newline final ls) hs = Inr t \<longleftrightarrow>
    (\<exists>gaps rest. placed 0 0 hs gaps \<and> ls = spliced old_side hs gaps rest
       \<and> t = text_of newline final (spliced new_side hs gaps rest))"
proof -
  have "apply_patch_text (text_of newline final ls) hs = Inr t \<longleftrightarrow>
      (\<exists>out. patch_hunks ls hs [] 0 = Inr out \<and> t = text_of newline final out)"
    by (auto simp: apply_patch_lines [OF assms] split: sum.split)
  then show ?thesis
    using patch_hunks_spec [of 0 ls hs "[]"] by auto
qed

definition swap_hunk :: patch_hunk where
  "swap_hunk = \<lparr>ph_old_start = 2, ph_old_count = 1, ph_new_start = 2, ph_new_count = 1,
     ph_lines = [''-old'', ''+new'']\<rparr>"

lemma patch_is_exact_witness:
  "\<exists>gaps rest. placed 0 0 [swap_hunk] gaps \<and> [''first'', ''old''] = spliced old_side [swap_hunk] gaps rest
     \<and> text_of lf True [''first'', ''new''] = text_of lf True (spliced new_side [swap_hunk] gaps rest)"
proof -
  have "uniform lf True [''first'', ''old'']"
    by (simp add: uniform_def plain_line_def strip_cr_def)
  moreover have "apply_patch_text (text_of lf True [''first'', ''old'']) [swap_hunk]
      = Inr (text_of lf True [''first'', ''new''])"
    by code_simp
  ultimately show ?thesis by (simp only: patch_is_exact)
qed



text \<open>A file that ends in a newline cannot be emptied: whatever an accepted patch deletes, the result
  still ends in the newline, so deleting the only line of a file with one empty line leaves the file
  as it was.\<close>

theorem patch_never_empties:
  assumes "ends_with source [CHR 0x0A]" and "apply_patch_text source hs = Inr t"
  shows "ends_with t (source_newline source) \<and> t \<noteq> []"
proof -
  obtain out where "t = join (source_newline source) out @ source_newline source"
    using assms by (auto simp: apply_patch_text_def split: sum.splits)
  moreover have "source_newline source \<noteq> []" by (simp add: source_newline_def)
  ultimately show ?thesis by (simp add: ends_with_def)
qed

definition delete_hunk :: patch_hunk where
  "delete_hunk = \<lparr>ph_old_start = 1, ph_old_count = 1, ph_new_start = 1, ph_new_count = 0, ph_lines = [''-'']\<rparr>"

lemma patch_never_empties_witness:
  "\<exists>t. apply_patch_text [CHR 0x0A] [delete_hunk] = Inr t \<and> t \<noteq> []"
proof -
  have "apply_patch_text [CHR 0x0A] [delete_hunk] = Inr [CHR 0x0A]" by code_simp
  with patch_never_empties [OF _ this] show ?thesis by (simp add: ends_with_def)
qed

text \<open>A patch rewrites newlines it does not touch: in a file that mixes both kinds, replacing the first
  line also turns the plain newline of the last line into a carriage return and a newline.\<close>

theorem patch_rewrites_newlines:
  "apply_patch_text (''old'' @ crlf @ ''last'' @ lf)
     [\<lparr>ph_old_start = 1, ph_old_count = 1, ph_new_start = 1, ph_new_count = 1,
       ph_lines = [''-old'', ''+new'']\<rparr>]
   = Inr (''new'' @ crlf @ ''last'' @ crlf)"
  by code_simp

lemma multibyte_line_panics:
  "apply_patch_text (''a'' @ lf)
     [\<lparr>ph_old_start = 1, ph_old_count = 1, ph_new_start = 1, ph_new_count = 1,
       ph_lines = [[CHR 0xC3, CHR 0xA9]]\<rparr>] = Inl PatchPanics"
  by code_simp

subsection \<open>Process output\<close>

text \<open>A process's output is never reordered or silently lost: over any run of the buffer of a stream,
  what was read and what is still buffered form a subsequence of what was written, the buffer is
  the latest part of it and within its capacity, and the bytes missing are exactly those the
  dropped-bytes counter reports (which saturates at \<open>2 ^ 64 - 1\<close>).\<close>

theorem output_is_accounted:
  assumes "max capacity 1 < 2 ^ 63" and "list_all storable ops"
    and "fold run_buffer ops (buffer_new capacity, log_new) = (b, l)"
  shows "subseq (sl_taken l @ ob_bytes b) (sl_pushed l) \<and> suffix (ob_bytes b) (sl_pushed l)
    \<and> length (ob_bytes b) \<le> max capacity 1
    \<and> unat (ob_dropped b)
        = min (length (sl_pushed l) - length (sl_taken l) - length (ob_bytes b)) (2 ^ 64 - 1)"
proof -
  have "buffer_accounts capacity (b, l)"
    using run_buffer_accounts [OF assms(1,2) accounts_new] assms(3) by simp
  then have a: "subseq (sl_taken l @ ob_bytes b) (sl_pushed l)" "suffix (ob_bytes b) (sl_pushed l)"
    "length (ob_bytes b) \<le> max capacity 1" "unat (ob_dropped b) = min (sl_dropped l) (2 ^ 64 - 1)"
    "length (sl_taken l) + sl_dropped l + length (ob_bytes b) = length (sl_pushed l)"
    by (simp_all add: buffer_accounts_def accounts_def)
  from a(5) have "sl_dropped l = length (sl_pushed l) - length (sl_taken l) - length (ob_bytes b)"
    by linarith
  with a show ?thesis by simp
qed

lemma output_is_accounted_witness:
  "unat (ob_dropped (fst (fold run_buffer [BPush ''abc'', BPush ''def'', BTake 64, BPush ''012345'']
     (buffer_new 4, log_new)))) = 4"
proof -
  obtain b l where run: "fold run_buffer [BPush ''abc'', BPush ''def'', BTake 64, BPush ''012345'']
      (buffer_new 4, log_new) = (b, l)" by fastforce
  moreover have "length (sl_pushed l) = 12" "length (sl_taken l) = 4" "length (ob_bytes b) = 4"
    using run by (auto simp: buffer_new_def log_new_def buffer_push_def buffer_take_def Let_def)
  ultimately show ?thesis
    using output_is_accounted [OF _ _ run] by (simp add: storable_def)
qed


subsection \<open>Replacing files\<close>

text \<open>C36: A patch over several files is all or nothing.  When nobody else writes to the workspace, and the
  files prepared exist with the bytes they were prepared from, at different paths, then whatever call
  of the file system fails and whenever the turn is cancelled: if the commit succeeds, every prepared
  file has its new bytes and every other file is as it was; if it fails, every file is as it was,
  unless the failure says that the rollback failed, and even then each file has its old or its new
  bytes and no file is half written.\<close>

theorem commit_all_or_nothing:
  assumes "honest env" and "distinct (map pf_path prepared)" and "list_all (prepared_for files) prepared"
    and "commit_prepared env live prepared files = (r, files')"
  shows "case r of Inr _ \<Rightarrow> replaced files prepared files' | Inl e \<Rightarrow> rolled_back files prepared e files'"
  using assms by (rule commit_prepared_all_or_nothing)

definition disk_full :: io_error where
  "disk_full = \<lparr>io_kind = OtherKind, io_os_code = Some 28, io_text = ''No space left on device (os error 28)''\<rparr>"

definition failing_env :: "nat \<Rightarrow> os_env" where
  "failing_env n = \<lparr>os_fault = (\<lambda>k. if k = n then Some disk_full else None), os_outside = (\<lambda>_ f. f),
     os_cancelled = (\<lambda>_. False), os_temp_name = (\<lambda>p k. p @ ''~''),
     os_stamp = (\<lambda>_. None), os_hash = (\<lambda>b. b), os_debug = concat\<rparr>"

definition two_files :: file_system where
  "two_files = \<lparr>fs_files = (\<lambda>p. if p = ''a'' \<or> p = ''b'' then Some \<lparr>fn_bytes = p, fn_modified = None, fn_symlink = False\<rparr> else None),
     fs_calls = 0, fs_looks = 0, fs_next_temp = 0\<rparr>"

definition rewrite_file :: "rstr \<Rightarrow> prepared_file" where
  "rewrite_file p = \<lparr>pf_display = p, pf_path = p, pf_initial_state = Present 1 None False, pf_old_bytes = p,
     pf_old_hash = p, pf_new_bytes = p @ p\<rparr>"

lemma one_try:
  "(case os_call env (w\<lparr>fs_next_temp := fs_next_temp w + 1\<rparr>) of (fault, v) \<Rightarrow>
      fault = None \<and> fs_files v (os_temp_name env p (fs_next_temp w)) = None) \<Longrightarrow>
   open_temporary env 32 p w =
     (let v = snd (os_call env (w\<lparr>fs_next_temp := fs_next_temp w + 1\<rparr>));
          t = os_temp_name env p (fs_next_temp w)
      in (Inr t, v\<lparr>fs_files := (fs_files v)(t \<mapsto>
           \<lparr>fn_bytes = [], fn_modified = os_stamp env (fs_calls v), fn_symlink = False\<rparr>)\<rparr>))"
  using open_temporary.simps(2) [of env 31 p w] by (auto simp: Let_def split: prod.splits)

lemmas file_operations = attempt_def check_cancelled_def metadata_permissions_def look_up_def os_call_def
  fill_temporary_def write_chunks.simps write_chunk_def simple_call_def pass_def revalidate_prepared_def
  file_state_def node_state_def hash_file_def hash_loop.simps install_replacement_def rename_file_def
  cleanup_def remove_file_def finish_commit_failure_def

text \<open>Renaming the second file fails; the first is rolled back.\<close>

lemma commit_all_or_nothing_witness:
  "\<exists>files'. commit_prepared (failing_env 22) False [rewrite_file ''a'', rewrite_file ''b''] two_files = (Inl (IoFailure disk_full), files')
     \<and> rolled_back two_files [rewrite_file ''a'', rewrite_file ''b''] (IoFailure disk_full) files'"
proof -
  let ?env = "failing_env 22" and ?fs = "[rewrite_file ''a'', rewrite_file ''b'']"
  obtain r files' where c: "commit_prepared ?env False ?fs two_files = (r, files')" by fastforce
  have "fst (commit_prepared ?env False ?fs two_files) = Inl (IoFailure disk_full)"
    unfolding commit_prepared_def rewrite_file_def stage_loop.simps stage_replacement_def
    by (simp add: file_operations one_try Let_def atomic_write_def ends_with_def stage_replacement_def failing_env_def two_files_def MAX_INPUT_BYTES_def)
  then have r: "r = Inl (IoFailure disk_full)" using c by simp
  have "honest ?env" by (simp add: honest_def failing_env_def disk_full_def ends_with_def)
  moreover have "distinct (map pf_path ?fs)" by (simp add: rewrite_file_def)
  moreover have "list_all (prepared_for two_files) ?fs"
    by (simp add: prepared_for_def contents_def two_files_def rewrite_file_def)
  ultimately have "case r of Inr _ \<Rightarrow> replaced two_files ?fs files' | Inl e \<Rightarrow> rolled_back two_files ?fs e files'"
    using c by (rule commit_all_or_nothing)
  then show ?thesis using c r by simp
qed

end
