(* ===== verification/Context_Types.thy ===== *)
theory Context_Types
  imports Workflow Tools
begin

section \<open>The context snapshot (aether-core/src/context.rs)\<close>

text \<open>
  The bounded working context of a session: inspected files, excerpts, tool summaries, the workflow;
  what of it is written to disk, the scan for secrets, and the merging of line ranges.  The
  compaction of tool results is in theory \<open>Diagnostics\<close>.
\<close>

definition MAX_STORED_TOOL_SUMMARIES :: nat where "MAX_STORED_TOOL_SUMMARIES = 32"
definition MAX_CONTEXT_ITEMS :: nat where "MAX_CONTEXT_ITEMS = 48"
definition MAX_FILE_EXCERPTS :: nat where "MAX_FILE_EXCERPTS = 16"
definition MAX_EXCERPT_BYTES :: nat where "MAX_EXCERPT_BYTES = 4 * 1024"
definition MAX_INSPECTED_FILES :: nat where "MAX_INSPECTED_FILES = 64"
definition MAX_USER_MODIFIED_FILES :: nat where "MAX_USER_MODIFIED_FILES = 32"
definition MAX_CONTEXT_FINGERPRINTS :: nat where "MAX_CONTEXT_FINGERPRINTS = 64"
definition MAX_CONTEXT_FINGERPRINT_BYTES :: nat where "MAX_CONTEXT_FINGERPRINT_BYTES = 32"
definition MAX_CONTEXT_PATH_BYTES :: nat where "MAX_CONTEXT_PATH_BYTES = 256"
definition MAX_COMPACT_SUMMARY_BYTES :: nat where "MAX_COMPACT_SUMMARY_BYTES = 2 * 1024"
definition MAX_GIT_SNAPSHOT_BYTES :: nat where "MAX_GIT_SNAPSHOT_BYTES = 4 * 1024"
definition MAX_TASK_BYTES :: nat where "MAX_TASK_BYTES = 4 * 1024"
definition MAX_SUMMARY_PATHS :: nat where "MAX_SUMMARY_PATHS = 8"
definition MAX_DIAGNOSTIC_ITEMS :: nat where "MAX_DIAGNOSTIC_ITEMS = 8"
definition MAX_DIAGNOSTIC_DETAIL_BYTES :: nat where "MAX_DIAGNOSTIC_DETAIL_BYTES = 256"

lemmas context_limits = MAX_STORED_TOOL_SUMMARIES_def MAX_CONTEXT_ITEMS_def MAX_FILE_EXCERPTS_def
  MAX_EXCERPT_BYTES_def MAX_INSPECTED_FILES_def MAX_USER_MODIFIED_FILES_def
  MAX_CONTEXT_FINGERPRINTS_def MAX_CONTEXT_FINGERPRINT_BYTES_def MAX_CONTEXT_PATH_BYTES_def
  MAX_COMPACT_SUMMARY_BYTES_def MAX_GIT_SNAPSHOT_BYTES_def MAX_TASK_BYTES_def MAX_SUMMARY_PATHS_def
  MAX_DIAGNOSTIC_ITEMS_def MAX_DIAGNOSTIC_DETAIL_BYTES_def

datatype observed_file_state = OPresent | OMissing

text \<open>Line numbers are \<open>usize\<close> values, below \<open>2 ^ 64\<close>.\<close>

record line_range =
  lr_start :: nat
  lr_end :: nat

record inspected_file =
  if_path :: rstr
  if_content_hash :: "rstr option"
  if_ranges :: "line_range list"
  if_last_state :: observed_file_state
  if_stale :: bool

record file_excerpt =
  fe_path :: rstr
  fe_start_line :: nat
  fe_end_line :: nat
  fe_text :: bounded_text
  fe_content_hash :: "rstr option"
  fe_truncated :: bool

record compact_tool_summary =
  ts_tool :: rstr
  ts_ok :: bool
  ts_summary :: bounded_text

record git_snapshot =
  gs_branch :: "rstr option"
  gs_status :: bounded_text
  gs_available :: bool

record context_snapshot =
  cs_workspace_root :: rstr
  cs_current_task :: bounded_text
  cs_inspected :: "inspected_file list"
  cs_modified :: "rstr list"
  cs_user_modified :: "rstr list"
  cs_excerpts :: "file_excerpt list"
  cs_tool_summaries :: "compact_tool_summary list"
  cs_git :: "git_snapshot option"
  cs_continuation :: "json option"
  cs_model :: "rstr option"
  cs_workspace_changed :: bool
  cs_rendered_fingerprints :: "rstr list"
  cs_workflow :: workflow_state

definition snapshot_new :: "rstr \<Rightarrow> rstr option \<Rightarrow> context_snapshot" where
  "snapshot_new workspace_root model =
     \<lparr>cs_workspace_root = workspace_root, cs_current_task = bounded_new [] MAX_TASK_BYTES,
      cs_inspected = [], cs_modified = [], cs_user_modified = [], cs_excerpts = [],
      cs_tool_summaries = [], cs_git = None, cs_continuation = None, cs_model = model,
      cs_workspace_changed = False, cs_rendered_fingerprints = [], cs_workflow = workflow_new\<rparr>"

definition snapshot_is_empty :: "context_snapshot \<Rightarrow> bool" where
  "snapshot_is_empty s =
     (as_str (cs_current_task s) = [] \<and> cs_inspected s = [] \<and> cs_modified s = []
      \<and> cs_user_modified s = [] \<and> cs_excerpts s = [] \<and> cs_tool_summaries s = []
      \<and> cs_git s = None \<and> cs_workflow s = workflow_new)"

subsection \<open>What is written to disk\<close>

definition is_safe_continuation_key :: "rstr \<Rightarrow> bool" where
  "is_safe_continuation_key key = (key \<in> set [''previous_response_id'', ''fake_step''])"

text \<open>\<open>kept\<close> is filled in the order of the map, which is that of its keys.\<close>

fun kept_entries :: "(rstr \<times> json) list \<Rightarrow> (rstr \<times> json) list" where
  "kept_entries [] = []"
| "kept_entries ((key, item) # entries) =
     (if \<not> is_safe_continuation_key key then kept_entries entries
      else
        (case json_as_str item of
           Some text \<Rightarrow>
             if text \<noteq> [] \<and> length text \<le> 256 then (key, JString text) # kept_entries entries
             else kept_entries entries
         | None \<Rightarrow> kept_entries entries))"

definition persistable_continuation :: "json \<Rightarrow> json option" where
  "persistable_continuation v =
     (case v of
        JObject entries \<Rightarrow>
          (let kept = kept_entries entries in if kept = [] then None else Some (JObject kept))
      | _ \<Rightarrow> None)"

definition persistable_tool_summary :: "compact_tool_summary \<Rightarrow> compact_tool_summary" where
  "persistable_tool_summary t =
     (if ts_tool t \<in> set [''shell'', ''process'', ''git''] \<or> starts_with (ts_tool t) ''browser.'' then
        \<lparr>ts_tool = ts_tool t, ts_ok = ts_ok t,
         ts_summary = bounded_new (ts_tool t @ (if ts_ok t then '' ok'' else '' failed''))
           MAX_COMPACT_SUMMARY_BYTES\<rparr>
      else t)"

definition persistable :: "context_snapshot \<Rightarrow> context_snapshot" where
  "persistable s =
     \<lparr>cs_workspace_root = cs_workspace_root s,
      cs_current_task = bounded_new [] MAX_TASK_BYTES,
      cs_inspected = cs_inspected s,
      cs_modified = cs_modified s,
      cs_user_modified = filter (\<lambda>p. p \<noteq> [])
        (map (\<lambda>p. into_string (bounded_new p MAX_CONTEXT_PATH_BYTES))
          (take MAX_USER_MODIFIED_FILES (cs_user_modified s))),
      cs_excerpts = [],
      cs_tool_summaries = map persistable_tool_summary (cs_tool_summaries s),
      cs_git = map_option (\<lambda>g. \<lparr>gs_branch = gs_branch g, gs_status = bounded_new [] MAX_GIT_SNAPSHOT_BYTES,
                                 gs_available = gs_available g\<rparr>) (cs_git s),
      cs_continuation = Option.bind (cs_continuation s) persistable_continuation,
      cs_model = cs_model s,
      cs_workspace_changed = cs_workspace_changed s,
      cs_rendered_fingerprints =
        map (\<lambda>f. into_string (bounded_new f MAX_CONTEXT_FINGERPRINT_BYTES))
          (take MAX_CONTEXT_FINGERPRINTS (cs_rendered_fingerprints s)),
      cs_workflow = workflow_enforce_bounds (cs_workflow s)\<rparr>"

subsection \<open>The scan for secrets\<close>

definition ascii_upper :: "char \<Rightarrow> char" where
  "ascii_upper c = (let n = of_char c :: nat in if 97 \<le> n \<and> n \<le> 122 then char_of (n - 32) else c)"

definition to_ascii_uppercase :: "rstr \<Rightarrow> rstr" where
  "to_ascii_uppercase s = map ascii_upper s"

definition is_secret_key :: "rstr \<Rightarrow> bool" where
  "is_secret_key key =
     (let normalized = to_ascii_lowercase key
      in normalized \<in> set [''rainy_api_key'', ''api_key'', ''apikey'', ''authorization'', ''password'',
           ''secret'', ''token'', ''access_token'', ''private_key'']
         \<or> contains_str normalized ''api_key'' \<or> contains_str normalized ''secret'')"

definition looks_like_secret_assignment :: "rstr \<Rightarrow> bool" where
  "looks_like_secret_assignment text =
     (let upper = to_ascii_uppercase text
      in contains_str upper ''RAINY_API_KEY='' \<or> contains_str upper (''RAINY_API_KEY'' @ [CHR 0x22] @ '':''))"

fun payload_contains_secrets :: "json \<Rightarrow> bool" where
  "payload_contains_secrets (JObject entries) =
     (list_ex (\<lambda>e. is_secret_key (fst e)) entries
      \<or> list_ex (\<lambda>b. b) (map payload_contains_secrets (map snd entries)))"
| "payload_contains_secrets (JArray items) = list_ex (\<lambda>b. b) (map payload_contains_secrets items)"
| "payload_contains_secrets (JString text) = looks_like_secret_assignment text"
| "payload_contains_secrets JNull = False"
| "payload_contains_secrets (JBool b) = False"
| "payload_contains_secrets (JNumber n) = False"

subsection \<open>Merging line ranges\<close>

definition usize_saturating_succ :: "nat \<Rightarrow> nat" where
  "usize_saturating_succ n = min (n + 1) (2 ^ 64 - 1)"

fun merge_sorted :: "line_range list \<Rightarrow> line_range list \<Rightarrow> line_range list" where
  "merge_sorted merged [] = merged"
| "merge_sorted merged (r # ranges) =
     (if merged \<noteq> [] \<and> lr_start r \<le> usize_saturating_succ (lr_end (last merged)) then
        merge_sorted
          (butlast merged @ [(last merged)\<lparr>lr_end := max (lr_end (last merged)) (lr_end r)\<rparr>]) ranges
      else merge_sorted (merged @ [r]) ranges)"

definition merge_line_ranges :: "line_range list \<Rightarrow> line_range list" where
  "merge_line_ranges ranges =
     (if length ranges < 2 then ranges
      else merge_sorted [] (sort_key (\<lambda>r. (lr_start r, lr_end r)) ranges))"

end
