(* ===== verification/Diagnostics.thy ===== *)
theory Diagnostics
  imports Context_Types Commands
begin

section \<open>Compacting tool results (aether-core/src/context.rs)\<close>

text \<open>
  The local summaries of tool results and the diagnostics recognised in compiler and test output.
  Output is untrusted text: everything kept of it is cut to a size, and secrets are redacted from the
  details of diagnostics.
\<close>

subsection \<open>String functions of the standard library\<close>

abbreviation newline :: rstr where "newline \<equiv> [CHR 0x0A]"

fun find_str :: "rstr \<Rightarrow> rstr \<Rightarrow> nat option" where
  "find_str [] p = (if p = [] then Some 0 else None)"
| "find_str (c # s) p = (if starts_with (c # s) p then Some 0 else map_option Suc (find_str s p))"

fun rfind_str :: "rstr \<Rightarrow> rstr \<Rightarrow> nat option" where
  "rfind_str [] p = (if p = [] then Some 0 else None)"
| "rfind_str (c # s) p =
     (case rfind_str s p of
        Some i \<Rightarrow> Some (Suc i)
      | None \<Rightarrow> if starts_with (c # s) p then Some 0 else None)"

text \<open>The text before and after the last \<open>sep\<close>; \<open>rsplitn(3, sep)\<close> uses it twice.\<close>

definition rsplit_once :: "char \<Rightarrow> rstr \<Rightarrow> (rstr \<times> rstr) option" where
  "rsplit_once sep s =
     (case rfind_str s [sep] of None \<Rightarrow> None | Some i \<Rightarrow> Some (take i s, drop (Suc i) s))"

definition all_digits :: "rstr \<Rightarrow> bool" where
  "all_digits s = list_all is_ascii_digit s"

definition decimal_value :: "rstr \<Rightarrow> nat" where
  "decimal_value s = foldl (\<lambda>n c. n * 10 + (of_char c - 48)) 0 s"

text \<open>\<open>parse\<close> of an unsigned integer below \<open>bound\<close>, for text without a sign.\<close>

definition parse_unsigned :: "nat \<Rightarrow> rstr \<Rightarrow> nat option" where
  "parse_unsigned bound s =
     (if s \<noteq> [] \<and> all_digits s \<and> decimal_value s < bound then Some (decimal_value s) else None)"

definition json_as_u64 :: "json \<Rightarrow> nat option" where
  "json_as_u64 v = (case v of JNumber n \<Rightarrow> parse_unsigned (2 ^ 64) n | _ \<Rightarrow> None)"

text \<open>\<open>as_i64\<close>, with the number as it is displayed.\<close>

definition json_as_i64 :: "json \<Rightarrow> rstr option" where
  "json_as_i64 v =
     (case v of
        JNumber n \<Rightarrow>
          (case n of
             [] \<Rightarrow> None
           | c # ds \<Rightarrow>
               if c = CHR ''-'' then (if ds \<noteq> [] \<and> all_digits ds \<and> decimal_value ds \<le> 2 ^ 63 then Some n else None)
               else (if all_digits n \<and> decimal_value n < 2 ^ 63 then Some n else None))
      | _ \<Rightarrow> None)"

definition json_as_bool :: "json \<Rightarrow> bool option" where
  "json_as_bool v = (case v of JBool b \<Rightarrow> Some b | _ \<Rightarrow> None)"

abbreviation str_at :: "json \<Rightarrow> rstr \<Rightarrow> rstr option" where
  "str_at v key \<equiv> Option.bind (json_get v key) json_as_str"

abbreviation array_at :: "json \<Rightarrow> rstr \<Rightarrow> json list option" where
  "array_at v key \<equiv> Option.bind (json_get v key) json_as_array"

definition or_else :: "'a option \<Rightarrow> 'a \<Rightarrow> 'a" where
  "or_else x d = (case x of None \<Rightarrow> d | Some y \<Rightarrow> y)"

abbreviation flag_at :: "json \<Rightarrow> rstr \<Rightarrow> bool" where
  "flag_at v key \<equiv> or_else (Option.bind (json_get v key) json_as_bool) False"

definition bool_text :: "bool \<Rightarrow> rstr" where
  "bool_text b = (if b then ''true'' else ''false'')"

definition ok_text :: "bool \<Rightarrow> rstr" where
  "ok_text b = (if b then ''ok'' else ''failed'')"

definition bullets :: "rstr list \<Rightarrow> rstr" where
  "bullets items = concat (map (\<lambda>item. newline @ ''- '' @ item) items)"

subsection \<open>Locations, codes and symbols\<close>

definition trim_token :: "rstr \<Rightarrow> rstr" where
  "trim_token token = trim_matches (\<lambda>c. c \<in> set ''`[](),;'') token"

text \<open>The three parts of \<open>path:line:column\<close>, from the right.\<close>

definition location_fields :: "rstr \<Rightarrow> (rstr \<times> rstr \<times> rstr) option" where
  "location_fields token =
     (case rsplit_once CHR '':'' token of
        None \<Rightarrow> None
      | Some (front, last_field) \<Rightarrow>
          (case rsplit_once CHR '':'' front of
             None \<Rightarrow> None
           | Some (path, previous) \<Rightarrow> Some (path, previous, last_field)))"

definition looks_like_path :: "rstr \<Rightarrow> bool" where
  "looks_like_path path = (CHR ''/'' \<in> set path \<or> CHR ''.'' \<in> set path)"

text \<open>A line number that does not parse ends the search of the whole line (\<open>ok()?\<close>).\<close>

fun location_parts_in :: "rstr list \<Rightarrow> (rstr \<times> u32 \<times> u32 option) option" where
  "location_parts_in [] = None"
| "location_parts_in (token # tokens) =
     (case location_fields (trim_token token) of
        None \<Rightarrow> location_parts_in tokens
      | Some (path, previous, last_field) \<Rightarrow>
          if \<not> all_digits last_field \<or> \<not> all_digits previous \<or> \<not> looks_like_path path
          then location_parts_in tokens
          else
            (case parse_unsigned (2 ^ 32) previous of
               None \<Rightarrow> None
             | Some line_number \<Rightarrow>
                 Some (path, of_nat line_number, map_option of_nat (parse_unsigned (2 ^ 32) last_field))))"

definition diagnostic_location_parts :: "rstr \<Rightarrow> (rstr \<times> u32 \<times> u32 option) option" where
  "diagnostic_location_parts line = location_parts_in (split_whitespace line)"

fun location_in :: "rstr list \<Rightarrow> rstr option" where
  "location_in [] = None"
| "location_in (token # tokens) =
     (case location_fields (trim_token token) of
        None \<Rightarrow> location_in tokens
      | Some (path, previous, last_field) \<Rightarrow>
          if \<not> all_digits last_field \<or> \<not> all_digits previous \<or> previous = [] \<or> 10 < length previous
             \<or> parse_unsigned (2 ^ 64) previous = None \<or> \<not> looks_like_path path
          then location_in tokens
          else Some (path @ '':'' @ previous @ '':'' @ last_field))"

definition diagnostic_location :: "rstr \<Rightarrow> rstr option" where
  "diagnostic_location line = location_in (split_whitespace line)"

definition diagnostic_code :: "rstr \<Rightarrow> rstr option" where
  "diagnostic_code line =
     (case find_str line ''error['' of
        None \<Rightarrow> None
      | Some i \<Rightarrow>
          (let rest = drop (i + length ''error['') line
           in case find_str rest '']'' of
                None \<Rightarrow> None
              | Some j \<Rightarrow>
                  (let code = take j rest
                   in if code \<noteq> [] \<and> length code \<le> 16 then Some code else None)))"

fun symbol_prefix :: "rstr \<Rightarrow> rstr" where
  "symbol_prefix [] = []"
| "symbol_prefix (c # s) =
     (if ws_head (c # s) \<noteq> 0 \<or> c \<in> set ''(<:'' then [] else c # symbol_prefix s)"

fun marked_symbol :: "rstr list \<Rightarrow> rstr \<Rightarrow> rstr option" where
  "marked_symbol [] line = None"
| "marked_symbol (marker # markers) line =
     (case find_str line marker of
        None \<Rightarrow> marked_symbol markers line
      | Some i \<Rightarrow>
          (let symbol = symbol_prefix (drop (i + length marker) line)
           in if symbol \<noteq> [] \<and> length symbol \<le> 96 then Some symbol else marked_symbol markers line))"

definition symbol_markers :: "rstr list" where
  "symbol_markers = [''test '', ''fn '', ''struct '', ''enum '']"

definition diagnostic_symbol :: "rstr \<Rightarrow> rstr option" where
  "diagnostic_symbol line =
     (case find_str line ''`'' of
        None \<Rightarrow> marked_symbol symbol_markers line
      | Some i \<Rightarrow>
          (let rest = drop (i + 1) line
           in case find_str rest ''`'' of
                None \<Rightarrow> None
              | Some j \<Rightarrow>
                  (let symbol = take j rest
                   in if symbol \<noteq> [] \<and> length symbol \<le> 96 then Some symbol
                      else marked_symbol symbol_markers line)))"

definition secret_prefixes :: "rstr list" where
  "secret_prefixes = [''token='', ''password='', ''secret='', ''api_key='', ''apikey='']"

definition redact_diagnostic_word :: "rstr \<Rightarrow> rstr" where
  "redact_diagnostic_word word =
     (if list_ex (starts_with (to_ascii_lowercase word)) secret_prefixes
      then hd (split_on CHR ''='' word) @ ''<redacted>'' else word)"

definition redact_diagnostic_detail :: "rstr \<Rightarrow> rstr" where
  "redact_diagnostic_detail detail = join '' '' (map redact_diagnostic_word (split_whitespace detail))"

subsection \<open>Structured diagnostics\<close>

record diagnostic_scan =
  sc_found :: "workflow_diagnostic list"
  sc_seen :: "rstr list"
  sc_code :: rstr
  sc_symbol :: rstr

definition column_debug :: "u32 option \<Rightarrow> rstr" where
  "column_debug column =
     (case column of None \<Rightarrow> ''None'' | Some c \<Rightarrow> ''Some('' @ nat_to_decimal (unat c) @ '')'')"

definition diagnostic_key :: "rstr \<Rightarrow> u32 \<Rightarrow> u32 option \<Rightarrow> rstr \<Rightarrow> rstr \<Rightarrow> rstr \<Rightarrow> rstr" where
  "diagnostic_key path line_number column code symbol detail =
     path @ '':'' @ nat_to_decimal (unat line_number) @ '':'' @ column_debug column @ '':''
       @ code @ '':'' @ symbol @ '':'' @ detail"

fun scan_diagnostics :: "rstr list \<Rightarrow> diagnostic_scan \<Rightarrow> diagnostic_scan" where
  "scan_diagnostics [] sc = sc"
| "scan_diagnostics (line # rest) sc =
     (let sc = (case diagnostic_code line of None \<Rightarrow> sc | Some c \<Rightarrow> sc\<lparr>sc_code := c\<rparr>);
          sc = (case diagnostic_symbol line of None \<Rightarrow> sc | Some y \<Rightarrow> sc\<lparr>sc_symbol := y\<rparr>)
      in case diagnostic_location_parts line of
           None \<Rightarrow> scan_diagnostics rest sc
         | Some (path, line_number, column) \<Rightarrow>
             (let code = or_else (diagnostic_code line) (sc_code sc);
                  symbol = or_else (diagnostic_symbol line) (sc_symbol sc);
                  detail = redact_diagnostic_detail (trim line);
                  key = diagnostic_key path line_number column code symbol detail;
                  sc = (if key \<in> set (sc_seen sc) then sc
                        else sc\<lparr>sc_seen := sc_seen sc @ [key],
                                sc_found := sc_found sc @
                                  [\<lparr>wd_path = field path, wd_line = line_number, wd_column = column,
                                    wd_code = field code, wd_symbol = field symbol,
                                    wd_detail = bounded_new detail MAX_DIAGNOSTIC_DETAIL_BYTES\<rparr>]\<rparr>)
              in if length (sc_found sc) = MAX_WORKFLOW_DIAGNOSTICS then sc
                 else scan_diagnostics rest (sc\<lparr>sc_code := [], sc_symbol := []\<rparr>)))"

definition extract_diagnostics :: "tool_result \<Rightarrow> workflow_diagnostic list" where
  "extract_diagnostics result =
     (let stdout = (case tr_data result of None \<Rightarrow> [] | Some data \<Rightarrow> or_else (str_at data ''stdout'') []);
          stderr = (case tr_data result of None \<Rightarrow> [] | Some data \<Rightarrow> or_else (str_at data ''stderr'') [])
      in sc_found (scan_diagnostics (lines stdout @ lines stderr @ [as_str (tr_output result)])
           \<lparr>sc_found = [], sc_seen = [], sc_code = [], sc_symbol = []\<rparr>))"

subsection \<open>Compact summaries\<close>

text \<open>The loop of \<open>compact_search\<close> collects distinct paths and stops at the limit.\<close>

fun search_files :: "json list \<Rightarrow> rstr list \<Rightarrow> rstr list" where
  "search_files [] files = files"
| "search_files (item # items) files =
     (let files = (case str_at item ''path'' of
                     None \<Rightarrow> files
                   | Some path \<Rightarrow> if path \<in> set files then files else files @ [path])
      in if MAX_SUMMARY_PATHS \<le> length files then files else search_files items files)"

definition truncated_note :: "bool \<Rightarrow> rstr" where
  "truncated_note b = (if b then newline @ ''truncated: true'' else [])"

definition compact_search :: "json \<Rightarrow> rstr option" where
  "compact_search data =
     (case array_at data ''matches'' of
        None \<Rightarrow> None
      | Some matches \<Rightarrow>
          Some (''searched '' @ nat_to_decimal (length matches) @ '' matches; relevant:''
            @ bullets (search_files matches []) @ truncated_note (flag_at data ''truncated'')))"

definition compact_find :: "json \<Rightarrow> rstr option" where
  "compact_find data =
     (case array_at data ''paths'' of
        None \<Rightarrow> None
      | Some paths \<Rightarrow>
          Some (''found '' @ nat_to_decimal (length paths) @ '' paths''
            @ bullets (List.map_filter json_as_str (take MAX_SUMMARY_PATHS paths))
            @ truncated_note (flag_at data ''truncated'')))"

definition compact_list :: "json \<Rightarrow> rstr option" where
  "compact_list data =
     (case array_at data ''entries'' of
        None \<Rightarrow> None
      | Some entries \<Rightarrow>
          Some (''listed '' @ nat_to_decimal (length entries) @ '' entries; truncated: ''
            @ bool_text (flag_at data ''truncated'')))"

definition compact_read_file :: "json \<Rightarrow> rstr" where
  "compact_read_file file =
     or_else (str_at file ''path'') ''unknown''
       @ (case str_at file ''content_hash'' of None \<Rightarrow> [] | Some hash \<Rightarrow> '' hash='' @ hash)
       @ (if flag_at file ''truncated'' then '' truncated'' else [])"

definition compact_read :: "json \<Rightarrow> rstr option" where
  "compact_read data =
     (case array_at data ''files'' of
        None \<Rightarrow> None
      | Some files \<Rightarrow>
          Some (''read '' @ nat_to_decimal (length files) @ '' files''
            @ bullets (map compact_read_file (take MAX_SUMMARY_PATHS files))))"

definition compact_write :: "json \<Rightarrow> rstr option" where
  "compact_write data =
     (case str_at data ''path'' of
        None \<Rightarrow> None
      | Some path \<Rightarrow>
          Some (''wrote '' @ path @ '' (''
            @ nat_to_decimal (or_else (Option.bind (json_get data ''bytes'') json_as_u64) 0)
            @ '' bytes, hash='' @ or_else (str_at data ''hash'') ''unknown''
            @ '', replaced='' @ bool_text (flag_at data ''replaced'') @ '')''))"

definition compact_patch :: "json \<Rightarrow> rstr option" where
  "compact_patch data =
     (case array_at data ''files'' of
        None \<Rightarrow> None
      | Some files \<Rightarrow>
          Some (''patched '' @ nat_to_decimal (length files) @ '' files; dry_run=''
            @ bool_text (flag_at data ''dry_run'')
            @ bullets (map (\<lambda>file. or_else (str_at file ''path'') ''unknown'' @ '' hash=''
                @ or_else (str_at file ''new_hash'') ''unknown'') (take MAX_SUMMARY_PATHS files))))"

definition first_nonempty_lines :: "rstr \<Rightarrow> nat \<Rightarrow> rstr" where
  "first_nonempty_lines text max_lines =
     join newline (take max_lines (filter (\<lambda>line. line \<noteq> []) (map trim (lines text))))"

text \<open>The pieces between characters that are not digits.\<close>

fun digit_runs :: "rstr \<Rightarrow> rstr \<Rightarrow> rstr list" where
  "digit_runs acc [] = [rev acc]"
| "digit_runs acc (c # s) = (if is_ascii_digit c then digit_runs (c # acc) s else rev acc # digit_runs [] s)"

definition count_before :: "rstr \<Rightarrow> rstr \<Rightarrow> nat option" where
  "count_before line word =
     (let lower = to_ascii_lowercase line
      in case rfind_str lower word of
           None \<Rightarrow> None
         | Some i \<Rightarrow>
             Option.bind (find (\<lambda>token. token \<noteq> []) (rev (digit_runs [] (take i lower)))) (parse_unsigned (2 ^ 64)))"

definition failed_test_name :: "rstr \<Rightarrow> rstr option" where
  "failed_test_name trimmed =
     (let first_word = (\<lambda>text. case split_whitespace text of [] \<Rightarrow> None | w # _ \<Rightarrow> Some w)
      in case strip_prefix trimmed ''test '' of
           Some rest \<Rightarrow> if contains_str trimmed ''FAILED'' then first_word rest else None
         | None \<Rightarrow> if contains_str trimmed ''FAILED'' then first_word trimmed else None)"

fun failed_names_in :: "rstr list \<Rightarrow> rstr list \<Rightarrow> rstr list" where
  "failed_names_in [] names = names"
| "failed_names_in (line # rest) names =
     (let names = (case failed_test_name (trim line) of
                     None \<Rightarrow> names
                   | Some name \<Rightarrow> if name \<noteq> ''FAILED'' \<and> name \<notin> set names then names @ [name] else names)
      in if MAX_SUMMARY_PATHS \<le> length names then names else failed_names_in rest names)"

definition failed_test_names :: "rstr \<Rightarrow> rstr list" where
  "failed_test_names output = failed_names_in (lines output) []"

definition last_count :: "rstr list \<Rightarrow> rstr \<Rightarrow> nat option" where
  "last_count ls word =
     foldl (\<lambda>count line. case count_before line word of None \<Rightarrow> count | Some n \<Rightarrow> Some n) None ls"

definition compact_diagnostic :: "rstr \<Rightarrow> rstr option" where
  "compact_diagnostic line =
     (case diagnostic_location line of
        None \<Rightarrow> None
      | Some location \<Rightarrow>
          Some (location
            @ (case diagnostic_code line of None \<Rightarrow> [] | Some code \<Rightarrow> '' code='' @ code)
            @ (case diagnostic_symbol line of None \<Rightarrow> [] | Some symbol \<Rightarrow> '' symbol='' @ symbol)
            @ '' detail='' @ as_str (bounded_new (trim line) MAX_DIAGNOSTIC_DETAIL_BYTES)))"

fun diagnostic_entries :: "rstr list \<Rightarrow> rstr list \<Rightarrow> rstr list" where
  "diagnostic_entries [] entries = entries"
| "diagnostic_entries (line # rest) entries =
     (case compact_diagnostic line of
        None \<Rightarrow> diagnostic_entries rest entries
      | Some entry \<Rightarrow>
          (let entries = (if entry \<in> set entries then entries else entries @ [entry])
           in if length entries = MAX_DIAGNOSTIC_ITEMS then entries else diagnostic_entries rest entries))"

definition compact_diagnostics :: "rstr \<Rightarrow> rstr \<Rightarrow> rstr option" where
  "compact_diagnostics stdout stderr =
     (let entries = diagnostic_entries (lines stdout @ lines stderr) []
      in if entries = [] then None else Some (''diagnostics:'' @ bullets entries))"

definition compact_test_output :: "rstr \<Rightarrow> rstr \<Rightarrow> rstr option" where
  "compact_test_output stdout stderr =
     (let combined = stdout @ newline @ stderr;
          passed = last_count (lines combined) ''passed'';
          failed = last_count (lines combined) ''failed'';
          names = failed_test_names combined;
          text = (case passed of
             Some p \<Rightarrow>
               (case failed of
                  Some f \<Rightarrow>
                    Some (''tests:'' @ newline @ nat_to_decimal p @ '' passed'' @ newline
                      @ nat_to_decimal f @ '' failed''
                      @ (if names = [] then [] else '':'' @ bullets names))
                | None \<Rightarrow> Some (''tests:'' @ newline @ nat_to_decimal p @ '' passed''))
           | None \<Rightarrow>
               (case failed of
                  Some f \<Rightarrow>
                    if 0 < f then Some (''tests:'' @ newline @ nat_to_decimal f @ '' failed'' @ bullets names)
                    else None
                | None \<Rightarrow> None))
      in case text of
           None \<Rightarrow> None
         | Some text \<Rightarrow>
             Some (text @ (case compact_diagnostics stdout stderr of
                             None \<Rightarrow> [] | Some diagnostics \<Rightarrow> newline @ diagnostics)))"

definition compact_command :: "json \<Rightarrow> rstr option" where
  "compact_command data =
     (let program = or_else (str_at data ''program'') ''command'';
          args = (case array_at data ''args'' of
                    None \<Rightarrow> [] | Some args \<Rightarrow> join '' '' (take 8 (List.map_filter json_as_str args)));
          stdout = or_else (str_at data ''stdout'') [];
          stderr = or_else (str_at data ''stderr'') [];
          text = program @ (if args = [] then [] else '' '' @ args)
            @ (case Option.bind (json_get data ''exit_code'') json_as_i64 of
                 None \<Rightarrow> [] | Some code \<Rightarrow> '' exit='' @ code)
            @ '' '' @ ok_text (flag_at data ''success'')
      in case compact_test_output stdout stderr of
           Some tests \<Rightarrow> Some (text @ newline @ tests)
         | None \<Rightarrow>
             (let preview = (case compact_diagnostics stdout stderr of
                               Some diagnostics \<Rightarrow> diagnostics
                             | None \<Rightarrow> first_nonempty_lines (if stdout = [] then stderr else stdout) 4)
              in Some (if preview = [] then text else text @ newline @ preview)))"

definition compact_from_text :: "rstr \<Rightarrow> bool \<Rightarrow> rstr \<Rightarrow> rstr" where
  "compact_from_text name success output =
     (case compact_test_output output [] of
        Some tests \<Rightarrow> name @ '' '' @ ok_text success @ '': '' @ tests
      | None \<Rightarrow>
          (case compact_diagnostics output [] of
             Some diagnostics \<Rightarrow> name @ '' '' @ ok_text success @ '': '' @ diagnostics
           | None \<Rightarrow>
               (let preview = first_nonempty_lines output 4
                in if preview = [] then name @ '' '' @ ok_text success
                   else name @ '' '' @ ok_text success @ '':'' @ newline @ preview)))"

definition compact_from_data :: "rstr \<Rightarrow> json \<Rightarrow> rstr option" where
  "compact_from_data name data =
     (if name = ''search'' then compact_search data
      else if name = ''find'' then compact_find data
      else if name = ''list'' then compact_list data
      else if name = ''read'' then compact_read data
      else if name = ''write'' then compact_write data
      else if name = ''patch'' then compact_patch data
      else if name \<in> set [''shell'', ''process'', ''git''] then compact_command data
      else None)"

definition compact_tool_result :: "rstr \<Rightarrow> tool_result \<Rightarrow> compact_tool_summary" where
  "compact_tool_result name result =
     (let summary =
            (if starts_with name ''browser.'' then name @ '' '' @ ok_text (tr_ok result)
             else case Option.bind (tr_data result) (compact_from_data name) of
                    Some summary \<Rightarrow> summary
                  | None \<Rightarrow> compact_from_text name (tr_ok result) (as_str (tr_output result)))
      in \<lparr>ts_tool = name, ts_ok = tr_ok result,
          ts_summary = bounded_new summary MAX_COMPACT_SUMMARY_BYTES\<rparr>)"

end
