(* ===== verification/Symbol_Types.thy ===== *)
theory Symbol_Types
  imports Core_Types Limits Commands
begin

section \<open>Symbols, their relationships, and the words of a query\<close>

text \<open>
  The data of \<open>aether-agent/src/symbol_index.rs\<close> the selection, the planner and the
  relationship index share, and the text functions the three of them call: splitting a query
  into identifier words, comparing words without regard to ASCII case, the stem of a path.
\<close>

subsection \<open>Symbols (symbol\_index.rs)\<close>

definition MAX_SYMBOL_LOOKUP_RESULTS :: nat where "MAX_SYMBOL_LOOKUP_RESULTS = 128"
definition MAX_SYMBOL_RELATIONSHIP_FANOUT :: nat where "MAX_SYMBOL_RELATIONSHIP_FANOUT = 32"

datatype symbol_kind =
  KFunction | KMethod | KStruct | KEnum | KTrait | KTypeAlias | KModule | KTest | KImport

fun symbol_kind_as_str :: "symbol_kind \<Rightarrow> rstr" where
  "symbol_kind_as_str KFunction = ''function''"
| "symbol_kind_as_str KMethod = ''method''"
| "symbol_kind_as_str KStruct = ''struct''"
| "symbol_kind_as_str KEnum = ''enum''"
| "symbol_kind_as_str KTrait = ''trait''"
| "symbol_kind_as_str KTypeAlias = ''type''"
| "symbol_kind_as_str KModule = ''module''"
| "symbol_kind_as_str KTest = ''test''"
| "symbol_kind_as_str KImport = ''import''"

record symbol =
  sym_name :: rstr
  sym_kind :: symbol_kind
  sym_start_line :: nat
  sym_end_line :: nat
  sym_container :: "rstr option"
  sym_is_test :: bool

datatype symbol_relation_kind = Contains | Imports | References | Implements

record symbol_relation =
  sr_from :: rstr
  sr_to :: rstr
  sr_kind :: symbol_relation_kind

record symbol_match =
  sm_path :: rstr
  sm_symbol :: symbol
  sm_score :: nat

datatype symbol_relationship_kind =
  RDefinition | RCaller | RImplementation | RTest | RDependency | RImport | RModule

fun relationship_rank :: "symbol_relationship_kind \<Rightarrow> nat" where
  "relationship_rank RDefinition = 0"
| "relationship_rank RCaller = 1"
| "relationship_rank RImplementation = 2"
| "relationship_rank RTest = 3"
| "relationship_rank RDependency = 4"
| "relationship_rank RImport = 5"
| "relationship_rank RModule = 6"

lemma relationship_rank_inj: "relationship_rank a = relationship_rank b \<longleftrightarrow> a = b"
  by (cases a; cases b) simp_all

instantiation symbol_relationship_kind :: linorder
begin

definition less_eq_symbol_relationship_kind ::
    "symbol_relationship_kind \<Rightarrow> symbol_relationship_kind \<Rightarrow> bool" where
  "less_eq_symbol_relationship_kind a b \<longleftrightarrow> relationship_rank a \<le> relationship_rank b"

definition less_symbol_relationship_kind ::
    "symbol_relationship_kind \<Rightarrow> symbol_relationship_kind \<Rightarrow> bool" where
  "less_symbol_relationship_kind a b \<longleftrightarrow> relationship_rank a < relationship_rank b"

instance
  by standard (auto simp: less_eq_symbol_relationship_kind_def less_symbol_relationship_kind_def
      relationship_rank_inj)

end

record symbol_relationship_match =
  rm_path :: rstr
  rm_symbol :: "symbol option"
  rm_kind :: symbol_relationship_kind
  rm_score :: nat
  rm_ambiguous :: bool

subsection \<open>Words\<close>

text \<open>
  \<open>text.split(|c| P(c))\<close> for a predicate that separates at every non-ASCII character: the
  first byte of such a character ends a piece and its continuation bytes belong to no piece.
\<close>

fun split_chars_from :: "(char \<Rightarrow> bool) \<Rightarrow> rstr \<Rightarrow> rstr \<Rightarrow> rstr list" where
  "split_chars_from sep acc [] = [rev acc]"
| "split_chars_from sep acc (c # s) =
     (if is_continuation c then split_chars_from sep acc s
      else if sep c then rev acc # split_chars_from sep [] s
      else split_chars_from sep (c # acc) s)"

definition not_identifier :: "char \<Rightarrow> bool" where
  "not_identifier c = (\<not> is_ascii_alphanumeric c \<and> c \<noteq> CHR ''_'')"

definition not_alphanumeric :: "char \<Rightarrow> bool" where
  "not_alphanumeric c = (\<not> is_ascii_alphanumeric c)"

text \<open>The first \<open>n\<close> identifier words of more than one byte.\<close>

definition query_words :: "nat \<Rightarrow> rstr \<Rightarrow> rstr list" where
  "query_words n query = take n (filter (\<lambda>term. 1 < length term) (split_chars_from not_identifier [] query))"

definition eq_ignore_ascii_case :: "rstr \<Rightarrow> rstr \<Rightarrow> bool" where
  "eq_ignore_ascii_case a b = (to_ascii_lowercase a = to_ascii_lowercase b)"

text \<open>\<open>trim_end_matches(suffix)\<close> drops the suffix as often as it is there.\<close>

function trim_end_matches :: "rstr \<Rightarrow> rstr \<Rightarrow> rstr" where
  "trim_end_matches pat s =
     (if pat \<noteq> [] \<and> ends_with s pat then trim_end_matches pat (take (length s - length pat) s)
      else s)"
  by pat_completeness auto
termination
  by (relation "measure (\<lambda>(pat, s). length s)")
    (auto simp: ends_with_def intro: diff_less dest: order_less_le_trans [of 0] simp flip: length_greater_0_conv)

declare trim_end_matches.simps [simp del]

text \<open>\<open>path_stem\<close>, written alike in \<open>context_selection.rs\<close> and \<open>planner.rs\<close>.\<close>

definition path_stem :: "rstr \<Rightarrow> rstr" where
  "path_stem path = trim_end_matches ''_test'' (hd (split_on CHR ''.'' (last (split_on CHR ''/'' path))))"

definition related_path_stem :: "rstr \<Rightarrow> rstr \<Rightarrow> bool" where
  "related_path_stem left right = eq_ignore_ascii_case (path_stem left) (path_stem right)"

lemma query_words_length: "length (query_words n q) \<le> n"
  by (simp add: query_words_def)

lemma query_words_long: "t \<in> set (query_words n q) \<Longrightarrow> 1 < length t"
  by (auto simp: query_words_def dest: in_set_takeD)

end
