(* ===== verification/Repo_Types.thy ===== *)
theory Repo_Types
  imports Diagnostics Symbol_Types
begin

section \<open>The data of the repository map (aether-agent/src/repo\_map.rs)\<close>

text \<open>
  What the repository map retains of a workspace: tracked files, manifests, packages, documentation
  and scoped instructions, and the selections it answers with.  A \<open>PathBuf\<close> is its text; two paths
  are equal when their components are.
\<close>

subsection \<open>Paths of the standard library\<close>

definition path_eq :: "rstr \<Rightarrow> rstr \<Rightarrow> bool" where
  "path_eq p q = (path_components p = path_components q)"

fun render_components :: "path_component list \<Rightarrow> rstr" where
  "render_components [] = []"
| "render_components (RootDir # cs) = ''/'' @ render_components cs"
| "render_components (c # cs) =
     (case c of Normal part \<Rightarrow> part | ParentDir \<Rightarrow> ''..'' | _ \<Rightarrow> ''.'')
       @ (if cs = [] then [] else ''/'' @ render_components cs)"

text \<open>\<open>Path::parent\<close>, written without repeated separators.\<close>

definition path_parent :: "rstr \<Rightarrow> rstr option" where
  "path_parent p =
     (case rev (path_components p) of
        [] \<Rightarrow> None
      | RootDir # _ \<Rightarrow> None
      | _ # rest \<Rightarrow> Some (render_components (rev rest)))"

definition path_file_name :: "rstr \<Rightarrow> rstr option" where
  "path_file_name p = (case rev (path_components p) of Normal name # _ \<Rightarrow> Some name | _ \<Rightarrow> None)"

definition split_at_dot :: "rstr \<Rightarrow> rstr \<times> rstr option" where
  "split_at_dot name =
     (case rsplit_once CHR ''.'' name of
        None \<Rightarrow> (name, None)
      | Some (before, after) \<Rightarrow> if before = [] then (name, None) else (before, Some after))"

definition path_file_stem :: "rstr \<Rightarrow> rstr option" where
  "path_file_stem p = map_option (\<lambda>name. fst (split_at_dot name)) (path_file_name p)"

definition path_extension :: "rstr \<Rightarrow> rstr option" where
  "path_extension p = Option.bind (path_file_name p) (\<lambda>name. snd (split_at_dot name))"

definition path_ends_with :: "rstr \<Rightarrow> rstr \<Rightarrow> bool" where
  "path_ends_with p q = suffix (path_components q) (path_components p)"

text \<open>The order of paths: component by component.\<close>

definition path_order :: "rstr \<Rightarrow> (nat \<times> rstr) list" where
  "path_order p =
     map (\<lambda>c. case c of RootDir \<Rightarrow> (0, []) | CurDir \<Rightarrow> (1, []) | ParentDir \<Rightarrow> (2, []) | Normal part \<Rightarrow> (3, part))
       (path_components p)"

subsection \<open>Files and manifests\<close>

datatype repo_file_kind = RfManifest | RfInstruction | RfDocumentation | RfTest | RfSource | RfOther

record repo_file =
  rfile_path :: rstr
  rfile_kind :: repo_file_kind

datatype manifest_kind =
    MCargo | MNode | MPython | MGo | MJava | MSwift | MDotNet | MPhp | MRuby | MElixir | MOther

fun manifest_kind_as_str :: "manifest_kind \<Rightarrow> rstr" where
  "manifest_kind_as_str MCargo = ''cargo''"
| "manifest_kind_as_str MNode = ''node''"
| "manifest_kind_as_str MPython = ''python''"
| "manifest_kind_as_str MGo = ''go''"
| "manifest_kind_as_str MJava = ''java''"
| "manifest_kind_as_str MSwift = ''swift''"
| "manifest_kind_as_str MDotNet = ''.net''"
| "manifest_kind_as_str MPhp = ''php''"
| "manifest_kind_as_str MRuby = ''ruby''"
| "manifest_kind_as_str MElixir = ''elixir''"
| "manifest_kind_as_str MOther = ''other''"

datatype manifest_status = MsParsed | MsMalformed | MsUnreadable

fun manifest_status_as_str :: "manifest_status \<Rightarrow> rstr" where
  "manifest_status_as_str MsParsed = ''parsed''"
| "manifest_status_as_str MsMalformed = ''malformed''"
| "manifest_status_as_str MsUnreadable = ''unreadable''"

record manifest_info =
  mi_path :: rstr
  mi_kind :: manifest_kind
  mi_package_name :: "rstr option"
  mi_workspace_members :: "rstr list"
  mi_status :: manifest_status
  mi_truncated :: bool

record package_info =
  pk_name :: "rstr option"
  pk_root :: rstr
  pk_manifest :: rstr

record workspace_member =
  wsm_declared_by :: rstr
  wsm_pattern :: rstr
  wsm_manifest :: "rstr option"

datatype documentation_kind = DkReadme | DkMarkdown

record documentation_file =
  doc_path :: rstr
  doc_kind :: documentation_kind
  doc_preview :: "rstr option"
  doc_truncated :: bool

record scoped_instruction =
  ins_path :: rstr
  ins_scope :: rstr
  ins_content :: rstr
  ins_truncated :: bool

record repo_map_snapshot =
  rm_root :: rstr
  rm_tracked_file_count :: nat
  rm_tracked_files :: "repo_file list"
  rm_manifests :: "manifest_info list"
  rm_packages :: "package_info list"
  rm_workspace_members :: "workspace_member list"
  rm_source_roots :: "rstr list"
  rm_test_paths :: "rstr list"
  rm_documentation :: "documentation_file list"
  rm_instructions :: "scoped_instruction list"
  rm_truncated :: bool

subsection \<open>Selections\<close>

datatype selection_kind = SelFile | SelManifest | SelPackage | SelSourceRoot | SelTest | SelDocumentation
  | SelInstruction

record repo_symbol =
  sy_name :: rstr
  sy_kind :: symbol_kind
  sy_line :: nat
  sy_container :: "rstr option"

record repo_selection =
  se_path :: rstr
  se_kind :: selection_kind
  se_score :: nat
  se_symbol :: "repo_symbol option"

end
