(* ===== verification/Verification_Plan.thy ===== *)
theory Verification_Plan
  imports Repo_Types
begin

section \<open>Focused verification planning (aether-agent/src/verification.rs)\<close>

text \<open>
  The commands that check a set of modified paths, from the manifests and packages of the repository
  map, and the text by which a command is recognised again when the model runs it.
\<close>

subsection \<open>Planned commands\<close>

record planned_command =
  pc_program :: rstr
  pc_args :: "rstr list"
  pc_cwd :: rstr
  pc_scope :: rstr

definition bare_char :: "char \<Rightarrow> bool" where
  "bare_char c = (is_ascii_alphanumeric c \<or> c \<in> set ''-_=./:'')"

definition quote_char :: char where
  "quote_char = CHR 0x27"

definition escape_quotes :: "rstr \<Rightarrow> rstr" where
  "escape_quotes word =
     concat (map (\<lambda>c. if c = quote_char then [quote_char, CHR 0x5C, quote_char, quote_char] else [c]) word)"

definition shell_word :: "rstr \<Rightarrow> rstr" where
  "shell_word word =
     (if word \<noteq> [] \<and> list_all bare_char word then word
      else quote_char # escape_quotes word @ [quote_char])"

definition command_display :: "planned_command \<Rightarrow> rstr" where
  "command_display c = join '' '' (map shell_word (pc_program c # pc_args c))"

definition workflow_key :: "planned_command \<Rightarrow> rstr" where
  "workflow_key c =
     (if pc_cwd c = [] \<or> pc_cwd c = ''.'' then command_display c
      else ''[cwd='' @ shell_word (pc_cwd c) @ ''] '' @ command_display c)"

definition workflow_step :: "u32 \<Rightarrow> planned_command \<Rightarrow> verification_step" where
  "workflow_step revision c = verification_step_new (workflow_key c) (pc_scope c) revision"

record verification_plan =
  vp_commands :: "planned_command list"
  vp_unsupported :: bool
  vp_requires_broader :: bool

definition plan_default :: verification_plan where
  "plan_default = \<lparr>vp_commands = [], vp_unsupported = False, vp_requires_broader = False\<rparr>"

definition same_command :: "planned_command \<Rightarrow> planned_command \<Rightarrow> bool" where
  "same_command c d = (command_display c = command_display d \<and> pc_cwd c = pc_cwd d)"

definition push_unique :: "planned_command \<Rightarrow> verification_plan \<Rightarrow> verification_plan" where
  "push_unique c plan =
     (if list_ex (\<lambda>existing. same_command existing c) (vp_commands plan) then plan
      else plan\<lparr>vp_commands := vp_commands plan @ [c]\<rparr>)"

definition planned :: "rstr \<Rightarrow> rstr list \<Rightarrow> rstr \<Rightarrow> rstr \<Rightarrow> planned_command" where
  "planned program args cwd scope =
     \<lparr>pc_program = program, pc_args = args, pc_cwd = cwd, pc_scope = scope\<rparr>"

definition path_is_test :: "rstr \<Rightarrow> bool" where
  "path_is_test path =
     (list_ex (\<lambda>c. c \<in> set [Normal ''test'', Normal ''tests'', Normal ''__tests__'']) (path_components path)
      \<or> (case path_file_name path of
           None \<Rightarrow> False
         | Some name \<Rightarrow> starts_with name ''test_'' \<or> contains_str name ''.test.'' \<or> contains_str name ''.spec.''))"

definition plan_rust :: "repo_map_snapshot \<Rightarrow> rstr \<Rightarrow> rstr \<Rightarrow> verification_plan \<Rightarrow> verification_plan" where
  "plan_rust repo root path plan =
     (let package = Option.bind (find (\<lambda>p. path_eq (pk_root p) root) (rm_packages repo)) pk_name;
          scope = (case package of None \<Rightarrow> root | Some name \<Rightarrow> name);
          test = (case (if path_starts_with path (path_join root ''tests'') then path_file_stem path else None) of
             Some stem \<Rightarrow> planned ''cargo'' [''test'', ''--test'', stem] root scope
           | None \<Rightarrow>
               (case package of
                  Some name \<Rightarrow> planned ''cargo'' [''test'', ''-p'', name] [] scope
                | None \<Rightarrow> planned ''cargo'' [''test''] root scope));
          check = (case package of
             Some name \<Rightarrow> planned ''cargo'' [''check'', ''-p'', name] [] scope
           | None \<Rightarrow> planned ''cargo'' [''check''] root scope)
      in push_unique check (push_unique test plan))"

definition plan_node :: "rstr \<Rightarrow> rstr \<Rightarrow> verification_plan \<Rightarrow> verification_plan" where
  "plan_node root path plan =
     (let scope = (if root = [] then ''node package'' else root)
      in push_unique
           (if path_is_test path then planned ''npm'' [''test'', ''--'', path] root scope
            else planned ''npm'' [''test''] root scope) plan)"

definition plan_python :: "rstr \<Rightarrow> rstr \<Rightarrow> verification_plan \<Rightarrow> verification_plan" where
  "plan_python root path plan =
     (let scope = (if root = [] then ''python package'' else root)
      in push_unique (planned ''python'' [''-m'', ''compileall'', ''-q'', ''.''] root scope)
          (push_unique
            (if path_is_test path then planned ''python'' [''-m'', ''pytest'', path] root scope
             else planned ''python'' [''-m'', ''pytest''] root scope) plan))"

subsection \<open>Manifests\<close>

text \<open>\<open>max_by_key\<close> keeps the last of several maximal elements.\<close>

definition max_by_key :: "('a \<Rightarrow> nat) \<Rightarrow> 'a list \<Rightarrow> 'a option" where
  "max_by_key key xs =
     foldl (\<lambda>best x. case best of None \<Rightarrow> Some x | Some b \<Rightarrow> if key b \<le> key x then Some x else Some b) None xs"

definition parent_or_empty :: "rstr \<Rightarrow> rstr" where
  "parent_or_empty p = (case path_parent p of None \<Rightarrow> [] | Some parent \<Rightarrow> parent)"

definition nearest_manifest :: "repo_map_snapshot \<Rightarrow> rstr \<Rightarrow> manifest_info option" where
  "nearest_manifest repo path =
     max_by_key (\<lambda>m. length (path_components (mi_path m)))
       (filter (\<lambda>m. path_starts_with path (parent_or_empty (mi_path m))) (rm_manifests repo))"

definition supports_path :: "manifest_kind \<Rightarrow> rstr \<Rightarrow> rstr \<Rightarrow> bool" where
  "supports_path kind manifest path =
     (if path_eq path manifest then True
      else
        (case kind of
           MCargo \<Rightarrow> path_extension path = Some ''rs'' \<or> path_ends_with path ''Cargo.lock''
                    \<or> path_ends_with path ''Cargo.toml''
         | MNode \<Rightarrow>
             one_of (path_extension path) [''js'', ''jsx'', ''mjs'', ''cjs'', ''ts'', ''tsx'']
             \<or> one_of (path_file_name path) [''package-lock.json'', ''pnpm-lock.yaml'', ''yarn.lock'']
         | MPython \<Rightarrow>
             path_extension path = Some ''py''
             \<or> one_of (path_file_name path) [''uv.lock'', ''poetry.lock'', ''requirements.txt'']
         | _ \<Rightarrow> False))"

definition workspace_manifest :: "repo_map_snapshot \<Rightarrow> manifest_info option" where
  "workspace_manifest repo =
     find (\<lambda>m. mi_kind m = MCargo \<and> mi_workspace_members m \<noteq> []) (rm_manifests repo)"

definition requires_workspace_scope :: "repo_map_snapshot \<Rightarrow> manifest_info \<Rightarrow> rstr \<Rightarrow> bool" where
  "requires_workspace_scope repo manifest path =
     (if mi_kind manifest \<noteq> MCargo \<or> length (rm_packages repo) < 2 \<or> rm_workspace_members repo = []
      then False
      else
        (case workspace_manifest repo of
           None \<Rightarrow> False
         | Some workspace \<Rightarrow>
             (let workspace_root = parent_or_empty (mi_path workspace);
                  workspace_file = (path_eq path (mi_path workspace)
                    \<or> path_eq path (path_join workspace_root ''Cargo.lock''));
                  public_api = (list_ex (\<lambda>p. path_eq (pk_manifest p) (mi_path manifest)) (rm_packages repo)
                    \<and> one_of (path_file_name path) [''lib.rs'', ''mod.rs''])
              in workspace_file \<or> public_api)))"

definition plan_path :: "repo_map_snapshot \<Rightarrow> verification_plan \<Rightarrow> rstr \<Rightarrow> verification_plan" where
  "plan_path repo plan path =
     (case nearest_manifest repo path of
        None \<Rightarrow> plan
      | Some manifest \<Rightarrow>
          if \<not> supports_path (mi_kind manifest) (mi_path manifest) path then plan
          else
            (let plan = (if requires_workspace_scope repo manifest path
                         then plan\<lparr>vp_requires_broader := True\<rparr> else plan);
                 root = parent_or_empty (mi_path manifest)
             in case mi_kind manifest of
                  MCargo \<Rightarrow> plan_rust repo root path plan
                | MNode \<Rightarrow> plan_node root path plan
                | MPython \<Rightarrow> plan_python root path plan
                | _ \<Rightarrow> plan))"

definition broad_command :: "manifest_info \<Rightarrow> rstr list \<Rightarrow> planned_command" where
  "broad_command manifest modified =
     planned ''cargo''
       (if list_ex (\<lambda>path. path_eq path (mi_path manifest) \<or> path_ends_with path ''Cargo.lock'') modified
        then [''test'', ''--workspace''] else [''check'', ''--workspace''])
       [] ''workspace dependents''"

definition push_broad :: "planned_command \<Rightarrow> verification_plan \<Rightarrow> verification_plan" where
  "push_broad broad plan =
     (if list_ex (\<lambda>existing. same_command existing broad) (vp_commands plan) then plan
      else
        push_unique broad
          (if MAX_WORKFLOW_VERIFICATIONS \<le> length (vp_commands plan)
           then plan\<lparr>vp_commands := take (MAX_WORKFLOW_VERIFICATIONS - 1) (vp_commands plan)\<rparr>
           else plan))"

definition plan_verification :: "repo_map_snapshot \<Rightarrow> rstr list \<Rightarrow> verification_plan" where
  "plan_verification repo modified =
     (let plan = foldl (plan_path repo) plan_default modified;
          plan = (if vp_commands plan = []
                  then push_unique (planned ''git'' [''diff'', ''--check''] [] ''workspace diff'')
                         (plan\<lparr>vp_unsupported := True\<rparr>)
                  else plan);
          plan = (if vp_requires_broader plan then
                    (case workspace_manifest repo of
                       None \<Rightarrow> plan
                     | Some manifest \<Rightarrow> push_broad (broad_command manifest modified) plan)
                  else plan)
      in plan\<lparr>vp_commands := take MAX_WORKFLOW_VERIFICATIONS (vp_commands plan)\<rparr>)"

end
