(* ===== verification/Context_Engine.thy ===== *)
theory Context_Engine
  imports Verification_Plan Work_Outline
begin

section \<open>The context engine (aether-agent/src/context.rs)\<close>

text \<open>
  The working context of one session and how every completed tool call changes it: files inspected
  and their hashes, excerpts, paths the agent or the user changed, the workflow.  Line numbers and
  sizes are \<open>usize\<close> values; \<open>u64 as usize\<close> keeps the value on the 64-bit targets.

  Not under src/, hence parameters, in a record \<open>workspace_env\<close>: the file system at the moment of an
  observation, blake3 in hex, and what the repository map reads of the workspace (\<open>env_repo\<close>: the
  result of \<open>RepoMap::snapshot\<close> for a root, \<open>None\<close> on an error).  A slice of a text at a byte that is
  not a character boundary panics; an operation that can panic returns an option.
\<close>

definition MAX_AUTOMATIC_EVIDENCE_FILES :: nat where "MAX_AUTOMATIC_EVIDENCE_FILES = 8"
definition MAX_AUTOMATIC_SOURCE_BYTES :: nat where "MAX_AUTOMATIC_SOURCE_BYTES = 4 * 1024 * 1024"
definition MAX_AUTOMATIC_SOURCE_LINES :: nat where "MAX_AUTOMATIC_SOURCE_LINES = 96"
definition AUTOMATIC_DIAGNOSTIC_LINES_BEFORE :: nat where "AUTOMATIC_DIAGNOSTIC_LINES_BEFORE = 4"
definition AUTOMATIC_DIAGNOSTIC_LINES_AFTER :: nat where "AUTOMATIC_DIAGNOSTIC_LINES_AFTER = 8"

lemmas automatic_limits = MAX_AUTOMATIC_EVIDENCE_FILES_def MAX_AUTOMATIC_SOURCE_BYTES_def
  MAX_AUTOMATIC_SOURCE_LINES_def AUTOMATIC_DIAGNOSTIC_LINES_BEFORE_def
  AUTOMATIC_DIAGNOSTIC_LINES_AFTER_def

subsection \<open>The workspace as the engine sees it\<close>

datatype file_kind = RegularFile | SymbolicLink | OtherFile

record workspace_env =
  env_canonicalize :: "rstr \<Rightarrow> rstr option"
  env_symlink_metadata :: "rstr \<Rightarrow> file_kind option"
  env_read :: "rstr \<Rightarrow> rstr option"
  env_blake3_hex :: "rstr \<Rightarrow> rstr"
  env_repo :: "rstr \<Rightarrow> repo_map_snapshot option"

text \<open>The steps the three readers share: the canonical path of a regular file inside the root.\<close>

definition canonical_file :: "workspace_env \<Rightarrow> rstr \<Rightarrow> rstr \<Rightarrow> rstr option" where
  "canonical_file env root relative =
     (case env_canonicalize env root of
        None \<Rightarrow> None
      | Some canonical_root \<Rightarrow>
          (let path = path_join root relative
           in if env_symlink_metadata env path \<noteq> Some RegularFile then None
              else
                (case env_canonicalize env path of
                   None \<Rightarrow> None
                 | Some canonical \<Rightarrow>
                     if path_starts_with canonical canonical_root then Some canonical else None)))"

definition live_file_hash :: "workspace_env \<Rightarrow> rstr \<Rightarrow> rstr \<Rightarrow> rstr option" where
  "live_file_hash env root relative =
     (case workspace_path_new relative of
        Inl _ \<Rightarrow> None
      | Inr relative \<Rightarrow>
          (case Option.bind (canonical_file env root relative) (env_read env) of
             None \<Rightarrow> None
           | Some bytes \<Rightarrow>
               if 4 * 1024 * 1024 < length bytes then None else Some (env_blake3_hex env bytes)))"

text \<open>Lines are appended with a line feed before each but into an empty text.\<close>

definition push_line :: "rstr \<Rightarrow> rstr \<Rightarrow> rstr" where
  "push_line text line = (if text \<noteq> [] then text @ newline else text) @ line"

definition usize_saturating_add :: "nat \<Rightarrow> nat \<Rightarrow> nat" where
  "usize_saturating_add a b = min (a + b) (2 ^ 64 - 1)"

text \<open>The window of lines, and what is cut out of the text.\<close>

definition excerpt_window :: "line_range option \<Rightarrow> nat \<times> nat" where
  "excerpt_window focus =
     (case focus of
        None \<Rightarrow> (1, MAX_AUTOMATIC_SOURCE_LINES)
      | Some r \<Rightarrow> (max (max (lr_start r) 1 - AUTOMATIC_DIAGNOSTIC_LINES_BEFORE) 1,
                   usize_saturating_add (lr_end r) AUTOMATIC_DIAGNOSTIC_LINES_AFTER))"

definition auto_excerpt_of ::
  "rstr \<Rightarrow> rstr \<Rightarrow> rstr list \<Rightarrow> line_range option \<Rightarrow> file_excerpt option" where
  "auto_excerpt_of path hash ls focus =
     (let (start, requested_end) = excerpt_window focus
      in if ls = [] \<or> length ls < start then None
         else
           (let end_line = min (min requested_end (length ls))
                  (usize_saturating_add start (MAX_AUTOMATIC_SOURCE_LINES - 1));
                selected = drop (start - 1) (take end_line ls);
                bounded_excerpt = bounded_new (foldl push_line [] selected) MAX_EXCERPT_BYTES;
                selected_end = usize_saturating_add start (length selected) - 1
            in Some \<lparr>fe_path = path, fe_start_line = start, fe_end_line = selected_end,
                     fe_text = bounded_excerpt, fe_content_hash = Some hash,
                     fe_truncated = (is_truncated bounded_excerpt \<or> selected_end < length ls)\<rparr>))"

definition read_auto_excerpt ::
  "workspace_env \<Rightarrow> rstr \<Rightarrow> rstr \<Rightarrow> line_range option \<Rightarrow> file_excerpt option" where
  "read_auto_excerpt env root relative focus =
     (case workspace_path_new relative of
        Inl _ \<Rightarrow> None
      | Inr relative \<Rightarrow>
          (case Option.bind (canonical_file env root relative) (env_read env) of
             None \<Rightarrow> None
           | Some bytes \<Rightarrow>
               if MAX_AUTOMATIC_SOURCE_BYTES < length bytes \<or> CHR 0x00 \<in> set bytes \<or> \<not> utf8_valid bytes
               then None
               else auto_excerpt_of (workspace_path_display relative) (env_blake3_hex env bytes)
                      (lines bytes) focus))"

subsection \<open>Paths\<close>

definition path_is_workspace_relative :: "rstr \<Rightarrow> bool" where
  "path_is_workspace_relative path = (case workspace_path_new path of Inl _ \<Rightarrow> False | Inr _ \<Rightarrow> True)"

definition portable_workspace_path :: "rstr \<Rightarrow> rstr option" where
  "portable_workspace_path path =
     (case workspace_path_new path of Inl _ \<Rightarrow> None | Inr p \<Rightarrow> Some (workspace_path_display p))"

definition is_path_parent :: "rstr \<Rightarrow> rstr \<Rightarrow> bool" where
  "is_path_parent parent child =
     (let parent = rev (dropWhile (\<lambda>c. c = CHR ''/'') (rev parent))
      in case strip_prefix child parent of None \<Rightarrow> False | Some rest \<Rightarrow> starts_with rest ''/'')"

definition paths_overlap :: "rstr \<Rightarrow> rstr \<Rightarrow> bool" where
  "paths_overlap left right = (left = right \<or> is_path_parent left right \<or> is_path_parent right left)"

text \<open>\<open>dirty_paths\<close>: the slice \<open>line[2..]\<close> panics inside a character.\<close>

definition status_line_path :: "rstr \<Rightarrow> rstr" where
  "status_line_path line =
     (let entry = trim (drop 2 line)
      in trim (case rfind_str entry '' -> '' of None \<Rightarrow> entry | Some i \<Rightarrow> drop (i + 4) entry))"

fun dirty_paths_from :: "rstr list \<Rightarrow> rstr list \<Rightarrow> rstr list option" where
  "dirty_paths_from [] paths = Some paths"
| "dirty_paths_from (line # ls) paths =
     (if starts_with line ''## '' \<or> length line < 3 then dirty_paths_from ls paths
      else if \<not> is_char_boundary line 2 then None
      else
        (let path = status_line_path line
         in dirty_paths_from ls
              (if path_is_workspace_relative path \<and> path \<notin> set paths
                  \<and> length paths < MAX_USER_MODIFIED_FILES
               then paths @ [path] else paths)))"

definition dirty_paths :: "rstr \<Rightarrow> rstr list option" where
  "dirty_paths status = dirty_paths_from (dropWhile (\<lambda>line. starts_with line ''## '') (lines status)) []"

subsection \<open>Keeping the snapshot: files, excerpts, summaries\<close>

text \<open>Appending and then removing the first entry when the list is too long.\<close>

definition push_evicting :: "nat \<Rightarrow> 'a list \<Rightarrow> 'a \<Rightarrow> 'a list" where
  "push_evicting limit xs x = (if limit < length (xs @ [x]) then tl (xs @ [x]) else xs @ [x])"

definition record_user_modified :: "rstr \<Rightarrow> context_snapshot \<Rightarrow> context_snapshot" where
  "record_user_modified path s =
     (if \<not> path_is_workspace_relative path \<or> path \<in> set (cs_modified s) \<or> path \<in> set (cs_user_modified s)
      then s
      else s\<lparr>cs_user_modified := push_evicting MAX_USER_MODIFIED_FILES (cs_user_modified s) path\<rparr>)"

definition record_user_modified_from_status ::
  "rstr \<Rightarrow> context_snapshot \<Rightarrow> context_snapshot option" where
  "record_user_modified_from_status status s =
     map_option (\<lambda>paths. fold record_user_modified (take MAX_USER_MODIFIED_FILES paths) s) (dirty_paths status)"

definition touch_inspected ::
  "rstr option \<Rightarrow> line_range option \<Rightarrow> observed_file_state \<Rightarrow> inspected_file \<Rightarrow> inspected_file" where
  "touch_inspected hash range_read last_state f =
     f\<lparr>if_content_hash := (case hash of None \<Rightarrow> if_content_hash f | Some h \<Rightarrow> Some h),
       if_last_state := last_state, if_stale := False,
       if_ranges := (case range_read of None \<Rightarrow> if_ranges f
                     | Some r \<Rightarrow> merge_line_ranges (if_ranges f @ [r]))\<rparr>"

definition drop_excerpts :: "rstr \<Rightarrow> context_snapshot \<Rightarrow> context_snapshot" where
  "drop_excerpts path s = s\<lparr>cs_excerpts := filter (\<lambda>e. fe_path e \<noteq> path) (cs_excerpts s)\<rparr>"

definition upsert_inspected ::
  "rstr \<Rightarrow> rstr option \<Rightarrow> line_range option \<Rightarrow> observed_file_state \<Rightarrow> context_snapshot \<Rightarrow> context_snapshot" where
  "upsert_inspected path hash range_read last_state s =
     (case portable_workspace_path path of
        None \<Rightarrow> s
      | Some path \<Rightarrow>
          (case find (\<lambda>f. if_path f = path) (cs_inspected s) of
             Some existing \<Rightarrow>
               (let hash_changed = (hash \<noteq> None \<and> if_content_hash existing \<noteq> None
                                    \<and> if_content_hash existing \<noteq> hash);
                    s = s\<lparr>cs_inspected := update_first (\<lambda>f. if_path f = path)
                            (touch_inspected hash range_read last_state) (cs_inspected s)\<rparr>
                in if hash_changed then drop_excerpts path s else s)
           | None \<Rightarrow>
               s\<lparr>cs_inspected := push_evicting MAX_INSPECTED_FILES (cs_inspected s)
                    \<lparr>if_path = path, if_content_hash = hash,
                     if_ranges = (case range_read of None \<Rightarrow> [] | Some r \<Rightarrow> [r]),
                     if_last_state = last_state, if_stale = False\<rparr>\<rparr>))"

definition record_modified :: "rstr \<Rightarrow> context_snapshot \<Rightarrow> context_snapshot" where
  "record_modified path s =
     (let modified = (if path \<in> set (cs_modified s) then cs_modified s else cs_modified s @ [path])
      in s\<lparr>cs_modified := (if MAX_CONTEXT_ITEMS < length modified then tl modified else modified)\<rparr>)"

definition push_summary :: "compact_tool_summary \<Rightarrow> context_snapshot \<Rightarrow> context_snapshot" where
  "push_summary summary s =
     s\<lparr>cs_tool_summaries := push_evicting MAX_STORED_TOOL_SUMMARIES (cs_tool_summaries s) summary\<rparr>"

definition same_window :: "file_excerpt \<Rightarrow> file_excerpt \<Rightarrow> bool" where
  "same_window a b = (fe_path a = fe_path b \<and> fe_start_line a = fe_start_line b
                      \<and> fe_end_line a = fe_end_line b)"

definition push_excerpt :: "file_excerpt \<Rightarrow> context_snapshot \<Rightarrow> context_snapshot" where
  "push_excerpt excerpt s =
     s\<lparr>cs_excerpts := push_evicting MAX_FILE_EXCERPTS
         (filter (\<lambda>existing. \<not> same_window existing excerpt) (cs_excerpts s)) excerpt\<rparr>"

abbreviation on_workflow :: "(workflow_state \<Rightarrow> workflow_state) \<Rightarrow> context_snapshot \<Rightarrow> context_snapshot" where
  "on_workflow f s \<equiv> s\<lparr>cs_workflow := f (cs_workflow s)\<rparr>"

definition on_progress :: "(workflow_progress \<Rightarrow> workflow_progress) \<Rightarrow> context_snapshot \<Rightarrow> context_snapshot" where
  "on_progress f s = on_workflow (\<lambda>w. w\<lparr>wk_progress := f (wk_progress w)\<rparr>) s"

definition any_stale :: "context_snapshot \<Rightarrow> bool" where
  "any_stale s = list_ex if_stale (cs_inspected s)"

definition context_enforce_bounds :: "context_snapshot \<Rightarrow> context_snapshot" where
  "context_enforce_bounds s =
     (let s = s\<lparr>cs_inspected := take MAX_INSPECTED_FILES (cs_inspected s),
                cs_excerpts := take MAX_FILE_EXCERPTS (cs_excerpts s),
                cs_tool_summaries := take MAX_STORED_TOOL_SUMMARIES (cs_tool_summaries s),
                cs_modified := take MAX_CONTEXT_ITEMS (cs_modified s)\<rparr>;
          s = on_workflow workflow_enforce_bounds s
      in on_workflow (sync_director (cs_modified s) (cs_workspace_changed s \<or> any_stale s)) s)"

definition record_relevant_path :: "rstr \<Rightarrow> context_snapshot \<Rightarrow> context_snapshot" where
  "record_relevant_path path s =
     (if path_is_workspace_relative path
      then on_workflow (record_relevant_file_with_provenance ProvToolOutput path) s else s)"

subsection \<open>Reading what tools report\<close>

definition strings_at :: "json list \<Rightarrow> rstr \<Rightarrow> rstr list" where
  "strings_at items key = List.map_filter (\<lambda>item. str_at item key) items"

definition relevant_paths_of :: "rstr \<Rightarrow> json \<Rightarrow> rstr list" where
  "relevant_paths_of name data =
     (if name = ''list'' then
        strings_at (filter (\<lambda>entry. str_at entry ''file_type'' = Some ''file'')
          (or_else (array_at data ''entries'') [])) ''path''
      else if name = ''find'' then List.map_filter json_as_str (or_else (array_at data ''paths'') [])
      else if name = ''search'' then strings_at (or_else (array_at data ''matches'') []) ''path''
      else if name = ''read'' \<or> name = ''patch'' then strings_at (or_else (array_at data ''files'') []) ''path''
      else if name = ''write'' then (case str_at data ''path'' of None \<Rightarrow> [] | Some path \<Rightarrow> [path])
      else [])"

definition observe_relevant :: "rstr \<Rightarrow> json \<Rightarrow> tool_result \<Rightarrow> context_snapshot \<Rightarrow> context_snapshot" where
  "observe_relevant name input result s =
     (if \<not> tr_ok result then s
      else
        (case tr_data result of
           None \<Rightarrow>
             (case (if name = ''write'' then str_at input ''path'' else None) of
                None \<Rightarrow> s | Some path \<Rightarrow> record_relevant_path path s)
         | Some data \<Rightarrow> fold record_relevant_path (relevant_paths_of name data) s))"

definition read_contains_files :: "tool_result \<Rightarrow> bool" where
  "read_contains_files result =
     (case Option.bind (tr_data result) (\<lambda>data. array_at data ''files'') of
        None \<Rightarrow> False | Some files \<Rightarrow> files \<noteq> [])"

definition line_numbers :: "json list \<Rightarrow> nat list" where
  "line_numbers ls = List.map_filter (\<lambda>line. Option.bind (json_get line ''number'') json_as_u64) ls"

text \<open>The smallest and the largest number seen, folded over the lines.\<close>

definition line_range_from_read :: "json list \<Rightarrow> line_range option" where
  "line_range_from_read ls =
     (case line_numbers ls of
        [] \<Rightarrow> None
      | n # ns \<Rightarrow> Some \<lparr>lr_start = foldl min n ns, lr_end = foldl max n ns\<rparr>)"

fun excerpt_text_from :: "rstr \<Rightarrow> json list \<Rightarrow> rstr" where
  "excerpt_text_from text [] = text"
| "excerpt_text_from text (line # ls) =
     (let text = push_line text (or_else (str_at line ''text'') [])
      in if MAX_EXCERPT_BYTES \<le> length text then text else excerpt_text_from text ls)"

definition excerpt_from_lines :: "json list \<Rightarrow> rstr option" where
  "excerpt_from_lines ls =
     (let text = excerpt_text_from [] ls in if text = [] then None else Some text)"

definition observe_read_file :: "json \<Rightarrow> context_snapshot \<Rightarrow> context_snapshot" where
  "observe_read_file file s =
     (case Option.bind (str_at file ''path'') portable_workspace_path of
        None \<Rightarrow> s
      | Some path \<Rightarrow>
          (let hash = str_at file ''content_hash'';
               ls = array_at file ''lines'';
               range_read = Option.bind ls line_range_from_read;
               s = upsert_inspected path hash range_read OPresent s
           in case (range_read, Option.bind ls excerpt_from_lines) of
                (Some r, Some text) \<Rightarrow>
                  push_excerpt
                    \<lparr>fe_path = path, fe_start_line = lr_start r, fe_end_line = lr_end r,
                     fe_text = bounded_new text MAX_EXCERPT_BYTES, fe_content_hash = hash,
                     fe_truncated = flag_at file ''truncated''\<rparr> s
              | _ \<Rightarrow> s))"

definition observe_read :: "tool_result \<Rightarrow> context_snapshot \<Rightarrow> context_snapshot" where
  "observe_read result s =
     (case Option.bind (tr_data result) (\<lambda>data. array_at data ''files'') of
        None \<Rightarrow> s | Some files \<Rightarrow> fold observe_read_file files s)"

definition observe_replaced :: "rstr \<Rightarrow> rstr option \<Rightarrow> context_snapshot \<Rightarrow> context_snapshot" where
  "observe_replaced path hash s =
     drop_excerpts path (record_modified path (upsert_inspected path hash None OPresent s))"

definition observe_write :: "json \<Rightarrow> tool_result \<Rightarrow> context_snapshot \<Rightarrow> context_snapshot" where
  "observe_write input result s =
     (case (case Option.bind (tr_data result) (\<lambda>data. str_at data ''path'') of
              Some path \<Rightarrow> Some path | None \<Rightarrow> str_at input ''path'') of
        None \<Rightarrow> s
      | Some path \<Rightarrow>
          if \<not> path_is_workspace_relative path \<or> \<not> tr_ok result then s
          else observe_replaced path (Option.bind (tr_data result) (\<lambda>data. str_at data ''hash'')) s)"

definition observe_patch_file :: "bool \<Rightarrow> json \<Rightarrow> context_snapshot \<Rightarrow> context_snapshot" where
  "observe_patch_file success file s =
     (case str_at file ''path'' of
        None \<Rightarrow> s
      | Some path \<Rightarrow>
          if \<not> path_is_workspace_relative path \<or> \<not> success then s
          else observe_replaced path (str_at file ''new_hash'') s)"

definition observe_patch :: "tool_result \<Rightarrow> context_snapshot \<Rightarrow> context_snapshot" where
  "observe_patch result s =
     (case tr_data result of
        None \<Rightarrow> s
      | Some data \<Rightarrow>
          (case array_at data ''files'' of
             None \<Rightarrow> s
           | Some files \<Rightarrow>
               if flag_at data ''dry_run'' then s
               else fold (observe_patch_file (tr_ok result)) files s))"

text \<open>\<open>find_map\<close> over the lines of the status; the branch name ends at a blank or a dot.\<close>

definition branch_of :: "rstr \<Rightarrow> rstr option" where
  "branch_of line =
     map_option (takeWhile (\<lambda>c. c \<notin> set '' .'')) (strip_prefix line ''## '')"

definition observe_git :: "tool_result \<Rightarrow> context_snapshot \<Rightarrow> context_snapshot option" where
  "observe_git result s =
     (case tr_data result of
        None \<Rightarrow> Some s
      | Some data \<Rightarrow>
          (let stdout = or_else (str_at data ''stdout'') [];
               branch = Option.bind (find (\<lambda>line. branch_of line \<noteq> None) (lines stdout)) branch_of
           in record_user_modified_from_status stdout
                (s\<lparr>cs_git := Some \<lparr>gs_branch = branch, gs_status = bounded_new stdout MAX_GIT_SNAPSHOT_BYTES,
                                   gs_available = tr_ok result\<rparr>\<rparr>)))"

subsection \<open>What an action was\<close>

definition command_effects_for_input :: "json \<Rightarrow> command_effects option" where
  "command_effects_for_input input =
     (case str_at input ''program'' of
        None \<Rightarrow> None
      | Some program \<Rightarrow>
          map_option (\<lambda>args. analyze_command program args (or_else (str_at input ''cwd'') []))
            (case json_get input ''args'' of
               None \<Rightarrow> Some []
             | Some v \<Rightarrow> Option.bind (json_as_array v) (\<lambda>items. those (map json_as_str items))))"

definition command_effects_for_tool :: "rstr \<Rightarrow> json \<Rightarrow> command_effects option" where
  "command_effects_for_tool name input =
     (if name \<noteq> ''shell'' \<and> name \<noteq> ''process'' then None
      else if name = ''process'' \<and> (case str_at input ''operation'' of
                None \<Rightarrow> False | Some operation \<Rightarrow> operation \<noteq> ''start'') then None
      else command_effects_for_input input)"

definition is_verification_command :: "json \<Rightarrow> bool" where
  "is_verification_command input =
     (case command_effects_for_input input of None \<Rightarrow> False | Some e \<Rightarrow> is_verification (ce_class e))"

definition is_workspace_mutation :: "rstr \<Rightarrow> command_effects option \<Rightarrow> bool" where
  "is_workspace_mutation name effects =
     (name = ''write'' \<or> name = ''patch''
      \<or> (name = ''shell'' \<or> name = ''process'')
        \<and> (case effects of None \<Rightarrow> False | Some e \<Rightarrow> ce_uncertain e \<or> is_mutation (ce_class e)))"

definition has_items :: "json option \<Rightarrow> bool" where
  "has_items files = (case Option.bind files json_as_array of None \<Rightarrow> False | Some items \<Rightarrow> items \<noteq> [])"

definition mutation_applied ::
  "rstr \<Rightarrow> json \<Rightarrow> tool_result \<Rightarrow> command_effects option \<Rightarrow> bool" where
  "mutation_applied name input result effects =
     (if \<not> tr_ok result \<or> \<not> is_workspace_mutation name effects then False
      else if name = ''patch'' \<and> (case tr_data result of None \<Rightarrow> False | Some data \<Rightarrow> flag_at data ''dry_run'')
      then False
      else name = ''shell'' \<or> name = ''process'' \<or> name = ''write''
           \<or> has_items (Option.bind (tr_data result) (\<lambda>data. json_get data ''files''))
           \<or> has_items (json_get input ''files''))"

definition push_mutation_path :: "rstr list \<Rightarrow> rstr \<Rightarrow> rstr list" where
  "push_mutation_path paths path =
     (if path_is_workspace_relative path \<and> path \<notin> set paths \<and> length paths < MAX_CONTEXT_ITEMS
      then paths @ [path] else paths)"

definition option_list :: "'a option \<Rightarrow> 'a list" where
  "option_list x = (case x of None \<Rightarrow> [] | Some y \<Rightarrow> [y])"

definition mutation_paths ::
  "rstr \<Rightarrow> json \<Rightarrow> tool_result \<Rightarrow> command_effects option \<Rightarrow> rstr list" where
  "mutation_paths name input result effects =
     foldl push_mutation_path []
       ((if name = ''write''
         then option_list (str_at input ''path'')
              @ option_list (Option.bind (tr_data result) (\<lambda>data. str_at data ''path''))
         else [])
        @ (if name = ''patch''
           then strings_at (or_else (Option.bind (tr_data result) (\<lambda>data. array_at data ''files'')) []) ''path''
           else [])
        @ (case effects of None \<Rightarrow> [] | Some e \<Rightarrow> ce_paths e @ ce_manifests e))"

definition failure_category :: "rstr \<Rightarrow> rstr \<Rightarrow> tool_result \<Rightarrow> workflow_failure_category" where
  "failure_category name code result =
     (let output = to_ascii_lowercase (as_str (tr_output result))
      in if code = ''patch_conflict'' \<or> code = ''context_mismatch'' then FPatchConflict
         else if code = ''concurrent_modification'' \<and> name = ''patch'' then FPatchConflict
         else if code \<in> set [''insufficient_evidence'', ''inspection_required'', ''concurrent_modification'']
         then FStaleEvidence
         else if code = ''permission_denied'' \<or> code = ''permission_required'' then FPermission
         else if code \<in> set [''cancelled'', ''timeout'', ''process_limit''] then FEnvironment
         else if code = ''verification_mismatch'' \<or> code = ''verification_scope_mismatch''
         then FVerificationMismatch
         else if code = ''verification_failed'' then
           (if list_ex (contains_str output) [''could not compile'', ''error['', ''rustc''] then FCompiler
            else if list_ex (contains_str output) [''test failed'', ''assertion'', ''panicked''] then FTest
            else FVerification)
         else if name = ''shell'' \<or> name = ''process'' then FCommand
         else FTool)"

definition read_targets_modified :: "json \<Rightarrow> rstr list \<Rightarrow> bool" where
  "read_targets_modified input modified =
     (case array_at input ''files'' of
        None \<Rightarrow> False
      | Some files \<Rightarrow> list_ex (\<lambda>path. path \<in> set modified) (strings_at files ''path''))"

definition is_focused_verification :: "context_snapshot \<Rightarrow> rstr \<Rightarrow> json \<Rightarrow> bool" where
  "is_focused_verification s name input =
     (if \<not> verification_open (cs_workflow s) then False
      else if name = ''read'' then read_targets_modified input (cs_modified s)
      else if name = ''git'' then str_at input ''operation'' \<in> {Some ''status'', Some ''diff''}
      else if name = ''shell'' then is_verification_command input
      else False)"

definition shell_command_display :: "json \<Rightarrow> rstr option" where
  "shell_command_display input =
     (case str_at input ''program'' of
        None \<Rightarrow> None
      | Some program \<Rightarrow>
          Some (workflow_key
            \<lparr>pc_program = program,
             pc_args = (case array_at input ''args'' of None \<Rightarrow> [] | Some args \<Rightarrow> List.map_filter json_as_str args),
             pc_cwd = or_else (str_at input ''cwd'') [], pc_scope = []\<rparr>))"

definition verification_passed :: "rstr \<Rightarrow> tool_result \<Rightarrow> bool" where
  "verification_passed name result =
     (if \<not> tr_ok result then False
      else if name = ''read'' then read_contains_files result
      else if name = ''shell'' \<or> name = ''git''
      then (case tr_data result of None \<Rightarrow> False | Some data \<Rightarrow> flag_at data ''success'')
      else True)"

definition verification_message :: "tool_result \<Rightarrow> rstr" where
  "verification_message result =
     (case tr_error result of None \<Rightarrow> as_str (tr_output result) | Some e \<Rightarrow> err_message e)"

definition failure_target :: "json \<Rightarrow> rstr" where
  "failure_target input =
     (case str_at input ''path'' of
        Some target \<Rightarrow> target
      | None \<Rightarrow>
     (case str_at input ''program'' of
        Some target \<Rightarrow> target
      | None \<Rightarrow>
     (case str_at input ''operation'' of
        Some target \<Rightarrow> target
      | None \<Rightarrow>
     (case array_at input ''files'' of
        Some (file # _) \<Rightarrow> or_else (str_at file ''path'') ''operation''
      | _ \<Rightarrow> ''operation''))))"

definition workflow_failure_key :: "rstr \<Rightarrow> json \<Rightarrow> rstr" where
  "workflow_failure_key name input =
     (let key = as_str (bounded_new name (MAX_WORKFLOW_FIELD_BYTES - 1));
          key = (if length key < MAX_WORKFLOW_FIELD_BYTES then key @ '':'' else key)
      in key @ as_str (bounded_new (failure_target input) (MAX_WORKFLOW_FIELD_BYTES - length key)))"

subsection \<open>The engine\<close>

text \<open>The repository map is its root; its cache holds nothing the engine reads.\<close>

record context_engine =
  ce_snapshot :: context_snapshot
  ce_repo_map :: "rstr option"

definition map_of_root :: "rstr \<Rightarrow> rstr option" where
  "map_of_root root = (if root = [] then None else Some root)"

definition engine_new :: "rstr \<Rightarrow> rstr option \<Rightarrow> context_engine" where
  "engine_new workspace_root model =
     \<lparr>ce_snapshot = snapshot_new workspace_root model, ce_repo_map = map_of_root workspace_root\<rparr>"

definition engine_restore :: "context_snapshot \<Rightarrow> context_engine" where
  "engine_restore s =
     (let s = s\<lparr>cs_inspected := take MAX_INSPECTED_FILES (cs_inspected s),
                cs_excerpts := take MAX_FILE_EXCERPTS (cs_excerpts s),
                cs_tool_summaries := take MAX_STORED_TOOL_SUMMARIES (cs_tool_summaries s),
                cs_modified := take MAX_CONTEXT_ITEMS (cs_modified s),
                cs_user_modified := filter (\<lambda>p. p \<noteq> [] \<and> length p \<le> MAX_CONTEXT_PATH_BYTES)
                  (take MAX_USER_MODIFIED_FILES (cs_user_modified s)),
                cs_rendered_fingerprints :=
                  filter (\<lambda>f. f \<noteq> [] \<and> length f \<le> MAX_CONTEXT_FINGERPRINT_BYTES)
                    (take MAX_CONTEXT_FINGERPRINTS (cs_rendered_fingerprints s))\<rparr>;
          s = on_workflow workflow_enforce_bounds s;
          stale_evidence = (cs_workspace_changed s \<or> any_stale s);
          s = on_workflow (sync_director (cs_modified s) stale_evidence) s
      in \<lparr>ce_snapshot = s, ce_repo_map = map_of_root (cs_workspace_root s)\<rparr>)"

abbreviation on_snapshot :: "(context_snapshot \<Rightarrow> context_snapshot) \<Rightarrow> context_engine \<Rightarrow> context_engine" where
  "on_snapshot f e \<equiv> e\<lparr>ce_snapshot := f (ce_snapshot e)\<rparr>"

text \<open>A new revision of the task reopens it.\<close>

definition after_task_update :: "u32 \<Rightarrow> context_snapshot \<Rightarrow> context_snapshot" where
  "after_task_update before s =
     (let w = cs_workflow s;
          w = w\<lparr>wk_task_revision := w_task_revision (wk_work w)\<rparr>;
          w = (if wk_task_revision w \<noteq> before
               then w\<lparr>wk_completed_task_revision := None, wk_phase := PDiscover,
                      wk_recovery := recovery_clear (wk_recovery w)\<rparr>
               else w)
      in s\<lparr>cs_workflow := sync_director (cs_modified s) False w\<rparr>)"

definition on_work :: "(work_state \<Rightarrow> work_state) \<Rightarrow> context_snapshot \<Rightarrow> context_snapshot" where
  "on_work f s = on_workflow (\<lambda>w. w\<lparr>wk_work := f (wk_work w)\<rparr>) s"

definition set_task :: "(rstr \<Rightarrow> rstr) \<Rightarrow> rstr \<Rightarrow> context_snapshot \<Rightarrow> context_snapshot" where
  "set_task digest prompt s =
     (let before = w_task_revision (wk_work (cs_workflow s));
          s = s\<lparr>cs_current_task := bounded_new prompt MAX_TASK_BYTES\<rparr>
      in after_task_update before (on_work (initialize_from_prompt digest prompt) s))"

definition set_constraints :: "(rstr \<Rightarrow> rstr) \<Rightarrow> rstr list \<Rightarrow> context_snapshot \<Rightarrow> context_snapshot" where
  "set_constraints digest constraints s =
     (let prompt = as_str (cs_current_task s);
          before = w_task_revision (wk_work (cs_workflow s))
      in after_task_update before (on_work (apply_task_update digest prompt (Some constraints)) s))"

definition apply_model_work_update :: "json \<Rightarrow> context_snapshot \<Rightarrow> context_snapshot \<times> bool" where
  "apply_model_work_update update s =
     (let (work, changed) = apply_model_update update (wk_work (cs_workflow s))
      in (on_work (\<lambda>_. work) s, changed))"

definition set_continuation :: "json option \<Rightarrow> context_snapshot \<Rightarrow> context_snapshot" where
  "set_continuation continuation s =
     s\<lparr>cs_continuation := Option.bind continuation persistable_continuation\<rparr>"

definition set_git :: "git_snapshot \<Rightarrow> context_snapshot \<Rightarrow> context_snapshot option" where
  "set_git git s =
     map_option (\<lambda>s. s\<lparr>cs_git := Some git\<rparr>) (record_user_modified_from_status (as_str (gs_status git)) s)"

definition reset_workflow_for_workspace_change :: "context_snapshot \<Rightarrow> context_snapshot" where
  "reset_workflow_for_workspace_change s =
     (let s = on_workflow reset_for_workspace_change s
      in if cs_modified s \<noteq> [] then on_workflow (\<lambda>w. w\<lparr>wk_verification := WPending\<rparr>) s else s)"

definition set_workspace_changed :: "bool \<Rightarrow> context_snapshot \<Rightarrow> context_snapshot" where
  "set_workspace_changed changed s =
     (if changed \<and> \<not> cs_workspace_changed s then reset_workflow_for_workspace_change s else s)
       \<lparr>cs_workspace_changed := changed\<rparr>"

definition set_model :: "rstr option \<Rightarrow> context_snapshot \<Rightarrow> context_snapshot" where
  "set_model model s = (if model \<noteq> None then s\<lparr>cs_model := model\<rparr> else s)"

definition finish_turn :: "context_snapshot \<Rightarrow> context_snapshot \<times> bool" where
  "finish_turn s =
     (if cs_workspace_changed s \<or> any_stale s
      then (reset_workflow_for_workspace_change s, False)
      else
        (let user_changes_preserved =
               (\<not> list_ex (\<lambda>path. list_ex (paths_overlap path) (cs_modified s)) (cs_user_modified s));
             (workflow, is_ready) = complete_if_ready_with_evidence (cs_modified s) True
               user_changes_preserved (cs_workflow s)
         in (context_enforce_bounds (s\<lparr>cs_workflow := workflow\<rparr>), is_ready)))"

definition finish_external_research :: "context_snapshot \<Rightarrow> context_snapshot \<times> bool" where
  "finish_external_research s = (context_enforce_bounds s, True)"

definition should_attach_to_prompt :: "bool \<Rightarrow> context_snapshot \<Rightarrow> bool" where
  "should_attach_to_prompt has_continuation s =
     (if \<not> has_continuation then \<not> snapshot_is_empty s \<or> cs_workspace_root s \<noteq> []
      else cs_workspace_changed s \<or> any_stale s)"

subsection \<open>Evidence the runtime reads on its own\<close>

definition store_automatic_excerpt :: "file_excerpt \<Rightarrow> context_snapshot \<Rightarrow> context_snapshot" where
  "store_automatic_excerpt excerpt s =
     (let s = upsert_inspected (fe_path excerpt) (fe_content_hash excerpt)
                (Some \<lparr>lr_start = fe_start_line excerpt, lr_end = fe_end_line excerpt\<rparr>) OPresent s;
          s = record_relevant_path (fe_path excerpt) s;
          s = push_excerpt excerpt s
      in on_workflow (record_inspection_with_provenance ProvToolOutput) s)"

definition diagnostic_focus :: "u32 \<Rightarrow> line_range" where
  "diagnostic_focus line_number =
     (let line = max (unat line_number) 1
      in \<lparr>lr_start = line - AUTOMATIC_DIAGNOSTIC_LINES_BEFORE,
          lr_end = usize_saturating_add line AUTOMATIC_DIAGNOSTIC_LINES_AFTER\<rparr>)"

fun promote_diagnostics ::
  "workspace_env \<Rightarrow> rstr \<Rightarrow> rstr list \<Rightarrow> workflow_diagnostic list \<Rightarrow> context_snapshot \<Rightarrow> context_snapshot" where
  "promote_diagnostics env root seen [] s = s"
| "promote_diagnostics env root seen (d # ds) s =
     (let path = as_str (wd_path d)
      in if \<not> path_is_workspace_relative path \<or> path \<in> set seen
         then promote_diagnostics env root seen ds s
         else
           promote_diagnostics env root (seen @ [path]) ds
             (case read_auto_excerpt env root path (Some (diagnostic_focus (wd_line d))) of
                None \<Rightarrow> s
              | Some excerpt \<Rightarrow>
                  on_progress note_diagnostic_hydration
                    (on_progress note_automatic_evidence_reaction (store_automatic_excerpt excerpt s))))"

definition promote_diagnostic_evidence ::
  "workspace_env \<Rightarrow> workflow_diagnostic list \<Rightarrow> context_snapshot \<Rightarrow> context_snapshot" where
  "promote_diagnostic_evidence env diagnostics s =
     (if cs_workspace_root s = [] then s
      else promote_diagnostics env (cs_workspace_root s) [] (take MAX_AUTOMATIC_EVIDENCE_FILES diagnostics) s)"

fun promote_paths ::
  "workspace_env \<Rightarrow> rstr \<Rightarrow> rstr list \<Rightarrow> bool \<Rightarrow> rstr list \<Rightarrow> context_snapshot \<Rightarrow>
   rstr list \<times> bool \<times> context_snapshot" where
  "promote_paths env root seen refreshed [] s = (seen, refreshed, s)"
| "promote_paths env root seen refreshed (path # paths) s =
     (if \<not> path_is_workspace_relative path then promote_paths env root seen False paths s
      else if path \<in> set seen then promote_paths env root seen refreshed paths s
      else
        (case read_auto_excerpt env root path None of
           None \<Rightarrow> promote_paths env root (seen @ [path]) False paths s
         | Some excerpt \<Rightarrow>
             promote_paths env root (seen @ [path]) refreshed paths
               (on_progress note_mutation_refresh
                 (on_progress note_automatic_evidence_reaction (store_automatic_excerpt excerpt s)))))"

definition promote_mutation_evidence ::
  "workspace_env \<Rightarrow> rstr list \<Rightarrow> context_snapshot \<Rightarrow> context_snapshot \<times> bool" where
  "promote_mutation_evidence env paths s =
     (if cs_workspace_root s = [] \<or> paths = [] then (s, False)
      else
        (let valid_path_count = length (filter path_is_workspace_relative paths);
             (seen, refreshed, s) =
               promote_paths env (cs_workspace_root s) [] (length paths \<le> MAX_AUTOMATIC_EVIDENCE_FILES)
                 (take MAX_AUTOMATIC_EVIDENCE_FILES paths) s
         in (s, refreshed \<and> seen \<noteq> [] \<and> length seen = valid_path_count)))"

subsection \<open>Verification plans and the effects of commands\<close>

definition refresh_verification_plan ::
  "repo_map_snapshot option \<Rightarrow> context_snapshot \<Rightarrow> context_snapshot" where
  "refresh_verification_plan repo s =
     (case repo of
        None \<Rightarrow> s
      | Some repo \<Rightarrow>
          (let plan = plan_verification repo (cs_modified s);
               revision = wk_workspace_revision (cs_workflow s);
               s = (if vp_requires_broader plan \<or> 1 < length (vp_commands plan)
                    then on_progress note_verification_escalation s else s)
           in on_workflow (set_verification_plan (map (workflow_step revision) (vp_commands plan))) s))"

definition effect_targets :: "command_effects \<Rightarrow> rstr list" where
  "effect_targets effects = ce_paths effects @ ce_manifests effects"

definition mark_stale :: "(rstr \<Rightarrow> bool) \<Rightarrow> inspected_file \<Rightarrow> inspected_file" where
  "mark_stale affected f = (if affected (if_path f) then f\<lparr>if_stale := True\<rparr> else f)"

definition invalidate_command_effects :: "command_effects \<Rightarrow> context_snapshot \<Rightarrow> context_snapshot" where
  "invalidate_command_effects effects s =
     (if ce_uncertain effects \<or> effect_targets effects = []
      then s\<lparr>cs_inspected := map (mark_stale (\<lambda>_. True)) (cs_inspected s), cs_excerpts := []\<rparr>
      else
        s\<lparr>cs_inspected :=
             map (mark_stale (\<lambda>file. list_ex (paths_overlap file) (effect_targets effects))) (cs_inspected s),
          cs_excerpts := filter (\<lambda>e. fe_path e \<notin> set (effect_targets effects)) (cs_excerpts s)\<rparr>)
       \<lparr>cs_workspace_changed := True\<rparr>"

subsection \<open>Observing a completed call\<close>

text \<open>\<open>record_workflow_failure\<close>.\<close>

definition record_workflow_failure ::
  "workspace_env \<Rightarrow> rstr \<Rightarrow> rstr \<Rightarrow> tool_result \<Rightarrow> context_snapshot \<Rightarrow> context_snapshot" where
  "record_workflow_failure env key name result s =
     (let code = (case tr_error result of None \<Rightarrow> ''tool_failed'' | Some e \<Rightarrow> err_code e);
          category = failure_category name code result;
          diagnostics = extract_diagnostics result;
          s = fold record_relevant_path (map (\<lambda>d. as_str (wd_path d)) diagnostics) s;
          s = promote_diagnostic_evidence env diagnostics s
      in on_workflow (record_failure (failure_new_at_revision key name code (verification_message result)
           category (wk_workspace_revision (cs_workflow s)) diagnostics)) s)"

definition focused_verification ::
  "context_snapshot \<Rightarrow> rstr \<Rightarrow> json \<Rightarrow> action_classification option \<Rightarrow> bool" where
  "focused_verification s name input prepared =
     (case prepared of
        None \<Rightarrow> is_focused_verification s name input
      | Some classification \<Rightarrow>
          (classification = ClassVerification
           \<or> classification = ClassRead \<and> (name = ''read'' \<or> name = ''git'')
             \<and> is_focused_verification s name input)
          \<and> verification_open (cs_workflow s))"

definition observed_failure_key ::
  "context_snapshot \<Rightarrow> rstr \<Rightarrow> json \<Rightarrow> tool_result \<Rightarrow> action_classification option \<Rightarrow> rstr option" where
  "observed_failure_key s name input result prepared =
     (if focused_verification s name input prepared \<or> prepared = Some ClassVerification
         \<or> prepared = None \<and> is_verification_command input \<or> \<not> tr_ok result
         \<or> wk_unresolved_failures (cs_workflow s) \<noteq> []
      then Some (workflow_failure_key name input) else None)"

definition observed_mutation ::
  "rstr \<Rightarrow> command_effects option \<Rightarrow> action_classification option \<Rightarrow> bool" where
  "observed_mutation name effects prepared =
     (case prepared of None \<Rightarrow> is_workspace_mutation name effects
      | Some classification \<Rightarrow> classification = ClassMutation)"

text \<open>The result folded into the evidence, tool by tool.\<close>

definition observe_data ::
  "rstr \<Rightarrow> json \<Rightarrow> tool_result \<Rightarrow> context_snapshot \<Rightarrow> context_snapshot option" where
  "observe_data name input result s =
     (let s = observe_relevant name input result s;
          repository_observation =
            (case tr_data result of None \<Rightarrow> False | Some data \<Rightarrow> json_get data ''repository_observation'' \<noteq> None)
      in map_option
           (\<lambda>s. if repository_observation \<and> name \<noteq> ''read'' then
                  (let s = observe_read result s
                   in if read_contains_files result
                      then on_workflow (record_inspection_with_provenance ProvToolOutput) s else s)
                else s)
           (if name = ''read'' then Some (observe_read result s)
            else if name = ''write'' then Some (observe_write input result s)
            else if name = ''patch'' then Some (observe_patch result s)
            else if name = ''git'' then observe_git result s
            else Some s))"

definition observe_outcome ::
  "workspace_env \<Rightarrow> rstr option \<Rightarrow> rstr \<Rightarrow> tool_result \<Rightarrow> context_snapshot \<Rightarrow> context_snapshot" where
  "observe_outcome env failure_key name result s =
     (if tr_ok result
      then (case failure_key of None \<Rightarrow> s | Some key \<Rightarrow> on_workflow (clear_failure key) s)
      else record_workflow_failure env (or_else failure_key ''operation'') name result s)"

definition modified_targets :: "command_effects \<Rightarrow> rstr list" where
  "modified_targets effects =
     ce_paths effects
       @ (if ce_class effects = DependencyManagement \<or> ce_class effects = GitMutation
          then ce_manifests effects else [])"

definition record_target :: "rstr \<Rightarrow> context_snapshot \<Rightarrow> context_snapshot" where
  "record_target path s =
     (if path_is_workspace_relative path then record_modified path (record_relevant_path path s) else s)"

definition observe_mutation ::
  "workspace_env \<Rightarrow> repo_map_snapshot option \<Rightarrow> rstr \<Rightarrow> json \<Rightarrow> tool_result \<Rightarrow> command_effects option \<Rightarrow>
   context_snapshot \<Rightarrow> context_snapshot \<times> bool" where
  "observe_mutation env repo name input result effects s =
     (let paths = mutation_paths name input result effects;
          s = (case effects of
                 None \<Rightarrow> s
               | Some e \<Rightarrow> invalidate_command_effects e (fold record_target (modified_targets e) s));
          s = on_workflow (record_mutation_scope name paths) s;
          (s, promoted) = promote_mutation_evidence env paths s;
          refreshed = (name = ''shell'' \<and> (case effects of None \<Rightarrow> False | Some e \<Rightarrow> \<not> ce_uncertain e)
                       \<and> promoted \<and> \<not> any_stale s)
      in (refresh_verification_plan repo s, refreshed))"

text \<open>The outcome of a check on the steps of the plan and in the work ledger.\<close>

definition record_check ::
  "bool \<Rightarrow> rstr \<Rightarrow> json \<Rightarrow> workflow_diagnostic list \<Rightarrow> context_snapshot \<Rightarrow> context_snapshot" where
  "record_check passed name input diagnostics s =
     (let (w, was_planned) =
            (case shell_command_display input of
               None \<Rightarrow> (cs_workflow s, False)
             | Some command \<Rightarrow> record_verification_command command passed (cs_workflow s));
          w = (if \<not> was_planned \<and> wk_verification_steps w = [] then record_verification_plain passed w else w);
          command = or_else (shell_command_display input) (name @ '' verification'')
      in s\<lparr>cs_workflow := record_work_verification passed command (cs_modified s) diagnostics w\<rparr>)"

definition observe_verification ::
  "workspace_env \<Rightarrow> rstr option \<Rightarrow> rstr \<Rightarrow> json \<Rightarrow> tool_result \<Rightarrow> context_snapshot \<Rightarrow> context_snapshot" where
  "observe_verification env failure_key name input result s =
     (let passed = verification_passed name result;
          diagnostics = extract_diagnostics result;
          s = record_check passed name input diagnostics s
      in if passed then
           (case failure_key of None \<Rightarrow> s | Some key \<Rightarrow> on_workflow (clear_failure key) s)
         else
           (let s = fold record_relevant_path (map (\<lambda>d. as_str (wd_path d)) diagnostics) s;
                s = on_workflow (record_failure (failure_new_at_revision (or_else failure_key ''operation'') name
                      ''verification_failed'' (verification_message result)
                      (failure_category name ''verification_failed'' result)
                      (wk_workspace_revision (cs_workflow s)) diagnostics)) s
            in promote_diagnostic_evidence env diagnostics s))"

definition settle_freshness :: "context_snapshot \<Rightarrow> context_snapshot" where
  "settle_freshness s =
     (let s = s\<lparr>cs_workspace_changed := False\<rparr>
      in if rc_category (wk_recovery (cs_workflow s)) = FStaleEvidence
         then on_workflow clear_recovery s else s)"

definition observe_rest ::
  "workspace_env \<Rightarrow> repo_map_snapshot option \<Rightarrow> rstr \<Rightarrow> json \<Rightarrow> tool_result \<Rightarrow> command_effects option \<Rightarrow>
   bool \<Rightarrow> bool \<Rightarrow> rstr option \<Rightarrow> context_snapshot \<Rightarrow> context_snapshot" where
  "observe_rest env repo name input result effects mutation focused failure_key s =
     (let s = observe_outcome env failure_key name result s;
          (s, refreshed) =
            (if mutation \<and> mutation_applied name input result effects
             then observe_mutation env repo name input result effects s else (s, False));
          s = (if focused then observe_verification env failure_key name input result s else s);
          s = (if name = ''read'' \<and> tr_ok result \<and> read_contains_files result
               then on_workflow (record_inspection_with_provenance ProvToolOutput) s else s);
          s = (if tr_ok result
                  \<and> (name \<in> set [''read'', ''find'', ''list'', ''search'', ''git'', ''write'', ''patch'']
                     \<or> refreshed)
                  \<and> \<not> any_stale s
               then settle_freshness s else s)
      in context_enforce_bounds s)"

definition observe_with_effects ::
  "workspace_env \<Rightarrow> repo_map_snapshot option \<Rightarrow> rstr \<Rightarrow> json \<Rightarrow> tool_result \<Rightarrow> command_effects option \<Rightarrow>
   action_classification option \<Rightarrow> context_snapshot \<Rightarrow> context_snapshot option" where
  "observe_with_effects env repo name input result effects prepared s =
     (let focused = focused_verification s name input prepared;
          failure_key = observed_failure_key s name input result prepared;
          mutation = observed_mutation name effects prepared;
          s = on_progress note_tool_result s;
          s = (if mutation then on_workflow begin_modification s else s);
          s = push_summary (compact_tool_result name result) s
      in if starts_with name ''browser.'' then Some (context_enforce_bounds s)
         else
           map_option (observe_rest env repo name input result effects mutation focused failure_key)
             (observe_data name input result s))"

definition live_repo :: "workspace_env \<Rightarrow> context_engine \<Rightarrow> repo_map_snapshot option" where
  "live_repo env e = Option.bind (ce_repo_map e) (env_repo env)"

definition observe_tool ::
  "workspace_env \<Rightarrow> rstr \<Rightarrow> json \<Rightarrow> tool_result \<Rightarrow> context_engine \<Rightarrow> context_engine option" where
  "observe_tool env name input result e =
     map_option (\<lambda>s. e\<lparr>ce_snapshot := s\<rparr>)
       (observe_with_effects env (live_repo env e) name input result (command_effects_for_tool name input)
          None (ce_snapshot e))"

definition observe_prepared ::
  "workspace_env \<Rightarrow> prepared_action \<Rightarrow> tool_result \<Rightarrow> context_engine \<Rightarrow> context_engine option" where
  "observe_prepared env action result e =
     map_option (\<lambda>s. e\<lparr>ce_snapshot := s\<rparr>)
       (observe_with_effects env (live_repo env e) (pa_tool action) (pa_normalized_input action) result
          (pa_command_effects action) (Some (pa_classification action)) (ce_snapshot e))"

definition next_pending_verification :: "workspace_env \<Rightarrow> context_engine \<Rightarrow> planned_command option" where
  "next_pending_verification env e =
     (case live_repo env e of
        None \<Rightarrow> None
      | Some repo \<Rightarrow>
          (let w = cs_workflow (ce_snapshot e);
               pending = map (\<lambda>step. as_str (vs_command step))
                 (filter (\<lambda>step. vs_required step \<and> vs_revision step = wk_workspace_revision w
                                 \<and> vs_status step = VPending) (wk_verification_steps w))
           in find (\<lambda>command. workflow_key command \<in> set pending)
                (vp_commands (plan_verification repo (cs_modified (ce_snapshot e))))))"

subsection \<open>Comparing with the live workspace\<close>

definition refresh_inspected ::
  "workspace_env \<Rightarrow> rstr \<Rightarrow> inspected_file \<Rightarrow> inspected_file \<times> bool" where
  "refresh_inspected env root f =
     (case live_file_hash env root (if_path f) of
        Some hash \<Rightarrow>
          if if_content_hash f \<noteq> None \<and> if_content_hash f \<noteq> Some hash
          then (f\<lparr>if_stale := True, if_content_hash := Some hash\<rparr>, True)
          else if if_stale f then (f\<lparr>if_last_state := OPresent\<rparr>, False)
          else if if_content_hash f = None then (f\<lparr>if_content_hash := Some hash, if_stale := False\<rparr>, False)
          else (f\<lparr>if_stale := False, if_last_state := OPresent\<rparr>, False)
      | None \<Rightarrow>
          if if_last_state f = OPresent
          then (f\<lparr>if_stale := True, if_last_state := OMissing\<rparr>, True) else (f, False))"

text \<open>What follows once files turned out to differ from what was seen.\<close>

definition settle_drift :: "bool \<Rightarrow> rstr list \<Rightarrow> context_snapshot \<Rightarrow> context_snapshot" where
  "settle_drift root_changed stale_paths s =
     (let s = (if stale_paths \<noteq> [] then
                 (on_progress note_stale_invalidation s)
                   \<lparr>cs_workspace_changed := True,
                    cs_excerpts := filter (\<lambda>x. fe_path x \<notin> set stale_paths) (cs_excerpts s)\<rparr>
               else s);
          s = (if root_changed \<or> stale_paths \<noteq> [] then reset_workflow_for_workspace_change s else s)
      in s\<lparr>cs_modified := filter path_is_workspace_relative (cs_modified s)\<rparr>)"

definition refresh_against_workspace ::
  "workspace_env \<Rightarrow> rstr \<Rightarrow> context_engine \<Rightarrow> context_engine \<times> rstr list" where
  "refresh_against_workspace env live_root e =
     (let s = ce_snapshot e;
          root_changed = (cs_workspace_root s \<noteq> [] \<and> cs_workspace_root s \<noteq> live_root);
          invalid_path = (list_ex (\<lambda>f. \<not> path_is_workspace_relative (if_path f)) (cs_inspected s));
          refreshed = map (refresh_inspected env live_root)
            (filter (\<lambda>f. path_is_workspace_relative (if_path f)) (cs_inspected s));
          stale_paths = map (\<lambda>(f, _). if_path f) (filter snd refreshed);
          s = s\<lparr>cs_workspace_root := live_root, cs_inspected := map fst refreshed,
                cs_workspace_changed := (cs_workspace_changed s \<or> root_changed \<or> invalid_path)\<rparr>
      in (\<lparr>ce_snapshot = settle_drift root_changed stale_paths s, ce_repo_map = Some live_root\<rparr>, stale_paths))"

end
