(* ===== verification/Context_Facts.thy ===== *)
theory Context_Facts
  imports Context_Types
begin

section \<open>Facts about the context snapshot\<close>

text \<open>Merging line ranges is a canonical form of the set of lines, and persisting is a projection.\<close>

subsection \<open>Line ranges as sets of lines\<close>

definition lines_in :: "line_range list \<Rightarrow> nat set" where
  "lines_in rs = (\<Union>r\<in>set rs. {lr_start r..lr_end r})"

definition range_ok :: "line_range \<Rightarrow> bool" where
  "range_ok r \<longleftrightarrow> lr_start r \<le> lr_end r \<and> lr_end r < 2 ^ 64"

text \<open>In order, with at least one line between any two.\<close>

definition separated :: "line_range list \<Rightarrow> bool" where
  "separated rs \<longleftrightarrow> sorted_wrt (\<lambda>a b. lr_end a + 1 < lr_start b) rs"

lemma lines_in_simps [simp]:
  "lines_in [] = {}" "lines_in (r # rs) = {lr_start r..lr_end r} \<union> lines_in rs"
  "lines_in (rs @ qs) = lines_in rs \<union> lines_in qs"
  by (auto simp: lines_in_def)

lemma lines_in_set: "set rs = set qs \<Longrightarrow> lines_in rs = lines_in qs"
  by (simp add: lines_in_def)

lemma snoc_cases: "xs \<noteq> [] \<Longrightarrow> (\<And>ys y. xs = ys @ [y] \<Longrightarrow> P) \<Longrightarrow> P"
  by (metis append_butlast_last_id)

lemma merge_sorted_lines:
  "sorted (map lr_start ranges) \<Longrightarrow> (merged \<noteq> [] \<Longrightarrow> ranges \<noteq> [] \<Longrightarrow> lr_start (last merged) \<le> lr_start (hd ranges)) \<Longrightarrow>
   list_all range_ok merged \<Longrightarrow> list_all range_ok ranges \<Longrightarrow> separated merged \<Longrightarrow>
   lines_in (merge_sorted merged ranges) = lines_in merged \<union> lines_in ranges
   \<and> list_all range_ok (merge_sorted merged ranges) \<and> separated (merge_sorted merged ranges)"
proof (induction ranges arbitrary: merged)
  case Nil
  then show ?case by simp
next
  case (Cons r ranges)
  have ok: "range_ok r" "list_all range_ok ranges" using Cons.prems(4) by simp_all
  then have r: "lr_start r \<le> lr_end r" "lr_end r < 2 ^ 64" by (simp_all add: range_ok_def)
  have sorted: "sorted (map lr_start ranges)" "ranges \<noteq> [] \<Longrightarrow> lr_start r \<le> lr_start (hd ranges)"
    using Cons.prems(1) by (cases ranges; simp)+
  show ?case
  proof (cases "merged \<noteq> [] \<and> lr_start r \<le> usize_saturating_succ (lr_end (last merged))")
    case True
    then obtain ms m where m: "merged = ms @ [m]" by (auto elim: snoc_cases)
    let ?m = "m\<lparr>lr_end := max (lr_end m) (lr_end r)\<rparr>"
    have start: "lr_start m \<le> lr_start r" using Cons.prems(2) m by simp
    have touch: "lr_start r \<le> lr_end m + 1" using True m by (simp add: usize_saturating_succ_def)
    have step: "merge_sorted merged (r # ranges) = merge_sorted (ms @ [?m]) ranges" using True m by simp
    have union: "{lr_start m..max (lr_end m) (lr_end r)} = {lr_start m..lr_end m} \<union> {lr_start r..lr_end r}"
      using start touch r by (auto simp: max_def)
    have "list_all range_ok (ms @ [?m])"
      using Cons.prems(3) m r by (auto simp: range_ok_def [of m] range_ok_def [of "m\<lparr>lr_end := e\<rparr>" for e])
    moreover have "separated (ms @ [?m])" using Cons.prems(5) m by (simp add: separated_def sorted_wrt_append)
    moreover have "ranges \<noteq> [] \<Longrightarrow> lr_start (last (ms @ [?m])) \<le> lr_start (hd ranges)"
      using sorted(2) start by (auto intro: order_trans)
    ultimately have "lines_in (merge_sorted (ms @ [?m]) ranges) = lines_in (ms @ [?m]) \<union> lines_in ranges
        \<and> list_all range_ok (merge_sorted (ms @ [?m]) ranges) \<and> separated (merge_sorted (ms @ [?m]) ranges)"
      using Cons.IH [of "ms @ [?m]"] sorted(1) ok(2) by blast
    moreover have "lines_in (ms @ [?m]) = lines_in merged \<union> {lr_start r..lr_end r}" using union m by (simp add: Un_assoc)
    ultimately show ?thesis unfolding step lines_in_simps(2) by (simp only: Un_assoc simp_thms)
  next
    case False
    have "separated (merged @ [r])"
    proof (cases "merged = []")
      case False
      then obtain ms m where m: "merged = ms @ [m]" by (auto elim: snoc_cases)
      have "lr_start r > lr_end m + 1"
        using \<open>\<not> (merged \<noteq> [] \<and> _)\<close> m r by (auto simp: usize_saturating_succ_def min_def split: if_splits)
      moreover have "lr_end a + 1 < lr_start r" if "a \<in> set ms" for a
      proof -
        have "lr_end a + 1 < lr_start m" using that Cons.prems(5) m by (simp add: separated_def sorted_wrt_append)
        also have "lr_start m \<le> lr_start r" using Cons.prems(2) m by simp
        finally show ?thesis .
      qed
      ultimately show ?thesis using Cons.prems(5) m by (simp add: separated_def sorted_wrt_append)
    qed (simp add: separated_def)
    moreover have "list_all range_ok (merged @ [r])" using Cons.prems(3,4) by simp
    ultimately show ?thesis using Cons.IH [of "merged @ [r]"] sorted ok False by auto
  qed
qed

lemma merge_line_ranges_canonical:
  assumes "list_all range_ok rs"
  shows "lines_in (merge_line_ranges rs) = lines_in rs \<and> list_all range_ok (merge_line_ranges rs)
    \<and> separated (merge_line_ranges rs)"
proof (cases "length rs < 2")
  case True
  then have "rs = [] \<or> (\<exists>r. rs = [r])" by (cases rs) (auto simp: Suc_lessI less_Suc_eq)
  then show ?thesis using assms by (auto simp: merge_line_ranges_def separated_def)
next
  case False
  let ?s = "sort_key (\<lambda>r. (lr_start r, lr_end r)) rs"
  have "sorted (map (\<lambda>r. (lr_start r, lr_end r)) ?s)" by simp
  then have "sorted (map lr_start ?s)"
    by (auto simp: sorted_wrt_map sorted_map elim!: sorted_wrt_mono_rel [rotated])
  moreover have "list_all range_ok ?s" using assms by (simp add: list_all_iff)
  ultimately have "lines_in (merge_sorted [] ?s) = lines_in ?s \<and> list_all range_ok (merge_sorted [] ?s)
      \<and> separated (merge_sorted [] ?s)"
    using merge_sorted_lines [of ?s "[]"] by (simp add: separated_def)
  then show ?thesis using False lines_in_set [of ?s rs] by (simp add: merge_line_ranges_def)
qed

lemma separated_head:
  assumes "separated (r # rs)" and "list_all range_ok (r # rs)" and "x \<in> lines_in rs"
  shows "lr_end r + 1 < x"
proof -
  from assms(3) obtain q where "q \<in> set rs" "lr_start q \<le> x" by (auto simp: lines_in_def)
  then show ?thesis using assms(1) by (fastforce simp: separated_def)
qed

lemma separated_unique:
  "separated rs \<Longrightarrow> separated qs \<Longrightarrow> list_all range_ok rs \<Longrightarrow> list_all range_ok qs \<Longrightarrow>
   lines_in rs = lines_in qs \<Longrightarrow> rs = qs"
proof (induction rs arbitrary: qs)
  case Nil
  then show ?case by (cases qs) (auto simp: range_ok_def)
next
  case (Cons r rs)
  then obtain q qs' where q: "qs = q # qs'" by (cases qs) (auto simp: range_ok_def)
  have r: "lr_start r \<le> lr_end r" "lr_start q \<le> lr_end q" using Cons.prems(3,4) q by (simp_all add: range_ok_def)
  note after = separated_head [OF Cons.prems(1) Cons.prems(3)] separated_head [OF Cons.prems(2) [unfolded q] Cons.prems(4) [unfolded q]]
  have lines: "{lr_start r..lr_end r} \<union> lines_in rs = {lr_start q..lr_end q} \<union> lines_in qs'"
    using Cons.prems(5) q by simp
  have "lr_start r \<in> {lr_start q..lr_end q} \<union> lines_in qs'" "lr_start q \<in> {lr_start r..lr_end r} \<union> lines_in rs"
    using lines r by auto
  then have start: "lr_start r = lr_start q" using after r by (auto; fastforce)
  have "\<not> lr_end r < lr_end q"
  proof
    assume "lr_end r < lr_end q"
    then have "lr_end r + 1 \<in> {lr_start q..lr_end q}" using start r by simp
    then have "lr_end r + 1 \<in> {lr_start r..lr_end r} \<union> lines_in rs" using lines by blast
    then show False using after(1) by fastforce
  qed
  moreover have "\<not> lr_end q < lr_end r"
  proof
    assume "lr_end q < lr_end r"
    then have "lr_end q + 1 \<in> {lr_start r..lr_end r}" using start r by simp
    then have "lr_end q + 1 \<in> {lr_start q..lr_end q} \<union> lines_in qs'" using lines by blast
    then show False using after(2) by fastforce
  qed
  ultimately have ends: "lr_end r = lr_end q" by simp
  then have same: "r = q" using start by simp
  have "lines_in rs = lines_in qs'"
    using lines same after by (auto simp: set_eq_iff) (metis Suc_eq_plus1 atLeastAtMost_iff less_Suc_eq not_le Un_iff less_trans)+
  then have "rs = qs'" using Cons.IH [of qs'] Cons.prems(1-4) q by (simp add: separated_def)
  then show ?case using same q by simp
qed

end
