(* ===== verification/Context_Engine_Facts.thy ===== *)
theory Context_Engine_Facts
  imports Context_Engine Workflow_Invariants Context_Facts
begin

section \<open>Facts about the context engine\<close>

text \<open>
  The interface between the engine and the workflow machine, as a locale: an invariant of the machine
  is an invariant of every observation.  Then the bounds of the lists the engine keeps.
\<close>

subsection \<open>Stages of an observation\<close>

text \<open>What every stage preserves, the whole observation preserves.\<close>

lemma observe_rest_preserves:
  assumes "P s"
    and outcome: "\<And>s. P s \<Longrightarrow> P (observe_outcome env k n r s)"
    and mutation: "\<And>s. P s \<Longrightarrow> P (fst (observe_mutation env repo n i r eff s))"
    and verification: "\<And>s. P s \<Longrightarrow> P (observe_verification env k n i r s)"
    and inspection: "\<And>s. P s \<Longrightarrow> P (on_workflow (record_inspection_with_provenance ProvToolOutput) s)"
    and settle: "\<And>s. P s \<Longrightarrow> P (settle_freshness s)"
    and enforce: "\<And>s. P s \<Longrightarrow> P (context_enforce_bounds s)"
  shows "P (observe_rest env repo n i r eff m f k s)"
proof -
  define u where "u = (if m \<and> mutation_applied n i r eff
    then observe_mutation env repo n i r eff (observe_outcome env k n r s)
    else (observe_outcome env k n r s, False))"
  have u: "P (fst u)" using outcome [OF \<open>P s\<close>] mutation by (simp add: u_def)
  define v where "v = (if f then observe_verification env k n i r (fst u) else fst u)"
  have v: "P v" using u verification by (simp add: v_def)
  define w where "w = (if n = ''read'' \<and> tr_ok r \<and> read_contains_files r
    then on_workflow (record_inspection_with_provenance ProvToolOutput) v else v)"
  have w: "P w" using v inspection by (simp add: w_def)
  show ?thesis
    unfolding observe_rest_def Let_def u_def [symmetric] split_beta v_def [symmetric] w_def [symmetric]
    by (auto intro: enforce settle w)
qed

lemma observe_preserves:
  assumes "P s" and "observe_with_effects env repo n i r eff prep s = Some s'"
    and count: "\<And>s. P s \<Longrightarrow> P (on_progress note_tool_result s)"
    and modification: "\<And>s. P s \<Longrightarrow> P (on_workflow begin_modification s)"
    and summary: "\<And>x s. P s \<Longrightarrow> P (push_summary x s)"
    and data: "\<And>s s'. P s \<Longrightarrow> observe_data n i r s = Some s' \<Longrightarrow> P s'"
    and rest: "\<And>s m f k. P s \<Longrightarrow> P (observe_rest env repo n i r eff m f k s)"
    and enforce: "\<And>s. P s \<Longrightarrow> P (context_enforce_bounds s)"
  shows "P s'"
proof -
  define t where "t = push_summary (compact_tool_result n r)
    (if observed_mutation n eff prep then on_workflow begin_modification (on_progress note_tool_result s)
     else on_progress note_tool_result s)"
  have "P t" using assms(1) by (simp add: t_def count modification summary)
  moreover have "s' = context_enforce_bounds t
      \<or> (\<exists>u. observe_data n i r t = Some u \<and> s' = observe_rest env repo n i r eff (observed_mutation n eff prep)
            (focused_verification s n i prep) (observed_failure_key s n i r prep) u)"
    using assms(2) by (auto simp: observe_with_effects_def t_def Let_def split: if_splits)
  ultimately show ?thesis by (auto intro: enforce rest data)
qed

subsection \<open>The engine as a client of the workflow machine\<close>

text \<open>
  What the engine does to a workflow: operations of the machine, counters, the director, and the
  verification reopened after drift.
\<close>

locale workflow_client =
  fixes I :: "workflow_state \<Rightarrow> bool"
  assumes run: "I w \<Longrightarrow> I (run_op op w)"
    and count: "I w \<Longrightarrow> I (w\<lparr>wk_progress := p\<rparr>)"
    and direct: "I w \<Longrightarrow> I (sync_director m b w)"
    and reopen: "I w \<Longrightarrow> wk_phase w = PDiscover \<Longrightarrow> I (w\<lparr>wk_verification := WPending\<rparr>)"
begin

lemmas ops = run [of _ "OpRelevant p path" for p path, simplified]
  run [of _ "OpInspection p" for p, simplified] run [of _ OpBegin, simplified]
  run [of _ "OpMutation n ps" for n ps, simplified] run [of _ "OpPlan steps" for steps, simplified]
  run [of _ "OpCommand c b" for c b, simplified]
  run [of _ "OpWorkVerification b c ps ds" for b c ps ds, simplified]
  run [of _ "OpVerification b c ps ds" for b c ps ds, simplified]
  run [of _ "OpFailure f" for f, simplified] run [of _ "OpClear k" for k, simplified]
  run [of _ OpRecover, simplified] run [of _ OpDrift, simplified]
  run [of _ "OpComplete m e u" for m e u, simplified] run [of _ OpRestore, simplified]

definition J :: "context_snapshot \<Rightarrow> bool" where
  "J s = I (cs_workflow s)"

lemma upd_J [simp]: "J (s\<lparr>cs_workflow := w\<rparr>) = I w"
  by (simp add: J_def)

lemma JD: "J s \<Longrightarrow> I (cs_workflow s)"
  by (simp add: J_def)

lemma progress_J: "J s \<Longrightarrow> J (on_progress f s)"
  by (simp add: J_def on_progress_def count)

lemma frame_J [simp]:
  "J (push_summary x s) = J s" "J (push_excerpt e s) = J s" "J (upsert_inspected p h r l s) = J s"
  "J (record_modified p s) = J s" "J (record_user_modified p s) = J s" "J (drop_excerpts p s) = J s"
  "J (invalidate_command_effects eff s) = J s" "J (observe_replaced p h s) = J s"
  by (simp_all add: J_def push_summary_def push_excerpt_def upsert_inspected_def record_modified_def
      record_user_modified_def drop_excerpts_def invalidate_command_effects_def observe_replaced_def Let_def
      split: option.split)

lemma relevant_J: "J s \<Longrightarrow> J (record_relevant_path p s)"
  by (simp add: J_def record_relevant_path_def ops)

lemma fold_J: "(\<And>x s. J s \<Longrightarrow> J (f x s)) \<Longrightarrow> J s \<Longrightarrow> J (fold f xs s)"
  by (induction xs arbitrary: s) simp_all

lemma observe_relevant_J: "J s \<Longrightarrow> J (observe_relevant n i r s)"
  by (auto simp: observe_relevant_def relevant_J intro!: fold_J split: option.split)

lemma read_file_J: "J s \<Longrightarrow> J (observe_read_file f s)"
  by (auto simp: observe_read_file_def Let_def split: option.split)

lemma observe_read_J: "J s \<Longrightarrow> J (observe_read r s)"
  by (auto simp: observe_read_def intro!: fold_J read_file_J split: option.split)

lemma observe_write_J: "J s \<Longrightarrow> J (observe_write i r s)"
  by (simp add: observe_write_def split: option.split)

lemma observe_patch_J: "J s \<Longrightarrow> J (observe_patch r s)"
  by (auto simp: observe_patch_def observe_patch_file_def intro!: fold_J split: option.split)

lemma status_J: "J s \<Longrightarrow> record_user_modified_from_status t s = Some s' \<Longrightarrow> J s'"
  by (auto simp: record_user_modified_from_status_def intro!: fold_J)

lemma observe_git_J: "J s \<Longrightarrow> observe_git r s = Some s' \<Longrightarrow> J s'"
  by (auto simp: observe_git_def Let_def J_def [abs_def] split: option.splits
      dest!: status_J [unfolded J_def, rotated])

lemma observe_data_J: "J s \<Longrightarrow> observe_data n i r s = Some s' \<Longrightarrow> J s'"
  unfolding observe_data_def Let_def
  by (auto simp: JD ops observe_read_J observe_write_J observe_patch_J observe_relevant_J
      split: if_splits dest!: observe_git_J [OF observe_relevant_J, rotated])

lemma store_J: "J s \<Longrightarrow> J (store_automatic_excerpt e s)"
  by (simp add: store_automatic_excerpt_def Let_def JD ops relevant_J)

lemma promote_diagnostics_J: "J s \<Longrightarrow> J (promote_diagnostics env root seen ds s)"
  by (induction env root seen ds s rule: promote_diagnostics.induct)
    (auto simp: Let_def progress_J store_J split: option.split)

lemma promote_diagnostic_J: "J s \<Longrightarrow> J (promote_diagnostic_evidence env ds s)"
  by (simp add: promote_diagnostic_evidence_def promote_diagnostics_J)

lemma promote_paths_J: "J s \<Longrightarrow> J (snd (snd (promote_paths env root seen b ps s)))"
  by (induction env root seen b ps s rule: promote_paths.induct)
    (auto simp: progress_J store_J split: option.split)

lemma promote_mutation_J: "J s \<Longrightarrow> J (fst (promote_mutation_evidence env ps s))"
  using promote_paths_J [of s env "cs_workspace_root s" "[]" "length ps \<le> MAX_AUTOMATIC_EVIDENCE_FILES"
      "take MAX_AUTOMATIC_EVIDENCE_FILES ps"]
  by (cases "promote_paths env (cs_workspace_root s) [] (length ps \<le> MAX_AUTOMATIC_EVIDENCE_FILES)
      (take MAX_AUTOMATIC_EVIDENCE_FILES ps) s") (simp add: promote_mutation_evidence_def Let_def)

lemma plan_J: "J s \<Longrightarrow> J (refresh_verification_plan repo s)"
  by (auto simp: refresh_verification_plan_def Let_def J_def ops count on_progress_def split: option.split)

lemma workflow_failure_J: "J s \<Longrightarrow> J (record_workflow_failure env k n r s)"
proof -
  assume "J s"
  then have "J (promote_diagnostic_evidence env ds (fold record_relevant_path ps s))" for ds ps
    by (intro promote_diagnostic_J fold_J relevant_J)
  then show ?thesis by (simp add: record_workflow_failure_def Let_def J_def ops)
qed

lemma observe_outcome_J: "J s \<Longrightarrow> J (observe_outcome env k n r s)"
  by (auto simp: observe_outcome_def workflow_failure_J ops J_def split: option.split
      dest: workflow_failure_J [unfolded J_def])

lemma target_J: "J s \<Longrightarrow> J (record_target p s)"
  by (simp add: record_target_def relevant_J)

lemma observe_mutation_J: "J s \<Longrightarrow> J (fst (observe_mutation env repo n i r eff s))"
proof -
  assume s: "J s"
  define t where "t = (case eff of None \<Rightarrow> s
     | Some e \<Rightarrow> invalidate_command_effects e (fold record_target (modified_targets e) s))"
  have "J t" using s by (auto simp: t_def intro!: fold_J target_J split: option.split)
  then have "J (on_workflow (record_mutation_scope n ps) t)" for ps by (simp add: JD ops)
  then have "J (fst (promote_mutation_evidence env ps (on_workflow (record_mutation_scope n ps) t)))" for ps
    by (rule promote_mutation_J)
  then show ?thesis
    by (auto simp: observe_mutation_def Let_def t_def [symmetric] plan_J split: prod.split) (metis fst_conv plan_J)
qed

lemma check_J: "J s \<Longrightarrow> J (record_check b n i ds s)"
proof -
  assume "J s"
  have command: "I w" if "record_verification_command c b (cs_workflow s) = (w, p)" for c w p
    using ops(6) [OF JD [OF \<open>J s\<close>], of c b] that by simp
  then show ?thesis
    using JD [OF \<open>J s\<close>]
    by (auto simp: record_check_def Let_def ops record_verification_plain_def split: option.split prod.split)
qed

lemma observe_verification_J: "J s \<Longrightarrow> J (observe_verification env k n i r s)"
proof -
  assume "J s"
  then have *: "J (record_check b n i ds s)" for b ds by (rule check_J)
  then have "J (on_workflow (record_failure f) (fold record_relevant_path ps (record_check b n i ds s)))" for f ps b ds
    by (simp add: ops JD fold_J relevant_J)
  then show ?thesis
    using * by (simp add: observe_verification_def Let_def promote_diagnostic_J ops JD split: option.split)
qed

lemma settle_J: "J s \<Longrightarrow> J (settle_freshness s)"
  by (simp add: settle_freshness_def Let_def J_def ops)

lemma enforce_J: "J s \<Longrightarrow> J (context_enforce_bounds s)"
  by (simp add: context_enforce_bounds_def Let_def J_def direct ops)

lemma rest_J: "J s \<Longrightarrow> J (observe_rest env repo n i r eff m f k s)"
  by (rule observe_rest_preserves [where P = J])
    (simp_all add: observe_outcome_J observe_mutation_J observe_verification_J settle_J enforce_J JD ops)

lemma observe_J: "J s \<Longrightarrow> observe_with_effects env repo n i r eff prep s = Some s' \<Longrightarrow> J s'"
  by (rule observe_preserves [where P = J])
    (simp_all add: progress_J rest_J enforce_J JD ops, rule observe_data_J)

lemma reset_J: "J s \<Longrightarrow> J (reset_workflow_for_workspace_change s)"
proof -
  assume "J s"
  then have "J (on_workflow reset_for_workspace_change s)" by (simp add: JD ops)
  moreover have "wk_phase (reset_for_workspace_change w) = PDiscover" for w
    by (simp add: reset_for_workspace_change_def Let_def)
  ultimately show ?thesis
    by (simp add: reset_workflow_for_workspace_change_def Let_def reopen)
qed

lemma finish_J: "J s \<Longrightarrow> J (fst (finish_turn s))"
proof -
  assume "J s"
  then have "I (fst (complete_if_ready_with_evidence m e u (cs_workflow s)))" for m e u by (simp add: JD ops)
  then show ?thesis
    using \<open>J s\<close> by (auto simp: finish_turn_def Let_def reset_J intro!: enforce_J split: prod.split) (metis fst_conv)
qed

lemma workspace_changed_J: "J s \<Longrightarrow> J (set_workspace_changed b s)"
  using reset_J [of s] by (simp add: set_workspace_changed_def J_def)

lemma drift_J: "J s \<Longrightarrow> J (settle_drift b ps s)"
proof -
  assume "J s"
  define t where "t = (if ps \<noteq> [] then (on_progress note_stale_invalidation s)
      \<lparr>cs_workspace_changed := True, cs_excerpts := filter (\<lambda>x. fe_path x \<notin> set ps) (cs_excerpts s)\<rparr> else s)"
  have "J t" using \<open>J s\<close> by (simp add: t_def on_progress_def J_def count)
  then have "J (if b \<or> ps \<noteq> [] then reset_workflow_for_workspace_change t else t)" using reset_J by simp
  then show ?thesis unfolding settle_drift_def Let_def t_def [symmetric] by (simp add: J_def)
qed

lemma refresh_J: "J (ce_snapshot e) \<Longrightarrow> J (ce_snapshot (fst (refresh_against_workspace env root e)))"
  by (simp add: refresh_against_workspace_def Let_def) (rule drift_J, simp add: J_def)

lemma restore_J: "J s \<Longrightarrow> J (ce_snapshot (engine_restore s))"
  by (simp add: engine_restore_def Let_def J_def direct ops)

end

text \<open>Three invariants of the machine, proved once for every operation of the engine.\<close>

interpretation phase_client: workflow_client phase_ok
proof unfold_locales
  show "phase_ok w \<Longrightarrow> phase_ok (run_op op w)" for w op by (rule run_op_phase_ok)
  show "phase_ok w \<Longrightarrow> phase_ok (sync_director m b w)" for w m b by (rule sync_phase_ok)
qed (simp_all add: phase_ok_def verification_open_def)

interpretation within_client: workflow_client workflow_within
proof unfold_locales
  show "workflow_within w \<Longrightarrow> workflow_within (run_op op w)" for w op by (rule run_op_within)
qed (simp_all add: workflow_within_def)

interpretation revision_client: workflow_client "\<lambda>w. r \<le> wk_workspace_revision w" for r
  by unfold_locales (auto intro: order_trans [OF _ run_op_revision_mono])

subsection \<open>The lists of the snapshot\<close>

lemma length_push_evicting: "length xs \<le> n \<Longrightarrow> length (push_evicting n xs x) \<le> n"
  by (auto simp: push_evicting_def)

lemma set_push_evicting: "set (push_evicting n xs x) \<subseteq> insert x (set xs)"
  by (cases xs) (auto simp: push_evicting_def)

lemma distinct_push_evicting: "distinct xs \<Longrightarrow> x \<notin> set xs \<Longrightarrow> distinct (push_evicting n xs x)"
  by (cases xs) (auto simp: push_evicting_def)

lemma map_push_evicting: "map f (push_evicting n xs x) = push_evicting n (map f xs) (f x)"
  by (simp add: push_evicting_def map_tl)

lemma list_all_push_evicting: "list_all P xs \<Longrightarrow> P x \<Longrightarrow> list_all P (push_evicting n xs x)"
  using set_push_evicting [of n xs x] by (auto simp: list_all_iff)

lemma display_from_join:
  "\<forall>q \<in> set (qs @ ps). plain_piece q \<Longrightarrow>
   display_from (join ''/'' qs) (map Normal ps) = join ''/'' (qs @ ps)"
proof (induction ps arbitrary: qs)
  case (Cons p ps)
  have "join ''/'' qs = [] \<longleftrightarrow> qs = []" using Cons.prems by (intro join_Nil_iff) (auto simp: plain_piece_def)
  then have "(if join ''/'' qs = [] then join ''/'' qs else join ''/'' qs @ ''/'') @ p = join ''/'' (qs @ [p])"
    using join_snoc [of qs "''/''" p] by (cases "qs = []") simp_all
  then show ?case using Cons.IH [of "qs @ [p]"] Cons.prems by simp
qed simp

lemma normal_form:
  assumes "workspace_path_new p = Inr q"
  shows "workspace_path_new q = Inr q \<and> workspace_path_display q = q"
proof -
  consider "q = ''.''" | ps where "ps \<noteq> []" "\<forall>x \<in> set ps. plain_piece x \<and> CHR 0x5C \<notin> set x" "q = join ''/'' ps"
    using workspace_path_new_Inr [OF assms] by auto
  then show ?thesis
  proof cases
    case 1
    then show ?thesis
      by (simp add: workspace_path_new_dot workspace_path_display_def path_components_def split_on_def
          piece_component_def starts_with_def)
  next
    case 2
    then have "q \<noteq> []" using join_Nil_iff [of ps "''/''"] by (auto simp: plain_piece_def)
    then show ?thesis
      using 2 workspace_path_new_join [of ps] path_components_join [of ps] display_from_join [of "[]" ps]
      by (simp add: workspace_path_display_def)
  qed
qed

lemma portable_portable:
  "portable_workspace_path p = Some q \<Longrightarrow> portable_workspace_path q = Some q"
  using normal_form by (auto simp: portable_workspace_path_def split: sum.splits)

text \<open>Every list is bounded, every entry of it is well formed, and no entry is there twice.\<close>

definition portable :: "rstr \<Rightarrow> bool" where
  "portable p \<longleftrightarrow> portable_workspace_path p = Some p"

definition excerpt_ok :: "file_excerpt \<Rightarrow> bool" where
  "excerpt_ok e \<longleftrightarrow> portable (fe_path e) \<and> length (as_str (fe_text e)) \<le> MAX_EXCERPT_BYTES"

definition excerpt_window_of :: "file_excerpt \<Rightarrow> rstr \<times> nat \<times> nat" where
  "excerpt_window_of e = (fe_path e, fe_start_line e, fe_end_line e)"

definition context_within :: "context_snapshot \<Rightarrow> bool" where
  "context_within s \<longleftrightarrow>
     length (cs_inspected s) \<le> MAX_INSPECTED_FILES \<and> distinct (map if_path (cs_inspected s))
     \<and> list_all (\<lambda>f. portable (if_path f)) (cs_inspected s)
     \<and> length (cs_excerpts s) \<le> MAX_FILE_EXCERPTS \<and> distinct (map excerpt_window_of (cs_excerpts s))
     \<and> list_all excerpt_ok (cs_excerpts s)
     \<and> length (cs_tool_summaries s) \<le> MAX_STORED_TOOL_SUMMARIES
     \<and> length (cs_modified s) \<le> MAX_CONTEXT_ITEMS \<and> distinct (cs_modified s)
     \<and> list_all path_is_workspace_relative (cs_modified s)
     \<and> length (cs_user_modified s) \<le> MAX_USER_MODIFIED_FILES \<and> distinct (cs_user_modified s)
     \<and> list_all path_is_workspace_relative (cs_user_modified s)"

lemma within_workflow [simp]:
  "context_within (s\<lparr>cs_workflow := w\<rparr>) = context_within s"
  "context_within (s\<lparr>cs_workspace_changed := b\<rparr>) = context_within s"
  "context_within (s\<lparr>cs_git := g\<rparr>) = context_within s"
  "context_within (on_progress f s) = context_within s"
  by (simp_all add: context_within_def on_progress_def)

lemma relevant_within_context [simp]: "context_within (record_relevant_path p s) = context_within s"
  by (simp add: record_relevant_path_def)

lemma fold_within: "(\<And>x s. context_within s \<Longrightarrow> context_within (f x s)) \<Longrightarrow> context_within s \<Longrightarrow> context_within (fold f xs s)"
  by (induction xs arbitrary: s) simp_all

lemma summary_within: "context_within s \<Longrightarrow> context_within (push_summary x s)"
  by (simp add: context_within_def push_summary_def length_push_evicting)

lemma user_modified_within: "context_within s \<Longrightarrow> context_within (record_user_modified p s)"
  by (simp add: context_within_def record_user_modified_def length_push_evicting distinct_push_evicting
      list_all_push_evicting)

lemma drop_within: "context_within s \<Longrightarrow> context_within (drop_excerpts p s)"
  by (auto simp: context_within_def drop_excerpts_def list_all_iff distinct_map_filter
      intro: le_trans [OF length_filter_le])

lemma modified_within:
  "context_within s \<Longrightarrow> path_is_workspace_relative p \<Longrightarrow> context_within (record_modified p s)"
  by (cases "cs_modified s") (auto simp: context_within_def record_modified_def Let_def)

lemma excerpt_within: "context_within s \<Longrightarrow> excerpt_ok e \<Longrightarrow> context_within (push_excerpt e s)"
proof -
  assume s: "context_within s" and e: "excerpt_ok e"
  let ?xs = "filter (\<lambda>x. \<not> same_window x e) (cs_excerpts s)"
  have "length ?xs \<le> MAX_FILE_EXCERPTS" "list_all excerpt_ok ?xs" "distinct (map excerpt_window_of ?xs)"
    using s by (auto simp: context_within_def list_all_iff distinct_map_filter intro: le_trans [OF length_filter_le])
  moreover have "excerpt_window_of e \<notin> set (map excerpt_window_of ?xs)"
    by (auto simp: same_window_def excerpt_window_of_def)
  ultimately show ?thesis
    using s e by (simp add: context_within_def push_excerpt_def length_push_evicting map_push_evicting
        distinct_push_evicting list_all_push_evicting)
qed

lemma find_path_iff: "find (\<lambda>f. if_path f = p) fs = None \<longleftrightarrow> p \<notin> if_path ` set fs"
  by (auto simp: find_None_iff)

lemma upsert_within: "context_within s \<Longrightarrow> context_within (upsert_inspected p h r l s)"
proof (cases "portable_workspace_path p")
  case (Some q)
  assume s: "context_within s"
  have q: "portable q" using portable_portable [OF Some] by (simp add: portable_def)
  show ?thesis
  proof (cases "find (\<lambda>f. if_path f = q) (cs_inspected s)")
    case None
    have "q \<notin> if_path ` set (cs_inspected s)" using None by (simp only: find_path_iff simp_thms)
    with None show ?thesis
      using s q by (simp add: upsert_inspected_def Some context_within_def length_push_evicting
          map_push_evicting distinct_push_evicting list_all_push_evicting)
  next
    case (Some f)
    let ?t = "s\<lparr>cs_inspected := update_first (\<lambda>f. if_path f = q) (touch_inspected h r l) (cs_inspected s)\<rparr>"
    have "context_within ?t"
      using s by (simp add: context_within_def map_update_first_same touch_inspected_def list_all_update_first)
    then show ?thesis
      using Some \<open>portable_workspace_path p = Some q\<close> by (simp add: upsert_inspected_def Let_def drop_within)
  qed
qed (simp add: upsert_inspected_def)

subsection \<open>Observations keep the bounds\<close>

lemma portable_of: "portable_workspace_path p = Some q \<Longrightarrow> portable q"
  by (simp add: portable_def portable_portable)

lemma replaced_within:
  "context_within s \<Longrightarrow> path_is_workspace_relative p \<Longrightarrow> context_within (observe_replaced p h s)"
  by (simp add: observe_replaced_def drop_within modified_within upsert_within)

lemma observe_relevant_within: "context_within s \<Longrightarrow> context_within (observe_relevant n i r s)"
  by (auto simp: observe_relevant_def intro!: fold_within split: option.split)

lemma read_file_within: "context_within s \<Longrightarrow> context_within (observe_read_file f s)"
  by (auto simp: observe_read_file_def Let_def upsert_within excerpt_ok_def length_bounded_new
      intro!: excerpt_within portable_of split: option.split bind_splits)

lemma observe_read_within: "context_within s \<Longrightarrow> context_within (observe_read r s)"
  by (auto simp: observe_read_def intro!: fold_within read_file_within split: option.split)

lemma observe_write_within: "context_within s \<Longrightarrow> context_within (observe_write i r s)"
  by (auto simp: observe_write_def replaced_within split: option.split)

lemma observe_patch_within: "context_within s \<Longrightarrow> context_within (observe_patch r s)"
  by (auto simp: observe_patch_def observe_patch_file_def intro!: fold_within replaced_within split: option.split)

lemma status_within:
  "context_within s \<Longrightarrow> record_user_modified_from_status t s = Some s' \<Longrightarrow> context_within s'"
  by (auto simp: record_user_modified_from_status_def intro!: fold_within user_modified_within)

lemma observe_git_within: "context_within s \<Longrightarrow> observe_git r s = Some s' \<Longrightarrow> context_within s'"
  by (auto simp: observe_git_def Let_def split: option.splits dest: status_within [rotated])

lemma observe_data_within: "context_within s \<Longrightarrow> observe_data n i r s = Some s' \<Longrightarrow> context_within s'"
  unfolding observe_data_def Let_def
  by (auto simp: observe_read_within observe_write_within observe_patch_within observe_relevant_within
      split: if_splits dest!: observe_git_within [OF observe_relevant_within, rotated])

lemma auto_excerpt_ok: "read_auto_excerpt env root p f = Some e \<Longrightarrow> excerpt_ok e"
proof -
  assume e: "read_auto_excerpt env root p f = Some e"
  then obtain q where q: "workspace_path_new p = Inr q" by (auto simp: read_auto_excerpt_def split: sum.splits)
  then have "portable (workspace_path_display q)" by (intro portable_of [of p]) (simp add: portable_workspace_path_def)
  then show ?thesis
    using e q by (auto simp: read_auto_excerpt_def auto_excerpt_of_def excerpt_ok_def Let_def length_bounded_new
        split: option.splits if_splits prod.splits)
qed

lemma store_within: "context_within s \<Longrightarrow> excerpt_ok e \<Longrightarrow> context_within (store_automatic_excerpt e s)"
  by (simp add: store_automatic_excerpt_def Let_def excerpt_within upsert_within)

lemma promote_diagnostics_within:
  "context_within s \<Longrightarrow> context_within (promote_diagnostics env root seen ds s)"
  by (induction env root seen ds s rule: promote_diagnostics.induct)
    (auto simp: Let_def store_within auto_excerpt_ok split: option.split)

lemma promote_diagnostic_within:
  "context_within s \<Longrightarrow> context_within (promote_diagnostic_evidence env ds s)"
  by (simp add: promote_diagnostic_evidence_def promote_diagnostics_within)

lemma promote_paths_within:
  "context_within s \<Longrightarrow> context_within (snd (snd (promote_paths env root seen b ps s)))"
  by (induction env root seen b ps s rule: promote_paths.induct)
    (auto simp: store_within auto_excerpt_ok split: option.split)

lemma promote_mutation_within:
  "context_within s \<Longrightarrow> context_within (fst (promote_mutation_evidence env ps s))"
  using promote_paths_within [of s env "cs_workspace_root s" "[]" "length ps \<le> MAX_AUTOMATIC_EVIDENCE_FILES"
      "take MAX_AUTOMATIC_EVIDENCE_FILES ps"]
  by (cases "promote_paths env (cs_workspace_root s) [] (length ps \<le> MAX_AUTOMATIC_EVIDENCE_FILES)
      (take MAX_AUTOMATIC_EVIDENCE_FILES ps) s") (simp add: promote_mutation_evidence_def Let_def)

lemma plan_within_context [simp]: "context_within (refresh_verification_plan repo s) = context_within s"
  by (simp add: refresh_verification_plan_def Let_def split: option.split)

lemma invalidate_within: "context_within s \<Longrightarrow> context_within (invalidate_command_effects e s)"
proof -
  have paths: "map if_path (map (mark_stale P) fs) = map if_path fs" for P fs
    by (simp add: mark_stale_def)
  have all: "list_all (\<lambda>f. Q (if_path f)) (map (mark_stale P) fs) = list_all (\<lambda>f. Q (if_path f)) fs" for P Q fs
    by (induction fs) (simp_all add: mark_stale_def)
  assume "context_within s"
  then show ?thesis
    by (auto simp: context_within_def invalidate_command_effects_def paths all distinct_map_filter simp del: map_map
        intro: le_trans [OF length_filter_le]) (auto simp: list_all_iff)
qed

lemma target_within: "context_within s \<Longrightarrow> context_within (record_target p s)"
  by (simp add: record_target_def modified_within)

lemma workflow_failure_within: "context_within s \<Longrightarrow> context_within (record_workflow_failure env k n r s)"
  by (auto simp: record_workflow_failure_def Let_def intro!: promote_diagnostic_within fold_within)

lemma outcome_within: "context_within s \<Longrightarrow> context_within (observe_outcome env k n r s)"
  by (auto simp: observe_outcome_def workflow_failure_within split: option.split)

lemma mutation_within_context:
  "context_within s \<Longrightarrow> context_within (fst (observe_mutation env repo n i r eff s))"
proof -
  assume s: "context_within s"
  define t where "t = (case eff of None \<Rightarrow> s
     | Some e \<Rightarrow> invalidate_command_effects e (fold record_target (modified_targets e) s))"
  have "context_within t" using s by (auto simp: t_def intro!: invalidate_within fold_within target_within split: option.split)
  then have "context_within (fst (promote_mutation_evidence env ps (on_workflow f t)))" for ps f
    by (intro promote_mutation_within) simp
  then show ?thesis
    by (auto simp: observe_mutation_def Let_def t_def [symmetric] split: prod.split) (metis fst_conv)
qed

lemma verification_within_context:
  "context_within s \<Longrightarrow> context_within (observe_verification env k n i r s)"
  by (auto simp: observe_verification_def record_check_def Let_def split: option.split prod.split
      intro!: promote_diagnostic_within fold_within)

lemma settle_within [simp]: "context_within (settle_freshness s) = context_within s"
  by (simp add: settle_freshness_def Let_def)

lemma list_all_take: "list_all P xs \<Longrightarrow> list_all P (take n xs)"
  by (auto simp: list_all_iff dest: in_set_takeD)

lemma enforce_within: "context_within s \<Longrightarrow> context_within (context_enforce_bounds s)"
  unfolding context_enforce_bounds_def Let_def
  by (simp add: context_within_def list_all_take take_map [symmetric])

lemma rest_within: "context_within s \<Longrightarrow> context_within (observe_rest env repo n i r eff m f k s)"
  by (rule observe_rest_preserves [where P = context_within])
    (simp_all add: enforce_within verification_within_context mutation_within_context outcome_within)

lemma observe_within:
  "context_within s \<Longrightarrow> observe_with_effects env repo n i r eff prep s = Some s' \<Longrightarrow> context_within s'"
  by (rule observe_preserves [where P = context_within])
    (simp_all add: enforce_within summary_within rest_within, rule observe_data_within)

end
