(* ===== verification/Policy.thy ===== *)
theory Policy
  imports Context_Engine Guardrails
begin

section \<open>The autonomous coding policy (aether-agent/src/policy.rs)\<close>

text \<open>
  What may run: a mutation needs current inspected evidence of its target, a read may be answered from
  a retained excerpt, a repeated failure is cut.  And what should come next: the ranked actions, the
  tools offered, the progress counted.  A call the policy answers itself never reaches its tool.

  The guardrails keep an atomic counter, so a preflight returns the policy too.  Parameters:
  \<open>encode\<close> (serde_json), \<open>blake\<close> (the hash of a byte stream), the live workspace, and in \<open>repo_index\<close>
  the answers of the repository map and the symbol index.
\<close>

definition MAX_POLICY_CANDIDATES :: nat where "MAX_POLICY_CANDIDATES = 16"
definition MAX_POLICY_OBSERVED_PATHS :: nat where "MAX_POLICY_OBSERVED_PATHS = 16"
definition MIN_MUTATION_CONFIDENCE :: u8 where "MIN_MUTATION_CONFIDENCE = 40"

definition EXTERNAL_RESEARCH_TOOLS :: "rstr list" where
  "EXTERNAL_RESEARCH_TOOLS = [''read'', ''list'', ''find'', ''search'', ''git'', ''browser.tabs'',
     ''browser.navigate'', ''browser.snapshot'', ''browser.find'', ''browser.wait'',
     ''browser.performance_audit'']"

record autonomous_policy =
  ap_guardrails :: loop_guardrails
  ap_candidate_key :: "rstr option"
  ap_optimizations_enabled :: bool
  ap_no_progress :: u8

definition policy_new :: autonomous_policy where
  "policy_new = \<lparr>ap_guardrails = guardrails_new, ap_candidate_key = None,
     ap_optimizations_enabled = True, ap_no_progress = 0\<rparr>"

definition is_stalled :: "autonomous_policy \<Rightarrow> bool" where
  "is_stalled p = (2 \<le> ap_no_progress p)"

subsection \<open>Evidence for a mutation\<close>

text \<open>An inspection that can carry a mutation: present, fresh, and with the hash that was seen.\<close>

definition inspection_holds :: "rstr \<Rightarrow> inspected_file \<Rightarrow> bool" where
  "inspection_holds path f =
     (if_path f = path \<and> if_last_state f = OPresent \<and> \<not> if_stale f \<and> if_content_hash f \<noteq> None)"

definition current_target_has_evidence :: "context_snapshot \<Rightarrow> rstr \<Rightarrow> bool" where
  "current_target_has_evidence s path =
     (path_is_workspace_relative path
      \<and> path \<in> set (wk_relevant_files (cs_workflow s))
      \<and> list_ex (inspection_holds path) (cs_inspected s))"

definition expected_hash_matches :: "context_snapshot \<Rightarrow> rstr \<Rightarrow> rstr option \<Rightarrow> bool" where
  "expected_hash_matches s path expected =
     (case find (\<lambda>f. if_path f = path) (cs_inspected s) of
        None \<Rightarrow> False
      | Some f \<Rightarrow> (case expected of None \<Rightarrow> False | Some hash \<Rightarrow> if_content_hash f = Some hash))"

definition new_target_has_discovered_parent :: "context_snapshot \<Rightarrow> rstr \<Rightarrow> bool" where
  "new_target_has_discovered_parent s path =
     (let parent = or_else (path_parent path) ''.''
      in list_ex (\<lambda>relevant. case path_parent relevant of None \<Rightarrow> False | Some p \<Rightarrow> path_eq p parent)
           (wk_relevant_files (cs_workflow s)))"

definition write_target_has_evidence :: "context_snapshot \<Rightarrow> json \<Rightarrow> rstr \<Rightarrow> bool" where
  "write_target_has_evidence s input path =
     (if Option.bind (json_get input ''create_only'') json_as_bool = Some True
         \<and> path_is_workspace_relative path \<and> new_target_has_discovered_parent s path
      then path \<notin> set (cs_user_modified s)
      else current_target_has_evidence s path
           \<and> expected_hash_matches s path (str_at input ''expected_hash''))"

definition prepared_write_has_evidence :: "context_snapshot \<Rightarrow> prepared_action \<Rightarrow> bool" where
  "prepared_write_has_evidence s action =
     (case pa_paths action of
        [] \<Rightarrow> False
      | path # _ \<Rightarrow> write_target_has_evidence s (pa_normalized_input action) path)"

definition patch_file_has_evidence :: "context_snapshot \<Rightarrow> json \<Rightarrow> bool" where
  "patch_file_has_evidence s file =
     (case str_at file ''path'' of
        None \<Rightarrow> False
      | Some path \<Rightarrow> current_target_has_evidence s path
                     \<and> expected_hash_matches s path (str_at file ''expected_hash''))"

definition patch_input_has_evidence :: "context_snapshot \<Rightarrow> json \<Rightarrow> bool" where
  "patch_input_has_evidence s input =
     (case array_at input ''files'' of
        None \<Rightarrow> False
      | Some files \<Rightarrow> files \<noteq> [] \<and> list_all (patch_file_has_evidence s) files)"

definition prepared_patch_has_evidence :: "context_snapshot \<Rightarrow> prepared_action \<Rightarrow> bool" where
  "prepared_patch_has_evidence s action = patch_input_has_evidence s (pa_normalized_input action)"

definition mutation_has_evidence :: "context_snapshot \<Rightarrow> rstr \<Rightarrow> json \<Rightarrow> bool" where
  "mutation_has_evidence s name input =
     (if name = ''write''
      then (case str_at input ''path'' of None \<Rightarrow> False | Some path \<Rightarrow> write_target_has_evidence s input path)
      else patch_input_has_evidence s input)"

definition command_target_has_evidence :: "context_snapshot \<Rightarrow> rstr \<Rightarrow> bool" where
  "command_target_has_evidence s path =
     (path \<notin> set (cs_user_modified s) \<and> path \<in> set (wk_relevant_files (cs_workflow s))
      \<and> list_ex (inspection_holds path) (cs_inspected s))"

definition command_mutation_has_evidence :: "context_snapshot \<Rightarrow> command_effects \<Rightarrow> bool" where
  "command_mutation_has_evidence s effects =
     (let include_manifests = (ce_class effects = DependencyManagement \<or> ce_class effects = GitMutation)
      in (ce_paths effects \<noteq> [] \<or> include_manifests \<and> ce_manifests effects \<noteq> [])
         \<and> list_all (command_target_has_evidence s) (ce_paths effects)
         \<and> (include_manifests \<longrightarrow> list_all (command_target_has_evidence s) (ce_manifests effects)))"

definition insufficient_evidence :: "tool_call_id \<Rightarrow> tool_result" where
  "insufficient_evidence call_id =
     result_failure call_id ''insufficient_evidence''
       ''inspect the exact target, preserve user-owned changes, and provide the current expected_hash before replacing it''
       True DEFAULT_MAX_OUTPUT_BYTES"

definition settled_command_mutation :: "context_snapshot \<Rightarrow> command_effects \<Rightarrow> bool" where
  "settled_command_mutation s effects =
     (\<not> ce_uncertain effects \<and> is_mutation (ce_class effects) \<and> command_mutation_has_evidence s effects)"

definition mutation_preflight ::
  "context_snapshot \<Rightarrow> tool_call_id \<Rightarrow> rstr \<Rightarrow> json \<Rightarrow> tool_result option" where
  "mutation_preflight s call_id name input =
     (if name = ''write'' \<or> name = ''patch'' then
        (if mutation_has_evidence s name input then None else Some (insufficient_evidence call_id))
      else if name = ''shell'' \<or> name = ''process'' then
        (case command_effects_for_input input of
           None \<Rightarrow> None
         | Some effects \<Rightarrow>
             if settled_command_mutation s effects then None else Some (insufficient_evidence call_id))
      else None)"

definition mutation_preflight_prepared :: "context_snapshot \<Rightarrow> prepared_action \<Rightarrow> tool_result option" where
  "mutation_preflight_prepared s action =
     (if \<not> req_current_workspace_evidence (pa_requirements action) then None
      else
        (let has_evidence =
               (if pa_tool action = ''write'' then prepared_write_has_evidence s action
                else if pa_tool action = ''patch'' then prepared_patch_has_evidence s action
                else if pa_tool action = ''shell'' \<or> pa_tool action = ''process'' then
                  (case pa_command_effects action of
                     None \<Rightarrow> False | Some effects \<Rightarrow> settled_command_mutation s effects)
                else False)
         in if has_evidence then None else Some (insufficient_evidence (pa_call_id action))))"

subsection \<open>Reads answered from an excerpt\<close>

text \<open>\<open>live_hash_matches\<close>: the file is read through \<open>take\<close>, one byte past the ceiling.\<close>

definition live_hash_matches :: "workspace_env \<Rightarrow> rstr \<Rightarrow> rstr \<Rightarrow> rstr \<Rightarrow> bool" where
  "live_hash_matches env root relative expected =
     (case workspace_path_new relative of
        Inl _ \<Rightarrow> False
      | Inr relative \<Rightarrow>
          (case Option.bind (canonical_file env root relative) (env_read env) of
             None \<Rightarrow> False
           | Some bytes \<Rightarrow>
               (let bytes = take (4 * 1024 * 1024 + 1) bytes
                in length bytes \<le> 4 * 1024 * 1024 \<and> env_blake3_hex env bytes = expected)))"

text \<open>The requested range: \<open>None\<close> when the request is malformed.\<close>

definition requested_range :: "json \<Rightarrow> line_range option option" where
  "requested_range target =
     (case (json_get target ''start_line'', json_get target ''end_line'') of
        (None, None) \<Rightarrow> Some None
      | (Some start_value, Some end_value) \<Rightarrow>
          (case (json_as_u64 start_value, json_as_u64 end_value) of
             (Some a, Some b) \<Rightarrow> if a = 0 \<or> b < a then None else Some (Some \<lparr>lr_start = a, lr_end = b\<rparr>)
           | _ \<Rightarrow> None)
      | _ \<Rightarrow> None)"

definition excerpt_answers :: "rstr \<Rightarrow> rstr \<Rightarrow> line_range option \<Rightarrow> file_excerpt \<Rightarrow> bool" where
  "excerpt_answers path hash requested e =
     (fe_path e = path \<and> fe_content_hash e = Some hash
      \<and> (case requested of
           Some r \<Rightarrow> fe_start_line e \<le> lr_start r \<and> lr_end r \<le> fe_end_line e
         | None \<Rightarrow> fe_start_line e = 1 \<and> \<not> fe_truncated e))"

definition numbered_lines :: "file_excerpt \<Rightarrow> nat \<Rightarrow> nat \<Rightarrow> (nat \<times> rstr) list" where
  "numbered_lines e first_line last_line =
     filter (\<lambda>(number, _). first_line \<le> number \<and> number \<le> last_line)
       (zip [fe_start_line e ..< fe_start_line e + length (lines (as_str (fe_text e)))]
          (lines (as_str (fe_text e))))"

definition line_json :: "nat \<times> rstr \<Rightarrow> json" where
  "line_json line = JObject [(''number'', JNumber (nat_to_decimal (fst line))), (''text'', JString (snd line))]"

definition cached_file ::
  "workspace_env \<Rightarrow> context_snapshot \<Rightarrow> json \<Rightarrow> json option" where
  "cached_file env s target =
     (case str_at target ''path'' of
        None \<Rightarrow> None
      | Some path \<Rightarrow>
     (if \<not> path_is_workspace_relative path then None
      else case requested_range target of
        None \<Rightarrow> None
      | Some requested \<Rightarrow>
     (case Option.bind (find (inspection_holds path) (cs_inspected s)) if_content_hash of
        None \<Rightarrow> None
      | Some hash \<Rightarrow>
     (if \<not> live_hash_matches env (cs_workspace_root s) path hash then None
      else case find (excerpt_answers path hash requested) (rev (cs_excerpts s)) of
        None \<Rightarrow> None
      | Some e \<Rightarrow>
          (let first_line = (case requested of None \<Rightarrow> fe_start_line e | Some r \<Rightarrow> lr_start r);
               last_line = (case requested of None \<Rightarrow> fe_end_line e | Some r \<Rightarrow> lr_end r);
               ls = numbered_lines e first_line last_line
           in if ls = [] then None
              else Some (JObject
                [(''binary'', JBool False),
                 (''bytes_read'', JNumber (nat_to_decimal (length (as_str (fe_text e))))),
                 (''content_hash'', JString hash),
                 (''lines'', JArray (map line_json ls)),
                 (''path'', JString path),
                 (''truncated'', JBool False)]))))))"

definition cached_read_result ::
  "(json \<Rightarrow> rstr + rstr) \<Rightarrow> workspace_env \<Rightarrow> context_snapshot \<Rightarrow> tool_call_id \<Rightarrow> json \<Rightarrow> tool_result option" where
  "cached_read_result encode env s call_id input =
     (if cs_workspace_changed s \<or> json_get input ''max_bytes'' \<noteq> None then None
      else
        (case array_at input ''files'' of
           None \<Rightarrow> None
         | Some targets \<Rightarrow>
             if targets = [] \<or> 64 < length targets then None
             else
               map_option
                 (\<lambda>files.
                    let result = result_success_json encode call_id
                          (JObject [(''files'', JArray files), (''truncated'', JBool False)])
                          DEFAULT_MAX_OUTPUT_BYTES
                    in result\<lparr>tr_output :=
                         bounded_new (''policy: reused current source evidence'' @ newline @ as_str (tr_output result))
                           DEFAULT_MAX_OUTPUT_BYTES\<rparr>)
                 (those (map (cached_file env s) targets))))"

subsection \<open>Preflight\<close>

text \<open>The first answer wins; a guardrail that answers counts it.\<close>

definition guarded ::
  "(loop_guardrails \<Rightarrow> tool_result option \<times> loop_guardrails) \<Rightarrow> autonomous_policy \<Rightarrow>
   tool_result option \<times> autonomous_policy" where
  "guarded check p =
     (let (answer, g) = check (ap_guardrails p) in (answer, p\<lparr>ap_guardrails := g\<rparr>))"

definition otherwise ::
  "tool_result option \<times> autonomous_policy \<Rightarrow>
   (autonomous_policy \<Rightarrow> tool_result option \<times> autonomous_policy) \<Rightarrow> tool_result option \<times> autonomous_policy" where
  "otherwise first next =
     (case first of (Some answer, p) \<Rightarrow> (Some answer, p) | (None, p) \<Rightarrow> next p)"

definition policy_preflight ::
  "(rstr \<Rightarrow> rstr) \<Rightarrow> (json \<Rightarrow> rstr + rstr) \<Rightarrow> workspace_env \<Rightarrow> context_snapshot \<Rightarrow> tool_call_id \<Rightarrow> rstr \<Rightarrow>
   json \<Rightarrow> autonomous_policy \<Rightarrow> tool_result option \<times> autonomous_policy" where
  "policy_preflight blake encode env s call_id name input p =
     (let revision = wk_workspace_revision (cs_workflow s);
          repeated_failure = guarded (preflight_failure blake call_id name input revision);
          gate = (\<lambda>p. (mutation_preflight s call_id name input, p))
      in if name = ''read'' then
           otherwise
             (otherwise
               (if ap_optimizations_enabled p then cached_read_result encode env s call_id input else None, p)
               repeated_failure)
             gate
         else otherwise (repeated_failure p) gate)"

definition policy_preflight_prepared ::
  "(json \<Rightarrow> rstr + rstr) \<Rightarrow> workspace_env \<Rightarrow> context_snapshot \<Rightarrow> prepared_action \<Rightarrow>
   autonomous_policy \<Rightarrow> tool_result option \<times> autonomous_policy" where
  "policy_preflight_prepared encode env s action p =
     (let revision = wk_workspace_revision (cs_workflow s);
          repeated_failure = (\<lambda>p. if ap_optimizations_enabled p
            then guarded (preflight_failure_prepared action revision) p else (None, p));
          gate = (\<lambda>p. (mutation_preflight_prepared s action, p))
      in if pa_tool action = ''read'' \<and> pa_classification action = ClassRead then
           otherwise
             (otherwise
               (if ap_optimizations_enabled p
                then cached_read_result encode env s (pa_call_id action) (pa_normalized_input action)
                else None, p)
               repeated_failure)
             gate
         else
           otherwise
             (otherwise (repeated_failure p)
               (\<lambda>p. if ap_optimizations_enabled p \<and> \<not> has_cached_prepared action revision (ap_guardrails p)
                    then guarded (preflight_prepared action revision) p else (None, p)))
             gate)"

subsection \<open>The tools offered\<close>

definition is_browser_tool :: "rstr \<Rightarrow> bool" where
  "is_browser_tool name =
     (name \<in> set [''browser.tabs'', ''browser.navigate'', ''browser.snapshot'', ''browser.find'',
        ''browser.wait'', ''browser.performance_audit''])"

definition phase_tool_names :: "context_snapshot \<Rightarrow> rstr list" where
  "phase_tool_names s =
     (let w = cs_workflow s; untouched = (cs_inspected s = [] \<and> cs_modified s = [])
      in case wk_phase w of
           PDiscover \<Rightarrow>
             (let task_lower = to_ascii_lowercase (as_str (cs_current_task s))
              in [''read'', ''list'', ''find'', ''search'', ''git'']
                 @ (if contains_str task_lower ''cargo'' \<or> contains_str task_lower ''test''
                       \<or> contains_str task_lower ''build'' \<or> contains_str task_lower ''run'' \<or> untouched
                    then [''shell''] else []))
         | PInspect \<Rightarrow>
             [''read'', ''list'', ''find'', ''search'']
               @ (if \<not> untouched then [''write'', ''patch''] else [])
               @ (if wk_verification w = WPending then [''shell''] else [])
         | PModify \<Rightarrow>
             [''read'', ''search'', ''write'', ''patch'', ''shell'']
               @ (if cs_modified s \<noteq> [] \<or> cs_user_modified s \<noteq> [] then [''git''] else [])
         | PVerify \<Rightarrow> [''read'', ''search'', ''shell'', ''process'', ''git'']
         | PComplete \<Rightarrow> [''read'', ''shell'', ''git''])"

definition determine_active_tool_names :: "context_snapshot \<Rightarrow> rstr list" where
  "determine_active_tool_names s =
     (if has_unresolved_failures (cs_workflow s) \<or> rc_active (wk_recovery (cs_workflow s))
         \<or> cs_workspace_changed s
      then [''read'', ''list'', ''find'', ''search'', ''write'', ''patch'', ''shell'', ''process'', ''git'']
      else
        (let names = phase_tool_names s
         in if cs_modified s \<noteq> [] \<and> ''git'' \<notin> set names then names @ [''git''] else names))"

definition select_tool_surface ::
  "autonomous_policy \<Rightarrow> context_snapshot \<Rightarrow> tool_definition list \<Rightarrow> tool_definition list" where
  "select_tool_surface p s all_tools =
     (if \<not> ap_optimizations_enabled p \<or> 2 \<le> ap_no_progress p then all_tools
      else filter (\<lambda>tool. def_name tool \<in> set (determine_active_tool_names s) \<or> is_browser_tool (def_name tool))
             all_tools)"

datatype turn_mode = RepositoryMode | ExternalResearchMode

definition select_tool_surface_for_mode ::
  "autonomous_policy \<Rightarrow> context_snapshot \<Rightarrow> tool_definition list \<Rightarrow> turn_mode \<Rightarrow> tool_definition list" where
  "select_tool_surface_for_mode p s all_tools mode =
     (if mode = ExternalResearchMode
      then filter (\<lambda>tool. def_name tool \<in> set EXTERNAL_RESEARCH_TOOLS) all_tools
      else select_tool_surface p s all_tools)"

subsection \<open>Ranking the next action\<close>

record ranked_action =
  ra_action :: decision_action
  ra_score :: nat
  ra_target :: "rstr option"
  ra_reason :: rstr

definition ranked :: "decision_action \<Rightarrow> nat \<Rightarrow> rstr option \<Rightarrow> rstr \<Rightarrow> ranked_action" where
  "ranked action score target reason =
     \<lparr>ra_action = action, ra_score = score, ra_target = target, ra_reason = reason\<rparr>"

text \<open>The derived order of \<open>DecisionAction\<close> is that of its variants; \<open>None\<close> precedes every target.\<close>

fun action_rank :: "decision_action \<Rightarrow> nat" where
  "action_rank DiscoverTarget = 0"
| "action_rank InspectCandidate = 1"
| "action_rank ResolveQuestion = 2"
| "action_rank MutateMinimal = 3"
| "action_rank VerifyFocused = 4"
| "action_rank VerifyBroader = 5"
| "action_rank Finish = 6"
| "action_rank Escalate = 7"

definition ranked_key :: "ranked_action \<Rightarrow> nat \<times> nat \<times> rstr list" where
  "ranked_key r = (65535 - ra_score r, action_rank (ra_action r), option_list (ra_target r))"

definition open_step :: "verification_step \<Rightarrow> bool" where
  "open_step step = (vs_status step = VPending \<or> vs_status step = VFailed)"

definition rank_verification :: "workflow_state \<Rightarrow> ranked_action list" where
  "rank_verification w =
     (if \<not> verification_open w then []
      else
        (let steps = filter (\<lambda>step. vs_revision step = wk_workspace_revision w \<and> vs_required step)
               (wk_verification_steps w)
         in case find (\<lambda>(index, step). open_step step) (enumerate 0 steps) of
              Some (index, step) \<Rightarrow>
                if index = 0
                then [ranked VerifyFocused 96 (Some (as_str (vs_command step)))
                        ''run the required focused check for the smallest affected scope'']
                else [ranked VerifyBroader 82 (Some (as_str (vs_command step)))
                        ''focused verification passed; escalate to the next bounded check'']
            | None \<Rightarrow>
                [ranked VerifyBroader 76 None
                   ''no focused plan established correctness; use the safe fallback check'']))"

definition first_candidate :: "decision_state \<Rightarrow> rstr option" where
  "first_candidate d = (case ds_candidate_files d of [] \<Rightarrow> None | c # _ \<Rightarrow> Some (as_str (dc_path c)))"

definition rank_candidates :: "context_snapshot \<Rightarrow> ranked_action list" where
  "rank_candidates s =
     (let w = cs_workflow s; d = wk_decision w
      in (case find (\<lambda>c. \<not> dc_inspected c \<or> dc_stale c) (ds_candidate_files d) of
            None \<Rightarrow> []
          | Some c \<Rightarrow> [ranked InspectCandidate 90 (Some (as_str (dc_path c)))
                        ''inspect the highest-ranked current candidate before editing''])
         @ (case ds_unresolved_questions d of
              [] \<Rightarrow> []
            | q # _ \<Rightarrow> [ranked ResolveQuestion 88 (Some (as_str (dq_key q))) (as_str (dq_question q))])
         @ (if ds_progress_confidence d < MIN_MUTATION_CONFIDENCE
            then [ranked DiscoverTarget 84 (first_candidate d)
                    ''collect targeted repository evidence before mutation'']
            else if wk_phase w = PInspect \<and> cs_modified s = []
            then [ranked MutateMinimal 74 (first_candidate d)
                    ''apply the smallest edit supported by inspected evidence'']
            else []))"

definition rank_recovery :: "context_snapshot \<Rightarrow> ranked_action list" where
  "rank_recovery s =
     (let w = cs_workflow s; recovery = wk_recovery w
      in (if td_phase (wk_director w) = TRecover
          then [ranked Escalate 102
                  (case rc_affected_paths recovery of [] \<Rightarrow> None | path # _ \<Rightarrow> Some (as_str path))
                  (''recover from '' @ failure_category_as_str (rc_category recovery) @ '' with ''
                     @ recovery_action_as_str (rc_action recovery) @ '' before attempting another mutation'')]
          else [])
         @ (if 3 \<le> ds_low_value_observations (wk_decision w)
            then [ranked Escalate 98 None ''repeated low-value observations need a changed approach'']
            else []))"

definition rank_next_actions :: "context_snapshot \<Rightarrow> ranked_action list" where
  "rank_next_actions s =
     (let w = cs_workflow s
      in if wk_phase w = PComplete \<and> wk_unresolved_failures w = []
         then [ranked Finish 100 None ''all required evidence and checks passed'']
         else
           (let found = rank_recovery s @ rank_verification w @ rank_candidates s;
                found = (if found = [] then [ranked DiscoverTarget 60 None
                           ''targeted discovery is the next bounded step''] else found)
            in take 8 (sort_key ranked_key found)))"

definition update_next_action :: "context_snapshot \<Rightarrow> context_snapshot" where
  "update_next_action s =
     (case rank_next_actions s of
        [] \<Rightarrow> s
      | best # _ \<Rightarrow>
          (let d = set_next (ra_action best) (ra_target best) (ra_reason best) (wk_decision (cs_workflow s));
               d = (case (if ra_action best = VerifyFocused \<or> ra_action best = VerifyBroader
                          then ra_target best else None) of
                      None \<Rightarrow> d
                    | Some target \<Rightarrow>
                        d\<lparr>ds_verification_scope := bounded_new target MAX_DECISION_FIELD_BYTES\<rparr>)
           in on_workflow (\<lambda>w. w\<lparr>wk_decision := d\<rparr>) s))"

definition policy_finish_turn :: "context_snapshot \<Rightarrow> context_snapshot \<times> bool" where
  "policy_finish_turn s = (let (s, complete) = finish_turn s in (update_next_action s, complete))"

definition policy_finish_external_research :: "context_snapshot \<Rightarrow> context_snapshot \<times> bool" where
  "policy_finish_external_research s =
     (let (s, complete) = finish_external_research s in (update_next_action s, complete))"

definition policy_completion_feedback :: "context_snapshot \<Rightarrow> u8 \<Rightarrow> rstr" where
  "policy_completion_feedback s attempts =
     (let w = cs_workflow s;
          next_text = (case rank_next_actions s of
             [] \<Rightarrow> ''continue with bounded evidence'' | best # _ \<Rightarrow> ra_reason best)
      in ''completion_blocked: attempt='' @ nat_to_decimal (unat attempts)
         @ ''; phase='' @ workflow_phase_as_str (wk_phase w)
         @ ''; failures='' @ nat_to_decimal (length (wk_unresolved_failures w))
         @ ''; verification='' @ workflow_verification_as_str (wk_verification w)
         @ ''; next='' @ next_text)"

subsection \<open>Progress of an action\<close>

definition classify_direct_action :: "rstr \<Rightarrow> json \<Rightarrow> action_classification" where
  "classify_direct_action name input =
     (if name = ''write'' \<or> name = ''patch'' then ClassMutation
      else
        (case command_effects_for_input input of
           Some e \<Rightarrow>
             if is_verification (ce_class e) then ClassVerification
             else if is_mutation (ce_class e) \<or> mutates_workspace e then ClassMutation
             else if is_read_only (ce_class e) then ClassRead
             else ClassOther
         | None \<Rightarrow>
             if name \<in> set [''read'', ''list'', ''find'', ''search'', ''git''] then ClassRead else ClassOther))"

definition classify_action_progress ::
  "rstr \<Rightarrow> action_classification \<Rightarrow> tool_result \<Rightarrow> bool \<Rightarrow> workflow_observation \<Rightarrow> workflow_observation \<Rightarrow>
   progress_effect" where
  "classify_action_progress tool classification result executed before after =
     (let has_output = (trim (as_str (tr_output result)) \<noteq> [])
      in if \<not> executed then (if tr_error result \<noteq> None then NoProgress else ReusedObservation)
         else if tr_ok result \<and> failure_state_changed before after then RecoveredFailure
         else if \<not> tr_ok result then
           (if classification = ClassVerification then VerificationEffect
            else if (case tr_error result of None \<Rightarrow> False | Some e \<Rightarrow> err_retryable e) then RefinedEvidence
            else NoProgress)
         else if classification = ClassMutation then WorkMutationEffect
         else if classification = ClassVerification then VerificationEffect
         else if before \<noteq> after then NewRepositoryEvidence
         else if tool = ''read'' \<or> tool = ''git'' then RefinedEvidence
         else if tool = ''search'' \<or> tool = ''find'' \<or> tool = ''list''
         then (if has_output then NewRepositoryEvidence else NoProgress)
         else if (tool = ''shell'' \<or> tool = ''process'') \<and> has_output then RefinedEvidence
         else NoProgress)"

subsection \<open>Decision evidence of a result\<close>

definition add_observed_path :: "rstr list \<Rightarrow> rstr \<Rightarrow> rstr list" where
  "add_observed_path paths path =
     (if path = [] \<or> path \<in> set paths \<or> length paths = MAX_POLICY_OBSERVED_PATHS then paths
      else paths @ [path])"

definition entry_paths :: "json option \<Rightarrow> rstr list" where
  "entry_paths v =
     (case v of
        Some (JString path) \<Rightarrow> [path]
      | Some (JArray entries) \<Rightarrow>
          List.map_filter (\<lambda>entry. case str_at entry ''path'' of Some p \<Rightarrow> Some p | None \<Rightarrow> json_as_str entry) entries
      | _ \<Rightarrow> [])"

definition result_paths :: "rstr \<Rightarrow> json \<Rightarrow> tool_result \<Rightarrow> rstr list" where
  "result_paths name input result =
     foldl add_observed_path []
       ((if name = ''write'' then option_list (str_at input ''path'') else [])
        @ (case tr_data result of
             None \<Rightarrow> []
           | Some data \<Rightarrow>
               concat (map (\<lambda>key. entry_paths (json_get data key)) [''path'', ''files'', ''matches'', ''paths''])))"

definition is_verification_call :: "rstr \<Rightarrow> json \<Rightarrow> bool" where
  "is_verification_call name input =
     (if name = ''git'' then str_at input ''operation'' \<in> {Some ''status'', Some ''diff''}
      else if name \<noteq> ''shell'' \<and> name \<noteq> ''process'' then False
      else is_verification_command input)"

record tool_evidence_update =
  tu_executed :: bool
  tu_revision :: u32
  tu_paths :: "rstr list"
  tu_kind :: decision_evidence_kind
  tu_detail :: rstr
  tu_verification_scope :: "rstr option"
  tu_mutation :: bool

definition record_path_evidence :: "tool_evidence_update \<Rightarrow> rstr \<Rightarrow> decision_state \<Rightarrow> decision_state" where
  "record_path_evidence u path d =
     (let d = record_decision_evidence ProvToolOutput (tu_kind u) path (tu_detail u)
                (if tu_executed u then 42 else 24) (tu_revision u) d
      in if tu_kind u = EvInspection then clear_question (''inspect:'' @ path) d else d)"

definition record_tool_evidence :: "tool_evidence_update \<Rightarrow> context_snapshot \<Rightarrow> context_snapshot" where
  "record_tool_evidence u s =
     (let d = wk_decision (cs_workflow s);
          d = (case tu_verification_scope u of
                 None \<Rightarrow> d
               | Some scope \<Rightarrow> d\<lparr>ds_verification_scope := bounded_new scope MAX_DECISION_SCOPE\<rparr>);
          d = (if tu_paths u = []
               then record_decision_evidence ProvToolOutput (tu_kind u) [] (tu_detail u) 20 (tu_revision u) d
               else fold (record_path_evidence u) (tu_paths u) d);
          d = (if tu_kind u = EvVerification then clear_question ''verification'' d else d);
          d = (if tu_mutation u then fold record_modified_scope (cs_modified s) d else d)
      in on_workflow (\<lambda>w. w\<lparr>wk_decision := d\<rparr>) s)"

definition evidence_kind :: "rstr \<Rightarrow> bool \<Rightarrow> decision_evidence_kind" where
  "evidence_kind name verification =
     (if verification then EvVerification
      else if name = ''read'' then EvInspection
      else if name = ''write'' \<or> name = ''patch'' then EvMutation
      else EvDiscovery)"

definition evidence_detail :: "rstr \<Rightarrow> bool \<Rightarrow> rstr" where
  "evidence_detail name executed = name @ (if executed then '' completed'' else '' reused cached observation'')"

definition update_evidence ::
  "rstr \<Rightarrow> json \<Rightarrow> tool_result \<Rightarrow> bool \<Rightarrow> context_snapshot \<Rightarrow> context_snapshot" where
  "update_evidence name input result executed s =
     (if \<not> tr_ok result then s
      else
        record_tool_evidence
          \<lparr>tu_executed = executed, tu_revision = wk_workspace_revision (cs_workflow s),
           tu_paths = result_paths name input result,
           tu_kind = evidence_kind name (is_verification_call name input),
           tu_detail = evidence_detail name executed,
           tu_verification_scope =
             (if is_verification_call name input
              then Option.bind (command_effects_for_input input) ce_verification_scope else None),
           tu_mutation = (name = ''write'' \<or> name = ''patch'')\<rparr> s)"

definition update_evidence_prepared ::
  "prepared_action \<Rightarrow> tool_result \<Rightarrow> bool \<Rightarrow> context_snapshot \<Rightarrow> context_snapshot" where
  "update_evidence_prepared action result executed s =
     (if \<not> tr_ok result then s
      else
        (let paths = result_paths (pa_tool action) (pa_normalized_input action) result
         in record_tool_evidence
              \<lparr>tu_executed = executed, tu_revision = wk_workspace_revision (cs_workflow s),
               tu_paths = (if paths = [] then pa_paths action else paths),
               tu_kind = evidence_kind (pa_tool action) (pa_classification action = ClassVerification),
               tu_detail = evidence_detail (pa_tool action) executed,
               tu_verification_scope = Option.bind (pa_command_effects action) ce_verification_scope,
               tu_mutation = (pa_tool action = ''write'' \<or> pa_tool action = ''patch'')\<rparr> s))"

subsection \<open>Candidates from the repository map\<close>

text \<open>
  What the symbol index answers for a task and paths: matches with a score and, for relationships,
  possibly a symbol and a mark of ambiguity.  Paths are those of the file system.
\<close>

record index_match =
  im_path :: rstr
  im_score :: nat
  im_symbol :: "repo_symbol option"
  im_ambiguous :: bool

record repo_index =
  rx_select :: "rstr \<Rightarrow> nat \<Rightarrow> repo_selection list"
  rx_symbols :: "rstr \<Rightarrow> rstr list \<Rightarrow> nat \<Rightarrow> index_match list"
  rx_relationships :: "rstr \<Rightarrow> rstr list \<Rightarrow> nat \<Rightarrow> index_match list"

definition add_relationship :: "repo_selection list \<Rightarrow> index_match \<Rightarrow> repo_selection list" where
  "add_relationship selections m =
     (let same = (\<lambda>x. path_eq (se_path x) (im_path m))
      in if list_ex same selections then
           update_first same
             (\<lambda>x. x\<lparr>se_score := max (se_score x) (im_score m),
                    se_symbol := (case se_symbol x of None \<Rightarrow> im_symbol m | Some y \<Rightarrow> Some y)\<rparr>)
             selections
         else selections @
           [\<lparr>se_path = im_path m, se_kind = (if im_ambiguous m then SelFile else SelTest),
             se_score = im_score m, se_symbol = im_symbol m\<rparr>])"

text \<open>
  \<open>sort_unstable_by\<close>: descending score, then the path by its components.  Selections with equal
  score and path may be permuted by the library.
\<close>

definition component_rank :: "path_component \<Rightarrow> nat \<times> rstr" where
  "component_rank c =
     (case c of RootDir \<Rightarrow> (0, []) | CurDir \<Rightarrow> (1, []) | ParentDir \<Rightarrow> (2, []) | Normal part \<Rightarrow> (3, part))"

definition selection_key :: "nat \<Rightarrow> repo_selection \<Rightarrow> nat \<times> (nat \<times> rstr) list" where
  "selection_key highest x = (highest - se_score x, map component_rank (path_components (se_path x)))"

definition targeted_selections :: "repo_index \<Rightarrow> rstr \<Rightarrow> rstr list \<Rightarrow> repo_selection list" where
  "targeted_selections rx task paths =
     (let selections =
            map (\<lambda>path. \<lparr>se_path = path, se_kind = SelFile, se_score = 32, se_symbol = None\<rparr>) paths
            @ map (\<lambda>m. \<lparr>se_path = im_path m, se_kind = SelFile, se_score = im_score m, se_symbol = im_symbol m\<rparr>)
                (rx_symbols rx task paths MAX_POLICY_CANDIDATES);
          selections = foldl add_relationship selections (rx_relationships rx task paths MAX_POLICY_CANDIDATES);
          highest = foldl max 0 (map se_score selections)
      in take MAX_POLICY_CANDIDATES (sort_key (selection_key highest) selections))"

fun distinct_upto :: "nat \<Rightarrow> rstr list \<Rightarrow> rstr list \<Rightarrow> rstr list" where
  "distinct_upto limit paths [] = paths"
| "distinct_upto limit paths (p # ps) =
     (let paths = (if p \<in> set paths then paths else paths @ [p])
      in if length paths = limit then paths else distinct_upto limit paths ps)"

definition policy_relevant_paths :: "context_snapshot \<Rightarrow> rstr list" where
  "policy_relevant_paths s =
     distinct_upto MAX_POLICY_CANDIDATES []
       (wk_relevant_files (cs_workflow s) @ cs_modified s @ map if_path (cs_inspected s))"

definition candidate_key :: "(rstr \<Rightarrow> rstr) \<Rightarrow> context_snapshot \<Rightarrow> rstr" where
  "candidate_key blake s =
     take 16 (blake (as_str (cs_current_task s)
       @ le_bytes 4 (unat (wk_workspace_revision (cs_workflow s))) @ concat (policy_relevant_paths s)))"

definition fold_selection :: "repo_selection \<Rightarrow> context_snapshot \<Rightarrow> context_snapshot" where
  "fold_selection x s =
     (let path = se_path x;
          inspected = list_ex (\<lambda>f. if_path f = path \<and> if_last_state f = OPresent \<and> \<not> if_stale f) (cs_inspected s);
          modified = (path \<in> set (cs_modified s));
          stale = list_ex (\<lambda>f. if_path f = path \<and> if_stale f) (cs_inspected s);
          evidence = (if se_symbol x \<noteq> None then 1 else 0) + (if se_kind x = SelTest then 1 else 0);
          d = upsert_candidate path (se_score x) evidence inspected modified stale (wk_decision (cs_workflow s));
          d = (case se_symbol x of
                 None \<Rightarrow> d
               | Some symbol \<Rightarrow>
                   record_decision_evidence ProvRepository
                     (if se_kind x = SelTest then EvRelationship else EvSymbol) path
                     (sy_name symbol @ '' at line '' @ nat_to_decimal (sy_line symbol))
                     (word_of_nat (min (se_score x) 96)) (wk_workspace_revision (cs_workflow s)) d)
      in on_workflow (\<lambda>w. w\<lparr>wk_decision := d\<rparr>) s)"

definition refresh_candidates ::
  "(rstr \<Rightarrow> rstr) \<Rightarrow> repo_index option \<Rightarrow> context_snapshot \<Rightarrow> autonomous_policy \<Rightarrow>
   context_snapshot \<times> autonomous_policy" where
  "refresh_candidates blake index s p =
     (let key = candidate_key blake s
      in if ap_candidate_key p = Some key then (s, p)
         else
           (let p = p\<lparr>ap_candidate_key := Some key\<rparr>; task = trim (as_str (cs_current_task s))
            in if task = [] then (s, p)
               else
                 (let paths = policy_relevant_paths s
                  in case index of
                       None \<Rightarrow> (s, p)
                     | Some rx \<Rightarrow>
                         (let s = fold fold_selection
                                (if paths = [] then rx_select rx task MAX_POLICY_CANDIDATES
                                 else targeted_selections rx task paths) s;
                              d = wk_decision (cs_workflow s);
                              d = (if ds_candidate_files d = []
                                   then record_question ''target''
                                     ''identify a relevant file before attempting a mutation'' d
                                   else clear_question ''target'' d)
                          in (update_next_action (on_workflow (\<lambda>w. w\<lparr>wk_decision := d\<rparr>) s), p)))))"

subsection \<open>Folding one observation\<close>

definition dash :: "rstr \<Rightarrow> rstr" where
  "dash text = (if text = [] then ''-'' else text)"

definition compact_feedback :: "context_snapshot \<Rightarrow> rstr" where
  "compact_feedback s =
     (let w = cs_workflow s; d = wk_decision w; work = wk_work w;
          work_detail =
            (if is_structured work
             then '' work='' @ work_mode_as_str (w_mode work)
                  @ '' active='' @ (case w_active_subgoal work of None \<Rightarrow> ''-'' | Some a \<Rightarrow> as_str a)
                  @ '' pending='' @ nat_to_decimal (unresolved_count work)
             else []);
          failure_text =
            (if wk_unresolved_failures w = [] then ''-''
             else (let f = last (wk_unresolved_failures w)
                   in as_str (wf_tool f) @ '':'' @ as_str (wf_code f)
                      @ '' attempts='' @ nat_to_decimal (unat (wf_attempts f))
                      @ '' category='' @ failure_category_as_str (wf_category f)))
      in ''dir='' @ turn_phase_as_str (td_phase (wk_director w))
         @ '' rec='' @ recovery_action_as_str (rc_action (wk_recovery w))
         @ '' decision: action='' @ decision_action_as_str (ds_next_action d)
         @ '' target='' @ (case ds_next_target d of None \<Rightarrow> ''-'' | Some t \<Rightarrow> as_str t)
         @ '' confidence='' @ nat_to_decimal (unat (ds_progress_confidence d))
         @ '' candidates='' @ nat_to_decimal (length (ds_candidate_files d))
         @ '' questions='' @ nat_to_decimal (length (ds_unresolved_questions d))
         @ '' scope='' @ dash (as_str (ds_verification_scope d))
         @ '' blocker='' @ failure_text @ work_detail)"

text \<open>The tail the two observers share, once the context has been updated.\<close>

definition note_effect ::
  "progress_effect \<Rightarrow> context_snapshot \<Rightarrow> autonomous_policy \<Rightarrow> context_snapshot \<times> autonomous_policy" where
  "note_effect effect s p =
     (if is_meaningful_progress effect
      then (on_progress note_meaningful_progress s, p\<lparr>ap_no_progress := 0\<rparr>)
      else (on_progress note_no_progress s, p\<lparr>ap_no_progress := saturating_add (ap_no_progress p) 1\<rparr>))"

definition conclude_observation :: "bool \<Rightarrow> rstr option \<Rightarrow> context_snapshot \<Rightarrow> context_snapshot \<times> rstr" where
  "conclude_observation valuable guard_feedback s =
     (let d = note_observation_value valuable (wk_decision (cs_workflow s));
          s = on_workflow (\<lambda>w. w\<lparr>wk_decision := d\<rparr>) s;
          s = (if 3 \<le> ds_low_value_observations d
               then on_workflow (\<lambda>w. w\<lparr>wk_decision := set_next Escalate None
                      ''repeated observations did not add evidence; change scope or arguments'' d\<rparr>) s
               else update_next_action s);
          feedback = compact_feedback s
      in (s, case guard_feedback of None \<Rightarrow> feedback | Some text \<Rightarrow> text @ newline @ feedback))"

definition policy_observe_prepared ::
  "(rstr \<Rightarrow> rstr) \<Rightarrow> workspace_env \<Rightarrow> repo_index option \<Rightarrow> prepared_action \<Rightarrow> tool_result \<Rightarrow> bool \<Rightarrow>
   context_engine \<Rightarrow> autonomous_policy \<Rightarrow> (context_engine \<times> autonomous_policy \<times> rstr) option" where
  "policy_observe_prepared blake env index action result executed e p =
     (let before = workflow_observation_from blake (cs_workflow (ce_snapshot e))
      in map_option
           (\<lambda>e. let s = update_evidence_prepared action result executed (ce_snapshot e);
                    (s, p) = refresh_candidates blake index s p;
                    after = workflow_observation_from blake (cs_workflow s);
                    (guard_feedback, g) = observe_snapshot_prepared blake action result before after (ap_guardrails p);
                    effect = classify_action_progress (pa_tool action) (pa_classification action) result
                               executed before after;
                    (s, p) = note_effect effect s (p\<lparr>ap_guardrails := g\<rparr>);
                    (s, feedback) = conclude_observation (before \<noteq> after \<and> executed) guard_feedback s
                in (e\<lparr>ce_snapshot := s\<rparr>, p, feedback))
           (observe_prepared env action result e))"

definition policy_observe ::
  "(rstr \<Rightarrow> rstr) \<Rightarrow> workspace_env \<Rightarrow> repo_index option \<Rightarrow> rstr \<Rightarrow> json \<Rightarrow> tool_result \<Rightarrow> bool \<Rightarrow>
   context_engine \<Rightarrow> autonomous_policy \<Rightarrow> (context_engine \<times> autonomous_policy \<times> rstr) option" where
  "policy_observe blake env index name input result executed e p =
     (let before = workflow_observation_from blake (cs_workflow (ce_snapshot e))
      in map_option
           (\<lambda>e. let s = update_evidence name input result executed (ce_snapshot e);
                    (s, p) = refresh_candidates blake index s p;
                    after = workflow_observation_from blake (cs_workflow s);
                    (guard_feedback, g) = observe_impl blake name input result before after (ap_guardrails p);
                    effect = classify_action_progress name (classify_direct_action name input) result
                               executed before after;
                    (s, p) = note_effect effect s (p\<lparr>ap_guardrails := g\<rparr>);
                    (s, feedback) = conclude_observation (before \<noteq> after \<and> executed) guard_feedback s
                in (e\<lparr>ce_snapshot := s\<rparr>, p, feedback))
           (observe_tool env name input result e))"

definition stall_feedback :: "autonomous_policy \<Rightarrow> context_snapshot \<Rightarrow> rstr option" where
  "stall_feedback p s =
     (if ap_no_progress p = 2 \<or> ap_no_progress p = 4 then
        (let w = cs_workflow s;
             subgoals = (case w_active_subgoal (wk_work w) of
                None \<Rightarrow> ''explore relevant repository files''
              | Some g \<Rightarrow> ''active subgoal '' @ [quote_char] @ as_str g @ [quote_char]);
             failures = (if wk_unresolved_failures w = [] then ''none''
                else join ''; '' (map (\<lambda>f. as_str (wf_tool f) @ '': '' @ as_str (wf_message f))
                       (wk_unresolved_failures w)))
         in Some (''progress stall detected: recent actions produced no new repository evidence or state changes (stall_count=''
              @ nat_to_decimal (unat (ap_no_progress p)) @ '').'' @ newline
              @ ''Active work: '' @ subgoals @ newline
              @ ''Unresolved failures: '' @ failures @ newline
              @ ''Guidance: Reconsider current strategy: inspect target source files, apply the required minimal mutation, or verify the fix.''))
      else None)"

end
