(* ===== verification/Context_Freshness.thy ===== *)
theory Context_Freshness
  imports Context_Engine_Facts Policy
begin

section \<open>Current evidence\<close>

text \<open>
  When the evidence the engine holds is that of the live workspace: after a comparison with the
  workspace, after a command that changed files, and what a mutation the policy lets through then
  rests on.
\<close>

subsection \<open>The two readers of a live hash agree\<close>

lemma live_hash_matches_iff:
  "live_hash_matches env root p h \<longleftrightarrow> live_file_hash env root p = Some h"
  by (auto simp: live_hash_matches_def live_file_hash_def Let_def split: sum.splits option.splits)

lemma auto_excerpt_hash:
  assumes "read_auto_excerpt env root p focus = Some e"
  shows "portable (fe_path e) \<and> fe_content_hash e \<noteq> None
    \<and> fe_content_hash e = live_file_hash env root (fe_path e)"
proof -
  obtain q bytes where q: "workspace_path_new p = Inr q"
    and bytes: "Option.bind (canonical_file env root q) (env_read env) = Some bytes"
    and small: "length bytes \<le> MAX_AUTOMATIC_SOURCE_BYTES"
    and e: "auto_excerpt_of (workspace_path_display q) (env_blake3_hex env bytes) (lines bytes) focus = Some e"
    using assms by (auto simp: read_auto_excerpt_def split: sum.splits option.splits if_splits)
  have "fe_path e = q" "fe_content_hash e = Some (env_blake3_hex env bytes)"
    using e normal_form [OF q] by (auto simp: auto_excerpt_of_def Let_def split: prod.splits if_splits)
  then show ?thesis
    using normal_form [OF q] bytes small auto_excerpt_ok [OF assms]
    by (simp add: live_file_hash_def excerpt_ok_def MAX_AUTOMATIC_SOURCE_BYTES_def)
qed

subsection \<open>After a comparison with the workspace\<close>

definition current_in :: "workspace_env \<Rightarrow> rstr \<Rightarrow> inspected_file \<Rightarrow> bool" where
  "current_in env root f \<longleftrightarrow>
     (if_last_state f = OPresent \<and> \<not> if_stale f \<longrightarrow>
        if_content_hash f \<noteq> None \<and> if_content_hash f = live_file_hash env root (if_path f))"

lemma refresh_inspected_path [simp]: "if_path (fst (refresh_inspected env root f)) = if_path f"
  by (simp add: refresh_inspected_def split: option.split)

lemma refresh_inspected_current: "current_in env root (fst (refresh_inspected env root f))"
  by (auto simp: refresh_inspected_def current_in_def split: option.split)

text \<open>The files whose live content is not what was seen.\<close>

definition drifted :: "workspace_env \<Rightarrow> rstr \<Rightarrow> inspected_file \<Rightarrow> bool" where
  "drifted env root f \<longleftrightarrow>
     (case live_file_hash env root (if_path f) of
        None \<Rightarrow> if_last_state f = OPresent
      | Some h \<Rightarrow> if_content_hash f \<noteq> None \<and> if_content_hash f \<noteq> Some h)"

lemma refresh_inspected_drifted: "snd (refresh_inspected env root f) \<longleftrightarrow> drifted env root f"
  by (auto simp: refresh_inspected_def drifted_def split: option.split)

lemma settle_drift_lists [simp]:
  "cs_inspected (settle_drift b ps s) = cs_inspected s"
  "cs_workspace_changed (settle_drift b ps s) = (cs_workspace_changed s \<or> ps \<noteq> [])"
  "cs_excerpts (settle_drift b ps s) = filter (\<lambda>x. fe_path x \<notin> set ps) (cs_excerpts s)"
  "cs_workspace_root (settle_drift b ps s) = cs_workspace_root s"
  by (simp_all add: settle_drift_def on_progress_def reset_workflow_for_workspace_change_def Let_def)

definition relative_inspected :: "context_engine \<Rightarrow> inspected_file list" where
  "relative_inspected e = filter (\<lambda>f. path_is_workspace_relative (if_path f)) (cs_inspected (ce_snapshot e))"

lemma refresh_simps:
  "snd (refresh_against_workspace env root e) = map if_path (filter (drifted env root) (relative_inspected e))"
  "cs_inspected (ce_snapshot (fst (refresh_against_workspace env root e))) =
     map (fst \<circ> refresh_inspected env root) (relative_inspected e)"
  "cs_workspace_root (ce_snapshot (fst (refresh_against_workspace env root e))) = root"
  by (simp_all add: refresh_against_workspace_def Let_def relative_inspected_def filter_map o_def
      refresh_inspected_drifted case_prod_unfold)

lemma refresh_current:
  "list_all (current_in env root) (cs_inspected (ce_snapshot (fst (refresh_against_workspace env root e))))"
  by (simp add: refresh_simps list_all_iff refresh_inspected_current)

lemma refresh_drift:
  assumes "snd (refresh_against_workspace env root e) \<noteq> []"
  shows "cs_workspace_changed (ce_snapshot (fst (refresh_against_workspace env root e)))
    \<and> list_all (\<lambda>x. fe_path x \<notin> set (snd (refresh_against_workspace env root e)))
        (cs_excerpts (ce_snapshot (fst (refresh_against_workspace env root e))))"
  using assms by (auto simp: refresh_against_workspace_def Let_def list_all_iff)

subsection \<open>What an admitted mutation rests on\<close>

text \<open>The targets of an action that replaces content, with the hash the model gave for each.\<close>

definition replaced_targets :: "prepared_action \<Rightarrow> (rstr \<times> rstr option) list" where
  "replaced_targets action =
     (if pa_tool action = ''write''
      then (case pa_paths action of [] \<Rightarrow> [] | path # _ \<Rightarrow> [(path, str_at (pa_normalized_input action) ''expected_hash'')])
      else if pa_tool action = ''patch''
      then map (\<lambda>file. (or_else (str_at file ''path'') [], str_at file ''expected_hash''))
             (or_else (array_at (pa_normalized_input action) ''files'') [])
      else [])"

definition creates_only :: "prepared_action \<Rightarrow> bool" where
  "creates_only action \<longleftrightarrow> pa_tool action = ''write''
     \<and> Option.bind (json_get (pa_normalized_input action) ''create_only'') json_as_bool = Some True"

lemma evidence_hash:
  assumes "distinct (map if_path (cs_inspected s))" and "list_all (current_in env root) (cs_inspected s)"
    and "current_target_has_evidence s path" and "expected_hash_matches s path expected"
  shows "expected \<noteq> None \<and> expected = live_file_hash env root path"
proof -
  obtain f where f: "f \<in> set (cs_inspected s)" "inspection_holds path f"
    using assms(3) by (auto simp: current_target_has_evidence_def list_ex_iff)
  obtain g where g: "find (\<lambda>f. if_path f = path) (cs_inspected s) = Some g" "expected = if_content_hash g"
    using assms(4) by (auto simp: expected_hash_matches_def split: option.splits)
  then have "g \<in> set (cs_inspected s)" "if_path g = path" by (auto simp: find_Some_iff)
  with f assms(1) have "g = f" by (auto simp: inspection_holds_def distinct_map inj_on_def)
  then show ?thesis
    using f g assms(2) by (auto simp: list_all_iff current_in_def inspection_holds_def)
qed

subsection \<open>After a command that changed files\<close>

definition live_hash :: "workspace_env \<Rightarrow> rstr \<Rightarrow> rstr \<Rightarrow> rstr option \<Rightarrow> bool" where
  "live_hash env root path h \<longleftrightarrow> h \<noteq> None \<and> h = live_file_hash env root path"

text \<open>The files a command may have changed: all of them, or those that overlap a target.\<close>

definition affected_by :: "command_effects \<Rightarrow> rstr \<Rightarrow> bool" where
  "affected_by e path \<longleftrightarrow>
     ce_uncertain e \<or> effect_targets e = [] \<or> list_ex (paths_overlap path) (effect_targets e)"

definition survives :: "command_effects \<Rightarrow> context_snapshot \<Rightarrow> inspected_file \<Rightarrow> bool" where
  "survives e s f \<longleftrightarrow> \<not> affected_by e (if_path f) \<and> f \<in> set (cs_inspected s)"

definition excerpt_survives :: "command_effects \<Rightarrow> context_snapshot \<Rightarrow> file_excerpt \<Rightarrow> bool" where
  "excerpt_survives e s x \<longleftrightarrow>
     \<not> ce_uncertain e \<and> effect_targets e \<noteq> [] \<and> fe_path x \<notin> set (effect_targets e) \<and> x \<in> set (cs_excerpts s)"

definition trusted_only ::
  "workspace_env \<Rightarrow> rstr \<Rightarrow> (inspected_file \<Rightarrow> bool) \<Rightarrow> (file_excerpt \<Rightarrow> bool) \<Rightarrow> context_snapshot \<Rightarrow> bool" where
  "trusted_only env root keeps keeps_excerpt s \<longleftrightarrow>
     list_all (\<lambda>f. if_stale f \<or> keeps f \<or> live_hash env root (if_path f) (if_content_hash f)) (cs_inspected s)
     \<and> list_all (\<lambda>x. keeps_excerpt x \<or> live_hash env root (fe_path x) (fe_content_hash x)) (cs_excerpts s)"

lemma trusted_frame [simp]:
  "trusted_only env root P Q (s\<lparr>cs_workflow := w\<rparr>) = trusted_only env root P Q s"
  "trusted_only env root P Q (record_relevant_path p s) = trusted_only env root P Q s"
  "trusted_only env root P Q (on_progress f s) = trusted_only env root P Q s"
  "trusted_only env root P Q (refresh_verification_plan repo s) = trusted_only env root P Q s"
  by (simp_all add: trusted_only_def record_relevant_path_def on_progress_def refresh_verification_plan_def
      Let_def split: option.split)

lemma trusted_store:
  assumes s: "trusted_only env root P Q s" and e: "read_auto_excerpt env root p focus = Some e"
  shows "trusted_only env root P Q (store_automatic_excerpt e s)"
proof -
  have live: "live_hash env root (fe_path e) (fe_content_hash e)" and "portable (fe_path e)"
    using auto_excerpt_hash [OF e] unfolding live_hash_def by blast+
  then have path: "portable_workspace_path (fe_path e) = Some (fe_path e)" by (simp add: portable_def)
  obtain h where h: "fe_content_hash e = Some h" using live unfolding live_hash_def by blast
  let ?r = "Some \<lparr>lr_start = fe_start_line e, lr_end = fe_end_line e\<rparr>"
  have upsert: "trusted_only env root P Q (upsert_inspected (fe_path e) (fe_content_hash e) ?r OPresent s)"
  proof (cases "find (\<lambda>f. if_path f = fe_path e) (cs_inspected s)")
    case None
    then show ?thesis
      using s live by (simp add: upsert_inspected_def path trusted_only_def list_all_push_evicting)
  next
    case (Some f)
    let ?u = "update_first (\<lambda>f. if_path f = fe_path e) (touch_inspected (fe_content_hash e) ?r OPresent) (cs_inspected s)"
    have "list_all (\<lambda>f. if_stale f \<or> P f \<or> live_hash env root (if_path f) (if_content_hash f)) ?u"
      using s live by (intro list_all_update_first) (auto simp: trusted_only_def touch_inspected_def h)
    then show ?thesis
      using s Some by (auto simp: upsert_inspected_def path Let_def trusted_only_def drop_excerpts_def list_all_iff)
  qed
  have "trusted_only env root P Q (push_excerpt e t)" if "trusted_only env root P Q t" for t
    using that live by (auto simp: trusted_only_def push_excerpt_def list_all_iff dest!: set_push_evicting [THEN subsetD])
  then show ?thesis using upsert by (simp add: store_automatic_excerpt_def Let_def)
qed

lemma trusted_promote_paths:
  "trusted_only env root P Q s \<Longrightarrow> trusted_only env root P Q (snd (snd (promote_paths env root seen b ps s)))"
  by (induction env root seen b ps s rule: promote_paths.induct)
    (auto simp: trusted_store split: option.split)

lemma record_target_frame [simp]:
  "cs_inspected (record_target p s) = cs_inspected s" "cs_excerpts (record_target p s) = cs_excerpts s"
  "cs_workspace_root (record_target p s) = cs_workspace_root s"
  by (simp_all add: record_target_def record_modified_def record_relevant_path_def Let_def)

lemma fold_target_frame [simp]:
  "cs_inspected (fold record_target ps s) = cs_inspected s"
  "cs_excerpts (fold record_target ps s) = cs_excerpts s"
  "cs_workspace_root (fold record_target ps s) = cs_workspace_root s"
  by (induction ps arbitrary: s) simp_all

lemma trusted_invalidate:
  assumes "cs_inspected t = cs_inspected s" and "cs_excerpts t = cs_excerpts s"
  shows "trusted_only env root (survives e s) (excerpt_survives e s) (invalidate_command_effects e t)"
  using assms
  by (auto simp: trusted_only_def invalidate_command_effects_def survives_def excerpt_survives_def
      affected_by_def mark_stale_def list_all_iff)

lemma observe_mutation_trusted:
  "trusted_only env (cs_workspace_root s) (survives e s) (excerpt_survives e s)
     (fst (observe_mutation env repo n i r (Some e) s))"
proof -
  define t where "t = invalidate_command_effects e (fold record_target (modified_targets e) s)"
  define paths where "paths = mutation_paths n i r (Some e)"
  define u where "u = on_workflow (record_mutation_scope n paths) t"
  have root: "cs_workspace_root u = cs_workspace_root s"
    by (simp add: u_def t_def invalidate_command_effects_def)
  have "trusted_only env (cs_workspace_root s) (survives e s) (excerpt_survives e s) u"
    unfolding u_def t_def by (simp add: trusted_invalidate)
  then have "trusted_only env (cs_workspace_root s) (survives e s) (excerpt_survives e s)
      (fst (promote_mutation_evidence env paths u))"
    using trusted_promote_paths [where s = u and env = env and P = "survives e s"
        and Q = "excerpt_survives e s" and ps = "take MAX_AUTOMATIC_EVIDENCE_FILES paths" and seen = "[]"
        and b = "length paths \<le> MAX_AUTOMATIC_EVIDENCE_FILES" and root = "cs_workspace_root s"]
    by (cases "promote_paths env (cs_workspace_root s) [] (length paths \<le> MAX_AUTOMATIC_EVIDENCE_FILES)
        (take MAX_AUTOMATIC_EVIDENCE_FILES paths) u") (auto simp: promote_mutation_evidence_def Let_def root)
  then show ?thesis
    by (cases "promote_mutation_evidence env paths u")
      (simp add: observe_mutation_def Let_def paths_def [symmetric] t_def [symmetric] u_def [symmetric])
qed

subsection \<open>Overlapping paths\<close>

lemma portable_cases:
  assumes "portable p"
  obtains "p = ''.''" | ps where "ps \<noteq> []" "\<forall>x \<in> set ps. plain_piece x" "p = join ''/'' ps"
    "path_components p = map Normal ps"
proof -
  obtain q where q: "workspace_path_new p = Inr q" "workspace_path_display q = p"
    using assms by (auto simp: portable_def portable_workspace_path_def split: sum.splits)
  then have "q = p" using normal_form [OF q(1)] by simp
  then show thesis
    using workspace_path_new_Inr [of p p] q(1) that path_components_join by blast
qed

lemma plain_last: "plain_piece x \<Longrightarrow> x \<noteq> [] \<and> CHR ''/'' \<notin> set x"
  by (simp add: plain_piece_def)

lemma join_plain_last:
  assumes "ps \<noteq> []" and "\<forall>x \<in> set ps. plain_piece x"
  shows "join ''/'' ps \<noteq> [] \<and> last (join ''/'' ps) \<noteq> CHR ''/''"
  using assms
proof (induction ps rule: rev_induct)
  case (snoc x xs)
  then have "x \<noteq> []" "last x \<noteq> CHR ''/''" using plain_last [of x] last_in_set [of x] by fastforce+
  then show ?case by (cases "xs = []") (auto simp: join_snoc)
qed simp

lemma join_append: "ps \<noteq> [] \<Longrightarrow> qs \<noteq> [] \<Longrightarrow> join sep (ps @ qs) = join sep ps @ sep @ join sep qs"
proof (induction ps rule: induct_list012)
  case (2 x)
  then show ?case by (cases qs) auto
qed auto

lemma split_on_joined:
  "ps \<noteq> [] \<Longrightarrow> \<forall>x \<in> set ps. plain_piece x \<Longrightarrow>
   split_on CHR ''/'' (join ''/'' ps @ ''/'' @ r) = ps @ split_on CHR ''/'' r"
proof (induction ps rule: induct_list012)
  case (2 x)
  then show ?case using split_on_from_sep [of "CHR ''/''" x "[]" r] plain_last [of x] by (simp add: split_on_def)
next
  case (3 x y zs)
  then have "CHR ''/'' \<notin> set x" using plain_last by simp
  then show ?case
    using 3 split_on_from_sep [of "CHR ''/''" x "[]" "join ''/'' (y # zs) @ ''/'' @ r"] by (simp add: split_on_def)
qed simp

lemma join_prefix:
  assumes "ps \<noteq> []" "qs \<noteq> []" "\<forall>x \<in> set ps. plain_piece x" "\<forall>x \<in> set qs. plain_piece x"
  shows "(\<exists>r. join ''/'' qs = join ''/'' ps @ ''/'' @ r) \<longleftrightarrow> strict_prefix ps qs"
proof
  assume "\<exists>r. join ''/'' qs = join ''/'' ps @ ''/'' @ r"
  then obtain r where r: "join ''/'' qs = join ''/'' ps @ ''/'' @ r" by blast
  have "split_on CHR ''/'' (join ''/'' qs) = qs"
    using assms(2,4) plain_last by (intro split_on_join_pieces) auto
  then have "qs = ps @ split_on CHR ''/'' r" using split_on_joined [OF assms(1,3), of r] r by simp
  moreover have "split_on CHR ''/'' r \<noteq> []" using split_on_from_Cons [of "CHR ''/''" "[]" r] by (auto simp: split_on_def)
  ultimately show "strict_prefix ps qs" by (metis append_self_conv prefixI prefix_order.less_le)
next
  assume "strict_prefix ps qs"
  then obtain zs where "qs = ps @ zs" "zs \<noteq> []" by (auto simp: strict_prefix_def prefix_def)
  then show "\<exists>r. join ''/'' qs = join ''/'' ps @ ''/'' @ r" using join_append [of ps zs "''/''"] assms(1) by auto
qed

lemma is_path_parent_iff:
  assumes "ps \<noteq> []" "qs \<noteq> []" "\<forall>x \<in> set ps. plain_piece x" "\<forall>x \<in> set qs. plain_piece x"
  shows "is_path_parent (join ''/'' ps) (join ''/'' qs) \<longleftrightarrow> strict_prefix ps qs"
proof -
  have "dropWhile (\<lambda>c. c = CHR ''/'') (rev (join ''/'' ps)) = rev (join ''/'' ps)"
    using join_plain_last [OF assms(1,3)] by (cases "join ''/'' ps" rule: rev_cases) auto
  moreover have rest: "starts_with t ''/'' \<longleftrightarrow> (\<exists>r. t = ''/'' @ r)" for t
    using starts_with_decomp [of t "''/''"] by (auto simp del: append.simps)
  ultimately have "is_path_parent (join ''/'' ps) (join ''/'' qs) \<longleftrightarrow> (\<exists>r. join ''/'' qs = join ''/'' ps @ ''/'' @ r)"
    using rest strip_prefix_Some [of "join ''/'' qs" "join ''/'' ps"]
    by (cases "strip_prefix (join ''/'' qs) (join ''/'' ps)") (auto simp: is_path_parent_def Let_def)
  then show ?thesis using join_prefix [OF assms] by simp
qed

text \<open>Away from the workspace root itself, two paths overlap when one contains the other.\<close>

lemma paths_overlap_iff:
  assumes "portable p" "portable q" "p \<noteq> ''.''" "q \<noteq> ''.''"
  shows "paths_overlap p q \<longleftrightarrow> path_starts_with p q \<or> path_starts_with q p"
proof -
  obtain ps where ps: "ps \<noteq> []" "\<forall>x \<in> set ps. plain_piece x" "p = join ''/'' ps" "path_components p = map Normal ps"
    using portable_cases [OF assms(1)] assms(3) by metis
  obtain qs where qs: "qs \<noteq> []" "\<forall>x \<in> set qs. plain_piece x" "q = join ''/'' qs" "path_components q = map Normal qs"
    using portable_cases [OF assms(2)] assms(4) by metis
  have "prefix (map Normal xs) (map Normal ys) \<longleftrightarrow> prefix xs ys" for xs ys :: "rstr list"
    by (induction xs ys rule: list_induct2') auto
  moreover have "p = q \<longleftrightarrow> ps = qs" using ps qs by (metis list.inj_map_strong path_component.inject)
  ultimately show ?thesis
    using is_path_parent_iff [of ps qs] is_path_parent_iff [of qs ps] ps qs
    by (auto simp: paths_overlap_def path_starts_with_def prefix_order.le_less)
qed

end
