(* ===== verification/Context_Machine.thy ===== *)
theory Context_Machine
  imports Context_Freshness Work_Properties
begin

section \<open>The context engine as a machine\<close>

text \<open>
  The operations a turn performs on the engine as one machine, and the invariant every run of them
  keeps: the bounds and the shape of the lists, the phase of the workflow, the bounds of the workflow.
\<close>

subsection \<open>Operations and runs\<close>

datatype engine_op =
    EObserve rstr json tool_result
  | EPrepared prepared_action tool_result
  | EFinish
  | EResearch
  | ERefresh rstr
  | ETask rstr
  | EConstraints "rstr list"
  | EWork json
  | EContinuation "json option"
  | EGit git_snapshot
  | EWorkspaceChanged bool
  | EModel "rstr option"

fun engine_run ::
  "(rstr \<Rightarrow> rstr) \<Rightarrow> workspace_env \<Rightarrow> engine_op \<Rightarrow> context_engine \<Rightarrow> context_engine option" where
  "engine_run digest env (EObserve name input result) e = observe_tool env name input result e"
| "engine_run digest env (EPrepared action result) e = observe_prepared env action result e"
| "engine_run digest env EFinish e = Some (on_snapshot (\<lambda>s. fst (finish_turn s)) e)"
| "engine_run digest env EResearch e = Some (on_snapshot (\<lambda>s. fst (finish_external_research s)) e)"
| "engine_run digest env (ERefresh root) e = Some (fst (refresh_against_workspace env root e))"
| "engine_run digest env (ETask prompt) e = Some (on_snapshot (set_task digest prompt) e)"
| "engine_run digest env (EConstraints cs) e = Some (on_snapshot (set_constraints digest cs) e)"
| "engine_run digest env (EWork update) e = Some (on_snapshot (\<lambda>s. fst (apply_model_work_update update s)) e)"
| "engine_run digest env (EContinuation c) e = Some (on_snapshot (set_continuation c) e)"
| "engine_run digest env (EGit git) e = map_option (\<lambda>s. e\<lparr>ce_snapshot := s\<rparr>) (set_git git (ce_snapshot e))"
| "engine_run digest env (EWorkspaceChanged b) e = Some (on_snapshot (set_workspace_changed b) e)"
| "engine_run digest env (EModel model) e = Some (on_snapshot (set_model model) e)"

text \<open>The workspace may change between two operations, so each has its own environment.\<close>

inductive engine_reachable :: "(rstr \<Rightarrow> rstr) \<Rightarrow> context_engine \<Rightarrow> bool" for digest where
  start: "engine_reachable digest (engine_new root model)"
| step: "engine_reachable digest e \<Longrightarrow> engine_run digest env op e = Some e' \<Longrightarrow> engine_reachable digest e'"

definition engine_ok :: "context_snapshot \<Rightarrow> bool" where
  "engine_ok s \<longleftrightarrow> context_within s \<and> phase_ok (cs_workflow s) \<and> workflow_within (cs_workflow s)"

lemma engine_ok_frame [simp]:
  "engine_ok (s\<lparr>cs_continuation := c\<rparr>) = engine_ok s" "engine_ok (s\<lparr>cs_model := m\<rparr>) = engine_ok s"
  "engine_ok (s\<lparr>cs_git := g\<rparr>) = engine_ok s" "engine_ok (s\<lparr>cs_current_task := t\<rparr>) = engine_ok s"
  by (simp_all add: engine_ok_def context_within_def)

lemma engine_ok_J:
  "engine_ok s \<longleftrightarrow> context_within s \<and> phase_client.J s \<and> within_client.J s"
  by (simp add: engine_ok_def phase_client.J_def within_client.J_def)

lemma ok_observe:
  "engine_ok s \<Longrightarrow> observe_with_effects env repo n i r eff prep s = Some s' \<Longrightarrow> engine_ok s'"
  using observe_within phase_client.observe_J within_client.observe_J by (auto simp: engine_ok_J)

lemma reset_within [simp]: "context_within (reset_workflow_for_workspace_change s) = context_within s"
  by (simp add: reset_workflow_for_workspace_change_def Let_def)

lemma ok_finish: "engine_ok s \<Longrightarrow> engine_ok (fst (finish_turn s))"
  using phase_client.finish_J [of s] within_client.finish_J [of s]
  by (auto simp: engine_ok_J finish_turn_def Let_def enforce_within split: prod.split)

lemma ok_enforce: "engine_ok s \<Longrightarrow> engine_ok (context_enforce_bounds s)"
  by (simp add: engine_ok_J enforce_within phase_client.enforce_J within_client.enforce_J)

lemma filter_within:
  "context_within s \<Longrightarrow> context_within (s\<lparr>cs_excerpts := filter P (cs_excerpts s)\<rparr>)"
  "context_within s \<Longrightarrow> context_within (s\<lparr>cs_modified := filter Q (cs_modified s)\<rparr>)"
  by (auto simp: context_within_def list_all_iff distinct_map_filter intro: le_trans [OF length_filter_le])

lemma within_cong:
  assumes "context_within s" "cs_inspected t = cs_inspected s" "cs_excerpts t = cs_excerpts s"
    "cs_tool_summaries t = cs_tool_summaries s" "cs_modified t = cs_modified s"
    "cs_user_modified t = cs_user_modified s"
  shows "context_within t"
  using assms by (simp add: context_within_def)

lemma settle_drift_within: "context_within s \<Longrightarrow> context_within (settle_drift b ps s)"
proof -
  assume s: "context_within s"
  define t where "t = (if ps \<noteq> [] then (on_progress note_stale_invalidation s)
      \<lparr>cs_workspace_changed := True, cs_excerpts := filter (\<lambda>x. fe_path x \<notin> set ps) (cs_excerpts s)\<rparr> else s)"
  have "context_within t"
    unfolding t_def using s
    by (auto intro: within_cong [OF filter_within(1) [OF s, of "\<lambda>x. fe_path x \<notin> set ps"]] simp: on_progress_def)
  then have "context_within (if b \<or> ps \<noteq> [] then reset_workflow_for_workspace_change t else t)" by simp
  then show ?thesis unfolding settle_drift_def Let_def t_def [symmetric] by (rule filter_within)
qed

lemma refreshed_within: "context_within s \<Longrightarrow>
  context_within (s\<lparr>cs_inspected := map (fst \<circ> refresh_inspected env root) (filter P (cs_inspected s))\<rparr>)"
proof -
  have paths: "map if_path (map (fst \<circ> refresh_inspected env root) fs) = map if_path fs" for fs
    by (simp add: o_def)
  have all: "list_all (\<lambda>f. Q (if_path f)) (map (fst \<circ> refresh_inspected env root) fs) = list_all (\<lambda>f. Q (if_path f)) fs"
    for Q fs
    by (simp add: list.pred_map o_def)
  assume "context_within s"
  then show ?thesis
    by (auto simp: context_within_def paths all distinct_map_filter simp del: map_map
        intro: le_trans [OF length_filter_le]) (auto simp: list_all_iff)
qed

lemma ok_refresh:
  "engine_ok (ce_snapshot e) \<Longrightarrow> engine_ok (ce_snapshot (fst (refresh_against_workspace env root e)))"
proof -
  assume e: "engine_ok (ce_snapshot e)"
  let ?s = "(ce_snapshot e)\<lparr>cs_inspected := map (fst \<circ> refresh_inspected env root) (relative_inspected e)\<rparr>"
  have "context_within ?s" using e refreshed_within by (simp add: engine_ok_def relative_inspected_def)
  then have "context_within (ce_snapshot (fst (refresh_against_workspace env root e)))"
    by (simp add: refresh_against_workspace_def Let_def relative_inspected_def)
      (rule settle_drift_within, erule within_cong, simp_all add: o_def)
  then show ?thesis
    using e phase_client.refresh_J [of e env root] within_client.refresh_J [of e env root] by (simp add: engine_ok_J)
qed

lemma ok_task: "engine_ok (on_work f s) \<Longrightarrow> engine_ok (after_task_update before (on_work f s))"
proof -
  assume ok: "engine_ok (on_work f s)"
  have phase: "phase_ok (sync_director m b (w\<lparr>wk_task_revision := r\<rparr>))"
    if "phase_ok w" for m b w r
    using that by (intro sync_phase_ok) (simp add: phase_ok_def verification_open_def)
  have within: "workflow_within (sync_director m b (w\<lparr>wk_task_revision := r\<rparr>))"
    "workflow_within (sync_director m b (w\<lparr>wk_task_revision := r, wk_completed_task_revision := None,
       wk_phase := p, wk_recovery := recovery_clear (wk_recovery w)\<rparr>))"
    if "workflow_within w" for m b w r p
    using that by (simp_all add: workflow_within_def recovery_clear_def)
  show ?thesis
    using ok phase within by (simp add: engine_ok_def after_task_update_def Let_def sync_not_done)
qed

lemma ok_work: "engine_ok s \<Longrightarrow> work_within (f (wk_work (cs_workflow s))) \<Longrightarrow> engine_ok (on_work f s)"
  by (simp add: engine_ok_def on_work_def phase_ok_def workflow_within_def verification_open_def)

lemma ok_work_within: "engine_ok s \<Longrightarrow> work_within (wk_work (cs_workflow s))"
  by (simp add: engine_ok_def workflow_within_def)

lemma ok_git: "engine_ok s \<Longrightarrow> set_git g s = Some s' \<Longrightarrow> engine_ok s'"
  by (auto simp: engine_ok_J set_git_def phase_client.J_def within_client.J_def
      dest: status_within phase_client.status_J [unfolded phase_client.J_def]
        within_client.status_J [unfolded within_client.J_def])

lemma ok_changed: "engine_ok s \<Longrightarrow> engine_ok (set_workspace_changed b s)"
  using phase_client.workspace_changed_J [of s b] within_client.workspace_changed_J [of s b]
  by (simp add: engine_ok_J set_workspace_changed_def)

lemma ok_new: "engine_ok (snapshot_new root model)"
  by (simp add: engine_ok_def snapshot_new_def phase_ok_new workflow_within_new context_within_def)

lemma ok_update: "engine_ok s \<Longrightarrow> engine_ok (on_work (apply_task_update digest prompt cs) s)"
  by (rule ok_work) (simp_all add: apply_task_update_within ok_work_within)

lemma ok_outline: "engine_ok s \<Longrightarrow> engine_ok (fst (apply_model_work_update update s))"
  using outline_within [OF ok_work_within, of s update]
  by (auto simp: apply_model_work_update_def split: prod.split intro!: ok_work)

lemma ok_set_task: "engine_ok s \<Longrightarrow> engine_ok (set_task digest prompt s)"
  by (simp add: set_task_def Let_def initialize_from_prompt_def [abs_def] ok_task ok_update)

lemma ok_set_constraints: "engine_ok s \<Longrightarrow> engine_ok (set_constraints digest cs s)"
  by (simp add: set_constraints_def Let_def ok_task ok_update)

lemma engine_run_ok:
  assumes "engine_ok (ce_snapshot e)" and "engine_run digest env op e = Some e'"
  shows "engine_ok (ce_snapshot e')"
  using assms
  by (cases op)
    (auto simp: observe_tool_def observe_prepared_def ok_finish finish_external_research_def
      ok_enforce ok_refresh ok_set_task ok_set_constraints ok_outline set_continuation_def
      ok_changed set_model_def dest: ok_observe ok_git)

end
