(* ===== verification/Context_Persist.thy ===== *)
theory Context_Persist
  imports Context_Engine_Facts
begin

section \<open>What of a session is written to disk, and read back\<close>

subsection \<open>What the saved shape hides\<close>

text \<open>Summaries of tools whose output must not be saved.\<close>

definition output_hidden :: "compact_tool_summary \<Rightarrow> bool" where
  "output_hidden t \<longleftrightarrow> ts_tool t \<in> set [''shell'', ''process'', ''git''] \<or> starts_with (ts_tool t) ''browser.''"

text \<open>A snapshot with other private contents: prompt, excerpts, git status, command output.\<close>

definition with_private ::
  "bounded_text \<Rightarrow> file_excerpt list \<Rightarrow> bounded_text \<Rightarrow> (compact_tool_summary \<Rightarrow> bounded_text) \<Rightarrow>
   context_snapshot \<Rightarrow> context_snapshot" where
  "with_private task excerpts status text s =
     s\<lparr>cs_current_task := task, cs_excerpts := excerpts,
       cs_git := map_option (\<lambda>g. g\<lparr>gs_status := status\<rparr>) (cs_git s),
       cs_tool_summaries := map (\<lambda>t. if output_hidden t then t\<lparr>ts_summary := text t\<rparr> else t) (cs_tool_summaries s)\<rparr>"

lemma persistable_summary_hidden:
  "output_hidden t \<Longrightarrow> persistable_tool_summary (t\<lparr>ts_summary := x\<rparr>) = persistable_tool_summary t"
  by (simp add: persistable_tool_summary_def output_hidden_def)

lemma persistable_hides: "persistable (with_private task excerpts status text s) = persistable s"
proof -
  have "map persistable_tool_summary (map (\<lambda>t. if output_hidden t then t\<lparr>ts_summary := text t\<rparr> else t) ts) =
      map persistable_tool_summary ts" for ts
    by (simp add: persistable_summary_hidden)
  moreover have "map_option (\<lambda>g. \<lparr>gs_branch = gs_branch g, gs_status = bounded_new [] MAX_GIT_SNAPSHOT_BYTES,
        gs_available = gs_available g\<rparr>) (map_option (\<lambda>g. g\<lparr>gs_status := status\<rparr>) git) =
      map_option (\<lambda>g. \<lparr>gs_branch = gs_branch g, gs_status = bounded_new [] MAX_GIT_SNAPSHOT_BYTES,
        gs_available = gs_available g\<rparr>) git" for git :: "git_snapshot option"
    by (cases git) simp_all
  ultimately show ?thesis
    unfolding persistable_def with_private_def by (simp del: map_map)
qed

text \<open>Of a continuation only the two identity keys survive, with short texts.\<close>

definition safe_entry :: "rstr \<times> json \<Rightarrow> bool" where
  "safe_entry e \<longleftrightarrow> is_safe_continuation_key (fst e)
     \<and> (\<exists>text. snd e = JString text \<and> text \<noteq> [] \<and> length text \<le> 256)"

lemma kept_entries_safe: "list_all safe_entry (kept_entries es)"
  by (induction es rule: kept_entries.induct) (auto simp: safe_entry_def split: option.split)

lemma kept_entries_id: "list_all safe_entry es \<Longrightarrow> kept_entries es = es"
  by (induction es rule: kept_entries.induct) (auto simp: safe_entry_def json_as_str_def)

lemma persistable_continuation_idem:
  "persistable_continuation v = Some w \<Longrightarrow>
   persistable_continuation w = Some w \<and> (\<exists>es. w = JObject es \<and> es \<noteq> [] \<and> list_all safe_entry es)"
  using kept_entries_safe kept_entries_id
  by (auto simp: persistable_continuation_def Let_def split: json.splits if_splits)

subsection \<open>Saving and restoring\<close>

definition saves_exactly :: "context_snapshot \<Rightarrow> bool" where
  "saves_exactly s \<longleftrightarrow> context_within s
     \<and> list_all (\<lambda>p. p \<noteq> [] \<and> length p \<le> MAX_CONTEXT_PATH_BYTES) (cs_user_modified s)
     \<and> length (cs_rendered_fingerprints s) \<le> MAX_CONTEXT_FINGERPRINTS
     \<and> list_all (\<lambda>f. f \<noteq> [] \<and> length f \<le> MAX_CONTEXT_FINGERPRINT_BYTES) (cs_rendered_fingerprints s)"

lemma map_bounded_id: "list_all (\<lambda>p. p \<noteq> [] \<and> length p \<le> n) ps \<Longrightarrow> map (\<lambda>p. as_str (bounded_new p n)) ps = ps"
  by (induction ps) (auto simp: bounded_new_short)

lemma filter_all: "list_all P xs \<Longrightarrow> filter P xs = xs"
  by (simp add: list_all_iff)

lemma persistable_lists:
  assumes "saves_exactly s"
  shows "cs_inspected (persistable s) = cs_inspected s" "cs_modified (persistable s) = cs_modified s"
    "cs_user_modified (persistable s) = cs_user_modified s"
    "cs_rendered_fingerprints (persistable s) = cs_rendered_fingerprints s"
    "cs_excerpts (persistable s) = []" "as_str (cs_current_task (persistable s)) = []"
    "cs_workspace_changed (persistable s) = cs_workspace_changed s"
    "cs_workspace_root (persistable s) = cs_workspace_root s" "cs_model (persistable s) = cs_model s"
    "cs_tool_summaries (persistable s) = map persistable_tool_summary (cs_tool_summaries s)"
proof -
  have u: "map (\<lambda>p. as_str (bounded_new p MAX_CONTEXT_PATH_BYTES)) (cs_user_modified s) = cs_user_modified s"
    "filter (\<lambda>p. p \<noteq> []) (cs_user_modified s) = cs_user_modified s"
    using assms by (auto simp: saves_exactly_def list_all_iff intro!: map_bounded_id)
  have "length (cs_user_modified s) \<le> MAX_USER_MODIFIED_FILES"
    using assms by (simp add: saves_exactly_def context_within_def)
  then show "cs_user_modified (persistable s) = cs_user_modified s" using u by (simp add: persistable_def)
  have "map (\<lambda>p. as_str (bounded_new p MAX_CONTEXT_FINGERPRINT_BYTES)) (cs_rendered_fingerprints s)
      = cs_rendered_fingerprints s"
    using assms by (auto simp: saves_exactly_def intro!: map_bounded_id)
  then show "cs_rendered_fingerprints (persistable s) = cs_rendered_fingerprints s"
    using assms by (simp add: persistable_def saves_exactly_def)
qed (simp_all add: persistable_def bounded_new_short)

lemma restore_persisted:
  assumes "saves_exactly s"
  defines "t \<equiv> ce_snapshot (engine_restore (persistable s))"
  shows "cs_inspected t = cs_inspected s \<and> cs_modified t = cs_modified s
    \<and> cs_user_modified t = cs_user_modified s \<and> cs_rendered_fingerprints t = cs_rendered_fingerprints s
    \<and> cs_workspace_root t = cs_workspace_root s \<and> cs_model t = cs_model s
    \<and> cs_workspace_changed t = cs_workspace_changed s \<and> cs_excerpts t = []
    \<and> map ts_tool (cs_tool_summaries t) = map ts_tool (cs_tool_summaries s)
    \<and> map ts_ok (cs_tool_summaries t) = map ts_ok (cs_tool_summaries s)
    \<and> ce_repo_map (engine_restore (persistable s)) = map_of_root (cs_workspace_root s)
    \<and> workflow_within (cs_workflow t)"
proof -
  have fields: "ts_tool (persistable_tool_summary x) = ts_tool x" "ts_ok (persistable_tool_summary x) = ts_ok x" for x
    by (simp_all add: persistable_tool_summary_def)
  have lens: "length (cs_inspected s) \<le> MAX_INSPECTED_FILES" "length (cs_modified s) \<le> MAX_CONTEXT_ITEMS"
    "length (cs_user_modified s) \<le> MAX_USER_MODIFIED_FILES" "length (cs_tool_summaries s) \<le> MAX_STORED_TOOL_SUMMARIES"
    "length (cs_rendered_fingerprints s) \<le> MAX_CONTEXT_FINGERPRINTS"
    "list_all (\<lambda>p. p \<noteq> [] \<and> length p \<le> MAX_CONTEXT_PATH_BYTES) (cs_user_modified s)"
    "list_all (\<lambda>f. f \<noteq> [] \<and> length f \<le> MAX_CONTEXT_FINGERPRINT_BYTES) (cs_rendered_fingerprints s)"
    using assms(1) by (simp_all add: saves_exactly_def context_within_def)
  have "workflow_within (sync_director m b (workflow_enforce_bounds w))" for m b w
    by (simp add: workflow_enforce_within)
  with lens show ?thesis
    by (simp add: t_def engine_restore_def Let_def persistable_lists [OF assms(1)] filter_all o_def fields)
qed

subsection \<open>Saving forgets the prompt, not the failures\<close>

lemma recorded_failure_in:
  assumes "length (wk_unresolved_failures w) \<le> MAX_WORKFLOW_FAILURES"
  shows "\<exists>f \<in> set (wk_unresolved_failures (record_failure g w)). wf_message f = wf_message g"
proof -
  have upd: "list_ex P xs \<Longrightarrow> (\<And>x. wf_message (h x) = wf_message g) \<Longrightarrow>
      \<exists>f \<in> set (update_first P h xs). wf_message f = wf_message g" for P h xs
    by (induction xs) auto
  show ?thesis
  proof (cases "list_ex (\<lambda>e. wf_key e = wf_key g) (wk_unresolved_failures w)")
    case True
    then show ?thesis
      using assms upd [OF True, of "\<lambda>e. e\<lparr>wf_tool := wf_tool g, wf_code := wf_code g, wf_message := wf_message g,
          wf_category := wf_category g, wf_revision := wf_revision g, wf_diagnostics := wf_diagnostics g,
          wf_attempts := saturating_add (wf_attempts e) 1\<rparr>"]
      by (simp add: record_failure_def note_failure_def Let_def not_less)
  next
    case False
    then show ?thesis
      by (cases "wk_unresolved_failures w") (auto simp: record_failure_def note_failure_def Let_def MAX_WORKFLOW_FAILURES_def)
  qed
qed

lemma recorded_failure_length:
  "length (wk_unresolved_failures w) \<le> MAX_WORKFLOW_FAILURES \<Longrightarrow>
   length (wk_unresolved_failures (record_failure g w)) \<le> MAX_WORKFLOW_FAILURES"
  by (auto simp: record_failure_def note_failure_def Let_def)

lemma saved_failure_message:
  assumes "length (wk_unresolved_failures (cs_workflow s)) \<le> MAX_WORKFLOW_FAILURES"
    and "length message \<le> MAX_WORKFLOW_FIELD_BYTES"
  shows "\<exists>f \<in> set (wk_unresolved_failures (cs_workflow (persistable (on_workflow
       (record_failure (failure_new_at_revision key name code message category revision diagnostics)) s)))).
     as_str (wf_message f) = message"
proof -
  let ?g = "failure_new_at_revision key name code message category revision diagnostics"
  obtain f where "f \<in> set (wk_unresolved_failures (record_failure ?g (cs_workflow s)))" "wf_message f = field message"
    using recorded_failure_in [OF assms(1), of ?g] by (auto simp: failure_new_at_revision_def)
  then have "enforce_failure f \<in> enforce_failure ` set (wk_unresolved_failures (record_failure ?g (cs_workflow s)))"
    by (intro imageI)
  moreover have "as_str (wf_message (enforce_failure f)) = message"
    using assms(2) \<open>wf_message f = field message\<close>
    by (simp add: enforce_failure_def refield_def field_def bounded_new_short)
  ultimately show ?thesis
    using recorded_failure_length [OF assms(1), of ?g]
    by (auto simp: persistable_def workflow_enforce_bounds_def Let_def)
qed

end
