(* ===== verification/Context_Properties.thy ===== *)
theory Context_Properties
  imports Context_Machine Context_Persist
begin

section \<open>Properties of the context engine\<close>

text \<open>
  What every session of the engine keeps, when an observation panics, what a comparison with the
  workspace leaves, what a command that changed files leaves, when a turn may finish, and what of a
  session reaches the disk.
\<close>

subsection \<open>Sessions\<close>


lemma reachable_task:
  "engine_reachable digest e \<Longrightarrow> engine_reachable digest (on_snapshot (set_task digest prompt) e)"
  by (rule engine_reachable.step [where op = "ETask prompt"]) simp_all

lemma reachable_finish:
  "engine_reachable digest e \<Longrightarrow> engine_reachable digest (on_snapshot (\<lambda>s. fst (finish_turn s)) e)"
  by (rule engine_reachable.step [where op = EFinish]) simp_all


subsection \<open>Observations that panic\<close>

lemma dirty_paths_from_None:
  "dirty_paths_from ls ps = None \<longleftrightarrow>
   list_ex (\<lambda>l. \<not> starts_with l ''## '' \<and> 3 \<le> length l \<and> \<not> is_char_boundary l 2) ls"
  by (induction ls ps rule: dirty_paths_from.induct) (auto simp: Let_def not_less)

lemma list_ex_dropWhile: "(\<And>x. Q x \<Longrightarrow> \<not> P x) \<Longrightarrow> list_ex Q (dropWhile P xs) = list_ex Q xs"
  by (induction xs) auto

lemma dirty_paths_None:
  "dirty_paths t = None \<longleftrightarrow>
   list_ex (\<lambda>l. \<not> starts_with l ''## '' \<and> 3 \<le> length l \<and> \<not> is_char_boundary l 2) (lines t)"
  unfolding dirty_paths_def dirty_paths_from_None by (rule list_ex_dropWhile) simp

lemma observe_data_None:
  "observe_data n i r s = None \<longleftrightarrow>
   n = ''git'' \<and> observe_git r (observe_relevant n i r s) = None"
  by (auto simp: observe_data_def Let_def)

text \<open>An observation panics exactly when it is of the tool \<open>git\<close> and some line of the reported
  output, other than a branch line, of at least three bytes, has no character boundary after two
  bytes; every other observation returns a snapshot.\<close>

theorem observation_panics:
  "observe_with_effects env repo n i r eff prep s = None \<longleftrightarrow>
     n = ''git''
     \<and> (case tr_data r of
          None \<Rightarrow> False
        | Some data \<Rightarrow>
            list_ex (\<lambda>l. \<not> starts_with l ''## '' \<and> 3 \<le> length l \<and> \<not> is_char_boundary l 2)
              (lines (or_else (str_at data ''stdout'') [])))"
proof -
  have "starts_with n ''browser.'' \<Longrightarrow> n \<noteq> ''git''" by (auto simp: starts_with_def)
  then show ?thesis
    by (auto simp: observe_with_effects_def Let_def observe_data_None observe_git_def
        record_user_modified_from_status_def dirty_paths_None split: option.split)
qed

subsection \<open>Comparing with the workspace\<close>

lemma refresh_snapshot:
  "ce_snapshot (fst (refresh_against_workspace env root e)) =
     settle_drift (cs_workspace_root (ce_snapshot e) \<notin> {[], root})
       (map if_path (filter (drifted env root) (relative_inspected e)))
       ((ce_snapshot e)\<lparr>cs_workspace_root := root,
          cs_inspected := map (fst \<circ> refresh_inspected env root) (relative_inspected e),
          cs_workspace_changed := (cs_workspace_changed (ce_snapshot e)
            \<or> cs_workspace_root (ce_snapshot e) \<notin> {[], root}
            \<or> relative_inspected e \<noteq> cs_inspected (ce_snapshot e))\<rparr>)"
proof -
  have "relative_inspected e \<noteq> cs_inspected (ce_snapshot e) \<longleftrightarrow>
      list_ex (\<lambda>f. \<not> path_is_workspace_relative (if_path f)) (cs_inspected (ce_snapshot e))"
    by (auto simp: relative_inspected_def list_ex_iff filter_id_conv)
  moreover have "map (\<lambda>(f, _). if_path f) (filter snd (map (refresh_inspected env root) fs)) =
      map if_path (filter (drifted env root) fs)" for fs
    by (simp add: filter_map o_def case_prod_unfold refresh_inspected_drifted)
  ultimately show ?thesis
    by (simp add: refresh_against_workspace_def Let_def relative_inspected_def [symmetric] del: filter_filter)
qed

lemma drift_phase:
  "wk_phase (cs_workflow (settle_drift b ps s)) = (if b \<or> ps \<noteq> [] then PDiscover else wk_phase (cs_workflow s))"
proof -
  have "wk_phase (reset_for_workspace_change w) = PDiscover" for w
    by (simp add: reset_for_workspace_change_def Let_def)
  then show ?thesis
    by (simp add: settle_drift_def reset_workflow_for_workspace_change_def on_progress_def Let_def)
qed

text \<open>C5: A comparison with the live workspace reports exactly the recorded files whose live content is not
  what was seen; afterwards every file held as present and fresh has the hash of its live content,
  the excerpts are those of the files that did not drift, and when anything drifted, or the session
  moved to another root, the workspace counts as changed and the workflow is back in discovery.\<close>

theorem refresh_finds_drift:
  "snd (refresh_against_workspace env root e) = map if_path (filter (drifted env root) (relative_inspected e))
   \<and> list_all (current_in env root) (cs_inspected (ce_snapshot (fst (refresh_against_workspace env root e))))
   \<and> map if_path (cs_inspected (ce_snapshot (fst (refresh_against_workspace env root e))))
       = map if_path (relative_inspected e)
   \<and> cs_excerpts (ce_snapshot (fst (refresh_against_workspace env root e)))
       = filter (\<lambda>x. fe_path x \<notin> if_path ` set (filter (drifted env root) (relative_inspected e)))
           (cs_excerpts (ce_snapshot e))
   \<and> cs_workspace_changed (ce_snapshot (fst (refresh_against_workspace env root e)))
       = (cs_workspace_changed (ce_snapshot e) \<or> cs_workspace_root (ce_snapshot e) \<notin> {[], root}
          \<or> relative_inspected e \<noteq> cs_inspected (ce_snapshot e)
          \<or> list_ex (drifted env root) (relative_inspected e))
   \<and> wk_phase (cs_workflow (ce_snapshot (fst (refresh_against_workspace env root e))))
       = (if cs_workspace_root (ce_snapshot e) \<notin> {[], root} \<or> list_ex (drifted env root) (relative_inspected e)
          then PDiscover else wk_phase (cs_workflow (ce_snapshot e)))"
proof -
  have "list_ex P xs \<longleftrightarrow> filter P xs \<noteq> []" for P and xs :: "inspected_file list"
    by (auto simp: list_ex_iff filter_empty_conv)
  then show ?thesis
    unfolding refresh_snapshot drift_phase settle_drift_lists
    using refresh_current [of env root e] refresh_simps(1) [of env root e]
    by (simp add: refresh_snapshot o_def)
qed

subsection \<open>After a command that changed files\<close>


subsection \<open>Finishing a turn\<close>

lemma finish_phase: "wk_phase (cs_workflow (context_enforce_bounds s)) = wk_phase (cs_workflow s)"
proof -
  have "wk_phase (workflow_enforce_bounds w) = wk_phase w" for w
    by (simp add: workflow_enforce_bounds_def Let_def)
  then show ?thesis by (simp add: context_enforce_bounds_def Let_def)
qed

text \<open>C4: A turn that changed code may finish only with current evidence: \<open>finish_turn\<close> answers true exactly
  when the workspace did not change, no inspected file is stale, no path the user changed overlaps a
  path the agent changed, and the workflow itself is completable; and exactly then is the workflow
  left in phase \<open>Complete\<close>.\<close>

theorem finish_turn_exact:
  "snd (finish_turn s) =
     (\<not> cs_workspace_changed s \<and> \<not> any_stale s
      \<and> list_all (\<lambda>p. list_all (\<lambda>q. \<not> paths_overlap p q) (cs_modified s)) (cs_user_modified s)
      \<and> completable (cs_modified s) True True (cs_workflow s))
   \<and> (wk_phase (cs_workflow (fst (finish_turn s))) = PComplete) = snd (finish_turn s)"
proof -
  let ?u = "list_all (\<lambda>p. list_all (\<lambda>q. \<not> paths_overlap p q) (cs_modified s)) (cs_user_modified s)"
  have u: "(\<not> list_ex (\<lambda>p. list_ex (paths_overlap p) (cs_modified s)) (cs_user_modified s)) = ?u"
    by (auto simp: list_all_iff list_ex_iff)
  have c: "completable m e b w \<longleftrightarrow> b \<and> completable m e True w" for m e b w
    by (auto simp: completable_def ready_iff)
  show ?thesis
  proof (cases "cs_workspace_changed s \<or> any_stale s")
    case True
    have "wk_phase (reset_for_workspace_change w) = PDiscover" for w
      by (simp add: reset_for_workspace_change_def Let_def)
    then show ?thesis using True by (auto simp: finish_turn_def reset_workflow_for_workspace_change_def Let_def)
  next
    case False
    obtain w b where r: "complete_if_ready_with_evidence (cs_modified s) True ?u (cs_workflow s) = (w, b)"
      by (cases "complete_if_ready_with_evidence (cs_modified s) True ?u (cs_workflow s)")
    then have b: "b = completable (cs_modified s) True ?u (cs_workflow s)"
      using complete_result [of "cs_modified s" True ?u "cs_workflow s"] by simp
    have "wk_phase w = PComplete \<longleftrightarrow> b"
      using complete_accepts [of "cs_modified s" True ?u "cs_workflow s"]
        complete_rejects [of "cs_modified s" True ?u "cs_workflow s"] unfolding b r by auto
    then show ?thesis
      using False b c [of "cs_modified s" True ?u "cs_workflow s"]
      by (simp add: finish_turn_def u r finish_phase)
  qed
qed

subsection \<open>What reaches the disk\<close>


text \<open>Saving and restoring loses only what is private: from a snapshot within its limits, the restored
  engine has the same files, changed paths, paths of the user, fingerprints, root, model and flag, no
  excerpts, summaries of the same tools with the same outcomes, and a workflow within its bounds.\<close>

theorem restored_session:
  assumes "saves_exactly s"
  shows "(let t = ce_snapshot (engine_restore (persistable s))
    in cs_inspected t = cs_inspected s \<and> cs_modified t = cs_modified s
      \<and> cs_user_modified t = cs_user_modified s \<and> cs_rendered_fingerprints t = cs_rendered_fingerprints s
      \<and> cs_workspace_root t = cs_workspace_root s \<and> cs_model t = cs_model s
      \<and> cs_workspace_changed t = cs_workspace_changed s \<and> cs_excerpts t = []
      \<and> map ts_tool (cs_tool_summaries t) = map ts_tool (cs_tool_summaries s)
      \<and> map ts_ok (cs_tool_summaries t) = map ts_ok (cs_tool_summaries s)
      \<and> workflow_within (cs_workflow t))"
  using restore_persisted [OF assms] by (simp add: Let_def)

definition small_session :: context_snapshot where
  "small_session = (snapshot_new ''/w'' (Some ''m''))
     \<lparr>cs_inspected := [\<lparr>if_path = ''a'', if_content_hash = Some ''h'', if_ranges = [], if_last_state = OPresent,
        if_stale = False\<rparr>],
      cs_modified := [''a''], cs_user_modified := [''b'']\<rparr>"

lemma plain_name_ok: "workspace_path_new [c] = Inr [c]" if "c \<in> set ''abc''"
  using that workspace_path_new_join [of "[[c]]"] by (auto simp: plain_piece_def)

lemma restored_session_witness:
  "cs_user_modified (ce_snapshot (engine_restore (persistable small_session))) = [''b'']"
proof -
  have "saves_exactly small_session"
    by (simp add: saves_exactly_def small_session_def snapshot_new_def context_within_def portable_def
        portable_workspace_path_def plain_name_ok normal_form [OF plain_name_ok] path_is_workspace_relative_def
        context_limits)
  from restored_session [OF this] show ?thesis by (simp add: Let_def small_session_def)
qed

text \<open>A workspace whose files are gone.\<close>

definition empty_workspace :: workspace_env where
  "empty_workspace = \<lparr>env_canonicalize = (\<lambda>p. None), env_symlink_metadata = (\<lambda>p. None), env_read = (\<lambda>p. None),
     env_blake3_hex = (\<lambda>b. b), env_repo = (\<lambda>r. None)\<rparr>"

lemma refresh_finds_drift_witness:
  "snd (refresh_against_workspace empty_workspace ''/w'' \<lparr>ce_snapshot = small_session, ce_repo_map = None\<rparr>) = [''a'']"
proof -
  let ?e = "\<lparr>ce_snapshot = small_session, ce_repo_map = None\<rparr>"
  have "relative_inspected ?e = cs_inspected small_session"
    by (simp add: relative_inspected_def small_session_def path_is_workspace_relative_def plain_name_ok)
  moreover have "filter (drifted empty_workspace ''/w'') (cs_inspected small_session) = cs_inspected small_session"
    by (simp add: small_session_def drifted_def live_file_hash_def plain_name_ok canonical_file_def empty_workspace_def)
  ultimately show ?thesis
    using refresh_finds_drift [of empty_workspace "''/w''" ?e] by (simp add: small_session_def)
qed

end
