(* ===== verification/Mutation_Gate.thy ===== *)
theory Mutation_Gate
  imports Policy Context_Freshness
begin

section \<open>The gate of a turn (aether-agent/src/agent.rs)\<close>

text \<open>
  The gate the agent hands to the scheduler for one step: the tools of a research turn, the policy,
  and a second check of every write and patch against the snapshot.  Also the pure helpers of a turn.
\<close>

definition is_external_research_tool :: "rstr \<Rightarrow> bool" where
  "is_external_research_tool name =
     (name \<in> set [''read'', ''list'', ''find'', ''search'', ''git'', ''browser.tabs'', ''browser.navigate'',
        ''browser.snapshot'', ''browser.find'', ''browser.wait'', ''browser.performance_audit''])"

definition gate_expected_hash_matches :: "context_snapshot \<Rightarrow> rstr \<Rightarrow> rstr option \<Rightarrow> bool" where
  "gate_expected_hash_matches s path expected =
     (case expected of
        None \<Rightarrow> False
      | Some expected \<Rightarrow>
          Option.bind (find (\<lambda>f. if_path f = path) (cs_inspected s)) if_content_hash = Some expected)"

definition gate_parent_discovered :: "context_snapshot \<Rightarrow> rstr \<Rightarrow> bool" where
  "gate_parent_discovered s path =
     (let parent = or_else (path_parent path) ''.''
      in list_ex (\<lambda>relevant. case path_parent relevant of None \<Rightarrow> False | Some candidate \<Rightarrow> path_eq candidate parent)
           (wk_relevant_files (cs_workflow s)))"

definition target_is_currently_inspected :: "context_snapshot \<Rightarrow> rstr \<Rightarrow> json \<Rightarrow> bool" where
  "target_is_currently_inspected s path input =
     (let matches = gate_expected_hash_matches s path (str_at input ''expected_hash'')
      in path_is_workspace_relative path
         \<and> path \<in> set (wk_relevant_files (cs_workflow s))
         \<and> (list_all (\<lambda>owned. owned \<noteq> path) (cs_user_modified s) \<or> matches)
         \<and> list_ex (\<lambda>f. inspection_holds path f \<and> matches) (cs_inspected s))"

definition patch_file_inspected :: "context_snapshot \<Rightarrow> json \<Rightarrow> bool" where
  "patch_file_inspected s item =
     (case str_at item ''path'' of None \<Rightarrow> False | Some path \<Rightarrow> target_is_currently_inspected s path item)"

definition mutation_targets_inspected_prepared :: "context_snapshot \<Rightarrow> prepared_action \<Rightarrow> bool" where
  "mutation_targets_inspected_prepared s action =
     (if pa_tool action = ''write'' then
        (case pa_paths action of
           [] \<Rightarrow> False
         | path # _ \<Rightarrow>
             target_is_currently_inspected s path (pa_normalized_input action)
             \<or> path_is_workspace_relative path
               \<and> Option.bind (json_get (pa_normalized_input action) ''create_only'') json_as_bool = Some True
               \<and> gate_parent_discovered s path)
      else if pa_tool action = ''patch'' then
        (case array_at (pa_normalized_input action) ''files'' of
           None \<Rightarrow> False
         | Some files \<Rightarrow> files \<noteq> [] \<and> list_all (patch_file_inspected s) files)
      else True)"

definition workflow_gate :: "context_snapshot \<Rightarrow> prepared_action \<Rightarrow> tool_result option" where
  "workflow_gate s action =
     (if (pa_tool action \<noteq> ''write'' \<and> pa_tool action \<noteq> ''patch'') \<or> mutation_targets_inspected_prepared s action
      then None
      else Some (result_failure (pa_call_id action) ''inspection_required''
             ''inspect the relevant workspace code before modifying it'' True DEFAULT_MAX_OUTPUT_BYTES))"

text \<open>The policy is read through a shared reference; only its counter of prevented calls may change.\<close>

definition agent_gate ::
  "(json \<Rightarrow> rstr + rstr) \<Rightarrow> workspace_env \<Rightarrow> context_snapshot \<Rightarrow> autonomous_policy \<Rightarrow> turn_mode \<Rightarrow>
   prepared_action \<Rightarrow> tool_result option" where
  "agent_gate encode env s p mode action =
     (if mode = ExternalResearchMode \<and> \<not> is_external_research_tool (pa_tool action)
      then Some (result_failure (pa_call_id action) ''research_tool_blocked''
             ''this read-only research turn cannot mutate the workspace or run arbitrary tools'' False
             DEFAULT_MAX_OUTPUT_BYTES)
      else
        (case fst (policy_preflight_prepared encode env s action p) of
           Some answer \<Rightarrow> Some answer
         | None \<Rightarrow> workflow_gate s action))"

subsection \<open>Helpers of a turn\<close>

definition append_bounded :: "rstr \<Rightarrow> rstr \<Rightarrow> nat \<Rightarrow> rstr" where
  "append_bounded target text max_bytes =
     (if max_bytes \<le> length target then target
      else target @ as_str (bounded_new text (max_bytes - length target)))"

definition assemble_user_content :: "rstr \<Rightarrow> rstr option \<Rightarrow> rstr" where
  "assemble_user_content prompt context_packet =
     (case context_packet of
        Some packet \<Rightarrow> if trim packet \<noteq> [] then packet @ newline @ newline @ prompt else prompt
      | None \<Rightarrow> prompt)"

text \<open>\<open>extract_work_update\<close>; \<open>parse\<close> is \<open>serde_json::from_str\<close>.\<close>

definition work_open_marker :: rstr where "work_open_marker = ''<aether-work>''"
definition work_close_marker :: rstr where "work_close_marker = ''</aether-work>''"

definition extract_work_update :: "(rstr \<Rightarrow> json option) \<Rightarrow> rstr \<Rightarrow> json option" where
  "extract_work_update parse text =
     (case find_str text work_open_marker of
        None \<Rightarrow> None
      | Some i \<Rightarrow>
          (let start = i + length work_open_marker
           in case find_str (drop start text) work_close_marker of
                None \<Rightarrow> None
              | Some n \<Rightarrow>
                  (let end_byte = start + n
                   in if end_byte \<le> start \<or> 8 * 1024 < end_byte - start then None
                      else
                        (case parse (trim (drop start (take end_byte text))) of
                           None \<Rightarrow> None
                         | Some v \<Rightarrow> if json_is_object v then Some v else None))))"

subsection \<open>The two checks of a mutation\<close>

lemma gate_hash_same: "gate_expected_hash_matches s path expected = expected_hash_matches s path expected"
  by (auto simp: gate_expected_hash_matches_def expected_hash_matches_def split: option.splits bind_splits)

lemma gate_parent_same: "gate_parent_discovered s path = new_target_has_discovered_parent s path"
  by (simp add: gate_parent_discovered_def new_target_has_discovered_parent_def)

text \<open>The clause about paths the user changed is implied by the one on the inspection.\<close>

lemma target_inspected_iff:
  "target_is_currently_inspected s path input \<longleftrightarrow>
     current_target_has_evidence s path \<and> expected_hash_matches s path (str_at input ''expected_hash'')"
  by (auto simp: target_is_currently_inspected_def current_target_has_evidence_def gate_hash_same list_ex_iff Let_def)

lemma patch_inspected_iff: "patch_file_inspected s item \<longleftrightarrow> patch_file_has_evidence s item"
  by (simp add: patch_file_inspected_def patch_file_has_evidence_def target_inspected_iff split: option.split)

text \<open>The second check admits what the evidence check of the policy admits.\<close>

lemma policy_evidence_suffices:
  "pa_tool action = ''write'' \<and> prepared_write_has_evidence s action
   \<or> pa_tool action = ''patch'' \<and> prepared_patch_has_evidence s action
   \<Longrightarrow> mutation_targets_inspected_prepared s action"
  by (auto simp: mutation_targets_inspected_prepared_def prepared_write_has_evidence_def
      prepared_patch_has_evidence_def patch_input_has_evidence_def write_target_has_evidence_def
      target_inspected_iff patch_inspected_iff [abs_def] gate_parent_same
      split: list.splits option.splits if_splits)

lemma policy_preflight_evidence:
  assumes "fst (policy_preflight_prepared encode env s action p) = None"
  shows "mutation_preflight_prepared s action = None"
  using assms
  by (auto simp: policy_preflight_prepared_def otherwise_def Let_def split: prod.splits option.splits if_splits)

lemma agent_gate_open:
  assumes "agent_gate encode env s p mode action = None"
  shows "mutation_preflight_prepared s action = None \<and> workflow_gate s action = None
    \<and> (mode = ExternalResearchMode \<longrightarrow> is_external_research_tool (pa_tool action))"
  using assms policy_preflight_evidence [of encode env s action p]
  by (auto simp: agent_gate_def split: if_splits option.splits)

text \<open>A replaced target of an admitted call, whatever its requirements say.\<close>

lemma admitted_target:
  assumes "workflow_gate s action = None" and "\<not> creates_only action"
    and "(path, expected) \<in> set (replaced_targets action)"
  shows "current_target_has_evidence s path \<and> expected_hash_matches s path expected"
proof (cases "pa_tool action = ''write''")
  case True
  then show ?thesis
    using assms by (auto simp: workflow_gate_def mutation_targets_inspected_prepared_def replaced_targets_def
        creates_only_def target_inspected_iff split: list.splits if_splits)
next
  case False
  then have patch: "pa_tool action = ''patch''"
    using assms(3) by (auto simp: replaced_targets_def split: if_splits)
  then obtain files where files: "array_at (pa_normalized_input action) ''files'' = Some files"
    and all: "list_all (patch_file_has_evidence s) files"
    using assms(1) by (auto simp: workflow_gate_def mutation_targets_inspected_prepared_def
        patch_inspected_iff [abs_def] split: if_splits option.splits)
  obtain x where x: "x \<in> set files" "path = or_else (str_at x ''path'') []" "expected = str_at x ''expected_hash''"
    using assms(3) patch files by (auto simp: replaced_targets_def or_else_def)
  have "patch_file_has_evidence s x" using all x(1) by (simp add: list_all_iff)
  then show ?thesis using x(2,3) by (auto simp: patch_file_has_evidence_def or_else_def split: option.splits)
qed

end
