(* ===== verification/Policy_Facts.thy ===== *)
theory Policy_Facts
  imports Mutation_Gate
begin

section \<open>Facts about the policy\<close>

subsection \<open>The ranking\<close>

definition found_actions :: "context_snapshot \<Rightarrow> ranked_action list" where
  "found_actions s =
     (let found = rank_recovery s @ rank_verification (cs_workflow s) @ rank_candidates s
      in if found = [] then [ranked DiscoverTarget 60 None ''targeted discovery is the next bounded step'']
         else found)"

lemma ranked_simps [simp]:
  "ra_score (ranked a n t r) = n" "ra_action (ranked a n t r) = a" "ra_target (ranked a n t r) = t"
  by (simp_all add: ranked_def)

lemma recovery_scores: "subseq (map ra_score (rank_recovery s)) [102, 98]"
  by (simp add: rank_recovery_def Let_def)

lemma verification_scores: "\<exists>n. n \<in> {96, 82, 76} \<and> subseq (map ra_score (rank_verification w)) [n]"
  by (auto simp: rank_verification_def Let_def split: option.split)

lemma candidate_scores: "\<exists>n. n \<in> {84, 74} \<and> subseq (map ra_score (rank_candidates s)) [90, 88, n]"
  by (auto simp: rank_candidates_def Let_def split: option.split list.split)

lemma subseq_set: "subseq xs ys \<Longrightarrow> set xs \<subseteq> set ys"
  by (induction rule: list_emb.induct) auto

lemma subseq_distinct: "subseq xs ys \<Longrightarrow> distinct ys \<Longrightarrow> distinct xs"
  by (induction rule: list_emb.induct) (auto dest: subseq_set)

lemma found_scores:
  "distinct (map ra_score (found_actions s)) \<and> length (found_actions s) \<le> 6 \<and> found_actions s \<noteq> []
   \<and> set (map ra_score (found_actions s)) \<subseteq> {..102}"
proof (cases "rank_recovery s @ rank_verification (cs_workflow s) @ rank_candidates s = []")
  case False
  obtain n m where n: "n \<in> {96, 82, 76}" "subseq (map ra_score (rank_verification (cs_workflow s))) [n]"
    and m: "m \<in> {84, 74}" "subseq (map ra_score (rank_candidates s)) [90, 88, m]"
    using verification_scores candidate_scores by metis
  have "subseq (map ra_score (rank_recovery s) @ map ra_score (rank_verification (cs_workflow s))
      @ map ra_score (rank_candidates s)) ([102, 98] @ [n] @ [90, 88, m])"
    by (intro list_emb_append_mono recovery_scores n m)
  then have all: "subseq (map ra_score (found_actions s)) [102, 98, n, 90, 88, m]"
    using False by (simp add: found_actions_def Let_def)
  have six: "distinct [102, 98, n, 90, 88, m]" "set [102, 98, n, 90, 88, m] \<subseteq> {..102}" using n m by auto
  show ?thesis
  proof (intro conjI)
    show "distinct (map ra_score (found_actions s))" by (rule subseq_distinct [OF all six(1)])
    show "length (found_actions s) \<le> 6" using list_emb_length [OF all] by simp
    show "found_actions s \<noteq> []" by (simp add: found_actions_def Let_def)
    show "set (map ra_score (found_actions s)) \<subseteq> {..102}" using subseq_set [OF all] six(2) by (rule order_trans)
  qed
qed (simp add: found_actions_def Let_def)

text \<open>With distinct scores the order is that of the scores alone: an unstable sort has one result.\<close>

lemma ranked_key_score: "ra_score x \<le> 102 \<Longrightarrow> ra_score y \<le> 102 \<Longrightarrow> ranked_key x \<le> ranked_key y \<Longrightarrow> ra_score y \<le> ra_score x"
  by (auto simp: ranked_key_def less_eq_prod_def)

lemma rank_next_actions_open:
  assumes "\<not> (wk_phase (cs_workflow s) = PComplete \<and> wk_unresolved_failures (cs_workflow s) = [])"
  shows "rank_next_actions s = sort_key ranked_key (found_actions s)"
proof -
  have "rank_next_actions s = take 8 (sort_key ranked_key (found_actions s))"
    unfolding rank_next_actions_def found_actions_def Let_def using assms by (simp only: if_False)
  moreover have "length (found_actions s) \<le> 8" using found_scores [of s] by simp
  ultimately show ?thesis by simp
qed

lemma sorted_by_score:
  assumes "distinct (map ra_score xs)" and "set (map ra_score xs) \<subseteq> {..102}"
    and perm: "mset r = mset xs" and "sorted (map ranked_key r)"
  shows "sorted_wrt (\<lambda>x y. ra_score y < ra_score x) r"
proof -
  have "mset (map ra_score r) = mset (map ra_score xs)" using perm by simp
  then have distinct: "distinct (map ra_score r)" using assms(1) mset_eq_imp_distinct_iff by blast
  have small: "\<forall>x \<in> set r. ra_score x \<le> 102" using assms(2) mset_eq_setD [OF perm] by auto
  show ?thesis
  proof (unfold sorted_wrt_iff_nth_less, intro allI impI)
    fix i j assume ij: "i < j" "j < length r"
    then have "ranked_key (r ! i) \<le> ranked_key (r ! j)"
      using sorted_nth_mono [OF assms(4), of i j] by simp
    moreover have "ra_score (r ! i) \<noteq> ra_score (r ! j)"
      using distinct nth_eq_iff_index_eq [of "map ra_score r" i j] ij by simp
    ultimately show "ra_score (r ! j) < ra_score (r ! i)"
      using ranked_key_score [of "r ! i" "r ! j"] small ij by simp
  qed
qed

lemma rank_sorted:
  "sorted_wrt (\<lambda>x y. ra_score y < ra_score x) (sort_key ranked_key (found_actions s))"
  by (rule sorted_by_score [of "found_actions s"]) (use found_scores [of s] in auto)

lemma no_finish_parts:
  "list_all (\<lambda>x. ra_action x \<noteq> Finish) (rank_recovery s)"
  "list_all (\<lambda>x. ra_action x \<noteq> Finish) (rank_verification w)"
  "list_all (\<lambda>x. ra_action x \<noteq> Finish) (rank_candidates s)"
  by (simp_all add: rank_recovery_def rank_verification_def rank_candidates_def Let_def ranked_def
      split: option.split list.split)

lemma no_finish_found: "x \<in> set (found_actions s) \<Longrightarrow> ra_action x \<noteq> Finish"
  using no_finish_parts(1) [of s] no_finish_parts(2) [of "cs_workflow s"] no_finish_parts(3) [of s]
  by (auto simp: found_actions_def Let_def list_all_iff split: if_splits)

subsection \<open>The tools offered\<close>

lemma active_names:
  "set (determine_active_tool_names s) \<subseteq>
     {''read'', ''list'', ''find'', ''search'', ''write'', ''patch'', ''shell'', ''process'', ''git''}
   \<and> ''read'' \<in> set (determine_active_tool_names s)
   \<and> distinct (determine_active_tool_names s)"
  by (auto simp: determine_active_tool_names_def phase_tool_names_def Let_def split: workflow_phase.split)

subsection \<open>Reads answered from an excerpt\<close>

text \<open>Lines that survive being joined by line feeds and split again.\<close>

definition plain_line :: "rstr \<Rightarrow> bool" where
  "plain_line l \<longleftrightarrow> CHR 0x0A \<notin> set l \<and> (l = [] \<or> last l \<noteq> CHR 0x0D)"

definition rejoinable :: "rstr list \<Rightarrow> bool" where
  "rejoinable ls \<longleftrightarrow> ls \<noteq> [] \<and> list_all plain_line ls \<and> hd ls \<noteq> [] \<and> last ls \<noteq> []"

lemma lines_from_plain: "CHR 0x0A \<notin> set l \<Longrightarrow> lines_from acc (l @ s) = lines_from (rev l @ acc) s"
  by (induction l arbitrary: acc) auto

lemma lines_join: "ls \<noteq> [] \<Longrightarrow> list_all plain_line ls \<Longrightarrow> last ls \<noteq> [] \<Longrightarrow> lines (join newline ls) = ls"
proof (induction ls rule: induct_list012)
  case (2 l)
  then show ?case using lines_from_plain [of l "[]" "[]"] by (simp add: lines_def plain_line_def)
next
  case (3 l m ls)
  then have "lines_from [] (l @ CHR 0x0A # join newline (m # ls)) = strip_cr l # lines (join newline (m # ls))"
    by (simp add: lines_from_plain lines_def plain_line_def)
  moreover have "strip_cr l = l" using 3(4) by (auto simp: strip_cr_def plain_line_def)
  ultimately show ?case using 3 by (simp add: lines_def)
qed simp

lemma push_lines: "t \<noteq> [] \<Longrightarrow> foldl push_line t ls = join newline (t # ls)"
proof (induction ls arbitrary: t)
  case (Cons l ls)
  have "push_line t l = t @ newline @ l" using Cons.prems by (simp add: push_line_def)
  then show ?case
    using Cons.IH [of "t @ newline @ l"] by (cases ls) simp_all
qed simp

lemma push_lines_rejoinable: "rejoinable ls \<Longrightarrow> foldl push_line [] ls = join newline ls"
  using push_lines [of "hd ls" "tl ls"] by (cases ls) (auto simp: rejoinable_def push_line_def)

text \<open>An excerpt holds exactly the lines it names, of a file with these lines.\<close>

definition excerpt_exact :: "rstr list \<Rightarrow> file_excerpt \<Rightarrow> bool" where
  "excerpt_exact ls e \<longleftrightarrow>
     1 \<le> fe_start_line e \<and> fe_start_line e \<le> fe_end_line e \<and> fe_end_line e \<le> length ls
     \<and> rejoinable (drop (fe_start_line e - 1) (take (fe_end_line e) ls))
     \<and> as_str (fe_text e) = join newline (drop (fe_start_line e - 1) (take (fe_end_line e) ls))"

lemma filter_upt: "filter (\<lambda>n. x \<le> n \<and> n \<le> y) [a..<b] = [max a x..<min b (Suc y)]"
proof (induction b)
  case (Suc b)
  then show ?case by (cases "a \<le> b") (auto simp: min_def max_def le_Suc_eq not_le Suc_le_eq)
qed simp

lemma numbered_exact:
  assumes "excerpt_exact ls e" and "fe_start_line e \<le> x" and "y \<le> fe_end_line e"
  shows "numbered_lines e x y = map (\<lambda>n. (n, ls ! (n - 1))) [x..<Suc y]"
proof -
  let ?a = "fe_start_line e" and ?b = "fe_end_line e"
  let ?sel = "drop (?a - 1) (take ?b ls)"
  have sel: "lines (as_str (fe_text e)) = ?sel"
    using assms(1) lines_join [of ?sel] unfolding excerpt_exact_def rejoinable_def by metis
  have b: "1 \<le> ?a" "?a \<le> ?b" "?b \<le> length ls" using assms(1) by (auto simp: excerpt_exact_def)
  then have len: "?a + length ?sel = Suc ?b" by simp
  have "zip [?a..<Suc ?b] ?sel = map (\<lambda>n. (n, ls ! (n - 1))) [?a..<Suc ?b]"
    using b by (intro nth_equalityI) (simp_all del: upt_Suc)
  then have "numbered_lines e x y = map (\<lambda>n. (n, ls ! (n - 1))) (filter (\<lambda>n. x \<le> n \<and> n \<le> y) [?a..<Suc ?b])"
    by (simp only: numbered_lines_def sel len) (simp add: filter_map o_def)
  also have "filter (\<lambda>n. x \<le> n \<and> n \<le> y) [?a..<Suc ?b] = [x..<Suc y]"
    using assms(2,3) by (simp only: filter_upt) (simp add: max_def min_def)
  finally show ?thesis .
qed

lemma window_length: "1 \<le> a \<Longrightarrow> a \<le> x \<Longrightarrow> a + (x - (a - 1)) - 1 = (x :: nat)"
  by arith

lemma auto_excerpt_exact:
  assumes "auto_excerpt_of path hash ls focus = Some e" and "\<not> is_truncated (fe_text e)"
    and "rejoinable (drop (fe_start_line e - 1) (take (fe_end_line e) ls))"
    and "length ls < 2 ^ 64 - 1"
  shows "excerpt_exact ls e"
proof -
  obtain a b where ab: "excerpt_window focus = (a, b)" by (cases "excerpt_window focus")
  have a1: "1 \<le> a" using ab by (auto simp: excerpt_window_def split: option.splits)
  let ?stop = "min (min b (length ls)) (usize_saturating_add a (MAX_AUTOMATIC_SOURCE_LINES - 1))"
  let ?sel = "drop (a - 1) (take ?stop ls)"
  have le: "ls \<noteq> []" "a \<le> length ls"
    and e: "fe_start_line e = a" "fe_end_line e = usize_saturating_add a (length ?sel) - 1"
      "fe_text e = bounded_new (foldl push_line [] ?sel) MAX_EXCERPT_BYTES"
    using assms(1) ab by (auto simp: auto_excerpt_of_def Let_def not_less split: if_splits)
  have sat: "usize_saturating_add a (length ?sel) = a + length ?sel"
  proof -
    have "length ?sel \<le> length ls - (a - 1)" by simp
    then have "a + length ?sel \<le> 2 ^ 64 - 1" using le(2) a1 assms(4) by linarith
    then show ?thesis by (simp only: usize_saturating_add_def min.absorb1)
  qed
  have len: "length ?sel = ?stop - (a - 1)" by simp
  have "a \<le> ?stop"
  proof (rule ccontr)
    assume "\<not> a \<le> ?stop"
    then have "length ?sel = 0" unfolding len by linarith
    then have "fe_end_line e = a - 1" unfolding e(2) sat by simp
    then show False using assms(3) e(1) by (simp add: rejoinable_def)
  qed
  note reached = this
  have "a + length ?sel - 1 = ?stop" unfolding len by (rule window_length [OF a1 reached])
  then have fin: "fe_end_line e = ?stop" unfolding e(2) sat .
  have sel: "drop (fe_start_line e - 1) (take (fe_end_line e) ls) = ?sel" by (simp only: e(1) fin)
  have "as_str (fe_text e) = foldl push_line [] ?sel"
    using assms(2) unfolding e(3) by (simp only: is_truncated_iff not_less bounded_new_short)
  also have "\<dots> = join newline ?sel" using assms(3) unfolding sel by (rule push_lines_rejoinable)
  finally have joined: "as_str (fe_text e) = join newline ?sel" .
  have "?stop \<le> length ls" by linarith
  then show ?thesis
    unfolding excerpt_exact_def sel
    using joined assms(3) [unfolded sel] a1 reached e(1) fin by (intro conjI) (simp_all only:)
qed

text \<open>A read answered from excerpts that are exact returns the lines of the file, all of those asked for.\<close>

lemma cached_file_exact:
  assumes "cached_file env s target = Some v" and "requested_range target = Some (Some r)"
    and "str_at target ''path'' = Some path"
    and exact: "\<And>e. e \<in> set (cs_excerpts s) \<Longrightarrow> fe_path e = path \<Longrightarrow>
      fe_content_hash e = live_file_hash env (cs_workspace_root s) path \<Longrightarrow> excerpt_exact ls e"
  shows "json_get v ''lines'' = Some (JArray (map (\<lambda>n. line_json (n, ls ! (n - 1))) [lr_start r..<Suc (lr_end r)]))
    \<and> lr_end r \<le> length ls"
proof -
  obtain hash e where hash: "live_file_hash env (cs_workspace_root s) path = Some hash"
    and e: "find (excerpt_answers path hash (Some r)) (rev (cs_excerpts s)) = Some e"
    and v: "json_get v ''lines'' = Some (JArray (map line_json (numbered_lines e (lr_start r) (lr_end r))))"
    using assms(1-3)
    by (auto simp: cached_file_def live_hash_matches_iff Let_def json_get_def split: if_splits option.splits)
  have mem: "e \<in> set (cs_excerpts s)" and ans: "excerpt_answers path hash (Some r) e"
    using e by (auto simp: find_Some_iff rev_nth)
  have "excerpt_exact ls e" using exact [OF mem] ans hash by (simp add: excerpt_answers_def)
  moreover have "fe_start_line e \<le> lr_start r" "lr_end r \<le> fe_end_line e" using ans by (simp_all add: excerpt_answers_def)
  ultimately show ?thesis
    using v numbered_exact [of ls e "lr_start r" "lr_end r"] by (simp add: o_def excerpt_exact_def)
qed

end
