(* ===== verification/Plan_Facts.thy ===== *)
theory Plan_Facts
  imports Verification_Plan
begin

section \<open>Facts about planned commands\<close>

text \<open>Quoting is injective even inside a longer text, so a key determines its command.\<close>

subsection \<open>Quoting\<close>

definition word_end :: "rstr \<Rightarrow> bool" where
  "word_end r \<longleftrightarrow> r = [] \<or> hd r = CHR '' '' \<or> hd r = CHR '']''"

lemma bare_char_not: "bare_char c \<Longrightarrow> c \<noteq> CHR '' '' \<and> c \<noteq> CHR '']'' \<and> c \<noteq> CHR ''['' \<and> c \<noteq> quote_char"
  by (auto simp: bare_char_def is_ascii_alphanumeric_def quote_char_def)

lemma bare_word_end:
  assumes "list_all bare_char v" and "list_all bare_char w" and "v @ r = w @ s" and "word_end r" and "word_end s"
  shows "v = w \<and> r = s"
proof -
  have "takeWhile bare_char (x @ t) = x" if "list_all bare_char x" "word_end t" for x t
    using that bare_char_not [of "hd t"] by (cases t) (auto simp: word_end_def takeWhile_append list_all_iff)
  then have "v = w" using assms by metis
  then show ?thesis using assms(3) by simp
qed

lemma escape_quotes_simps [simp]:
  "escape_quotes [] = []"
  "escape_quotes (c # w) = (if c = quote_char then [quote_char, CHR 0x5C, quote_char, quote_char] else [c]) @ escape_quotes w"
  by (simp_all add: escape_quotes_def)

lemma word_end_not_backslash: "word_end r \<Longrightarrow> r \<noteq> CHR 0x5C # t"
  by (auto simp: word_end_def)

lemma escape_quotes_inj:
  "escape_quotes v @ quote_char # r = escape_quotes w @ quote_char # s \<Longrightarrow> word_end r \<Longrightarrow> word_end s \<Longrightarrow> v = w \<and> r = s"
proof (induction v arbitrary: w)
  case Nil
  then show ?case by (cases w) (auto split: if_splits dest: word_end_not_backslash)
next
  case (Cons c v)
  then show ?case
  proof (cases w)
    case Nil
    then show ?thesis using Cons.prems by (auto split: if_splits dest: word_end_not_backslash)
  next
    case (Cons d w')
    then show ?thesis using Cons.prems Cons.IH [of w'] by (auto split: if_splits)
  qed
qed

lemma shell_word_inj:
  assumes "shell_word v @ r = shell_word w @ s" and "word_end r" and "word_end s"
  shows "v = w \<and> r = s"
proof -
  define bare where "bare = (\<lambda>v. v \<noteq> [] \<and> list_all bare_char v)"
  have quoted: "shell_word v = quote_char # escape_quotes v @ [quote_char]" if "\<not> bare v" for v
    using that unfolding shell_word_def bare_def by (rule if_not_P)
  have plain: "shell_word v = v" "v \<noteq> []" "bare_char (hd v)" "list_all bare_char v" if "bare v" for v
    using that by (cases v; simp add: shell_word_def bare_def)+
  have diff: "shell_word v @ r \<noteq> shell_word w @ s" if "bare v" "\<not> bare w" for v w r s
    using plain [OF that(1)] quoted [OF that(2)] bare_char_not [of "hd v"] by (cases v) auto
  show ?thesis
  proof (cases "bare v"; cases "bare w")
    assume "bare v" "bare w"
    then show ?thesis using bare_word_end [of v w r s] plain assms by simp
  next
    assume "\<not> bare v" "\<not> bare w"
    then show ?thesis using escape_quotes_inj [of v r w s] quoted assms by simp
  qed (use diff assms in metis)+
qed

lemma join_Cons: "join sep (x # xs) = x @ (if xs = [] then [] else sep @ join sep xs)"
  by (cases xs) auto

lemma join_words_inj:
  "vs \<noteq> [] \<Longrightarrow> ws \<noteq> [] \<Longrightarrow> join '' '' (map shell_word vs) = join '' '' (map shell_word ws) \<Longrightarrow> vs = ws"
proof (induction vs arbitrary: ws)
  case (Cons v vs)
  then obtain w ws' where ws: "ws = w # ws'" by (cases ws) auto
  let ?t = "\<lambda>xs. if xs = [] then [] else '' '' @ join '' '' (map shell_word xs)"
  have "shell_word v @ ?t vs = shell_word w @ ?t ws'"
    using Cons.prems(3) ws by (simp add: join_Cons)
  moreover have "word_end (?t xs)" for xs by (simp add: word_end_def)
  ultimately have eq: "v = w" "?t vs = ?t ws'" using shell_word_inj by blast+
  show ?case
  proof (cases "vs = []"; cases "ws' = []")
    assume "vs \<noteq> []" "ws' \<noteq> []"
    then show ?thesis using Cons.IH [of ws'] eq ws by simp
  qed (use eq ws in auto)
qed simp

lemma command_display_inj:
  "command_display c = command_display d \<longleftrightarrow> pc_program c = pc_program d \<and> pc_args c = pc_args d"
  using join_words_inj [of "pc_program c # pc_args c" "pc_program d # pc_args d"]
  by (auto simp: command_display_def)

lemma command_display_start: "command_display c \<noteq> ''[cwd='' @ r"
proof
  assume eq: "command_display c = ''[cwd='' @ r"
  have "hd (shell_word w) \<noteq> CHR ''[''" "shell_word w \<noteq> []" for w
    using bare_char_not [of "hd w"] by (cases w; auto simp: shell_word_def quote_char_def)+
  note start = this [of "pc_program c"]
  then show False using eq by (cases "shell_word (pc_program c)") (auto simp: command_display_def join_Cons)
qed

text \<open>The omitted and the explicit root directory.\<close>

definition same_cwd :: "rstr \<Rightarrow> rstr \<Rightarrow> bool" where
  "same_cwd c d \<longleftrightarrow> c = d \<or> {c, d} \<subseteq> {[], ''.''}"

lemma workflow_key_inj:
  "workflow_key c = workflow_key d \<longleftrightarrow>
   pc_program c = pc_program d \<and> pc_args c = pc_args d \<and> same_cwd (pc_cwd c) (pc_cwd d)"
proof -
  let ?root = "\<lambda>c. pc_cwd c = [] \<or> pc_cwd c = ''.''"
  have key: "workflow_key c = ''[cwd='' @ shell_word (pc_cwd c) @ ''] '' @ command_display c" if "\<not> ?root c" for c
    using that by (simp add: workflow_key_def)
  have mixed: "workflow_key c \<noteq> workflow_key d" if "?root c" "\<not> ?root d" for c d
    using that key [OF that(2)] command_display_start [of c] by (simp add: workflow_key_def)
  consider "?root c" "?root d" | "\<not> ?root c" "\<not> ?root d" | "?root c" "\<not> ?root d" | "\<not> ?root c" "?root d" by blast
  then show ?thesis
  proof cases
    case 1
    then have "workflow_key c = command_display c" "workflow_key d = command_display d"
      "same_cwd (pc_cwd c) (pc_cwd d)"
      by (auto simp: workflow_key_def same_cwd_def)
    then show ?thesis by (simp add: command_display_inj)
  next
    case 2
    have "same_cwd (pc_cwd c) (pc_cwd d) \<longleftrightarrow> pc_cwd c = pc_cwd d" using 2 by (auto simp: same_cwd_def)
    moreover have "workflow_key c = workflow_key d \<longleftrightarrow>
        shell_word (pc_cwd c) @ ''] '' @ command_display c = shell_word (pc_cwd d) @ ''] '' @ command_display d"
      using key [OF 2(1)] key [OF 2(2)] by simp
    moreover have "\<dots> \<longleftrightarrow> pc_cwd c = pc_cwd d \<and> command_display c = command_display d"
      using shell_word_inj [of "pc_cwd c" "''] '' @ command_display c" "pc_cwd d" "''] '' @ command_display d"]
      by (auto simp: word_end_def)
    ultimately show ?thesis by (auto simp: command_display_inj)
  next
    case 3
    then show ?thesis using mixed [OF 3] by (auto simp: same_cwd_def)
  next
    case 4
    then show ?thesis using mixed [OF 4(2,1)] by (auto simp: same_cwd_def)
  qed
qed

subsection \<open>Plans\<close>

definition command_identity :: "planned_command \<Rightarrow> rstr \<times> rstr list \<times> rstr" where
  "command_identity c = (pc_program c, pc_args c, pc_cwd c)"

lemma same_command_iff: "same_command c d \<longleftrightarrow> command_identity c = command_identity d"
  by (auto simp: same_command_def command_display_inj command_identity_def)

definition distinct_plan :: "verification_plan \<Rightarrow> bool" where
  "distinct_plan plan \<longleftrightarrow> distinct (map command_identity (vp_commands plan))"

text \<open>A command that is not one of the checks of a whole workspace.\<close>

definition narrow :: "planned_command \<Rightarrow> bool" where
  "narrow c \<longleftrightarrow> \<not> (pc_program c = ''cargo'' \<and> pc_args c \<in> {[''test'', ''--workspace''], [''check'', ''--workspace'']})"

lemma push_unique_simps [simp]:
  "vp_requires_broader (push_unique c plan) = vp_requires_broader plan"
  "vp_commands (push_unique c plan) \<noteq> []"
  "distinct_plan plan \<Longrightarrow> distinct_plan (push_unique c plan)"
  "list_all P (vp_commands plan) \<Longrightarrow> P c \<Longrightarrow> list_all P (vp_commands (push_unique c plan))"
  by (auto simp: push_unique_def distinct_plan_def same_command_iff list_ex_iff)

lemma planned_narrow [simp]:
  "narrow (planned ''cargo'' [''test'', ''--test'', stem] cwd scope)"
  "narrow (planned ''cargo'' [''test'', ''-p'', name] cwd scope)"
  "narrow (planned ''cargo'' [''check'', ''-p'', name] cwd scope)"
  "narrow (planned ''cargo'' [''test''] cwd scope)"
  "narrow (planned ''cargo'' [''check''] cwd scope)"
  "narrow (planned ''npm'' args cwd scope)" "narrow (planned ''python'' args cwd scope)"
  "narrow (planned ''git'' args cwd scope)"
  by (simp_all add: narrow_def planned_def)

definition plan_inv :: "verification_plan \<Rightarrow> bool" where
  "plan_inv plan \<longleftrightarrow> distinct_plan plan \<and> list_all narrow (vp_commands plan)"

lemma push_unique_inv: "plan_inv plan \<Longrightarrow> narrow c \<Longrightarrow> plan_inv (push_unique c plan)"
  by (simp add: plan_inv_def)

lemma plan_step_inv:
  "plan_inv plan \<Longrightarrow> plan_inv (plan_rust repo root path plan)"
  "plan_inv plan \<Longrightarrow> plan_inv (plan_node root path plan)"
  "plan_inv plan \<Longrightarrow> plan_inv (plan_python root path plan)"
  by (auto simp: plan_rust_def plan_node_def plan_python_def Let_def push_unique_inv split: option.splits)

lemma plan_step_broader:
  "vp_requires_broader (plan_rust repo root path plan) = vp_requires_broader plan"
  "vp_requires_broader (plan_node root path plan) = vp_requires_broader plan"
  "vp_requires_broader (plan_python root path plan) = vp_requires_broader plan"
  by (auto simp: plan_rust_def plan_node_def plan_python_def Let_def split: option.splits)

definition crosses_packages :: "repo_map_snapshot \<Rightarrow> rstr \<Rightarrow> bool" where
  "crosses_packages repo path \<longleftrightarrow> (\<exists>m. nearest_manifest repo path = Some m
     \<and> supports_path (mi_kind m) (mi_path m) path \<and> requires_workspace_scope repo m path)"

lemma plan_path_inv:
  assumes "plan_inv plan"
  shows "plan_inv (plan_path repo plan path)"
    "vp_requires_broader (plan_path repo plan path) \<longleftrightarrow> vp_requires_broader plan \<or> crosses_packages repo path"
proof -
  have "plan_inv (plan\<lparr>vp_requires_broader := b\<rparr>)" for b
    using assms by (simp add: plan_inv_def distinct_plan_def)
  then show "plan_inv (plan_path repo plan path)"
    using assms plan_step_inv by (auto simp: plan_path_def Let_def split: option.split manifest_kind.split)
  show "vp_requires_broader (plan_path repo plan path) \<longleftrightarrow> vp_requires_broader plan \<or> crosses_packages repo path"
    by (auto simp: plan_path_def crosses_packages_def Let_def plan_step_broader split: option.split manifest_kind.split)
qed

lemma plan_paths_inv:
  "plan_inv plan \<Longrightarrow> plan_inv (foldl (plan_path repo) plan paths)
   \<and> (vp_requires_broader (foldl (plan_path repo) plan paths)
       \<longleftrightarrow> vp_requires_broader plan \<or> list_ex (crosses_packages repo) paths)"
  by (induction paths arbitrary: plan) (auto simp: plan_path_inv)

lemma push_broad_adds:
  assumes "plan_inv plan" and "\<not> narrow broad"
  shows "broad \<in> set (vp_commands (push_broad broad plan))"
    "length (vp_commands (push_broad broad plan)) \<le> max MAX_WORKFLOW_VERIFICATIONS (length (vp_commands plan))"
    "MAX_WORKFLOW_VERIFICATIONS \<le> length (vp_commands plan) \<Longrightarrow>
       length (vp_commands (push_broad broad plan)) = MAX_WORKFLOW_VERIFICATIONS"
    "distinct_plan (push_broad broad plan)"
    "vp_requires_broader (push_broad broad plan) = vp_requires_broader plan"
proof -
  have new: "\<not> same_command c broad" if "c \<in> set (vp_commands plan)" for c
    using that assms by (auto simp: same_command_iff command_identity_def plan_inv_def list_all_iff narrow_def)
  let ?p = "if MAX_WORKFLOW_VERIFICATIONS \<le> length (vp_commands plan)
            then plan\<lparr>vp_commands := take (MAX_WORKFLOW_VERIFICATIONS - 1) (vp_commands plan)\<rparr> else plan"
  have "\<not> list_ex (\<lambda>c. same_command c broad) (vp_commands ?p)"
    using new by (auto simp: list_ex_iff dest: in_set_takeD)
  moreover have "\<not> list_ex (\<lambda>c. same_command c broad) (vp_commands plan)" using new by (auto simp: list_ex_iff)
  ultimately have eq: "push_broad broad plan = ?p\<lparr>vp_commands := vp_commands ?p @ [broad]\<rparr>"
    by (simp add: push_broad_def push_unique_def)
  show "broad \<in> set (vp_commands (push_broad broad plan))" by (simp add: eq)
  show "length (vp_commands (push_broad broad plan)) \<le> max MAX_WORKFLOW_VERIFICATIONS (length (vp_commands plan))"
    by (simp add: eq MAX_WORKFLOW_VERIFICATIONS_def)
  show "MAX_WORKFLOW_VERIFICATIONS \<le> length (vp_commands plan) \<Longrightarrow>
      length (vp_commands (push_broad broad plan)) = MAX_WORKFLOW_VERIFICATIONS"
    by (simp add: eq MAX_WORKFLOW_VERIFICATIONS_def)
  show "vp_requires_broader (push_broad broad plan) = vp_requires_broader plan" by (simp add: eq)
  have "distinct (map command_identity (vp_commands ?p))"
    using assms(1) by (simp add: plan_inv_def distinct_plan_def take_map [symmetric])
  moreover have "command_identity broad \<notin> command_identity ` set (vp_commands ?p)"
    using new by (fastforce simp: same_command_iff split: if_splits dest: in_set_takeD)
  ultimately show "distinct_plan (push_broad broad plan)" by (simp add: eq distinct_plan_def)
qed

lemma in_set_nonempty: "x \<in> set xs \<Longrightarrow> xs \<noteq> []"
  by auto

lemma broad_not_narrow: "\<not> narrow (broad_command m modified)"
  by (simp add: broad_command_def narrow_def planned_def)

lemma plan_verification_shape:
  fixes repo modified
  defines "plan \<equiv> plan_verification repo modified"
  shows "vp_commands plan \<noteq> [] \<and> length (vp_commands plan) \<le> MAX_WORKFLOW_VERIFICATIONS \<and> distinct_plan plan
    \<and> (vp_requires_broader plan \<longleftrightarrow> list_ex (crosses_packages repo) modified)
    \<and> (vp_requires_broader plan \<longrightarrow> (\<exists>m. workspace_manifest repo = Some m
         \<and> broad_command m modified \<in> set (vp_commands plan)))"
proof -
  let ?p = "foldl (plan_path repo) plan_default modified"
  have p: "plan_inv ?p" "vp_requires_broader ?p \<longleftrightarrow> list_ex (crosses_packages repo) modified"
    using plan_paths_inv [of plan_default repo modified]
    by (simp_all add: plan_inv_def distinct_plan_def plan_default_def)
  define q where "q = (if vp_commands ?p = [] then push_unique (planned ''git'' [''diff'', ''--check''] [] ''workspace diff'')
      (?p\<lparr>vp_unsupported := True\<rparr>) else ?p)"
  have q: "plan_inv q" "vp_requires_broader q = vp_requires_broader ?p" "vp_commands q \<noteq> []"
    using p(1) by (auto simp: q_def plan_inv_def distinct_plan_def push_unique_def)
  define r where "r = (if vp_requires_broader q then
      (case workspace_manifest repo of None \<Rightarrow> q | Some m \<Rightarrow> push_broad (broad_command m modified) q) else q)"
  have plan: "plan = r\<lparr>vp_commands := take MAX_WORKFLOW_VERIFICATIONS (vp_commands r)\<rparr>"
    unfolding plan_def plan_verification_def Let_def q_def [symmetric] r_def by (rule refl)
  note add = push_broad_adds [OF q(1) broad_not_narrow]
  have r: "distinct_plan r" "vp_requires_broader r = vp_requires_broader ?p" "vp_commands r \<noteq> []"
    using q add(1) [THEN in_set_nonempty] add(4,5) by (auto simp: r_def plan_inv_def split: option.split)
  have "broad_command m modified \<in> set (vp_commands plan)" if "vp_requires_broader ?p" "workspace_manifest repo = Some m" for m
  proof -
    have eq: "r = push_broad (broad_command m modified) q" using that q(2) by (simp add: r_def)
    have "length (vp_commands r) \<le> MAX_WORKFLOW_VERIFICATIONS"
      using add(2,3) [of m modified] eq by (cases "MAX_WORKFLOW_VERIFICATIONS \<le> length (vp_commands q)") auto
    then show ?thesis using add(1) eq plan by simp
  qed
  moreover have "vp_requires_broader plan = vp_requires_broader r" by (simp add: plan)
  moreover have "\<exists>m. workspace_manifest repo = Some m" if "vp_requires_broader ?p"
    using that p(2) by (auto simp: list_ex_iff crosses_packages_def requires_workspace_scope_def
        split: if_splits option.splits)
  moreover have "distinct_plan plan" using r(1) by (simp add: plan distinct_plan_def take_map [symmetric])
  ultimately show ?thesis using r p(2) by (auto simp add: plan MAX_WORKFLOW_VERIFICATIONS_def)
qed

end
