(* ===== verification/Policy_Properties.thy ===== *)
theory Policy_Properties
  imports Policy_Facts Scheduler_Properties Plan_Facts
begin

section \<open>Properties of the policy, of the gate of a turn and of verification plans\<close>

text \<open>
  What reaches the executor when the scheduler runs under the agent's gate, the next actions the
  policy recommends, reads it answers itself, and the plans that decide which checks a change needs.
\<close>

subsection \<open>What the executor receives\<close>


definition write_call :: prepared_action where
  "write_call = (read_call ''c1'' ''a'')\<lparr>pa_tool := ''write'', pa_classification := ClassMutation,
     pa_normalized_input := JObject [(''expected_hash'', JString ''h''), (''path'', JString ''a'')],
     pa_requirements := \<lparr>req_permission = WorkspaceWrite, req_user_authorization = False,
       req_current_workspace_evidence = True\<rparr>\<rparr>"

definition write_env :: workspace_env where
  "write_env = \<lparr>env_canonicalize = Some, env_symlink_metadata = (\<lambda>p. Some RegularFile),
     env_read = (\<lambda>p. Some ''x''), env_blake3_hex = (\<lambda>b. ''h''), env_repo = (\<lambda>r. None)\<rparr>"

definition write_snapshot :: context_snapshot where
  "write_snapshot = (snapshot_new ''/w'' None)
     \<lparr>cs_inspected := [\<lparr>if_path = ''a'', if_content_hash = Some ''h'', if_ranges = [], if_last_state = OPresent,
        if_stale = False\<rparr>],
      cs_workflow := workflow_new\<lparr>wk_relevant_files := [''a'']\<rparr>\<rparr>"

definition plain_policy :: autonomous_policy where
  "plain_policy = policy_new\<lparr>ap_optimizations_enabled := False\<rparr>"

lemma short_names: "c \<in> set ''abc'' \<Longrightarrow> workspace_path_new [c] = Inr [c]"
  using workspace_path_new_join [of "[[c]]"] by (auto simp: plain_piece_def)

lemma write_admitted: "agent_gate encode write_env write_snapshot plain_policy RepositoryMode write_call = None"
  by (simp add: agent_gate_def policy_preflight_prepared_def otherwise_def plain_policy_def write_call_def read_call_def
      mutation_preflight_prepared_def prepared_write_has_evidence_def write_target_has_evidence_def
      current_target_has_evidence_def expected_hash_matches_def inspection_holds_def write_snapshot_def
      workflow_gate_def mutation_targets_inspected_prepared_def target_inspected_iff snapshot_new_def
      path_is_workspace_relative_def short_names json_get_def json_as_str_def)

lemma write_live: "list_all (current_in write_env ''/w'') (cs_inspected write_snapshot)"
  by (simp add: write_snapshot_def current_in_def live_file_hash_def short_names canonical_file_def write_env_def Let_def
      path_join_def path_is_absolute_def path_starts_with_def path_components_def split_on_def piece_component_def
      starts_with_def)

lemma small_hash: "live_file_hash write_env ''/w'' ''a'' = Some ''h''"
  using write_live by (simp add: write_snapshot_def current_in_def)

lemma write_run:
  "gate write_call = None \<Longrightarrow>
   \<exists>t. execute_prepared_tool_calls_with_gate calm_env silent_broker gate [write_call] () sched_start
     = Some (Inr [\<lparr>sr_action = write_call, sr_result = answer, sr_executed = True,
         sr_planned = False, sr_planner_actions = 0\<rparr>] :: unit agent_error + _, (), t)
     \<and> ss_launched t = [(write_call, permit_new ''c1'' ''write'' WorkspaceWrite)]"
  apply (simp add: execute_prepared_tool_calls_with_gate_def prepare_calls_def calm_env_def silent_broker_def
      sched_start_def look_cancelled_def decide_permit_def write_call_def read_call_def schedule_call_def
      MAX_TOOL_CALLS_PER_STEP_def)
  apply (simp add: exec_loop.simps look_cancelled_def select_pending_calls_def DEFAULT_MAX_PARALLEL_TOOLS_def
      blocked_by_pending_conflict_def send_event_def start_call_def wait_for_batch.simps slot_pending_def
      Let_def)
  done


subsection \<open>What to do next\<close>

text \<open>The recommended next actions are never empty, at most eight, strictly ordered by score, and finishing
  is recommended exactly when the workflow is complete without a failure.\<close>

theorem next_actions_ordered:
  "rank_next_actions s \<noteq> [] \<and> length (rank_next_actions s) \<le> 8
   \<and> sorted_wrt (\<lambda>x y. ra_score y < ra_score x) (rank_next_actions s)
   \<and> (list_ex (\<lambda>a. ra_action a = Finish) (rank_next_actions s)
        \<longleftrightarrow> wk_phase (cs_workflow s) = PComplete \<and> wk_unresolved_failures (cs_workflow s) = [])"
proof (cases "wk_phase (cs_workflow s) = PComplete \<and> wk_unresolved_failures (cs_workflow s) = []")
  case True
  then show ?thesis by (simp add: rank_next_actions_def ranked_def)
next
  case False
  have "length (sort_key ranked_key (found_actions s)) = length (found_actions s)" by simp
  moreover have "length (found_actions s) \<le> 6" "length (found_actions s) \<noteq> 0" using found_scores [of s] by simp_all
  ultimately have len: "length (sort_key ranked_key (found_actions s)) \<le> 8"
    "length (sort_key ranked_key (found_actions s)) \<noteq> 0" by linarith+
  have "\<not> list_ex (\<lambda>a. ra_action a = Finish) (sort_key ranked_key (found_actions s))"
    using no_finish_found [of _ s] by (simp add: list_ex_iff)
  then show ?thesis
    using len rank_sorted [of s] False unfolding rank_next_actions_open [OF False] length_0_conv by blast
qed

subsection \<open>Reads the policy answers\<close>


definition read_snapshot :: context_snapshot where
  "read_snapshot = write_snapshot\<lparr>cs_excerpts := [\<lparr>fe_path = ''a'', fe_start_line = 1, fe_end_line = 2,
     fe_text = bounded_new (''x'' @ newline @ ''y'') MAX_EXCERPT_BYTES, fe_content_hash = Some ''h'',
     fe_truncated = False\<rparr>]\<rparr>"

definition read_target :: json where
  "read_target = JObject [(''end_line'', JNumber ''2''), (''path'', JString ''a''), (''start_line'', JNumber ''2'')]"

lemma small_read:
  "requested_range read_target = Some (Some \<lparr>lr_start = 2, lr_end = 2\<rparr>)"
  "json_get read_target ''path'' = Some (JString ''a'')"
  by (simp_all add: requested_range_def read_target_def json_get_def json_as_u64_def parse_unsigned_def
      all_digits_def decimal_value_def is_ascii_digit_def)

lemma read_answered:
  "\<exists>v. cached_file write_env read_snapshot read_target = Some v
    \<and> json_get v ''lines'' = Some (JArray [line_json (2, ''y'')])"
proof -
  have fields: "cs_inspected read_snapshot = cs_inspected write_snapshot" "cs_workspace_root read_snapshot = ''/w''"
    by (simp_all add: read_snapshot_def write_snapshot_def snapshot_new_def)
  have hash: "Option.bind (find (inspection_holds ''a'') (cs_inspected write_snapshot)) if_content_hash = Some ''h''"
    by (simp add: write_snapshot_def inspection_holds_def)
  have body: "as_str (bounded_new [CHR ''x'', CHR 0x0A, CHR ''y''] MAX_EXCERPT_BYTES) = [CHR ''x'', CHR 0x0A, CHR ''y'']"
    by (simp add: bounded_new_short context_limits)
  have split: "lines [CHR ''x'', CHR 0x0A, CHR ''y''] = [''x'', ''y'']"
    using lines_join [of "[''x'', ''y'']"] by (simp add: plain_line_def)
  show ?thesis
    by (simp add: cached_file_def small_read json_as_str_def path_is_workspace_relative_def short_names fields hash
        live_hash_matches_iff small_hash)
      (simp add: read_snapshot_def excerpt_answers_def numbered_lines_def body split json_get_def numeral_2_eq_2)
qed


subsection \<open>Verification plans\<close>

text \<open>A verification plan is never empty, has at most sixteen commands, none twice, and asks for the
  broader check exactly when some change crosses packages, in which case the check of the
  workspace's manifest is one of the commands.\<close>

theorem plans_cover_crossing_changes:
  "vp_commands (plan_verification repo modified) \<noteq> []
   \<and> length (vp_commands (plan_verification repo modified)) \<le> MAX_WORKFLOW_VERIFICATIONS
   \<and> distinct_plan (plan_verification repo modified)
   \<and> (vp_requires_broader (plan_verification repo modified) \<longleftrightarrow> list_ex (crosses_packages repo) modified)
   \<and> (list_ex (crosses_packages repo) modified \<longrightarrow>
        (\<exists>m. workspace_manifest repo = Some m
           \<and> broad_command m modified \<in> set (vp_commands (plan_verification repo modified))))"
  using plan_verification_shape [of repo modified] by simp

text \<open>The check run next is one that is still open: it belongs to the plan for the changed paths, and its
  key is that of a required step of the current revision that is pending; and no other command line
  has that key, the program, the arguments and the directory are those of the step.\<close>

theorem next_check_is_pending:
  assumes "next_pending_verification env e = Some c"
  shows "\<exists>repo step. live_repo env e = Some repo
    \<and> c \<in> set (vp_commands (plan_verification repo (cs_modified (ce_snapshot e))))
    \<and> step \<in> set (wk_verification_steps (cs_workflow (ce_snapshot e)))
    \<and> vs_required step \<and> vs_status step = VPending
    \<and> vs_revision step = wk_workspace_revision (cs_workflow (ce_snapshot e))
    \<and> (\<forall>d. workflow_key d = as_str (vs_command step) \<longleftrightarrow>
          pc_program d = pc_program c \<and> pc_args d = pc_args c \<and> same_cwd (pc_cwd d) (pc_cwd c))"
proof -
  let ?w = "cs_workflow (ce_snapshot e)" and ?steps = "wk_verification_steps (cs_workflow (ce_snapshot e))"
  let ?open = "\<lambda>step. vs_required step \<and> vs_revision step = wk_workspace_revision ?w \<and> vs_status step = VPending"
  obtain repo where repo: "live_repo env e = Some repo"
    and found: "find (\<lambda>command. workflow_key command \<in> set (map (\<lambda>step. as_str (vs_command step)) (filter ?open ?steps)))
      (vp_commands (plan_verification repo (cs_modified (ce_snapshot e)))) = Some c"
    using assms unfolding next_pending_verification_def Let_def by (cases "live_repo env e") simp_all
  have c: "workflow_key c \<in> set (map (\<lambda>step. as_str (vs_command step)) (filter ?open ?steps))"
    "c \<in> set (vp_commands (plan_verification repo (cs_modified (ce_snapshot e))))"
    using found unfolding find_Some_iff by auto
  then obtain step where step: "step \<in> set ?steps" "?open step" "as_str (vs_command step) = workflow_key c" by auto
  have "workflow_key d = as_str (vs_command step) \<longleftrightarrow>
      pc_program d = pc_program c \<and> pc_args d = pc_args c \<and> same_cwd (pc_cwd d) (pc_cwd c)" for d
    unfolding step(3) by (rule workflow_key_inj)
  then show ?thesis using repo c(2) step(1,2) by blast
qed

text \<open>A change to the lock file of a workspace of two packages.\<close>

definition empty_repo :: repo_map_snapshot where
  "empty_repo = \<lparr>rm_root = ''/w'', rm_tracked_file_count = 0, rm_tracked_files = [], rm_manifests = [],
     rm_packages = [], rm_workspace_members = [], rm_source_roots = [], rm_test_paths = [],
     rm_documentation = [], rm_instructions = [], rm_truncated = False\<rparr>"

definition two_packages :: repo_map_snapshot where
  "two_packages = empty_repo\<lparr>
     rm_manifests := [\<lparr>mi_path = ''Cargo.toml'', mi_kind = MCargo, mi_package_name = None,
       mi_workspace_members = [''a'', ''b''], mi_status = MsParsed, mi_truncated = False\<rparr>],
     rm_packages := [\<lparr>pk_name = Some ''a'', pk_root = ''a'', pk_manifest = ''a/Cargo.toml''\<rparr>,
       \<lparr>pk_name = Some ''b'', pk_root = ''b'', pk_manifest = ''b/Cargo.toml''\<rparr>],
     rm_workspace_members :=
       [\<lparr>wsm_declared_by = ''Cargo.toml'', wsm_pattern = ''a'', wsm_manifest = Some ''a/Cargo.toml''\<rparr>,
        \<lparr>wsm_declared_by = ''Cargo.toml'', wsm_pattern = ''b'', wsm_manifest = Some ''b/Cargo.toml''\<rparr>]\<rparr>"

lemma lock_file_crosses: "crosses_packages two_packages ''Cargo.lock''"
proof -
  have "(case nearest_manifest two_packages ''Cargo.lock'' of None \<Rightarrow> False
     | Some m \<Rightarrow> supports_path (mi_kind m) (mi_path m) ''Cargo.lock'' \<and> requires_workspace_scope two_packages m ''Cargo.lock'')"
    by code_simp
  then show ?thesis by (auto simp: crosses_packages_def split: option.splits)
qed

lemma plans_cover_crossing_changes_witness:
  "\<exists>m. workspace_manifest two_packages = Some m
     \<and> broad_command m [''Cargo.lock''] \<in> set (vp_commands (plan_verification two_packages [''Cargo.lock'']))"
  using plans_cover_crossing_changes [of two_packages "[''Cargo.lock'']"] lock_file_crosses by simp

definition diff_check :: planned_command where
  "diff_check = planned ''git'' [''diff'', ''--check''] [] ''workspace diff''"

definition checking_engine :: context_engine where
  "checking_engine = on_snapshot (on_workflow (\<lambda>w. w\<lparr>wk_verification_steps := [workflow_step 0 diff_check]\<rparr>))
     (engine_new ''/w'' None)"

lemma diff_check_next:
  "next_pending_verification (write_env\<lparr>env_repo := \<lambda>r. Some empty_repo\<rparr>) checking_engine = Some diff_check"
proof -
  have "vp_commands (plan_verification empty_repo []) = [diff_check]"
    by code_simp
  moreover have "workflow_key diff_check = as_str (vs_command (workflow_step 0 diff_check))"
    by code_simp
  ultimately show ?thesis
    by (simp add: next_pending_verification_def live_repo_def checking_engine_def engine_new_def map_of_root_def
        snapshot_new_def workflow_new_def workflow_step_def verification_step_new_def Let_def
        del: set_filter set_map)
qed

lemma next_check_is_pending_witness:
  "\<exists>step \<in> set (wk_verification_steps (cs_workflow (ce_snapshot checking_engine))).
     vs_required step \<and> vs_status step = VPending"
  using next_check_is_pending [OF diff_check_next] by blast

subsection \<open>A line that is lost on the second read\<close>

text \<open>The file as the tool \<open>read\<close> reports it: an empty first line, then a line of text.\<close>

definition read_report :: "rstr \<Rightarrow> rstr \<Rightarrow> rstr \<Rightarrow> json" where
  "read_report path hash t = JObject [(''content_hash'', JString hash),
     (''lines'', JArray [line_json (1, []), line_json (2, t)]), (''path'', JString path), (''truncated'', JBool False)]"

definition whole_file :: "rstr \<Rightarrow> json" where
  "whole_file path = JObject [(''path'', JString path)]"

lemma report_lines:
  "line_numbers [line_json (1, []), line_json (2, t)] = [1, 2]"
  "t \<noteq> [] \<Longrightarrow> excerpt_from_lines [line_json (1, []), line_json (2, t)] = Some t"
proof -
  have "nat_to_decimal 1 = ''1''" "nat_to_decimal 2 = ''2''" by code_simp+
  then show "line_numbers [line_json (1, []), line_json (2, t)] = [1, 2]"
    by (simp add: line_numbers_def line_json_def json_get_def json_as_u64_def parse_unsigned_def all_digits_def
        decimal_value_def is_ascii_digit_def List.map_filter_def)
  have "excerpt_text_from [] [line_json (1, []), line_json (2, t)] = t"
    by (simp add: line_json_def json_get_def json_as_str_def push_line_def or_else_def Let_def context_limits)
  then show "t \<noteq> [] \<Longrightarrow> excerpt_from_lines [line_json (1, []), line_json (2, t)] = Some t"
    by (simp add: excerpt_from_lines_def)
qed

lemma push_evicting_last: "0 < n \<Longrightarrow> \<exists>ys. push_evicting n xs x = ys @ [x] \<and> set ys \<subseteq> set xs"
  by (cases xs) (auto simp: push_evicting_def)

text \<open>A second read of a file that starts with an empty line is answered with the lines moved up by one.
  After \<open>read\<close> reported an empty line 1 and \<open>t\<close> as line 2 of an unseen file, and as long as
  the file is unchanged, a request for the whole file is answered from the excerpt with \<open>t\<close> as line
  1, no line 2, and not marked as truncated.\<close>

theorem cached_read_moves_lines:
  assumes "portable path" and "live_file_hash env (cs_workspace_root s) path = Some hash"
    and "t \<noteq> []" and "plain_line t" and "length t \<le> MAX_EXCERPT_BYTES"
    and "list_all (\<lambda>f. if_path f \<noteq> path) (cs_inspected s)"
  shows "\<exists>v. cached_file env (observe_read_file (read_report path hash t) s) (whole_file path) = Some v
    \<and> json_get v ''lines'' = Some (JArray [line_json (1, t)])
    \<and> json_get v ''truncated'' = Some (JBool False)"
proof -
  let ?s = "observe_read_file (read_report path hash t) s"
  let ?f = "\<lparr>if_path = path, if_content_hash = Some hash, if_ranges = [\<lparr>lr_start = 1, lr_end = 2\<rparr>],
     if_last_state = OPresent, if_stale = False\<rparr>"
  let ?e = "\<lparr>fe_path = path, fe_start_line = 1, fe_end_line = 2, fe_text = bounded_new t MAX_EXCERPT_BYTES,
     fe_content_hash = Some hash, fe_truncated = False\<rparr>"
  have path: "portable_workspace_path path = Some path" "path_is_workspace_relative path"
    using assms(1) by (auto simp: portable_def portable_workspace_path_def path_is_workspace_relative_def split: sum.splits)
  have new: "find (\<lambda>f. if_path f = path) (cs_inspected s) = None"
    using assms(6) by (auto simp: find_None_iff list_all_iff)
  have s: "?s = push_excerpt ?e (s\<lparr>cs_inspected := push_evicting MAX_INSPECTED_FILES (cs_inspected s) ?f\<rparr>)"
    using assms(3) by (simp add: observe_read_file_def read_report_def json_get_def json_as_str_def path new report_lines
        line_range_from_read_def upsert_inspected_def json_as_array_def json_as_bool_def or_else_def Let_def
        del: One_nat_def)
  obtain fs where fs: "push_evicting MAX_INSPECTED_FILES (cs_inspected s) ?f = fs @ [?f]" "set fs \<subseteq> set (cs_inspected s)"
    using push_evicting_last [of MAX_INSPECTED_FILES "cs_inspected s" ?f] by (auto simp: context_limits)
  have "list_all (\<lambda>f. \<not> inspection_holds path f) fs"
    using fs(2) assms(6) by (auto simp: list_all_iff inspection_holds_def)
  then have found: "find (inspection_holds path) (push_evicting MAX_INSPECTED_FILES (cs_inspected s) ?f) = Some ?f"
    unfolding fs(1) by (induction fs) (auto simp: inspection_holds_def)
  have last: "find P (rev (push_evicting MAX_FILE_EXCERPTS xs x)) = Some x" if "P x" for P xs and x :: file_excerpt
    using that push_evicting_last [of MAX_FILE_EXCERPTS xs x] by (auto simp: context_limits)
  have body: "lines (as_str (bounded_new t MAX_EXCERPT_BYTES)) = [t]"
    using assms(3-5) lines_join [of "[t]"] by (simp add: bounded_new_short)
  have numbered: "numbered_lines ?e 1 2 = [(1, t)]" by (simp add: numbered_lines_def body)
  show ?thesis
    using assms(2) unfolding s
    by (simp add: cached_file_def whole_file_def json_get_def json_as_str_def path requested_range_def found
        live_hash_matches_iff push_excerpt_def last [of "excerpt_answers path hash None" ?e] excerpt_answers_def
        numbered Let_def del: One_nat_def)
qed

lemma cached_read_moves_lines_witness:
  "\<exists>v. cached_file write_env (observe_read_file (read_report ''a'' ''h'' ''y'') (snapshot_new ''/w'' None))
       (whole_file ''a'') = Some v \<and> json_get v ''lines'' = Some (JArray [line_json (1, ''y'')])"
proof -
  have "portable ''a''"
    using normal_form [OF short_names [of "CHR ''a''"]] by (simp add: portable_def portable_workspace_path_def short_names)
  moreover have "cs_workspace_root (snapshot_new ''/w'' None) = ''/w''" "cs_inspected (snapshot_new ''/w'' None) = []"
    by (simp_all add: snapshot_new_def)
  moreover have "plain_line ''y''" "length ''y'' \<le> MAX_EXCERPT_BYTES" by (simp_all add: plain_line_def context_limits)
  ultimately show ?thesis
    using cached_read_moves_lines [of "''a''" write_env "snapshot_new ''/w'' None" "''h''" "''y''"] small_hash by auto
qed

end
