(* ===== verification/Context_Selection.thy ===== *)
theory Context_Selection
  imports Symbol_Types Workflow "HOL-Library.Multiset"
begin

section \<open>Choosing the context of a model turn (context\_selection.rs)\<close>

text \<open>
  The scored, budgeted choice of context items for one model turn.  A candidate borrows its text
  from the larger stored context; the selection names candidates by index.  Scores are \<open>i32\<close>:
  the model computes them over the integers, and \<open>scores_in_range\<close> shows that no sum the code
  forms leaves the 32-bit range.
\<close>

subsection \<open>Candidates and hints\<close>

datatype context_kind =
  ModifiedPath | UserModifiedPath | Excerpt | InspectedFile | ToolSummary
  | ScopedInstructions | RepositoryMetadata | GitMetadata

record context_candidate =
  cc_kind :: context_kind
  cc_path :: "rstr option"
  cc_content :: rstr
  cc_start_line :: nat
  cc_end_line :: nat
  cc_recency :: nat
  cc_modified :: bool
  cc_stale :: bool
  cc_phase :: workflow_phase
  cc_delta :: bool
  cc_fingerprint :: "u8 list"
  cc_targeted_subgoal :: bool
  cc_diagnostic_path :: bool

definition candidate_new :: "context_kind \<Rightarrow> rstr option \<Rightarrow> rstr \<Rightarrow> context_candidate" where
  "candidate_new kind path content =
     \<lparr>cc_kind = kind, cc_path = path, cc_content = content, cc_start_line = 0, cc_end_line = 0,
      cc_recency = 0, cc_modified = False, cc_stale = False, cc_phase = PDiscover,
      cc_delta = True, cc_fingerprint = replicate 16 0, cc_targeted_subgoal = False,
      cc_diagnostic_path = False\<rparr>"

text \<open>Texts in memory are far shorter than \<open>usize::MAX\<close>, so the two saturating sums are plain.\<close>

definition byte_len :: "context_candidate \<Rightarrow> nat" where
  "byte_len c = (case cc_path c of None \<Rightarrow> 0 | Some p \<Rightarrow> length p) + length (cc_content c) + 32"

record symbol_hint =
  sh_path :: rstr
  sh_name :: rstr

record relationship_hint =
  rh_path :: rstr
  rh_kind :: symbol_relationship_kind
  rh_score :: nat
  rh_ambiguous :: bool

record selected_item =
  si_index :: nat
  si_score :: int
  si_bytes :: nat
  si_truncated :: bool

record selected_context =
  sc_items :: "selected_item list"
  sc_used_bytes :: nat

subsection \<open>Scores\<close>

fun role_bonus :: "symbol_relationship_kind \<Rightarrow> int" where
  "role_bonus RDefinition = 56"
| "role_bonus RImplementation = 50"
| "role_bonus RCaller = 44"
| "role_bonus RTest = 48"
| "role_bonus RDependency = 32"
| "role_bonus RImport = 24"
| "role_bonus RModule = 20"

definition hint_value :: "relationship_hint \<Rightarrow> int" where
  "hint_value r = role_bonus (rh_kind r) + int (min (rh_score r) 128 div 8)
     - (if rh_ambiguous r then 10 else 0)"

definition relationship_hint_bonus :: "context_candidate \<Rightarrow> relationship_hint list \<Rightarrow> int" where
  "relationship_hint_bonus c relationships =
     (case cc_path c of None \<Rightarrow> 0
      | Some path \<Rightarrow> sum_list (map hint_value (filter (\<lambda>r. rh_path r = path) (take 128 relationships))))"

definition contains_ascii_case_insensitive :: "rstr \<Rightarrow> rstr \<Rightarrow> bool" where
  "contains_ascii_case_insensitive value needle =
     (length needle \<le> length value
      \<and> list_ex (\<lambda>i. eq_ignore_ascii_case (take (length needle) (drop i value)) needle)
          [0..<length value - length needle + 1])"

definition symbol_bonus :: "context_candidate \<Rightarrow> rstr list \<Rightarrow> symbol_hint list \<Rightarrow> int" where
  "symbol_bonus c terms symbols =
     (case cc_path c of None \<Rightarrow> 0
      | Some path \<Rightarrow> sum_list (map (\<lambda>symbol.
          int (length (filter (\<lambda>term. eq_ignore_ascii_case (sh_name symbol) term
            \<or> contains_ascii_case_insensitive (sh_name symbol) term) terms)) * 40)
          (filter (\<lambda>symbol. sh_path symbol = path) (take 128 symbols))))"

definition selection_is_test_path :: "rstr \<Rightarrow> bool" where
  "selection_is_test_path path =
     (contains_str path ''test''
      \<and> (list_ex (\<lambda>part. part = ''tests'' \<or> part = ''test'')
             (split_on CHR ''/'' (map (\<lambda>c. if slash c then CHR ''/'' else c) path))
         \<or> contains_str (last (split_on CHR ''/'' path)) ''_test''))"

definition relationship_bonus :: "context_candidate \<Rightarrow> context_candidate list \<Rightarrow> int" where
  "relationship_bonus c candidates =
     (case cc_path c of None \<Rightarrow> 0
      | Some path \<Rightarrow>
          if \<not> selection_is_test_path path then 0
          else if list_ex (\<lambda>other. cc_modified other
                 \<and> (case cc_path other of None \<Rightarrow> False
                    | Some other_path \<Rightarrow> \<not> selection_is_test_path other_path
                        \<and> related_path_stem path other_path)) candidates
               then 45 else 0)"

definition symbol_matches :: "rstr \<Rightarrow> rstr \<Rightarrow> bool" where
  "symbol_matches path term =
     list_ex (\<lambda>part. eq_ignore_ascii_case part term) (split_chars_from not_alphanumeric [] path)"

fun kind_score :: "context_kind \<Rightarrow> int" where
  "kind_score ModifiedPath = 90"
| "kind_score UserModifiedPath = 94"
| "kind_score Excerpt = 55"
| "kind_score InspectedFile = 35"
| "kind_score ToolSummary = 25"
| "kind_score ScopedInstructions = 52"
| "kind_score RepositoryMetadata = 15"
| "kind_score GitMetadata = 10"

definition term_score :: "context_candidate \<Rightarrow> rstr \<Rightarrow> int" where
  "term_score c term =
     (let path_matches = (case cc_path c of None \<Rightarrow> False | Some path \<Rightarrow> contains_str path term)
      in if path_matches then
           40 + (if (case cc_path c of None \<Rightarrow> False | Some path \<Rightarrow> symbol_matches path term)
                 then 25 else 0)
         else if contains_str (cc_content c) term then 10 else 0)"

definition score_candidate :: "context_candidate \<Rightarrow> rstr list \<Rightarrow> nat \<Rightarrow> int" where
  "score_candidate c terms newest =
     kind_score (cc_kind c)
     + (if cc_modified c then 80 else 0)
     + (if cc_targeted_subgoal c then 65 else 0)
     + (if cc_diagnostic_path c then 75 else 0)
     + (if cc_stale c then - 220
        else if cc_kind c = Excerpt \<or> cc_kind c = InspectedFile then 25 else 0)
     + (24 - int (min (newest - cc_recency c) 24))
     + sum_list (map (term_score c) terms)"

definition delta_bonus :: "context_candidate \<Rightarrow> int" where
  "delta_bonus c = (if cc_delta c then 48 else - 320)"

fun phase_kind_bonus :: "workflow_phase \<Rightarrow> context_kind \<Rightarrow> int" where
  "phase_kind_bonus PDiscover k = (if k = Excerpt \<or> k = InspectedFile then 8 else 32)"
| "phase_kind_bonus PInspect k =
     (if k = Excerpt \<or> k = InspectedFile then 42
      else if k = RepositoryMetadata \<or> k = ScopedInstructions \<or> k = ToolSummary then 16 else 8)"
| "phase_kind_bonus PModify k =
     (if k = ModifiedPath \<or> k = UserModifiedPath then 48
      else if k = Excerpt \<or> k = InspectedFile then 32
      else if k = ToolSummary then 20 else 4)"
| "phase_kind_bonus PVerify k =
     (if k = ModifiedPath \<or> k = Excerpt \<or> k = InspectedFile then 38
      else if k = ToolSummary \<or> k = GitMetadata then 34
      else if k = UserModifiedPath then 28 else 4)"
| "phase_kind_bonus PComplete k =
     (if k = ToolSummary \<or> k = GitMetadata then 30
      else if k = ModifiedPath \<or> k = Excerpt \<or> k = InspectedFile then 24
      else if k = UserModifiedPath then 20 else 4)"

definition phase_bonus :: "context_candidate \<Rightarrow> int" where
  "phase_bonus c =
     phase_kind_bonus (cc_phase c) (cc_kind c)
     + (if cc_diagnostic_path c \<and> cc_phase c = PInspect then 30 else 0)
     + (if cc_targeted_subgoal c \<and> cc_phase c = PModify then 25 else 0)"

subsection \<open>Selection\<close>

definition is_duplicate :: "context_candidate \<Rightarrow> context_candidate list \<Rightarrow> selected_item list \<Rightarrow> bool" where
  "is_duplicate c candidates selected =
     list_ex (\<lambda>item.
       let existing = candidates ! si_index item
       in cc_path c = cc_path existing
          \<and> (if cc_kind c = Excerpt \<and> cc_kind existing = Excerpt then
               cc_start_line c \<le> cc_end_line existing \<and> cc_start_line existing \<le> cc_end_line c
             else cc_kind c = cc_kind existing \<and> cc_content c = cc_content existing)) selected"

definition candidate_score ::
    "rstr list \<Rightarrow> context_candidate list \<Rightarrow> symbol_hint list \<Rightarrow> relationship_hint list
     \<Rightarrow> context_candidate \<Rightarrow> int" where
  "candidate_score terms candidates symbols relationships c =
     score_candidate c terms (foldr max (map cc_recency candidates) 0)
     + phase_bonus c + delta_bonus c + symbol_bonus c terms symbols
     + relationship_hint_bonus c relationships + relationship_bonus c candidates"

text \<open>
  The rank of a candidate, \<open>(Reverse(score), index)\<close>: the negated score, then the index.
\<close>

definition rank_of ::
    "rstr list \<Rightarrow> context_candidate list \<Rightarrow> symbol_hint list \<Rightarrow> relationship_hint list
     \<Rightarrow> nat \<Rightarrow> int \<times> nat" where
  "rank_of terms candidates symbols relationships i =
     (- candidate_score terms candidates symbols relationships (candidates ! i), i)"

definition eligible :: "context_candidate list \<Rightarrow> nat list" where
  "eligible candidates =
     (if list_all cc_delta candidates then [0..<length candidates]
      else filter (\<lambda>i. cc_delta (candidates ! i)) [0..<length candidates])"

text \<open>
  \<open>select_nth_unstable_by_key\<close> moves the smallest \<open>ranked_limit\<close> ranks to the front and the
  truncation keeps them; ranks are pairwise different, so what remains after the final sort is
  the front of the sorted list.
\<close>

definition shortlist ::
    "rstr \<Rightarrow> context_candidate list \<Rightarrow> nat \<Rightarrow> symbol_hint list \<Rightarrow> relationship_hint list
     \<Rightarrow> (int \<times> nat) list" where
  "shortlist task candidates item_limit symbols relationships =
     (let ranked = map (rank_of (query_words 32 task) candidates symbols relationships) (eligible candidates);
          ranked_limit = min (item_limit * 4) (length ranked)
      in take ranked_limit (sort ranked))"

fun fill :: "context_candidate list \<Rightarrow> nat \<Rightarrow> nat \<Rightarrow> (int \<times> nat) list \<Rightarrow> selected_item list \<Rightarrow> nat
    \<Rightarrow> selected_context" where
  "fill candidates byte_budget item_limit [] items used =
     \<lparr>sc_items = items, sc_used_bytes = used\<rparr>"
| "fill candidates byte_budget item_limit ((reverse_score, index) # ranked) items used =
     (if length items = item_limit \<or> used = byte_budget then
        \<lparr>sc_items = items, sc_used_bytes = used\<rparr>
      else
        let candidate = candidates ! index
        in if is_duplicate candidate candidates items then
             fill candidates byte_budget item_limit ranked items used
           else
             let available = byte_budget - used;
                 bytes = min (byte_len candidate) available
             in if bytes = 0 then \<lparr>sc_items = items, sc_used_bytes = used\<rparr>
                else fill candidates byte_budget item_limit ranked
                  (items @ [\<lparr>si_index = index, si_score = - reverse_score, si_bytes = bytes,
                             si_truncated = bytes < byte_len candidate\<rparr>])
                  (used + bytes))"

definition select_context_with_relationships ::
    "rstr \<Rightarrow> context_candidate list \<Rightarrow> nat \<Rightarrow> nat \<Rightarrow> symbol_hint list \<Rightarrow> relationship_hint list
     \<Rightarrow> selected_context" where
  "select_context_with_relationships task candidates byte_budget item_limit symbols relationships =
     (if byte_budget = 0 \<or> item_limit = 0 then \<lparr>sc_items = [], sc_used_bytes = 0\<rparr>
      else fill candidates byte_budget item_limit
             (shortlist task candidates item_limit symbols relationships) [] 0)"

definition select_context_with_symbols ::
    "rstr \<Rightarrow> context_candidate list \<Rightarrow> nat \<Rightarrow> nat \<Rightarrow> symbol_hint list \<Rightarrow> selected_context" where
  "select_context_with_symbols task candidates byte_budget item_limit symbols =
     select_context_with_relationships task candidates byte_budget item_limit symbols []"

definition select_context ::
    "rstr \<Rightarrow> context_candidate list \<Rightarrow> nat \<Rightarrow> nat \<Rightarrow> selected_context" where
  "select_context task candidates byte_budget item_limit =
     select_context_with_symbols task candidates byte_budget item_limit []"

end
