(* ===== verification/Selection_Properties.thy ===== *)
theory Selection_Properties
  imports Context_Selection
begin

section \<open>What the context selection promises\<close>

text \<open>
  The fill loop consumes a prefix of the shortlist (\<open>fill_prefix\<close>) and keeps its accounts
  (\<open>fill_accounts\<close>); the shortlist holds the best ranks of the eligible candidates.  The
  properties follow: budgets and accounts, order, no duplicates, greedy choice, and the range
  of the scores.
\<close>

subsection \<open>The shortlist\<close>

lemma eligible_iff:
  "i \<in> set (eligible cs) \<longleftrightarrow> i < length cs \<and> cc_delta (cs ! i)"
  by (auto simp: eligible_def list_all_length)

lemma eligible_distinct: "distinct (eligible cs)"
  by (simp add: eligible_def)

lemma ranks_distinct: "distinct (map (rank_of ts cs sy rs) (eligible cs))"
  by (simp add: distinct_map eligible_distinct inj_on_def rank_of_def)

lemma shortlist_sorted: "sorted_wrt (<) (shortlist task cs n sy rs)"
  using ranks_distinct [of "query_words 32 task" cs sy rs]
  by (simp add: shortlist_def Let_def sorted_wrt_take strict_sorted_iff)

lemma shortlist_set:
  "x \<in> set (shortlist task cs n sy rs) \<Longrightarrow>
     snd x < length cs \<and> cc_delta (cs ! snd x)
     \<and> x = rank_of (query_words 32 task) cs sy rs (snd x)"
  by (auto simp: shortlist_def Let_def eligible_iff rank_of_def dest!: in_set_takeD)

text \<open>A candidate the shortlist leaves out has \<open>4 * n\<close> better ones in it.\<close>

lemma shortlist_best:
  assumes "i < length cs" and "cc_delta (cs ! i)"
    and out: "rank_of (query_words 32 task) cs sy rs i \<notin> set (shortlist task cs n sy rs)"
  shows "length (shortlist task cs n sy rs) = n * 4
    \<and> list_all (\<lambda>x. x < rank_of (query_words 32 task) cs sy rs i) (shortlist task cs n sy rs)"
proof -
  define R where "R = sort (map (rank_of (query_words 32 task) cs sy rs) (eligible cs))"
  define r where "r = rank_of (query_words 32 task) cs sy rs i"
  define k where "k = min (n * 4) (length R)"
  have short: "shortlist task cs n sy rs = take k R"
    by (simp add: shortlist_def R_def k_def Let_def)
  have "r \<in> set R" using assms(1,2) by (simp add: R_def r_def eligible_iff)
  moreover have "r \<notin> set (take k R)" using out by (simp add: short r_def)
  ultimately have drop: "r \<in> set (drop k R)"
    by (metis UnE append_take_drop_id set_append)
  then have "k < length R" by (metis drop_all empty_iff list.set(1) not_le)
  moreover have "sorted_wrt (<) (take k R @ drop k R)"
    using ranks_distinct [of "query_words 32 task" cs sy rs] by (simp add: R_def strict_sorted_iff)
  ultimately show ?thesis
    using drop unfolding short sorted_wrt_append
    by (auto simp: k_def r_def list_all_iff)
qed

subsection \<open>The fill loop\<close>

abbreviation (input) item_rank :: "selected_item \<Rightarrow> int \<times> nat" where
  "item_rank it \<equiv> (- si_score it, si_index it)"

lemma byte_len_pos: "0 < byte_len c"
  by (simp add: byte_len_def)

definition item_ok :: "context_candidate list \<Rightarrow> selected_item \<Rightarrow> bool" where
  "item_ok cs it \<longleftrightarrow> 0 < si_bytes it \<and> si_bytes it \<le> byte_len (cs ! si_index it)
     \<and> si_truncated it = (si_bytes it < byte_len (cs ! si_index it))"

definition accounts_ok :: "context_candidate list \<Rightarrow> nat \<Rightarrow> nat \<Rightarrow> selected_item list \<Rightarrow> nat \<Rightarrow> bool" where
  "accounts_ok cs budget limit items used \<longleftrightarrow>
     length items \<le> limit \<and> used = sum_list (map si_bytes items) \<and> used \<le> budget
     \<and> list_all (item_ok cs) items
     \<and> (used = budget \<or> list_all (\<lambda>it. \<not> si_truncated it) items)
     \<and> list_all (\<lambda>it. \<not> si_truncated it) (butlast items)"

lemma selection_accounts_push:
  assumes "accounts_ok cs budget limit items used" "length items \<noteq> limit" "used \<noteq> budget"
    and "b = min (byte_len (cs ! i)) (budget - used)"
  shows "accounts_ok cs budget limit
    (items @ [\<lparr>si_index = i, si_score = s, si_bytes = b, si_truncated = b < byte_len (cs ! i)\<rparr>]) (used + b)"
  using assms byte_len_pos [of "cs ! i"] by (auto simp: accounts_ok_def item_ok_def)

lemma fill_accounts:
  "accounts_ok cs budget limit items used \<Longrightarrow>
   accounts_ok cs budget limit (sc_items (fill cs budget limit ranked items used))
     (sc_used_bytes (fill cs budget limit ranked items used))"
proof (induction cs budget limit ranked items used rule: fill.induct)
  case (2 cs budget limit s i ranked items used)
  show ?case
    using 2 selection_accounts_push [OF 2(3), of "min (byte_len (cs ! i)) (budget - used)" i "- s"]
    by (auto simp: Let_def)
qed simp

lemma is_duplicate_append:
  "is_duplicate c cs (xs @ ys) \<longleftrightarrow> is_duplicate c cs xs \<or> is_duplicate c cs ys"
  by (simp add: is_duplicate_def)

definition no_duplicates :: "context_candidate list \<Rightarrow> selected_item list \<Rightarrow> bool" where
  "no_duplicates cs items \<longleftrightarrow>
     sorted_wrt (\<lambda>earlier later. \<not> is_duplicate (cs ! si_index later) cs [earlier]) items"

lemma duplicate_any: "is_duplicate c cs items \<longleftrightarrow> (\<exists>it \<in> set items. is_duplicate c cs [it])"
  by (simp add: is_duplicate_def list_ex_iff)

lemma no_duplicates_push:
  "no_duplicates cs items \<Longrightarrow> \<not> is_duplicate (cs ! si_index it) cs items \<Longrightarrow> no_duplicates cs (items @ [it])"
  by (auto simp: no_duplicates_def sorted_wrt_append duplicate_any [of _ _ items])

lemma fill_no_duplicates:
  "no_duplicates cs items \<Longrightarrow> no_duplicates cs (sc_items (fill cs budget limit ranked items used))"
  by (induction cs budget limit ranked items used rule: fill.induct) (auto simp: Let_def no_duplicates_push)

text \<open>What the loop has gone through, and what it has left.\<close>

definition settled :: "context_candidate list \<Rightarrow> selected_item list \<Rightarrow> int \<times> nat \<Rightarrow> bool" where
  "settled cs items x \<longleftrightarrow> x \<in> item_rank ` set items \<or> is_duplicate (cs ! snd x) cs items"

lemma settled_append: "settled cs items x \<Longrightarrow> settled cs (items @ zs) x"
  by (auto simp: settled_def is_duplicate_append)

definition fill_spec ::
    "context_candidate list \<Rightarrow> nat \<Rightarrow> nat \<Rightarrow> (int \<times> nat) list \<Rightarrow> selected_item list \<Rightarrow> selected_context \<Rightarrow> bool" where
  "fill_spec cs budget limit ranked items r \<longleftrightarrow> (\<exists>past rest new. ranked = past @ rest
     \<and> sc_items r = items @ new \<and> subseq (map item_rank new) past
     \<and> list_all (settled cs (items @ new)) past
     \<and> (rest = [] \<or> length (items @ new) = limit \<or> sc_used_bytes r = budget))"

lemma fill_spec_skip:
  assumes "fill_spec cs budget limit ranked items r" and "is_duplicate (cs ! snd x) cs items"
  shows "fill_spec cs budget limit (x # ranked) items r"
proof -
  obtain past rest new where ih: "ranked = past @ rest" "sc_items r = items @ new"
    "subseq (map item_rank new) past" "list_all (settled cs (items @ new)) past"
    "rest = [] \<or> length (items @ new) = limit \<or> sc_used_bytes r = budget"
    using assms(1) unfolding fill_spec_def by blast
  have "settled cs (items @ new) x"
    using assms(2) by (simp add: settled_def is_duplicate_append)
  with ih show ?thesis unfolding fill_spec_def
    by (intro exI [of _ "x # past"] exI [of _ rest] exI [of _ new]) auto
qed

lemma fill_spec_take:
  assumes "fill_spec cs budget limit ranked (items @ [it]) r"
  shows "fill_spec cs budget limit (item_rank it # ranked) items r"
proof -
  obtain past rest new where ih: "ranked = past @ rest" "sc_items r = (items @ [it]) @ new"
    "subseq (map item_rank new) past" "list_all (settled cs ((items @ [it]) @ new)) past"
    "rest = [] \<or> length ((items @ [it]) @ new) = limit \<or> sc_used_bytes r = budget"
    using assms unfolding fill_spec_def by blast
  have "settled cs (items @ it # new) (item_rank it)" by (simp add: settled_def)
  with ih show ?thesis unfolding fill_spec_def
    by (intro exI [of _ "item_rank it # past"] exI [of _ rest] exI [of _ "it # new"]) auto
qed

lemma fill_prefix:
  "used \<le> budget \<Longrightarrow> fill_spec cs budget limit ranked items (fill cs budget limit ranked items used)"
proof (induction cs budget limit ranked items used rule: fill.induct)
  case (1 cs budget limit items used)
  show ?case by (simp add: fill_spec_def)
next
  case (2 cs budget limit s i ranked items used)
  define b where "b = min (byte_len (cs ! i)) (budget - used)"
  define it where "it = \<lparr>si_index = i, si_score = - s, si_bytes = b, si_truncated = b < byte_len (cs ! i)\<rparr>"
  consider (full) "length items = limit \<or> used = budget"
    | (dup) "\<not> (length items = limit \<or> used = budget)" "is_duplicate (cs ! i) cs items"
    | (add) "\<not> (length items = limit \<or> used = budget)" "\<not> is_duplicate (cs ! i) cs items" by blast
  then show ?case
  proof cases
    case full
    then show ?thesis unfolding fill_spec_def
      by (intro exI [of _ "[]"] exI [of _ "(s, i) # ranked"]) auto
  next
    case dup
    with fill_spec_skip [OF 2(1) [OF dup(1) refl dup(2) 2(3)], of "(s, i)"] show ?thesis by simp
  next
    case add
    have b: "b \<noteq> 0" "used + b \<le> budget"
      using add(1) 2(3) byte_len_pos [of "cs ! i"] by (auto simp: b_def)
    then have step: "fill cs budget limit ((s, i) # ranked) items used
        = fill cs budget limit ranked (items @ [it]) (used + b)"
      using add b(1) by (simp add: Let_def b_def [symmetric] it_def)
    have "fill_spec cs budget limit ranked (items @ [it]) (fill cs budget limit ranked (items @ [it]) (used + b))"
      using 2(2) [OF add(1) refl add(2) refl refl] b by (simp add: b_def it_def)
    from fill_spec_take [OF this] show ?thesis unfolding step by (simp add: it_def)
  qed
qed

lemma fill_range:
  assumes "used \<le> budget"
  shows "\<exists>new. sc_items (fill cs budget limit ranked items used) = items @ new
    \<and> subseq (map item_rank new) ranked"
proof -
  obtain past rest new where "ranked = past @ rest"
    "sc_items (fill cs budget limit ranked items used) = items @ new" "subseq (map item_rank new) past"
    using fill_prefix [OF assms, of cs limit ranked items] unfolding fill_spec_def by blast
  then show ?thesis by (auto intro!: exI [of _ new])
qed

subsection \<open>The whole selection\<close>

lemma selection_fill:
  "0 < budget \<Longrightarrow> 0 < limit \<Longrightarrow>
   select_context_with_relationships task cs budget limit sy rs
     = fill cs budget limit (shortlist task cs limit sy rs) [] 0"
  by (simp add: select_context_with_relationships_def)

lemma selection_none:
  "\<not> (0 < budget \<and> 0 < limit) \<Longrightarrow>
   select_context_with_relationships task cs budget limit sy rs = \<lparr>sc_items = [], sc_used_bytes = 0\<rparr>"
  by (auto simp: select_context_with_relationships_def)

lemma selection_range:
  "subseq (map item_rank (sc_items (select_context_with_relationships task cs budget limit sy rs)))
     (shortlist task cs limit sy rs)"
proof (cases "0 < budget \<and> 0 < limit")
  case True
  then show ?thesis
    using fill_range [of 0 budget cs limit "shortlist task cs limit sy rs" "[]"] by (auto simp: selection_fill)
qed (simp add: selection_none)

lemma selection_accounts:
  "accounts_ok cs budget limit (sc_items (select_context_with_relationships task cs budget limit sy rs))
     (sc_used_bytes (select_context_with_relationships task cs budget limit sy rs))"
proof (cases "0 < budget \<and> 0 < limit")
  case True
  have "accounts_ok cs budget limit [] 0" by (simp add: accounts_ok_def)
  with True show ?thesis by (simp add: selection_fill fill_accounts)
qed (simp add: selection_none accounts_ok_def)

lemma selection_no_duplicates:
  "no_duplicates cs (sc_items (select_context_with_relationships task cs budget limit sy rs))"
proof (cases "0 < budget \<and> 0 < limit")
  case True
  have "no_duplicates cs []" by (simp add: no_duplicates_def)
  with True show ?thesis by (simp add: selection_fill fill_no_duplicates)
qed (simp add: selection_none no_duplicates_def)

lemma selection_members:
  assumes "it \<in> set (sc_items (select_context_with_relationships task cs budget limit sy rs))"
  shows "item_rank it \<in> set (shortlist task cs limit sy rs)"
proof -
  have "item_rank it \<in> set (map item_rank (sc_items (select_context_with_relationships task cs budget limit sy rs)))"
    using assms by (simp add: rev_image_eqI)
  then show ?thesis by (rule list_emb_set [OF selection_range]) simp
qed

lemma subseq_sorted_wrt: "subseq xs ys \<Longrightarrow> sorted_wrt P ys \<Longrightarrow> sorted_wrt P xs"
proof (induction rule: list_emb.induct)
  case (list_emb_Cons2 x y xs ys)
  then show ?case using list_emb_set [OF list_emb_Cons2(2)] by fastforce
qed simp_all

text \<open>C21: a selection keeps both limits and its books.  It names at most \<open>item_limit\<close>
  candidates; the bytes it says it uses are the sum over its items and within the budget; each
  item names a candidate that changed since the last packet, under its own score, takes some
  of that candidate's bytes and never more than it has, and is marked truncated exactly when it
  takes fewer.  Only the last item can be truncated, and then the budget is used up.\<close>

theorem selection_within_budget:
  "let r = select_context_with_relationships task cs budget limit sy rs;
       score = candidate_score (query_words 32 task) cs sy rs
   in length (sc_items r) \<le> limit
      \<and> sc_used_bytes r = sum_list (map si_bytes (sc_items r)) \<and> sc_used_bytes r \<le> budget
      \<and> list_all (\<lambda>it. si_index it < length cs \<and> cc_delta (cs ! si_index it)
           \<and> si_score it = score (cs ! si_index it)
           \<and> 0 < si_bytes it \<and> si_bytes it \<le> byte_len (cs ! si_index it)
           \<and> si_truncated it = (si_bytes it < byte_len (cs ! si_index it))) (sc_items r)
      \<and> list_all (\<lambda>it. \<not> si_truncated it) (butlast (sc_items r))
      \<and> (sc_used_bytes r = budget \<or> list_all (\<lambda>it. \<not> si_truncated it) (sc_items r))"
  using selection_accounts [of cs budget limit task sy rs]
    selection_members [of _ task cs budget limit sy rs] shortlist_set
  by (fastforce simp: Let_def accounts_ok_def item_ok_def list_all_iff rank_of_def)

text \<open>items come in rank order -- higher scores first, equal scores in the order the
  candidates were given -- so no candidate is chosen twice, and no item repeats an earlier one:
  the same kind and text for the same path, or overlapping excerpts of one file.\<close>

theorem selection_ranked_without_duplicates:
  "let items = sc_items (select_context_with_relationships task cs budget limit sy rs)
   in sorted_wrt (\<lambda>a b. si_score b < si_score a \<or> si_score a = si_score b \<and> si_index a < si_index b) items
      \<and> distinct (map si_index items)
      \<and> sorted_wrt (\<lambda>earlier later. \<not> is_duplicate (cs ! si_index later) cs [earlier]) items"
proof -
  define items where "items = sc_items (select_context_with_relationships task cs budget limit sy rs)"
  have sorted: "sorted_wrt (<) (map item_rank items)"
    using subseq_sorted_wrt [OF selection_range shortlist_sorted] by (simp add: items_def)
  have "distinct (map si_index items)"
  proof (rule distinct_map [THEN iffD2], intro conjI inj_onI)
    show "distinct items" using sorted by (simp add: strict_sorted_iff distinct_map)
    fix a b assume ab: "a \<in> set items" "b \<in> set items" "si_index a = si_index b"
    then have "item_rank a = item_rank b"
      using selection_members [of a] selection_members [of b] shortlist_set
      unfolding items_def by (metis snd_conv)
    then show "a = b" using sorted ab(1,2) by (auto simp: strict_sorted_iff distinct_map inj_on_def)
  qed
  moreover have "sorted_wrt (\<lambda>a b. si_score b < si_score a \<or> si_score a = si_score b \<and> si_index a < si_index b) items"
    using sorted unfolding sorted_wrt_map by (rule sorted_wrt_mono_rel [rotated]) auto
  ultimately show ?thesis
    using selection_no_duplicates [of cs task budget limit sy rs]
    by (simp add: items_def [symmetric] no_duplicates_def Let_def)
qed

lemma selection_greedy:
  assumes budget: "0 < budget" "0 < limit" and i: "i < length cs" "cc_delta (cs ! i)"
    and r: "r = select_context_with_relationships task cs budget limit sy rs"
    and left: "i \<notin> si_index ` set (sc_items r)" "\<not> is_duplicate (cs ! i) cs (sc_items r)"
  shows "(sc_used_bytes r = budget \<or> length (sc_items r) = limit
          \<or> length (shortlist task cs limit sy rs) = limit * 4
            \<and> rank_of (query_words 32 task) cs sy rs i \<notin> set (shortlist task cs limit sy rs))
    \<and> list_all (\<lambda>it. item_rank it < rank_of (query_words 32 task) cs sy rs i) (sc_items r)"
proof -
  define x where "x = rank_of (query_words 32 task) cs sy rs i"
  have sx: "snd x = i" by (simp add: x_def rank_of_def)
  define short where "short = shortlist task cs limit sy rs"
  have "fill_spec cs budget limit short [] r"
    by (simp add: r selection_fill [OF budget] short_def fill_prefix)
  then obtain past rest where parts: "short = past @ rest" "subseq (map item_rank (sc_items r)) past"
    "list_all (settled cs (sc_items r)) past"
    "rest = [] \<or> length (sc_items r) = limit \<or> sc_used_bytes r = budget"
    unfolding fill_spec_def append_Nil by blast
  have "\<not> settled cs (sc_items r) x"
    using left by (auto simp: settled_def simp flip: sx)
  with parts(3) have new: "x \<notin> set past" by (auto simp: list_all_iff)
  have sorted: "sorted_wrt (<) short" by (simp add: short_def shortlist_sorted)
  show ?thesis
  proof (cases "x \<in> set short")
    case True
    with new parts(1) have x: "x \<in> set rest" by simp
    then have "list_all (\<lambda>y. y < x) past"
      using sorted unfolding parts(1) sorted_wrt_append by (simp add: list_all_iff)
    then have "list_all (\<lambda>it. item_rank it < x) (sc_items r)"
      using list_emb_set [OF parts(2)] by (fastforce simp: list_all_iff)
    moreover have "length (sc_items r) = limit \<or> sc_used_bytes r = budget"
      using parts(4) x by auto
    ultimately show ?thesis by (auto simp: x_def)
  next
    case False
    then have "length short = limit * 4 \<and> list_all (\<lambda>y. y < x) short"
      using shortlist_best [OF i] by (simp add: x_def short_def)
    moreover have "item_rank it \<in> set short" if "it \<in> set (sc_items r)" for it
      using selection_members that by (simp add: r short_def)
    ultimately show ?thesis
      using False by (auto simp: list_all_iff x_def short_def)
  qed
qed

lemma shortlist_ahead:
  assumes "list_all (\<lambda>y. y < rank_of (query_words 32 task) cs sy rs i) (shortlist task cs limit sy rs)"
  shows "length (shortlist task cs limit sy rs)
    \<le> length (filter (\<lambda>j. cc_delta (cs ! j)
        \<and> rank_of (query_words 32 task) cs sy rs j < rank_of (query_words 32 task) cs sy rs i) [0..<length cs])"
    (is "_ \<le> length (filter ?ahead _)")
proof -
  define short where "short = shortlist task cs limit sy rs"
  have inj: "inj_on snd (set short)"
    using shortlist_set unfolding short_def by (metis (no_types, lifting) inj_onI)
  have "length short = card (set short)"
    using shortlist_sorted [of task cs limit sy rs] by (simp add: short_def strict_sorted_iff distinct_card)
  also have "\<dots> = card (snd ` set short)" by (rule card_image [OF inj, symmetric])
  also have "snd ` set short \<subseteq> set (filter ?ahead [0..<length cs])"
    using assms shortlist_set [of _ task cs limit sy rs] unfolding short_def list_all_iff by fastforce
  then have "card (snd ` set short) \<le> card (set (filter ?ahead [0..<length cs]))"
    by (rule card_mono [OF finite_set])
  also have "\<dots> = length (filter ?ahead [0..<length cs])"
    by (rule distinct_card) simp
  finally show ?thesis by (simp add: short_def)
qed

text \<open>C20: the choice is greedy.  A changed candidate that is neither chosen nor a repetition of
  something chosen is left out only because the budget is used up, the item limit is reached,
  or four times that many changed candidates rank ahead of it; and everything that was chosen
  ranks ahead of it.\<close>

theorem selection_is_greedy:
  assumes "0 < budget" "0 < limit" "i < length cs" "cc_delta (cs ! i)"
    and "r = select_context_with_relationships task cs budget limit sy rs"
    and "rank = rank_of (query_words 32 task) cs sy rs"
    and "\<not> list_ex (\<lambda>it. si_index it = i) (sc_items r)" "\<not> is_duplicate (cs ! i) cs (sc_items r)"
  shows "(sc_used_bytes r = budget \<or> length (sc_items r) = limit
          \<or> limit * 4 \<le> length (filter (\<lambda>j. cc_delta (cs ! j) \<and> rank j < rank i) [0..<length cs]))
    \<and> list_all (\<lambda>it. rank (si_index it) < rank i) (sc_items r)"
proof -
  have left: "i \<notin> si_index ` set (sc_items r)"
    using assms(7) by (auto simp: list_ex_iff)
  have own: "item_rank it = rank (si_index it)" if "it \<in> set (sc_items r)" for it
    using selection_members that shortlist_set unfolding assms(5,6) by (metis snd_conv)
  note greedy = selection_greedy [OF assms(1-5) left assms(8), folded assms(6)]
  have ranks: "list_all (\<lambda>it. rank (si_index it) < rank i) (sc_items r)"
    using greedy own by (simp add: list_all_iff)
  from greedy consider "sc_used_bytes r = budget \<or> length (sc_items r) = limit"
    | "length (shortlist task cs limit sy rs) = limit * 4" "rank i \<notin> set (shortlist task cs limit sy rs)"
    by blast
  then show ?thesis
  proof cases
    case 2
    then show ?thesis
      using shortlist_best [OF assms(3,4), of task sy rs limit]
        shortlist_ahead [of task cs sy rs i limit] ranks
      by (simp add: assms(6))
  qed (use ranks in blast)
qed

subsection \<open>The range of the scores\<close>

lemma sum_list_range:
  "list_all (\<lambda>x. lo \<le> x \<and> x \<le> hi) xs \<Longrightarrow> int (length xs) * lo \<le> sum_list xs \<and> sum_list xs \<le> int (length xs) * hi"
  by (induction xs) (auto simp: algebra_simps)

lemma sum_list_upto:
  assumes "list_all (\<lambda>x. 0 \<le> x \<and> x \<le> hi) xs" "length xs \<le> n" "0 \<le> hi"
  shows "0 \<le> sum_list xs \<and> sum_list xs \<le> int n * hi"
  using sum_list_range [OF assms(1)] mult_right_mono [of "int (length xs)" "int n" hi] assms(2,3) by simp

lemma hint_value_range: "0 \<le> hint_value r \<and> hint_value r \<le> 72"
  using div_le_mono [of "min (rh_score r) 128" 128 8]
  by (cases "rh_kind r") (simp_all add: hint_value_def)

lemma relationship_hint_bonus_range:
  "0 \<le> relationship_hint_bonus c rs \<and> relationship_hint_bonus c rs \<le> 9216"
proof (cases "cc_path c")
  case (Some path)
  have "length (filter (\<lambda>r. rh_path r = path) (take 128 rs)) \<le> 128"
    by (rule order_trans [OF length_filter_le]) simp
  then show ?thesis
    using sum_list_upto [of 72 "map hint_value (filter (\<lambda>r. rh_path r = path) (take 128 rs))" 128]
    by (simp add: relationship_hint_bonus_def Some list_all_iff hint_value_range)
qed (simp add: relationship_hint_bonus_def)

lemma symbol_bonus_range:
  assumes "length terms \<le> 32"
  shows "0 \<le> symbol_bonus c terms symbols \<and> symbol_bonus c terms symbols \<le> 163840"
proof (cases "cc_path c")
  case (Some path)
  have few: "length (filter (\<lambda>s. sh_path s = path) (take 128 symbols)) \<le> 128"
    by (rule order_trans [OF length_filter_le]) simp
  have "length (filter P terms) \<le> 32" for P
    using assms length_filter_le [of P terms] by linarith
  then show ?thesis
    using sum_list_upto [of 1280 "map (\<lambda>symbol. int (length (filter (\<lambda>term. eq_ignore_ascii_case (sh_name symbol) term
            \<or> contains_ascii_case_insensitive (sh_name symbol) term) terms)) * 40)
          (filter (\<lambda>symbol. sh_path symbol = path) (take 128 symbols))" 128] few
    by (simp add: symbol_bonus_def Some list_all_iff)
qed (simp add: symbol_bonus_def)

lemma term_score_range: "0 \<le> term_score c t \<and> term_score c t \<le> 65"
  by (simp add: term_score_def Let_def)

lemma score_candidate_range:
  assumes "length terms \<le> 32"
  shows "- 210 \<le> score_candidate c terms newest \<and> score_candidate c terms newest \<le> 2443"
proof -
  have "0 \<le> sum_list (map (term_score c) terms) \<and> sum_list (map (term_score c) terms) \<le> 2080"
    using sum_list_upto [of 65 "map (term_score c) terms" 32] assms
    by (simp add: list_all_iff term_score_range)
  moreover have "10 \<le> kind_score (cc_kind c) \<and> kind_score (cc_kind c) \<le> 94"
    by (cases "cc_kind c") simp_all
  ultimately show ?thesis by (auto simp: score_candidate_def)
qed

lemma phase_bonus_range: "0 \<le> phase_bonus c \<and> phase_bonus c \<le> 103"
  by (cases "cc_phase c") (auto simp: phase_bonus_def)

text \<open>C22: no score overflows.  Whatever the candidates, the query and the hints, each of the six
  summands of a score and the score itself stay far inside the 32-bit range, so the plain
  additions of the code never wrap and never panic.\<close>

theorem scores_in_range:
  "let terms = query_words 32 task
   in list_all (\<lambda>c. - 210 \<le> score_candidate c terms newest \<and> score_candidate c terms newest \<le> 2443
        \<and> 0 \<le> phase_bonus c \<and> phase_bonus c \<le> 103
        \<and> 0 \<le> symbol_bonus c terms sy \<and> symbol_bonus c terms sy \<le> 163840
        \<and> 0 \<le> relationship_hint_bonus c rs \<and> relationship_hint_bonus c rs \<le> 9216
        \<and> - 530 \<le> candidate_score terms cs sy rs c \<and> candidate_score terms cs sy rs c \<le> 175695) cs"
proof -
  have "list_all (\<lambda>c. - 530 \<le> candidate_score (query_words 32 task) cs sy rs c
      \<and> candidate_score (query_words 32 task) cs sy rs c \<le> 175695) cs"
    unfolding list_all_iff
  proof
    fix c assume "c \<in> set cs"
    have "0 \<le> relationship_bonus c cs \<and> relationship_bonus c cs \<le> 45"
      by (simp add: relationship_bonus_def split: option.split)
    then show "- 530 \<le> candidate_score (query_words 32 task) cs sy rs c
        \<and> candidate_score (query_words 32 task) cs sy rs c \<le> 175695"
      using score_candidate_range [OF query_words_length, of c task "foldr max (map cc_recency cs) 0"]
        phase_bonus_range [of c] relationship_hint_bonus_range [of c rs]
        symbol_bonus_range [OF query_words_length, of c task sy]
      by (auto simp: candidate_score_def delta_bonus_def)
  qed
  then show ?thesis
    by (simp add: Let_def list_all_iff score_candidate_range [OF query_words_length]
        symbol_bonus_range [OF query_words_length] phase_bonus_range relationship_hint_bonus_range)
qed

definition small_candidates :: "context_candidate list" where
  "small_candidates =
     [candidate_new GitMetadata None ''main'', candidate_new ModifiedPath (Some ''a.rs'') ''x'']"

theorem selection_is_greedy_witness:
  "let r = select_context_with_relationships ''fix'' small_candidates 100 1 [] []
   in sc_items r = [\<lparr>si_index = 1, si_score = 194, si_bytes = 37, si_truncated = False\<rparr>]
      \<and> list_all (\<lambda>it. rank_of (query_words 32 ''fix'') small_candidates [] [] (si_index it)
          < rank_of (query_words 32 ''fix'') small_candidates [] [] 0) (sc_items r)"
proof -
  define r where "r = select_context_with_relationships ''fix'' small_candidates 100 1 [] []"
  have items: "sc_items r = [\<lparr>si_index = 1, si_score = 194, si_bytes = 37, si_truncated = False\<rparr>]"
    unfolding r_def by code_simp
  have "\<not> is_duplicate (small_candidates ! 0) small_candidates (sc_items r)"
    unfolding items by code_simp
  then have "list_all (\<lambda>it. rank_of (query_words 32 ''fix'') small_candidates [] [] (si_index it)
      < rank_of (query_words 32 ''fix'') small_candidates [] [] 0) (sc_items r)"
    using selection_is_greedy [OF _ _ _ _ r_def refl, of 0] items
    by (simp add: small_candidates_def candidate_new_def)
  with items show ?thesis unfolding Let_def r_def [symmetric] by simp
qed

end
