(* ===== verification/Working_Set.thy ===== *)
theory Working_Set
  imports Context_Types "HOL-Library.Multiset"
begin

section \<open>The working set of a task (working\_set.rs)\<close>

text \<open>
  A compact projection of the context snapshot: which paths matter in which role, how fresh
  they are, what is blocked.  \<open>from_snapshot\<close> records (path, role, priority, freshness) tuples
  in the order of the code's loops; \<open>add_item\<close> merges a tuple into the item of the same path
  and role.  When more than twice the retained number of items has gathered, the code sorts them
  by priority with \<open>sort_unstable_by_key\<close>: the order it gives items of equal priority is not
  specified, so that sort is a parameter, \<open>by_priority\<close>, of which only what the standard library
  documents is assumed (a permutation, priorities descending).
\<close>

definition MAX_WORKING_SET_ITEMS :: nat where "MAX_WORKING_SET_ITEMS = 24"
definition MAX_WORKING_SET_BLOCKERS :: nat where "MAX_WORKING_SET_BLOCKERS = 8"
definition MAX_WORKING_SET_RENDER_BYTES :: nat where "MAX_WORKING_SET_RENDER_BYTES = 4 * 1024"

lemmas working_set_limits = MAX_WORKING_SET_ITEMS_def MAX_WORKING_SET_BLOCKERS_def
  MAX_WORKING_SET_RENDER_BYTES_def

datatype working_set_role =
  RoleTarget | RoleChanged | RoleUserOwned | RoleDiagnostic | RoleDefinition | RoleRelationship
  | RoleTest | RoleEvidence

fun working_set_role_as_str :: "working_set_role \<Rightarrow> rstr" where
  "working_set_role_as_str RoleTarget = ''target''"
| "working_set_role_as_str RoleChanged = ''changed''"
| "working_set_role_as_str RoleUserOwned = ''user_owned''"
| "working_set_role_as_str RoleDiagnostic = ''diagnostic''"
| "working_set_role_as_str RoleDefinition = ''definition''"
| "working_set_role_as_str RoleRelationship = ''relationship''"
| "working_set_role_as_str RoleTest = ''test''"
| "working_set_role_as_str RoleEvidence = ''evidence''"

text \<open>The derived \<open>Ord\<close>: declaration order.\<close>

fun role_rank :: "working_set_role \<Rightarrow> nat" where
  "role_rank RoleTarget = 0"
| "role_rank RoleChanged = 1"
| "role_rank RoleUserOwned = 2"
| "role_rank RoleDiagnostic = 3"
| "role_rank RoleDefinition = 4"
| "role_rank RoleRelationship = 5"
| "role_rank RoleTest = 6"
| "role_rank RoleEvidence = 7"

lemma role_rank_inj: "role_rank a = role_rank b \<longleftrightarrow> a = b"
  by (cases a; cases b) simp_all

record working_set_item =
  wi_path :: rstr
  wi_role :: working_set_role
  wi_priority :: u16
  wi_fresh :: bool

record working_set =
  wset_objective :: rstr
  wset_active_subgoal :: "rstr option"
  wset_pending_criteria :: "rstr list"
  wset_items :: "working_set_item list"
  wset_blockers :: "rstr list"
  wset_stale_paths :: "rstr list"
  wset_revision :: u32
  wset_phase :: turn_phase

subsection \<open>Recording a path\<close>

definition same_item :: "rstr \<Rightarrow> working_set_role \<Rightarrow> working_set_item \<Rightarrow> bool" where
  "same_item path role item = (wi_path item = path \<and> wi_role item = role)"

definition merge_item :: "u16 \<Rightarrow> bool \<Rightarrow> working_set_item \<Rightarrow> working_set_item" where
  "merge_item priority fresh item =
     item\<lparr>wi_priority := max (wi_priority item) priority, wi_fresh := wi_fresh item \<and> fresh\<rparr>"

definition add_item ::
    "(working_set_item list \<Rightarrow> working_set_item list)
     \<Rightarrow> rstr \<Rightarrow> working_set_role \<Rightarrow> u16 \<Rightarrow> bool \<Rightarrow> working_set_item list \<Rightarrow> working_set_item list" where
  "add_item by_priority path role priority fresh items =
     (let path = bounded_new path MAX_DECISION_FIELD_BYTES
      in if as_str path = [] \<or> is_truncated path then items
         else if list_ex (same_item (as_str path) role) items then
           update_first (same_item (as_str path) role) (merge_item priority fresh) items
         else
           let items = items @ [\<lparr>wi_path = into_string path, wi_role = role,
                                 wi_priority = priority, wi_fresh = fresh\<rparr>]
           in if MAX_WORKING_SET_ITEMS * 2 < length items
              then take MAX_WORKING_SET_ITEMS (by_priority items) else items)"

subsection \<open>The projection\<close>

record recording =
  rc_path :: rstr
  rc_role :: working_set_role
  rc_priority :: u16
  rc_fresh :: bool

definition candidate_recordings :: "workflow_state \<Rightarrow> recording list" where
  "candidate_recordings w =
     map (\<lambda>c. \<lparr>rc_path = as_str (dc_path c),
               rc_role = (if 0 < dc_evidence c then RoleTarget else RoleEvidence),
               rc_priority = dc_score c, rc_fresh = (dc_inspected c \<and> \<not> dc_stale c)\<rparr>)
       (take 16 (ds_candidate_files (wk_decision w)))"

definition change_recordings :: "context_snapshot \<Rightarrow> recording list" where
  "change_recordings s =
     map (\<lambda>path. \<lparr>rc_path = path, rc_role = RoleChanged, rc_priority = 100, rc_fresh = True\<rparr>) (cs_modified s)
     @ map (\<lambda>path. \<lparr>rc_path = path, rc_role = RoleUserOwned, rc_priority = 96, rc_fresh = True\<rparr>)
         (cs_user_modified s)"

definition mutation_recordings :: "workflow_state \<Rightarrow> recording list" where
  "mutation_recordings w =
     concat (map (\<lambda>mutation. map (\<lambda>path.
         \<lparr>rc_path = as_str path, rc_role = RoleChanged, rc_priority = 92,
          rc_fresh = (wm_revision mutation = wk_workspace_revision w)\<rparr>) (wm_paths mutation))
       (take 8 (rev (w_mutations (wk_work w)))))"

fun evidence_role :: "decision_evidence_kind \<Rightarrow> working_set_role" where
  "evidence_role EvSymbol = RoleDefinition"
| "evidence_role EvRelationship = RoleRelationship"
| "evidence_role EvVerification = RoleDiagnostic"
| "evidence_role _ = RoleEvidence"

definition evidence_recordings :: "workflow_state \<Rightarrow> recording list" where
  "evidence_recordings w =
     map (\<lambda>e. \<lparr>rc_path = as_str (de_path e), rc_role = evidence_role (de_kind e),
               rc_priority = de_weight e, rc_fresh = True\<rparr>)
       (filter (\<lambda>e. as_str (de_path e) \<noteq> []) (take 24 (rev (ds_evidence (wk_decision w)))))
     @ map (\<lambda>e. \<lparr>rc_path = as_str (we_path e), rc_role = RoleEvidence, rc_priority = 20,
                 rc_fresh = we_valid e\<rparr>)
         (filter (\<lambda>e. as_str (we_path e) \<noteq> []) (take 16 (rev (w_evidence (wk_work w)))))"

definition recordings :: "context_snapshot \<Rightarrow> recording list" where
  "recordings s =
     candidate_recordings (cs_workflow s) @ change_recordings s
     @ mutation_recordings (cs_workflow s) @ evidence_recordings (cs_workflow s)"

definition record_all ::
    "(working_set_item list \<Rightarrow> working_set_item list) \<Rightarrow> recording list \<Rightarrow> working_set_item list" where
  "record_all by_priority rs =
     foldl (\<lambda>items r. add_item by_priority (rc_path r) (rc_role r) (rc_priority r) (rc_fresh r) items) [] rs"

fun push_blockers :: "rstr list \<Rightarrow> rstr list \<Rightarrow> rstr list" where
  "push_blockers blockers [] = blockers"
| "push_blockers blockers (key # keys) =
     (if length blockers = MAX_WORKING_SET_BLOCKERS then blockers
      else if key \<in> set blockers then push_blockers blockers keys
      else push_blockers (blockers @ [key]) keys)"

text \<open>The final order: priority descending, then path, then role.\<close>

definition item_key :: "working_set_item \<Rightarrow> int \<times> rstr \<times> nat" where
  "item_key item = (- uint (wi_priority item), wi_path item, role_rank (wi_role item))"

definition from_snapshot ::
    "(working_set_item list \<Rightarrow> working_set_item list) \<Rightarrow> context_snapshot \<Rightarrow> working_set" where
  "from_snapshot by_priority s =
     (let w = cs_workflow s
      in \<lparr>wset_objective = as_str (w_objective (wk_work w)),
          wset_active_subgoal = map_option as_str (w_active_subgoal (wk_work w)),
          wset_pending_criteria =
            map (as_str \<circ> wc_key) (take 8 (filter (\<lambda>c. \<not> wc_satisfied c) (w_acceptance_criteria (wk_work w)))),
          wset_items =
            take MAX_WORKING_SET_ITEMS (sort_key item_key (record_all by_priority (recordings s))),
          wset_blockers =
            push_blockers (map (as_str \<circ> wf_key) (take MAX_WORKING_SET_BLOCKERS (wk_unresolved_failures w)))
              (map (as_str \<circ> wb_key) (take MAX_WORKING_SET_BLOCKERS (w_blockers (wk_work w)))),
          wset_stale_paths =
            map if_path (take MAX_WORKING_SET_ITEMS (filter if_stale (cs_inspected s))),
          wset_revision = wk_workspace_revision w,
          wset_phase = td_phase (wk_director w)\<rparr>)"

subsection \<open>The rendering\<close>

definition bounded_field :: "rstr \<Rightarrow> rstr" where
  "bounded_field value = into_string (bounded_new value MAX_DECISION_FIELD_BYTES)"

definition labelled_list :: "rstr \<Rightarrow> rstr list \<Rightarrow> rstr" where
  "labelled_list label xs = (if xs = [] then [] else label @ join '','' (map bounded_field xs))"

definition render_item :: "working_set_item \<Rightarrow> rstr" where
  "render_item item =
     bounded_field (wi_path item)
     @ (if wi_role item \<noteq> RoleEvidence then '':'' @ working_set_role_as_str (wi_role item) else [])
     @ (if \<not> wi_fresh item then '':stale'' else [])"

definition working_set_render :: "working_set \<Rightarrow> rstr" where
  "working_set_render w =
     into_string (bounded_new
       (''phase='' @ turn_phase_as_str (wset_phase w)
        @ (if 0 < wset_revision w then '' rev='' @ nat_to_decimal (unat (wset_revision w)) else [])
        @ (if wset_objective w \<noteq> [] then '' objective='' @ bounded_field (wset_objective w) else [])
        @ (case wset_active_subgoal w of
             None \<Rightarrow> []
           | Some active \<Rightarrow> if active \<noteq> ''task'' then '' active='' @ bounded_field active else [])
        @ labelled_list '' pending_criteria='' (wset_pending_criteria w)
        @ labelled_list '' blockers='' (wset_blockers w)
        @ labelled_list '' stale='' (wset_stale_paths w)
        @ '' p='' @ join '';'' (map render_item (wset_items w)))
       MAX_WORKING_SET_RENDER_BYTES)"

end
