(* ===== verification/Working_Set_Properties.thy ===== *)
theory Working_Set_Properties
  imports Working_Set
begin

section \<open>What the working set promises\<close>

text \<open>
  The recorded items against a reference that merges all recordings of a path and role at once
  (\<open>record_all_merged\<close>), the bounds of the projection, and what survives the intermediate
  truncation: the strongest items.
\<close>

subsection \<open>One recording\<close>

definition accepted :: "recording \<Rightarrow> bool" where
  "accepted r \<longleftrightarrow> rc_path r \<noteq> [] \<and> length (rc_path r) \<le> MAX_DECISION_FIELD_BYTES"

definition recording_key :: "recording \<Rightarrow> rstr \<times> working_set_role" where
  "recording_key r = (rc_path r, rc_role r)"

definition wset_key :: "working_set_item \<Rightarrow> rstr \<times> working_set_role" where
  "wset_key i = (wi_path i, wi_role i)"

lemma wset_key_merge [simp]: "wset_key (merge_item p f i) = wset_key i"
  by (simp add: wset_key_def merge_item_def)

lemma same_item_iff: "same_item path role i \<longleftrightarrow> wset_key i = (path, role)"
  by (simp add: same_item_def wset_key_def)

abbreviation (input) add_recording where
  "add_recording f items r \<equiv> add_item f (rc_path r) (rc_role r) (rc_priority r) (rc_fresh r) items"

abbreviation (input) item_of :: "recording \<Rightarrow> working_set_item" where
  "item_of r \<equiv> \<lparr>wi_path = rc_path r, wi_role = rc_role r, wi_priority = rc_priority r, wi_fresh = rc_fresh r\<rparr>"

lemma rejected: "\<not> accepted r \<Longrightarrow> add_recording f items r = items"
  by (auto simp: add_item_def Let_def accepted_def is_truncated_iff bounded_new_short)

lemma add_known:
  "accepted r \<Longrightarrow> recording_key r \<in> wset_key ` set items \<Longrightarrow> add_recording f items r
     = update_first (\<lambda>i. wset_key i = recording_key r) (merge_item (rc_priority r) (rc_fresh r)) items"
  by (auto simp: add_item_def Let_def accepted_def is_truncated_iff bounded_new_short list_ex_iff
      same_item_iff recording_key_def image_iff intro!: arg_cong [of _ _ "\<lambda>P. update_first P _ _"])

lemma add_new:
  "accepted r \<Longrightarrow> recording_key r \<notin> wset_key ` set items \<Longrightarrow> add_recording f items r
     = (if 48 < length (items @ [item_of r]) then take 24 (f (items @ [item_of r])) else items @ [item_of r])"
  by (auto simp: add_item_def Let_def accepted_def is_truncated_iff bounded_new_short list_ex_iff
      into_string_as_str same_item_iff recording_key_def image_iff working_set_limits)

lemma record_all_snoc: "record_all f (rs @ [r]) = add_recording f (record_all f rs) r"
  by (simp add: record_all_def)

subsection \<open>The reference: merging everything at once\<close>

definition recorded_keys :: "recording list \<Rightarrow> (rstr \<times> working_set_role) list" where
  "recorded_keys rs = rev (remdups (rev (map recording_key (filter accepted rs))))"

definition merged :: "recording list \<Rightarrow> rstr \<times> working_set_role \<Rightarrow> working_set_item" where
  "merged rs k =
     (let own = filter (\<lambda>r. accepted r \<and> recording_key r = k) rs
      in \<lparr>wi_path = fst k, wi_role = snd k, wi_priority = foldl max 0 (map rc_priority own),
          wi_fresh = list_all rc_fresh own\<rparr>)"

lemma recorded_keys_snoc:
  "recorded_keys (rs @ [r]) =
     (if accepted r \<and> recording_key r \<notin> set (recorded_keys rs) then recorded_keys rs @ [recording_key r]
      else recorded_keys rs)"
  by (auto simp: recorded_keys_def)

lemma recorded_keys_distinct: "distinct (recorded_keys rs)"
  by (simp add: recorded_keys_def)

lemma merged_key [simp]: "wset_key (merged rs k) = k"
  by (simp add: wset_key_def merged_def Let_def)

lemma merged_other: "\<not> (accepted r \<and> recording_key r = k) \<Longrightarrow> merged (rs @ [r]) k = merged rs k"
  by (auto simp: merged_def Let_def)

lemma merged_own:
  "accepted r \<Longrightarrow> merged (rs @ [r]) (recording_key r) = merge_item (rc_priority r) (rc_fresh r) (merged rs (recording_key r))"
  by (simp add: merged_def merge_item_def Let_def)

lemma merged_first:
  assumes "accepted r" "recording_key r \<notin> set (recorded_keys rs)"
  shows "merged (rs @ [r]) (recording_key r) = item_of r"
proof -
  have "filter (\<lambda>r'. accepted r' \<and> recording_key r' = recording_key r) rs = []"
    using assms by (auto simp: recorded_keys_def filter_empty_conv image_iff)
  then show ?thesis using assms(1) by (simp add: merged_def recording_key_def max_def)
qed

lemma update_first_keyed:
  "distinct ks \<Longrightarrow> (\<And>k. wset_key (h k) = k) \<Longrightarrow>
   update_first (\<lambda>i. wset_key i = k) g (map h ks) = map (\<lambda>k'. if k' = k then g (h k') else h k') ks"
  by (induction ks) (auto intro: map_cong)

lemma record_all_merged:
  "length (recorded_keys rs) \<le> 48 \<Longrightarrow> record_all f rs = map (merged rs) (recorded_keys rs)"
proof (induction rs rule: rev_induct)
  case Nil
  then show ?case by (simp add: record_all_def recorded_keys_def)
next
  case (snoc r rs)
  have le: "length (recorded_keys rs) \<le> length (recorded_keys (rs @ [r]))"
    by (simp add: recorded_keys_snoc)
  with snoc have ih: "record_all f rs = map (merged rs) (recorded_keys rs)" by simp
  have keys: "wset_key ` set (record_all f rs) = set (recorded_keys rs)"
    by (simp add: ih image_image)
  consider (no) "\<not> accepted r" | (old) "accepted r" "recording_key r \<in> set (recorded_keys rs)"
    | (new) "accepted r" "recording_key r \<notin> set (recorded_keys rs)" by blast
  then show ?case
  proof cases
    case no
    then show ?thesis
      by (simp add: record_all_snoc rejected ih recorded_keys_snoc merged_other)
  next
    case old
    have "record_all f (rs @ [r]) = map (\<lambda>k. if k = recording_key r
        then merge_item (rc_priority r) (rc_fresh r) (merged rs k) else merged rs k) (recorded_keys rs)"
      using old keys add_known [of r "record_all f rs" f]
      by (simp add: record_all_snoc ih update_first_keyed recorded_keys_distinct)
    also have "\<dots> = map (merged (rs @ [r])) (recorded_keys rs)"
      using old by (auto simp: merged_own merged_other intro!: map_cong)
    finally show ?thesis using old by (simp add: recorded_keys_snoc)
  next
    case new
    have "\<not> 48 < length (record_all f rs @ [item_of r])"
      using snoc(2) new by (simp add: ih recorded_keys_snoc)
    then have "record_all f (rs @ [r]) = record_all f rs @ [item_of r]"
      using new by (simp add: record_all_snoc add_new keys)
    also have "record_all f rs = map (merged (rs @ [r])) (recorded_keys rs)"
      unfolding ih using new merged_other by (intro map_cong [OF refl]) metis
    finally show ?thesis using new by (simp add: recorded_keys_snoc merged_first)
  qed
qed

subsection \<open>Bounds\<close>

definition sorts_by_priority :: "(working_set_item list \<Rightarrow> working_set_item list) \<Rightarrow> bool" where
  "sorts_by_priority f \<longleftrightarrow>
     (\<forall>items. mset (f items) = mset items \<and> sorted_wrt (\<lambda>a b. wi_priority b \<le> wi_priority a) (f items))"

definition wset_ok :: "working_set_item list \<Rightarrow> bool" where
  "wset_ok items \<longleftrightarrow> length items \<le> 48 \<and> distinct (map wset_key items)
     \<and> list_all (\<lambda>i. wi_path i \<noteq> [] \<and> length (wi_path i) \<le> MAX_DECISION_FIELD_BYTES) items"

lemma distinct_mset: "mset xs = mset ys \<Longrightarrow> distinct (map g xs) = distinct (map g ys)"
  by (rule mset_eq_imp_distinct_iff) simp

lemma wset_ok_add:
  assumes f: "sorts_by_priority f" and ok: "wset_ok items"
  shows "wset_ok (add_recording f items (r :: recording))"
proof -
  consider (no) "\<not> accepted r" | (old) "accepted r" "recording_key r \<in> wset_key ` set items"
    | (new) "accepted r" "recording_key r \<notin> wset_key ` set items" by blast
  then show ?thesis
  proof cases
    case no
    then show ?thesis using ok by (simp add: rejected)
  next
    case old
    have "list_all (\<lambda>i. wi_path i \<noteq> [] \<and> length (wi_path i) \<le> MAX_DECISION_FIELD_BYTES)
        (update_first (\<lambda>i. wset_key i = recording_key r) (merge_item (rc_priority r) (rc_fresh r)) items)"
      by (rule list_all_update_first) (use ok in \<open>auto simp: wset_ok_def merge_item_def\<close>)
    then show ?thesis
      using ok by (simp add: add_known [OF old] wset_ok_def map_update_first_same)
  next
    case new
    define more_items where "more_items = items @ [item_of r]"
    have d: "distinct (map wset_key more_items)"
      using ok new by (auto simp: wset_ok_def more_items_def wset_key_def recording_key_def)
    have paths: "list_all (\<lambda>i. wi_path i \<noteq> [] \<and> length (wi_path i) \<le> MAX_DECISION_FIELD_BYTES) more_items"
      using ok new by (simp add: wset_ok_def accepted_def more_items_def)
    have perm: "mset (f more_items) = mset more_items" using f by (simp add: sorts_by_priority_def)
    then have "distinct (map wset_key (f more_items))" "set (f more_items) = set more_items"
      using d distinct_mset mset_eq_setD by blast+
    then have "wset_ok (take 24 (f more_items))"
      using paths by (auto simp: wset_ok_def list_all_iff take_map [symmetric] distinct_take dest: in_set_takeD)
    then show ?thesis
      using d paths by (simp add: add_new [OF new] more_items_def [symmetric] wset_ok_def)
  qed
qed

lemma wset_ok_all: "sorts_by_priority f \<Longrightarrow> wset_ok (record_all f rs)"
proof (induction rs rule: rev_induct)
  case Nil
  then show ?case by (simp add: record_all_def wset_ok_def)
qed (simp add: record_all_snoc wset_ok_add)

subsection \<open>The strongest items survive\<close>

abbreviation (input) at_least :: "u16 \<Rightarrow> working_set_item list \<Rightarrow> nat" where
  "at_least p items \<equiv> length (filter (\<lambda>i. p \<le> wi_priority i) items)"

definition kept :: "rstr \<times> working_set_role \<Rightarrow> u16 \<Rightarrow> working_set_item list \<Rightarrow> bool" where
  "kept k p items \<longleftrightarrow> (\<exists>i \<in> set items. wset_key i = k \<and> p \<le> wi_priority i) \<or> 24 \<le> at_least p items"

lemma strongest_front:
  "sorted_wrt (\<lambda>a b. wi_priority b \<le> wi_priority a) items \<Longrightarrow> n \<le> at_least p items \<Longrightarrow>
     list_all (\<lambda>i. p \<le> wi_priority i) (take n items)"
proof (induction items arbitrary: n)
  case (Cons i items)
  show ?case
  proof (cases "p \<le> wi_priority i")
    case True
    with Cons show ?thesis by (cases n) auto
  next
    case False
    with Cons.prems(1) have "filter (\<lambda>i. p \<le> wi_priority i) (i # items) = []"
      by (auto simp: filter_empty_conv)
    with Cons.prems(2) show ?thesis by simp
  qed
qed simp

lemma kept_sorted:
  assumes "sorted_wrt (\<lambda>a b. wi_priority b \<le> wi_priority a) ys" "mset ys = mset items" "kept k p items"
    and "24 \<le> length items"
  shows "kept k p (take 24 ys)"
proof -
  have same: "at_least p ys = at_least p items" "set ys = set items" "length ys = length items"
    using assms(2) by (metis mset_filter size_mset, metis set_mset_mset, metis size_mset)
  show ?thesis
  proof (cases "24 \<le> at_least p items")
    case True
    then have all: "list_all (\<lambda>i. p \<le> wi_priority i) (take 24 ys)"
      using strongest_front [OF assms(1)] same(1) by simp
    then have "filter (\<lambda>i. p \<le> wi_priority i) (take 24 ys) = take 24 ys"
      by (simp add: filter_id_conv list_all_iff)
    then show ?thesis using assms(4) same(3) by (simp add: kept_def)
  next
    case False
    then obtain i where i: "i \<in> set ys" "wset_key i = k" "p \<le> wi_priority i"
      using assms(3) same(2) by (auto simp: kept_def)
    have "i \<notin> set (drop 24 ys)"
    proof
      assume drop: "i \<in> set (drop 24 ys)"
      have "sorted_wrt (\<lambda>a b. wi_priority b \<le> wi_priority a) (take 24 ys @ drop 24 ys)"
        using assms(1) by simp
      then have "\<forall>j \<in> set (take 24 ys). p \<le> wi_priority j"
        using drop i(3) unfolding sorted_wrt_append by (meson order_trans)
      then have "filter (\<lambda>i. p \<le> wi_priority i) (take 24 ys) = take 24 ys"
        by (simp add: filter_id_conv)
      moreover have "at_least p ys = at_least p (take 24 ys) + at_least p (drop 24 ys)"
        by (metis append_take_drop_id filter_append length_append)
      ultimately show False using False same assms(4) by simp
    qed
    then have "i \<in> set (take 24 ys)" using i(1) by (metis UnE append_take_drop_id set_append)
    with i show ?thesis by (auto simp: kept_def)
  qed
qed

lemma at_least_update:
  "at_least p items \<le> at_least p (update_first P (merge_item q fr) items)"
  by (induction items) (auto simp: merge_item_def le_max_iff_disj)

lemma kept_update:
  assumes "kept k p items"
  shows "kept k p (update_first P (merge_item q fr) items)"
proof -
  have grown: "\<exists>j \<in> set (update_first P (merge_item q fr) items). wset_key j = wset_key i \<and> wi_priority i \<le> wi_priority j"
    if "i \<in> set items" for i
    using that by (induction items) (force simp: wset_key_def merge_item_def)+
  consider i where "i \<in> set items" "wset_key i = k" "p \<le> wi_priority i" | "24 \<le> at_least p items"
    using assms by (auto simp: kept_def)
  then show ?thesis
  proof cases
    case 1
    then show ?thesis using grown [of i] order_trans unfolding kept_def by blast
  next
    case 2
    then show ?thesis using at_least_update [of p items P q fr] unfolding kept_def by linarith
  qed
qed

lemma kept_push: "kept k p items \<Longrightarrow> kept k p (items @ [i])"
  by (auto simp: kept_def)

lemma kept_after_push:
  assumes "sorts_by_priority f" "kept k p items'" "items' = items @ [i]"
  shows "kept k p (if 48 < length items' then take 24 (f items') else items')"
  using assms kept_sorted [of "f items'" items' k p] by (auto simp: sorts_by_priority_def)

lemma kept_add:
  assumes "sorts_by_priority f" "kept k p items"
  shows "kept k p (add_recording f items (r :: recording))"
proof -
  consider (no) "\<not> accepted r" | (old) "accepted r" "recording_key r \<in> wset_key ` set items"
    | (new) "accepted r" "recording_key r \<notin> wset_key ` set items" by blast
  then show ?thesis
  proof cases
    case new
    show ?thesis unfolding add_new [OF new] by (rule kept_after_push [OF assms(1) kept_push [OF assms(2)] refl])
  qed (simp_all add: rejected add_known kept_update assms(2))
qed

lemma kept_add_own:
  assumes "sorts_by_priority f" "accepted r"
  shows "kept (recording_key r) (rc_priority r) (add_recording f items r)"
proof (cases "recording_key r \<in> wset_key ` set items")
  case True
  then have "\<exists>i \<in> set (update_first (\<lambda>i. wset_key i = recording_key r)
      (merge_item (rc_priority r) (rc_fresh r)) items). wset_key i = recording_key r \<and> rc_priority r \<le> wi_priority i"
    by (induction items) (auto simp: wset_key_def merge_item_def)
  then show ?thesis using True assms(2) by (simp add: add_known kept_def)
next
  case False
  have "kept (recording_key r) (rc_priority r) (items @ [item_of r])"
    by (auto simp: kept_def wset_key_def recording_key_def)
  then show ?thesis unfolding add_new [OF assms(2) False] by (rule kept_after_push [OF assms(1) _ refl])
qed

lemma kept_all:
  "sorts_by_priority f \<Longrightarrow> list_all (\<lambda>r. accepted r \<longrightarrow> kept (recording_key r) (rc_priority r) (record_all f rs)) rs"
proof (induction rs rule: rev_induct)
  case (snoc r rs)
  then show ?case by (auto simp: list_all_iff record_all_snoc kept_add kept_add_own)
qed simp

lemma item_key_sorted:
  "sorted_wrt (\<lambda>a b. wi_priority b \<le> wi_priority a) (sort_key item_key items)"
proof -
  have "sorted_wrt (\<lambda>a b. item_key a \<le> item_key b) (sort_key item_key items)"
    using sorted_sort_key [of item_key items] by (simp add: sorted_map)
  then show ?thesis
    by (rule sorted_wrt_mono_rel [rotated]) (auto simp: item_key_def word_le_def less_eq_prod_def)
qed

lemma kept_final:
  assumes "kept k p items"
  shows "kept k p (take 24 (sort_key item_key items))"
proof (cases "24 \<le> length items")
  case True
  show ?thesis by (rule kept_sorted [OF item_key_sorted _ assms True]) simp
next
  case False
  have "at_least p (sort_key item_key items) = at_least p items"
    by (metis mset_filter mset_sort size_mset)
  with False assms show ?thesis by (simp add: kept_def)
qed

subsection \<open>The properties\<close>

lemma push_blockers_length: "length bs \<le> 8 \<Longrightarrow> length (push_blockers bs ks) \<le> 8"
  by (induction bs ks rule: push_blockers.induct) (auto simp: working_set_limits)

text \<open>the working set is bounded and has one item per path and role.  At most 24 items, in
  the order of priority, then path, then role, with no path and role twice, and every path a
  nonempty text within the field limit; at most 8 blockers, 8 open criteria and 24 stale paths;
  and the rendering stays within 4 KiB.\<close>

theorem working_set_bounded:
  assumes "sorts_by_priority f"
  shows "let w = from_snapshot f s
    in length (wset_items w) \<le> 24 \<and> distinct (map wset_key (wset_items w))
       \<and> sorted_wrt (\<lambda>a b. item_key a < item_key b) (wset_items w)
       \<and> list_all (\<lambda>i. wi_path i \<noteq> [] \<and> length (wi_path i) \<le> 192) (wset_items w)
       \<and> length (wset_blockers w) \<le> 8 \<and> length (wset_pending_criteria w) \<le> 8
       \<and> length (wset_stale_paths w) \<le> 24 \<and> length (working_set_render w) \<le> 4096"
proof -
  define items where "items = record_all f (recordings s)"
  have ok: "wset_ok items" by (simp add: items_def wset_ok_all [OF assms])
  have inj: "inj_on item_key (set items)"
  proof (rule inj_onI)
    fix a b assume "a \<in> set items" "b \<in> set items" "item_key a = item_key b"
    then show "a = b"
      using ok by (auto simp: wset_ok_def item_key_def wset_key_def role_rank_inj distinct_map inj_on_def)
  qed
  have "distinct (map item_key (sort_key item_key items))"
    using ok inj by (simp add: distinct_map wset_ok_def)
  then have "sorted_wrt (<) (map item_key (sort_key item_key items))"
    using sorted_sort_key [of item_key items] by (simp add: strict_sorted_iff)
  then have sorted: "sorted_wrt (\<lambda>a b. item_key a < item_key b) (take 24 (sort_key item_key items))"
    by (simp add: sorted_wrt_map sorted_wrt_take)
  have keys: "distinct (map wset_key (take 24 (sort_key item_key items)))"
    using ok distinct_mset [of "sort_key item_key items" items wset_key]
    by (simp add: wset_ok_def take_map [symmetric])
  have paths: "list_all (\<lambda>i. wi_path i \<noteq> [] \<and> length (wi_path i) \<le> 192) (take 24 (sort_key item_key items))"
    using ok by (auto simp: wset_ok_def list_all_iff MAX_DECISION_FIELD_BYTES_def dest: in_set_takeD)
  have "length (working_set_render (from_snapshot f s)) \<le> 4096"
    using length_bounded_new [of _ 4096]
    by (simp add: working_set_render_def into_string_as_str MAX_WORKING_SET_RENDER_BYTES_def)
  then show ?thesis
    using sorted keys paths
    by (simp add: from_snapshot_def Let_def items_def [symmetric] working_set_limits push_blockers_length)
qed

text \<open>C23: merging is exact while few paths are involved.  As long as the snapshot speaks of at most
  48 different (path, role) pairs, the items are those of the reference, whatever the unstable
  sort does: one item per pair, with the highest of its priorities, fresh exactly when every
  recording of the pair was fresh, the first 24 in the final order.\<close>

theorem working_set_merges_exactly:
  assumes "length (recorded_keys (recordings s)) \<le> 48"
  shows "wset_items (from_snapshot f s)
    = take 24 (sort_key item_key (map (merged (recordings s)) (recorded_keys (recordings s))))"
  by (simp add: from_snapshot_def Let_def record_all_merged [OF assms] working_set_limits)

text \<open>the strongest items survive.  However many paths a snapshot names, a recorded path is
  missing from the working set, or in it with a lower priority than recorded, only if the
  working set is full with 24 items that all have at least that priority.\<close>

theorem working_set_keeps_the_strongest:
  assumes "sorts_by_priority f" and "r \<in> set (recordings s)" and "accepted r"
  shows "list_ex (\<lambda>i. wi_path i = rc_path r \<and> wi_role i = rc_role r \<and> rc_priority r \<le> wi_priority i)
      (wset_items (from_snapshot f s))
    \<or> length (wset_items (from_snapshot f s)) = 24
      \<and> list_all (\<lambda>i. rc_priority r \<le> wi_priority i) (wset_items (from_snapshot f s))"
proof -
  define items where "items = wset_items (from_snapshot f s)"
  have "kept (recording_key r) (rc_priority r) items"
    using kept_all [OF assms(1), of "recordings s"] assms(2,3) kept_final
    by (simp add: items_def from_snapshot_def Let_def list_all_iff working_set_limits)
  moreover have "length items \<le> 24"
    by (simp add: items_def from_snapshot_def Let_def working_set_limits)
  moreover have "length items = 24 \<and> list_all (\<lambda>i. rc_priority r \<le> wi_priority i) items"
    if "24 \<le> at_least (rc_priority r) items" "length items \<le> 24"
  proof -
    have "at_least (rc_priority r) items = length items"
      using that length_filter_le [of "\<lambda>i. rc_priority r \<le> wi_priority i" items] by linarith
    then show ?thesis
      using that by (metis (no_types, lifting) le_antisym length_filter_less linorder_not_less list_all_iff less_irrefl)
  qed
  ultimately show ?thesis
    unfolding items_def [symmetric] kept_def by (auto simp: list_ex_iff wset_key_def recording_key_def)
qed

subsection \<open>A small snapshot\<close>

definition stable_by_priority :: "working_set_item list \<Rightarrow> working_set_item list" where
  "stable_by_priority = sort_key (\<lambda>i. - uint (wi_priority i))"

lemma stable_sorts: "sorts_by_priority stable_by_priority"
proof -
  have "sorted_wrt (\<lambda>a b. wi_priority b \<le> wi_priority a) (stable_by_priority items)" for items
    using sorted_sort_key [of "\<lambda>i. - uint (wi_priority i)" items]
    by (simp add: stable_by_priority_def sorted_map word_le_def)
  then show ?thesis by (simp add: sorts_by_priority_def stable_by_priority_def)
qed

definition two_changes :: context_snapshot where
  "two_changes = (snapshot_new ''/w'' None)\<lparr>cs_modified := [''a.rs'', ''b.rs''], cs_user_modified := [''a.rs'']\<rparr>"

lemma two_changes_recordings:
  "recordings two_changes =
     [\<lparr>rc_path = ''a.rs'', rc_role = RoleChanged, rc_priority = 100, rc_fresh = True\<rparr>,
      \<lparr>rc_path = ''b.rs'', rc_role = RoleChanged, rc_priority = 100, rc_fresh = True\<rparr>,
      \<lparr>rc_path = ''a.rs'', rc_role = RoleUserOwned, rc_priority = 96, rc_fresh = True\<rparr>]"
  by code_simp

theorem working_set_bounded_witness:
  "length (wset_items (from_snapshot stable_by_priority two_changes)) \<le> 24
   \<and> length (working_set_render (from_snapshot stable_by_priority two_changes)) \<le> 4096"
  using working_set_bounded [OF stable_sorts, of two_changes] by (simp add: Let_def)

theorem working_set_merges_exactly_witness:
  "map (\<lambda>i. (wi_path i, wi_role i)) (wset_items (from_snapshot stable_by_priority two_changes))
     = [(''a.rs'', RoleChanged), (''b.rs'', RoleChanged), (''a.rs'', RoleUserOwned)]"
proof -
  have few: "length (recorded_keys (recordings two_changes)) \<le> 48"
    unfolding two_changes_recordings by code_simp
  show ?thesis
    unfolding working_set_merges_exactly [OF few] two_changes_recordings by code_simp
qed

theorem working_set_keeps_the_strongest_witness:
  "list_ex (\<lambda>i. wi_path i = ''b.rs'' \<and> wi_role i = RoleChanged \<and> (100 :: u16) \<le> wi_priority i)
      (wset_items (from_snapshot stable_by_priority two_changes))
    \<or> length (wset_items (from_snapshot stable_by_priority two_changes)) = 24
      \<and> list_all (\<lambda>i. (100 :: u16) \<le> wi_priority i) (wset_items (from_snapshot stable_by_priority two_changes))"
  using working_set_keeps_the_strongest [OF stable_sorts, of "recordings two_changes ! 1" two_changes]
  by (simp add: two_changes_recordings accepted_def MAX_DECISION_FIELD_BYTES_def)

end
