(* ===== verification/Symbol_Lexer.thy ===== *)
theory Symbol_Lexer
  imports Symbol_Types
begin

section \<open>Masking and tokenizing Rust source (symbol\_index.rs)\<close>

text \<open>
  The symbol index does not parse Rust: it blanks comments and literals byte by byte, so that
  offsets and lines stay what they were, and cuts what is left into words and single bytes.  A
  position of the code is here the text from that position on; the masked regions, of which each
  byte but the line feeds becomes a blank, are given by their lengths.
\<close>

definition MAX_SYMBOL_TOKENS :: nat where "MAX_SYMBOL_TOKENS = 32 * 1024"

definition is_ascii_alphabetic :: "char \<Rightarrow> bool" where
  "is_ascii_alphabetic c =
     (let n = of_char c :: nat in (65 \<le> n \<and> n \<le> 90) \<or> (97 \<le> n \<and> n \<le> 122))"

definition is_ascii_whitespace :: "char \<Rightarrow> bool" where
  "is_ascii_whitespace c = (c \<in> {CHR 0x20, CHR 0x09, CHR 0x0A, CHR 0x0C, CHR 0x0D})"

definition word_start :: "char \<Rightarrow> bool" where
  "word_start c = (is_ascii_alphabetic c \<or> c = CHR ''_'')"

definition word_char :: "char \<Rightarrow> bool" where
  "word_char c = (is_ascii_alphanumeric c \<or> c = CHR ''_'')"

definition blank :: "char \<Rightarrow> char" where
  "blank c = (if c = CHR 0x0A then c else CHR '' '')"

subsection \<open>Raw strings\<close>

text \<open>What follows \<open>r\<close> or \<open>br\<close>.\<close>

definition raw_marker :: "rstr \<Rightarrow> rstr option" where
  "raw_marker s =
     (if starts_with s ''r'' then Some (drop 1 s)
      else if starts_with s ''br'' then Some (drop 2 s)
      else None)"

text \<open>The bytes up to and including the closing quote and its hashes, or all of them.\<close>

fun raw_close :: "nat \<Rightarrow> rstr \<Rightarrow> nat" where
  "raw_close hashes [] = 0"
| "raw_close hashes (c # s) =
     (if c = CHR 0x22 \<and> hashes \<le> length s \<and> list_all (\<lambda>b. b = CHR ''#'') (take hashes s)
      then hashes + 1 else 1 + raw_close hashes s)"

definition raw_string_len :: "rstr \<Rightarrow> nat option" where
  "raw_string_len s =
     (case raw_marker s of
        None \<Rightarrow> None
      | Some t \<Rightarrow>
          (let hashes = length (takeWhile (\<lambda>b. b = CHR ''#'') t)
           in case drop hashes t of
                [] \<Rightarrow> None
              | c # body \<Rightarrow>
                  if c = CHR 0x22 then Some (length s - length body + raw_close hashes body) else None))"

subsection \<open>Comments and literals\<close>

fun block_len :: "nat \<Rightarrow> rstr \<Rightarrow> nat" where
  "block_len 0 s = 0"
| "block_len (Suc depth) [] = 0"
| "block_len (Suc depth) [a] = 1"
| "block_len (Suc depth) (a # b # s) =
     (if a = CHR ''/'' \<and> b = CHR ''*'' then 2 + block_len (Suc (Suc depth)) s
      else if a = CHR ''*'' \<and> b = CHR ''/'' then 2 + block_len depth s
      else 1 + block_len (Suc depth) (b # s))"

text \<open>A quote ends a literal unless the byte before it is a backslash.\<close>

fun quoted_len :: "char \<Rightarrow> char \<Rightarrow> rstr \<Rightarrow> nat" where
  "quoted_len quote previous [] = 0"
| "quoted_len quote previous (c # s) =
     (if c = quote \<and> previous \<noteq> CHR 0x5C then 1 else 1 + quoted_len quote c s)"

text \<open>A lifetime: a quote and a word that is not closed by another quote.\<close>

definition is_lifetime :: "rstr \<Rightarrow> bool" where
  "is_lifetime s =
     (case s of
        q # c # t \<Rightarrow> q = CHR 0x27 \<and> word_start c \<and> \<not> starts_with (dropWhile word_char t) [CHR 0x27]
      | _ \<Rightarrow> False)"

definition region_len :: "rstr \<Rightarrow> nat" where
  "region_len s =
     (case raw_string_len s of
        Some n \<Rightarrow> n
      | None \<Rightarrow>
          if starts_with s ''//'' then length (takeWhile (\<lambda>c. c \<noteq> CHR 0x0A) s)
          else if starts_with s ''/*'' then 2 + block_len 1 (drop 2 s)
          else if is_lifetime s then 0
          else (case s of
                  [] \<Rightarrow> 0
                | c # t \<Rightarrow> if c = CHR 0x27 \<or> c = CHR 0x22 then 1 + quoted_len c c t else 0))"

function mask_from :: "rstr \<Rightarrow> rstr" where
  "mask_from s =
     (if s = [] then []
      else let n = region_len s
           in if n = 0 then hd s # mask_from (tl s) else map blank (take n s) @ mask_from (drop n s))"
  by pat_completeness auto
termination
  by (relation "measure length") auto

declare mask_from.simps [simp del]

definition mask_rust :: "rstr \<Rightarrow> rstr" where
  "mask_rust source = (let masked = mask_from source in if utf8_valid masked then masked else [])"

subsection \<open>Tokens\<close>

record token =
  tk_start :: nat
  tk_end :: nat
  tk_line :: nat

definition token_len :: "rstr \<Rightarrow> nat" where
  "token_len s = (if word_start (hd s) then 1 + length (takeWhile word_char (tl s)) else 1)"

function tokenize_from :: "nat \<Rightarrow> nat \<Rightarrow> nat \<Rightarrow> rstr \<Rightarrow> token list" where
  "tokenize_from count index line s =
     (if s = [] \<or> MAX_SYMBOL_TOKENS \<le> count then []
      else if is_ascii_whitespace (hd s) then
        tokenize_from count (index + 1) (if hd s = CHR 0x0A then line + 1 else line) (tl s)
      else
        \<lparr>tk_start = index, tk_end = index + token_len s, tk_line = line\<rparr>
        # tokenize_from (count + 1) (index + token_len s) line (drop (token_len s) s))"
  by pat_completeness auto
termination
  by (relation "measure (\<lambda>(count, index, line, s). length s)") (auto simp: token_len_def)

declare tokenize_from.simps [simp del]

text \<open>The same equation with the token limit compared in binary, for evaluation.\<close>

lemma tokenize_from_code [code]:
  "tokenize_from count index line s =
     (if s = [] \<or> (32768 :: int) \<le> int count then []
      else if is_ascii_whitespace (hd s) then
        tokenize_from count (index + 1) (if hd s = CHR 0x0A then line + 1 else line) (tl s)
      else
        \<lparr>tk_start = index, tk_end = index + token_len s, tk_line = line\<rparr>
        # tokenize_from (count + 1) (index + token_len s) line (drop (token_len s) s))"
  by (subst tokenize_from.simps) (simp add: MAX_SYMBOL_TOKENS_def)

definition tokenize :: "rstr \<Rightarrow> token list" where
  "tokenize source = tokenize_from 0 0 1 source"

text \<open>\<open>&source[token.start..token.end]\<close>: the slice panics inside a character.\<close>

definition token_text :: "rstr \<Rightarrow> token \<Rightarrow> rstr option" where
  "token_text source t =
     (if is_char_boundary source (tk_start t) \<and> is_char_boundary source (tk_end t)
      then Some (take (tk_end t - tk_start t) (drop (tk_start t) source)) else None)"

end
