(* ===== verification/Symbol_Parser.thy ===== *)
theory Symbol_Parser
  imports Symbol_Lexer Diagnostics
begin

section \<open>Outlining Rust source (symbol\_index.rs)\<close>

text \<open>
  The state machine of \<open>parse_rust_symbols\<close>: one pass over the tokens of the masked text that
  collects declarations, imports and references, with a stack of open scopes.  Slicing a text
  inside a character, or with its end before its start, panics: the functions that slice return
  an option whose \<open>None\<close> is the panic.
\<close>

definition MAX_SYMBOLS_PER_FILE :: nat where "MAX_SYMBOLS_PER_FILE = 512"
definition MAX_SYMBOL_RELATIONSHIPS_PER_FILE :: nat where "MAX_SYMBOL_RELATIONSHIPS_PER_FILE = 256"
definition MAX_SYMBOL_NAME_BYTES :: nat where "MAX_SYMBOL_NAME_BYTES = 128"

lemmas symbol_limits = MAX_SYMBOLS_PER_FILE_def MAX_SYMBOL_RELATIONSHIPS_PER_FILE_def
  MAX_SYMBOL_NAME_BYTES_def

subsection \<open>Words\<close>

definition is_identifier :: "rstr \<Rightarrow> bool" where
  "is_identifier w = (case w of [] \<Rightarrow> False | c # t \<Rightarrow> word_start c \<and> list_all word_char t)"

definition reference_keywords :: "rstr list" where
  "reference_keywords =
     [''as'', ''async'', ''await'', ''break'', ''const'', ''continue'', ''crate'', ''dyn'', ''else'',
      ''enum'', ''extern'', ''false'', ''fn'', ''for'', ''if'', ''impl'', ''in'', ''let'', ''loop'',
      ''match'', ''mod'', ''move'', ''mut'', ''pub'', ''ref'', ''return'', ''self'', ''Self'',
      ''static'', ''struct'', ''super'', ''trait'', ''true'', ''type'', ''unsafe'', ''use'',
      ''where'', ''while'']"

definition is_reference_identifier :: "rstr \<Rightarrow> bool" where
  "is_reference_identifier w = (is_identifier w \<and> w \<notin> set reference_keywords)"

text \<open>\<open>chars().take(n)\<close>.\<close>

fun take_chars :: "nat \<Rightarrow> rstr \<Rightarrow> rstr" where
  "take_chars n [] = []"
| "take_chars n (c # s) =
     (if is_continuation c then c # take_chars n s
      else case n of 0 \<Rightarrow> [] | Suc m \<Rightarrow> c # take_chars m s)"

definition bounded_name :: "rstr \<Rightarrow> rstr" where
  "bounded_name name = take_chars MAX_SYMBOL_NAME_BYTES (trim name)"

datatype declaration_kind = DeclFunction | DeclStruct | DeclEnum | DeclTrait | DeclType | DeclModule

definition declaration_kind :: "rstr \<Rightarrow> declaration_kind option" where
  "declaration_kind w =
     (if w = ''fn'' then Some DeclFunction
      else if w = ''struct'' then Some DeclStruct
      else if w = ''enum'' then Some DeclEnum
      else if w = ''trait'' then Some DeclTrait
      else if w = ''type'' then Some DeclType
      else if w = ''mod'' then Some DeclModule
      else None)"

subsection \<open>Imports\<close>

definition import_entry :: "rstr \<Rightarrow> rstr \<times> rstr" where
  "import_entry raw =
     (let raw = trim raw
      in case find_str raw '' as '' of
           None \<Rightarrow> (let target = bounded_name raw in (target, target))
         | Some i \<Rightarrow>
             (let target = bounded_name (trim (take i raw))
              in (bounded_name (trim (drop (i + 4) raw)), target)))"

text \<open>The slice between the first \<open>{\<close> and the last \<open>}\<close> panics when the latter comes first.\<close>

definition import_entries :: "rstr \<Rightarrow> (rstr \<times> rstr) list option" where
  "import_entries raw =
     (let raw = trim raw
      in case (find_str raw ''{'', rfind_str raw ''}'') of
           (Some open_brace, Some close_brace) \<Rightarrow>
             if close_brace < open_brace + 1 then None
             else
               (let leading = trim (trim_end_matches '':'' (take open_brace raw));
                    body = take (close_brace - (open_brace + 1)) (drop (open_brace + 1) raw);
                    entries = map (\<lambda>part. import_entry
                        (if part = ''self'' then leading
                         else if leading = [] then part
                         else leading @ ''::'' @ part))
                      (filter (\<lambda>part. part \<noteq> []) (map trim (split_on CHR '','' body)))
                in Some (if entries = [] then [import_entry raw] else entries))
         | _ \<Rightarrow> Some [import_entry raw])"

subsection \<open>Looking ahead\<close>

fun next_identifier :: "(token \<Rightarrow> rstr option) \<Rightarrow> nat \<Rightarrow> token list \<Rightarrow> nat option option" where
  "next_identifier text index [] = Some None"
| "next_identifier text index (t # ts) =
     (case text t of
        None \<Rightarrow> None
      | Some w \<Rightarrow>
          if is_identifier w then Some (Some index)
          else if w \<in> {''{'', '';'', ''=''} then Some None
          else next_identifier text (index + 1) ts)"

fun find_attribute_end :: "(token \<Rightarrow> rstr option) \<Rightarrow> nat \<Rightarrow> nat \<Rightarrow> token list \<Rightarrow> nat option option" where
  "find_attribute_end text depth index [] = Some None"
| "find_attribute_end text depth index (t # ts) =
     (case text t of
        None \<Rightarrow> None
      | Some w \<Rightarrow>
          if w = ''['' then find_attribute_end text (depth + 1) (index + 1) ts
          else if w = '']'' then
            (if depth - 1 = 0 then Some (Some index)
             else find_attribute_end text (depth - 1) (index + 1) ts)
          else find_attribute_end text depth (index + 1) ts)"

fun find_semicolon :: "(token \<Rightarrow> rstr option) \<Rightarrow> nat \<Rightarrow> token list \<Rightarrow> nat option option" where
  "find_semicolon text index [] = Some None"
| "find_semicolon text index (t # ts) =
     (case text t of
        None \<Rightarrow> None
      | Some w \<Rightarrow> if w = '';'' then Some (Some index) else find_semicolon text (index + 1) ts)"

fun impl_name :: "(token \<Rightarrow> rstr option) \<Rightarrow> nat \<Rightarrow> bool \<Rightarrow> rstr option \<Rightarrow> token list \<Rightarrow> rstr option option" where
  "impl_name text angle_depth after_for fallback [] = Some fallback"
| "impl_name text angle_depth after_for fallback (t # ts) =
     (case text t of
        None \<Rightarrow> None
      | Some w \<Rightarrow>
          if w = ''{'' then Some fallback
          else if w = ''<'' then impl_name text (angle_depth + 1) after_for fallback ts
          else if w = ''>'' then impl_name text (angle_depth - 1) after_for fallback ts
          else if w = ''for'' then impl_name text angle_depth True fallback ts
          else if is_identifier w \<and> w \<notin> {''where'', ''unsafe''} then
            (if after_for \<and> angle_depth = 0 then Some (Some (bounded_name w))
             else impl_name text angle_depth after_for
                    (if angle_depth = 0 then Some (bounded_name w) else fallback) ts)
          else impl_name text angle_depth after_for fallback ts)"

fun any_test :: "(token \<Rightarrow> rstr option) \<Rightarrow> token list \<Rightarrow> bool option" where
  "any_test text [] = Some False"
| "any_test text (t # ts) =
     (case text t of None \<Rightarrow> None | Some w \<Rightarrow> if w = ''test'' then Some True else any_test text ts)"

definition attribute_is_test :: "rstr \<Rightarrow> nat \<Rightarrow> nat \<Rightarrow> bool option" where
  "attribute_is_test masked start stop =
     (let text = take (stop - start) (drop start masked) in any_test (token_text text) (tokenize text))"

subsection \<open>The state of the pass\<close>

datatype scope_kind = ScModule | ScImpl | ScFunction | ScType | ScBlock

text \<open>Where the code marks a declaration past the symbol limit with \<open>usize::MAX\<close>, this is \<open>None\<close>.\<close>

datatype pending_kind =
  PendModule | PendFunction "nat option" | PendType "nat option" | PendImpl "rstr option"

record scope =
  sco_kind :: scope_kind
  sco_name :: "rstr option"
  sco_symbol_index :: "nat option"
  sco_is_test :: bool

record parse_state =
  ps_symbols :: "symbol list"
  ps_relationships :: "symbol_relation list"
  ps_scopes :: "scope list"
  ps_pending :: "pending_kind option"
  ps_pending_test :: bool

definition parse_start :: parse_state where
  "parse_start = \<lparr>ps_symbols = [], ps_relationships = [], ps_scopes = [], ps_pending = None,
                  ps_pending_test = False\<rparr>"

definition container_name :: "scope list \<Rightarrow> rstr option" where
  "container_name scopes =
     (let names = concat (map (\<lambda>s. if sco_kind s = ScModule \<or> sco_kind s = ScImpl
                                   then (case sco_name s of None \<Rightarrow> [] | Some n \<Rightarrow> [n]) else []) scopes)
      in if names = [] then None else Some (join ''::'' names))"

fun reference_owner_in :: "scope list \<Rightarrow> rstr option" where
  "reference_owner_in [] = None"
| "reference_owner_in (s # scopes) =
     (if sco_kind s = ScFunction \<and> sco_name s \<noteq> None then sco_name s else reference_owner_in scopes)"

definition reference_owner :: "scope list \<Rightarrow> rstr option" where
  "reference_owner scopes = reference_owner_in (rev scopes)"

definition in_impl :: "scope list \<Rightarrow> bool" where
  "in_impl scopes = list_ex (\<lambda>s. sco_kind s = ScImpl) scopes"

definition push_relationship :: "symbol_relation \<Rightarrow> parse_state \<Rightarrow> parse_state" where
  "push_relationship r st =
     (if length (ps_relationships st) < MAX_SYMBOL_RELATIONSHIPS_PER_FILE
      then st\<lparr>ps_relationships := ps_relationships st @ [r]\<rparr> else st)"

definition push_contains :: "rstr option \<Rightarrow> rstr \<Rightarrow> parse_state \<Rightarrow> parse_state" where
  "push_contains container name st =
     (case container of
        None \<Rightarrow> st
      | Some c \<Rightarrow> push_relationship \<lparr>sr_from = c, sr_to = name, sr_kind = Contains\<rparr> st)"

definition settle :: "parse_state \<Rightarrow> parse_state" where
  "settle st = st\<lparr>ps_pending := None, ps_pending_test := False\<rparr>"

subsection \<open>The steps\<close>

fun add_imports :: "rstr option \<Rightarrow> nat \<Rightarrow> nat \<Rightarrow> (rstr \<times> rstr) list \<Rightarrow> parse_state \<Rightarrow> parse_state" where
  "add_imports container line end_line [] st = st"
| "add_imports container line end_line ((name, target) # es) st =
     (if MAX_SYMBOLS_PER_FILE \<le> length (ps_symbols st) then st
      else
        (let name = (if name = [] then ''use'' else name);
             st = st\<lparr>ps_symbols := ps_symbols st @
                    [\<lparr>sym_name = name, sym_kind = KImport, sym_start_line = line,
                      sym_end_line = end_line, sym_container = container, sym_is_test = False\<rparr>]\<rparr>;
             st = push_contains container name st;
             st = push_relationship \<lparr>sr_from = name, sr_to = target, sr_kind = Imports\<rparr> st
         in add_imports container line end_line es st))"

definition parse_use :: "rstr \<Rightarrow> token \<Rightarrow> token \<Rightarrow> parse_state \<Rightarrow> parse_state option" where
  "parse_use source token stop st =
     (if length (ps_symbols st) < MAX_SYMBOLS_PER_FILE then
        (let raw = trim (take (tk_start stop - tk_end token) (drop (tk_end token) source))
         in case import_entries raw of
              None \<Rightarrow> None
            | Some es \<Rightarrow>
                Some (settle (add_imports (container_name (ps_scopes st)) (tk_line token) (tk_line stop)
                  (take MAX_SYMBOL_RELATIONSHIPS_PER_FILE es) st)))
      else Some (settle st))"

definition declared_kind :: "declaration_kind \<Rightarrow> bool \<Rightarrow> bool \<Rightarrow> symbol_kind" where
  "declared_kind k test within_impl =
     (case k of
        DeclFunction \<Rightarrow> if test then KTest else if within_impl then KMethod else KFunction
      | DeclStruct \<Rightarrow> KStruct
      | DeclEnum \<Rightarrow> KEnum
      | DeclTrait \<Rightarrow> KTrait
      | DeclType \<Rightarrow> KTypeAlias
      | DeclModule \<Rightarrow> KModule)"

definition parse_declaration :: "declaration_kind \<Rightarrow> rstr \<Rightarrow> nat \<Rightarrow> parse_state \<Rightarrow> parse_state" where
  "parse_declaration k name line st =
     (let test = (ps_pending_test st \<or> list_ex sco_is_test (ps_scopes st));
          kind = declared_kind k test (in_impl (ps_scopes st));
          container = container_name (ps_scopes st);
          room = (length (ps_symbols st) < MAX_SYMBOLS_PER_FILE);
          symbol_index = (if room then Some (length (ps_symbols st)) else None);
          st = (if room then
                  (let st = st\<lparr>ps_symbols := ps_symbols st @
                         [\<lparr>sym_name = name, sym_kind = kind, sym_start_line = line, sym_end_line = line,
                           sym_container = container, sym_is_test = test\<rparr>]\<rparr>;
                       st = push_contains container name st
                   in case container of
                        None \<Rightarrow> st
                      | Some c \<Rightarrow>
                          if kind = KMethod
                          then push_relationship \<lparr>sr_from = name, sr_to = c, sr_kind = Implements\<rparr> st
                          else st)
                else st)
      in st\<lparr>ps_pending := Some (case k of
                DeclModule \<Rightarrow> PendModule
              | DeclFunction \<Rightarrow> PendFunction symbol_index
              | _ \<Rightarrow> PendType symbol_index),
            ps_pending_test := (test \<and> kind = KModule)\<rparr>)"

definition symbol_at :: "symbol list \<Rightarrow> nat option \<Rightarrow> symbol option" where
  "symbol_at symbols i = (case i of None \<Rightarrow> None | Some i \<Rightarrow> if i < length symbols then Some (symbols ! i) else None)"

definition opened_scope :: "parse_state \<Rightarrow> scope" where
  "opened_scope st =
     (case ps_pending st of
        Some PendModule \<Rightarrow>
          (let module = (case rev (ps_symbols st) of
                           [] \<Rightarrow> None | s # _ \<Rightarrow> if sym_kind s = KModule then Some s else None)
           in \<lparr>sco_kind = ScModule, sco_name = map_option sym_name module,
               sco_symbol_index = map_option (\<lambda>_. length (ps_symbols st) - 1) module,
               sco_is_test = ps_pending_test st\<rparr>)
      | Some (PendFunction i) \<Rightarrow>
          (let symbol = symbol_at (ps_symbols st) i
           in \<lparr>sco_kind = ScFunction, sco_name = map_option sym_name symbol,
               sco_symbol_index = (if symbol = None then None else i),
               sco_is_test = (case symbol of None \<Rightarrow> False | Some s \<Rightarrow> sym_is_test s)\<rparr>)
      | Some (PendType i) \<Rightarrow>
          (let symbol = symbol_at (ps_symbols st) i
           in \<lparr>sco_kind = ScType, sco_name = map_option sym_name symbol,
               sco_symbol_index = (if symbol = None then None else i),
               sco_is_test = (case symbol of None \<Rightarrow> False | Some s \<Rightarrow> sym_is_test s)\<rparr>)
      | Some (PendImpl name) \<Rightarrow>
          \<lparr>sco_kind = ScImpl, sco_name = name, sco_symbol_index = None, sco_is_test = False\<rparr>
      | None \<Rightarrow>
          \<lparr>sco_kind = ScBlock, sco_name = None, sco_symbol_index = None, sco_is_test = False\<rparr>)"

definition open_scope :: "parse_state \<Rightarrow> parse_state" where
  "open_scope st = settle (st\<lparr>ps_scopes := ps_scopes st @ [opened_scope st]\<rparr>)"

definition close_scope :: "nat \<Rightarrow> parse_state \<Rightarrow> parse_state" where
  "close_scope line st =
     settle (case rev (ps_scopes st) of
        [] \<Rightarrow> st
      | s # rest \<Rightarrow>
          st\<lparr>ps_scopes := rev rest,
             ps_symbols := (case sco_symbol_index s of
                 Some i \<Rightarrow> if i < length (ps_symbols st)
                            then (ps_symbols st)[i := (ps_symbols st ! i)\<lparr>sym_end_line := line\<rparr>]
                            else ps_symbols st
               | None \<Rightarrow> ps_symbols st)\<rparr>)"

definition attribute_close :: "rstr \<Rightarrow> token list \<Rightarrow> nat \<Rightarrow> rstr \<Rightarrow> nat option option" where
  "attribute_close masked tokens index w =
     (if w = ''#'' \<and> index + 1 < length tokens then
        (case token_text masked (tokens ! (index + 1)) of
           None \<Rightarrow> None
         | Some v \<Rightarrow>
             if v = ''['' then find_attribute_end (token_text masked) 0 (index + 1) (drop (index + 1) tokens)
             else Some None)
      else Some None)"

definition use_close :: "rstr \<Rightarrow> token list \<Rightarrow> nat \<Rightarrow> rstr \<Rightarrow> nat option option" where
  "use_close masked tokens index w =
     (if w = ''use'' then find_semicolon (token_text masked) (index + 1) (drop (index + 1) tokens)
      else Some None)"

text \<open>The words that are neither an attribute nor an import; the first component is the index the
  loop goes on from.\<close>

definition parse_word ::
    "rstr \<Rightarrow> token list \<Rightarrow> nat \<Rightarrow> rstr \<Rightarrow> parse_state \<Rightarrow> (nat \<times> parse_state) option" where
  "parse_word masked tokens index w st =
     (let line = tk_line (tokens ! index); rest = drop (index + 1) tokens
      in case declaration_kind w of
           Some k \<Rightarrow>
             (case next_identifier (token_text masked) (index + 1) rest of
                None \<Rightarrow> None
              | Some None \<Rightarrow> Some (index + 1, st)
              | Some (Some name_index) \<Rightarrow>
                  (case token_text masked (tokens ! name_index) of
                     None \<Rightarrow> None
                   | Some name \<Rightarrow> Some (name_index + 1, parse_declaration k (bounded_name name) line st)))
         | None \<Rightarrow>
             if w = ''impl'' then
               (case impl_name (token_text masked) 0 False None rest of
                  None \<Rightarrow> None
                | Some name \<Rightarrow>
                    Some (index + 1, st\<lparr>ps_pending := Some (PendImpl name), ps_pending_test := False\<rparr>))
             else if w = ''{'' then Some (index + 1, open_scope st)
             else if w = ''}'' then Some (index + 1, close_scope line st)
             else if w = '';'' then Some (index + 1, settle st)
             else if is_reference_identifier w then
               Some (index + 1,
                 case reference_owner (ps_scopes st) of
                   None \<Rightarrow> st
                 | Some owner \<Rightarrow>
                     push_relationship \<lparr>sr_from = owner, sr_to = bounded_name w, sr_kind = References\<rparr> st)
             else Some (index + 1, st))"

definition parse_step ::
    "rstr \<Rightarrow> rstr \<Rightarrow> token list \<Rightarrow> nat \<Rightarrow> parse_state \<Rightarrow> (nat \<times> parse_state) option" where
  "parse_step source masked tokens index st =
     (let token = tokens ! index
      in case token_text masked token of
           None \<Rightarrow> None
         | Some w \<Rightarrow>
             (case attribute_close masked tokens index w of
                None \<Rightarrow> None
              | Some (Some close) \<Rightarrow>
                  (case attribute_is_test masked (tk_start token) (tk_end (tokens ! close)) of
                     None \<Rightarrow> None
                   | Some test \<Rightarrow>
                       Some (close + 1, st\<lparr>ps_pending_test := ps_pending_test st \<or> test\<rparr>))
              | Some None \<Rightarrow>
                  (case use_close masked tokens index w of
                     None \<Rightarrow> None
                   | Some (Some close) \<Rightarrow>
                       map_option (\<lambda>st. (close + 1, st)) (parse_use source token (tokens ! close) st)
                   | Some None \<Rightarrow> parse_word masked tokens index w st)))"

subsection \<open>The pass\<close>

lemma next_identifier_ge: "next_identifier f i ts = Some (Some j) \<Longrightarrow> i \<le> j \<and> j < i + length ts"
  by (induction f i ts rule: next_identifier.induct) (fastforce split: option.splits if_splits)+

lemma find_attribute_end_ge:
  "find_attribute_end f d i ts = Some (Some j) \<Longrightarrow> i \<le> j \<and> j < i + length ts"
  by (induction f d i ts rule: find_attribute_end.induct) (fastforce split: option.splits if_splits)+

lemma find_semicolon_ge: "find_semicolon f i ts = Some (Some j) \<Longrightarrow> i \<le> j \<and> j < i + length ts"
  by (induction f i ts rule: find_semicolon.induct) (fastforce split: option.splits if_splits)+

lemma parse_step_advances: "parse_step source masked tokens index st = Some (i, st') \<Longrightarrow> index < i"
  by (auto simp: parse_step_def parse_word_def attribute_close_def use_close_def Let_def
      split: option.splits if_splits dest!: next_identifier_ge find_attribute_end_ge find_semicolon_ge)

function parse_loop ::
    "rstr \<Rightarrow> rstr \<Rightarrow> token list \<Rightarrow> nat \<Rightarrow> parse_state \<Rightarrow> parse_state option" where
  "parse_loop source masked tokens index st =
     (if index < length tokens then
        (case parse_step source masked tokens index st of
           None \<Rightarrow> None
         | Some (i, st') \<Rightarrow> parse_loop source masked tokens i st')
      else Some st)"
  by pat_completeness auto
termination
  by (relation "measure (\<lambda>(source, masked, tokens, index, st). length tokens - index)")
    (auto dest: parse_step_advances)

declare parse_loop.simps [simp del]

definition parse_rust_symbols :: "rstr \<Rightarrow> (symbol list \<times> symbol_relation list) option" where
  "parse_rust_symbols source =
     (let masked = mask_rust source
      in map_option (\<lambda>st. (ps_symbols st, ps_relationships st))
           (parse_loop source masked (tokenize masked) 0 parse_start))"

end
