(* ===== verification/Lexer_Facts.thy ===== *)
theory Lexer_Facts
  imports Symbol_Lexer
begin

section \<open>Facts about masking and tokenizing\<close>

text \<open>
  Masking keeps every byte or blanks it, and keeps well-formed UTF-8 well-formed, so that
  \<open>mask_rust\<close> never falls back to the empty text; tokens lie in order inside the text and carry
  the line they are on.
\<close>

subsection \<open>Lengths\<close>

lemma raw_close_le: "raw_close h s \<le> length s"
  by (induction s) auto

lemma starts_with_length: "starts_with s p \<Longrightarrow> length p \<le> length s"
  using arg_cong [OF starts_with_decomp, of s p length] by simp

lemma raw_string_len_range: "raw_string_len s = Some n \<Longrightarrow> 0 < n \<and> n \<le> length s"
proof -
  assume n: "raw_string_len s = Some n"
  then obtain t where t: "raw_marker s = Some t"
    by (auto simp: raw_string_len_def split: option.splits)
  have st: "length t < length s"
    using t starts_with_length [of s "''r''"] starts_with_length [of s "''br''"]
    by (auto simp: raw_marker_def split: if_splits)
  define h where "h = length (takeWhile (\<lambda>b. b = CHR ''#'') t)"
  obtain c body where body: "drop h t = c # body" and len: "n = length s - length body + raw_close h body"
    using n t by (auto simp: raw_string_len_def Let_def h_def split: list.splits if_splits)
  have "length body < length s"
    using arg_cong [OF body, of length] st by simp
  then show ?thesis using len raw_close_le [of h body] by simp
qed

lemma block_len_le: "block_len d s \<le> length s"
  by (induction d s rule: block_len.induct) auto

lemma quoted_len_le: "quoted_len q p s \<le> length s"
  by (induction q p s rule: quoted_len.induct) auto

lemma region_len_le: "region_len s \<le> length s"
proof (cases "raw_string_len s")
  case None
  have "starts_with s ''/*'' \<Longrightarrow> 2 \<le> length s"
    using starts_with_length [of s "''/*''"] by simp
  then show ?thesis
    using None quoted_len_le block_len_le [of 1 "drop 2 s"]
    by (auto simp: region_len_def length_takeWhile_le split: list.splits)
qed (auto simp: region_len_def dest: raw_string_len_range)

subsection \<open>Masking keeps the shape of the text\<close>

definition masked_byte :: "char \<Rightarrow> char \<Rightarrow> bool" where
  "masked_byte m c \<longleftrightarrow> m = c \<or> m = blank c"

lemma masked_byte_same [simp]: "masked_byte c c"
  by (simp add: masked_byte_def)

lemma masked_byte_blank [simp]: "masked_byte (blank c) c"
  by (simp add: masked_byte_def)

lemma mask_Nil [simp]: "mask_from [] = []"
  by (simp add: mask_from.simps)

lemma mask_step:
  "s \<noteq> [] \<Longrightarrow> mask_from s = (if region_len s = 0 then hd s # mask_from (tl s)
     else map blank (take (region_len s) s) @ mask_from (drop (region_len s) s))"
  by (subst mask_from.simps) (simp add: Let_def)

lemma mask_shape: "list_all2 masked_byte (mask_from s) s"
proof (induction s rule: mask_from.induct)
  case (1 s)
  show ?case
  proof (cases "s = []")
    case False
    have "list_all2 masked_byte (map blank (take n s)) (take n s)" for n
      by (simp add: list_all2_map1 list.rel_refl)
    then have "list_all2 masked_byte (map blank (take n s) @ mask_from (drop n s)) (take n s @ drop n s)"
      if "n = region_len s" "n \<noteq> 0" for n
      using 1(2) [OF False that(1) that(2)] by (intro list_all2_appendI)
    moreover have "list_all2 masked_byte (hd s # mask_from (tl s)) s" if "region_len s = 0"
      using 1(1) [OF False refl that] False by (cases s) auto
    ultimately show ?thesis using False by (auto simp: mask_step)
  qed simp
qed

lemma length_mask [simp]: "length (mask_from s) = length s"
  using mask_shape list_all2_lengthD by blast

lemma mask_newline: "i < length s \<Longrightarrow> mask_from s ! i = CHR 0x0A \<longleftrightarrow> s ! i = CHR 0x0A"
  using list_all2_nthD2 [OF mask_shape, of i s] by (auto simp: masked_byte_def blank_def split: if_splits)

subsection \<open>Well-formed UTF-8 stays well-formed\<close>

definition ascii :: "char \<Rightarrow> bool" where
  "ascii c \<longleftrightarrow> of_char c < (128 :: nat)"

lemma byte_at_append: "i < length a \<Longrightarrow> byte_at (a @ b) i = byte_at a i"
  by (simp add: byte_at_def nth_append)

lemma utf8_head_append: "0 < utf8_head a \<Longrightarrow> utf8_head (a @ b) = utf8_head a"
  using utf8_head_take [of "a @ b" "length a"] utf8_head_le [of a]
proof -
  assume pos: "0 < utf8_head a"
  let ?k = "utf8_need (byte_at a 0)"
  from pos have ne: "a \<noteq> []" and k: "utf8_head a = ?k" and ok:
      "2 \<le> ?k \<longrightarrow> utf8_second_ok (byte_at a 0) (byte_at a 1)"
      "3 \<le> ?k \<longrightarrow> cont_byte (byte_at a 2)" "4 \<le> ?k \<longrightarrow> cont_byte (byte_at a 3)"
    by (auto simp: utf8_head_def Let_def split: if_splits)
  have "?k \<le> length a" using utf8_head_le [of a] k by simp
  then have "byte_at (a @ b) 0 = byte_at a 0" "2 \<le> ?k \<Longrightarrow> byte_at (a @ b) 1 = byte_at a 1"
    "3 \<le> ?k \<Longrightarrow> byte_at (a @ b) 2 = byte_at a 2" "4 \<le> ?k \<Longrightarrow> byte_at (a @ b) 3 = byte_at a 3"
    using ne by (auto intro!: byte_at_append)
  with ok k ne show ?thesis by (simp add: utf8_head_def Let_def)
qed

lemma utf8_valid_append: "utf8_valid a \<Longrightarrow> utf8_valid b \<Longrightarrow> utf8_valid (a @ b)"
proof (induction a rule: utf8_valid.induct)
  case (1 a)
  show ?case
  proof (cases "a = []")
    case False
    from utf8_valid_step [OF 1(2) False] have k: "0 < utf8_head a" and rest: "utf8_valid (drop (utf8_head a) a)"
      by auto
    have "utf8_valid (drop (utf8_head a) a @ b)" using 1(1) [OF False _ rest 1(3)] k by simp
    then show ?thesis
      using k utf8_head_append [OF k, of b] utf8_head_le [of a] False
      by (subst utf8_valid.simps) simp
  qed (use 1 in simp)
qed

lemma utf8_head_ascii: "ascii c \<Longrightarrow> utf8_head (c # s) = 1"
  by (simp add: utf8_head_def utf8_need_def byte_at_def ascii_def)

lemma utf8_valid_Cons_ascii: "ascii c \<Longrightarrow> utf8_valid (c # s) = utf8_valid s"
  by (subst utf8_valid.simps) (simp add: utf8_head_ascii)

lemma utf8_valid_ascii: "list_all ascii s \<Longrightarrow> utf8_valid s"
  by (induction s) (simp_all add: utf8_valid_Cons_ascii)

lemma ascii_blank: "ascii (blank c)"
  by (simp add: ascii_def blank_def)

lemma continuation_not_ascii: "is_continuation c \<Longrightarrow> \<not> ascii c"
  by (simp add: is_continuation_def ascii_def Let_def)

lemma utf8_valid_after_ascii: "utf8_valid (a @ c # b) \<Longrightarrow> ascii c \<Longrightarrow> utf8_valid b"
proof (induction a rule: length_induct)
  case (1 a)
  define s where "s = a @ c # b"
  show ?case
  proof (cases "a = []")
    case True
    then show ?thesis using 1(2,3) by (simp add: utf8_valid_Cons_ascii)
  next
    case False
    have "0 < utf8_head s" "utf8_valid (drop (utf8_head s) s)"
      using utf8_valid_step [of s] 1(2) by (simp_all add: s_def)
    moreover have "utf8_head s \<le> length a"
    proof (rule ccontr)
      assume "\<not> utf8_head s \<le> length a"
      then have "is_continuation (s ! length a)" using utf8_head_cont [of "length a" s] False by simp
      then show False using continuation_not_ascii 1(3) by (simp add: s_def)
    qed
    ultimately have "utf8_valid (drop (utf8_head s) a @ c # b)" "length (drop (utf8_head s) a) < length a"
      using False by (auto simp: s_def)
    then show ?thesis using 1(1,3) by blast
  qed
qed

text \<open>Where a masked region ends.\<close>

definition clean_end :: "rstr \<Rightarrow> nat \<Rightarrow> bool" where
  "clean_end s n \<longleftrightarrow> n = length s \<or> 0 < n \<and> n \<le> length s \<and> ascii (s ! (n - 1))"

lemma clean_end_Cons: "clean_end s n \<Longrightarrow> clean_end (c # s) (Suc n)"
  by (auto simp: clean_end_def nth_Cons')

lemma clean_end_drop: "m \<le> length s \<Longrightarrow> clean_end (drop m s) n \<Longrightarrow> clean_end s (m + n)"
  by (auto simp: clean_end_def nth_append)

lemma raw_close_end: "clean_end s (raw_close h s)"
proof (induction s)
  case (Cons c s)
  show ?case
  proof (cases "c = CHR 0x22 \<and> h \<le> length s \<and> list_all (\<lambda>b. b = CHR ''#'') (take h s)")
    case True
    then have "h \<noteq> 0 \<Longrightarrow> s ! (h - 1) = CHR ''#''"
      by (cases h) (auto simp: list_all_length)
    with True have "clean_end (c # s) (h + 1)"
      by (cases h) (auto simp: clean_end_def ascii_def)
    then show ?thesis using True by simp
  next
    case False
    then have "raw_close h (c # s) = Suc (raw_close h s)" by auto
    then show ?thesis using Cons by (metis clean_end_Cons)
  qed
qed (simp add: clean_end_def)

lemma block_len_end: "0 < d \<Longrightarrow> clean_end s (block_len d s)"
proof (induction d s rule: block_len.induct)
  case (4 d a b s)
  show ?case
  proof (cases "a = CHR ''*'' \<and> b = CHR ''/'' \<and> d = 0")
    case True
    then show ?thesis by (simp add: clean_end_def ascii_def)
  next
    case False
    with 4 show ?thesis
      by (auto simp: numeral_2_eq_2 intro!: clean_end_Cons)
  qed
qed (simp_all add: clean_end_def)

lemma quoted_len_end: "ascii q \<Longrightarrow> clean_end s (quoted_len q p s)"
proof (induction q p s rule: quoted_len.induct)
  case (2 q p c s)
  then show ?case by (auto intro: clean_end_Cons simp: clean_end_def)
qed (simp add: clean_end_def)

lemma region_end:
  "0 < region_len s \<Longrightarrow> clean_end s (region_len s) \<or> s ! region_len s = CHR 0x0A"
proof (cases "raw_string_len s")
  case (Some n)
  then obtain t where t: "raw_marker s = Some t"
    by (auto simp: raw_string_len_def split: option.splits)
  have suf: "\<exists>m. t = drop m s" using t by (auto simp: raw_marker_def split: if_splits)
  define h where "h = length (takeWhile (\<lambda>b. b = CHR ''#'') t)"
  obtain c body where body: "drop h t = c # body" and len: "n = length s - length body + raw_close h body"
    using Some t by (auto simp: raw_string_len_def Let_def h_def split: list.splits if_splits)
  obtain m where m: "c # body = drop m s" using suf body by (metis drop_drop)
  then have rest: "drop (Suc m) s = body" by (metis drop_Suc list.sel(3) tl_drop)
  have "m < length s" using m by (metis drop_eq_Nil list.distinct(1) not_le)
  then have "length s - length body = Suc m" using arg_cong [OF rest, of length] by simp
  then have drop: "drop (length s - length body) s = body" using rest by simp
  have "clean_end s n" unfolding len by (rule clean_end_drop) (simp_all add: drop raw_close_end)
  then show ?thesis using Some by (simp add: region_len_def)
next
  case None
  assume pos: "0 < region_len s"
  consider (line) "starts_with s ''//''" | (block) "\<not> starts_with s ''//''" "starts_with s ''/*''"
    | (other) "\<not> starts_with s ''//''" "\<not> starts_with s ''/*''" by blast
  then show ?thesis
  proof cases
    case line
    define n where "n = length (takeWhile (\<lambda>c. c \<noteq> CHR 0x0A) s)"
    have "n = length s \<or> s ! n = CHR 0x0A"
      using nth_length_takeWhile [of "\<lambda>c. c \<noteq> CHR 0x0A" s] length_takeWhile_le [of "\<lambda>c. c \<noteq> CHR 0x0A" s]
      by (auto simp: n_def le_less)
    then show ?thesis using None line by (auto simp: region_len_def clean_end_def n_def)
  next
    case block
    have "clean_end s (2 + block_len 1 (drop 2 s))"
      by (rule clean_end_drop) (use starts_with_length [OF block(2)] in \<open>simp_all add: block_len_end\<close>)
    then show ?thesis using None block by (simp add: region_len_def)
  next
    case other
    then obtain c t where s: "s = c # t" "c = CHR 0x27 \<or> c = CHR 0x22" "region_len s = 1 + quoted_len c c t"
      using None pos by (auto simp: region_len_def split: list.splits if_splits)
    have "ascii c" using s(2) by (auto simp: ascii_def)
    then show ?thesis using s clean_end_Cons [OF quoted_len_end, of c c t c] by simp
  qed
qed

lemma region_rest_valid:
  assumes "utf8_valid s" "0 < region_len s"
  shows "utf8_valid (drop (region_len s) s)"
proof -
  define n where "n = region_len s"
  have split: "s = take n s @ drop n s" by simp
  consider "n = length s" | "0 < n" "n \<le> length s" "ascii (s ! (n - 1))"
    | "n < length s" "s ! n = CHR 0x0A"
    using region_end [OF assms(2)] region_len_le [of s] by (auto simp: clean_end_def n_def le_less)
  then show ?thesis
  proof cases
    case 2
    then have "s = take (n - 1) s @ s ! (n - 1) # drop n s"
      using id_take_nth_drop [of "n - 1" s] by simp
    then show ?thesis using utf8_valid_after_ascii [of "take (n - 1) s" "s ! (n - 1)" "drop n s"] assms(1) 2(3)
      by (simp add: n_def)
  next
    case 3
    have rest: "drop n s = s ! n # drop (Suc n) s"
      using 3(1) by (rule Cons_nth_drop_Suc [symmetric])
    have asc: "ascii (s ! n)" by (simp add: 3 ascii_def)
    have "s = take n s @ s ! n # drop (Suc n) s" using 3(1) by (rule id_take_nth_drop)
    then have "utf8_valid (drop (Suc n) s)"
      using utf8_valid_after_ascii [of "take n s" "s ! n" "drop (Suc n) s"] assms(1) asc by simp
    then show ?thesis unfolding n_def [symmetric] rest by (simp add: utf8_valid_Cons_ascii asc)
  qed (simp add: n_def)
qed

lemma region_ascii:
  assumes "s \<noteq> []" "\<not> ascii (hd s)"
  shows "region_len s = 0"
proof -
  obtain c t where s: "s = c # t" using assms(1) by (cases s) auto
  have "c \<noteq> CHR ''r'' \<and> c \<noteq> CHR ''b'' \<and> c \<noteq> CHR ''/'' \<and> c \<noteq> CHR 0x27 \<and> c \<noteq> CHR 0x22"
    using assms(2) by (auto simp: s ascii_def)
  then show ?thesis
    by (simp add: s region_len_def raw_string_len_def raw_marker_def starts_with_def is_lifetime_def split: list.split)
qed

lemma mask_non_ascii: "list_all (\<lambda>c. \<not> ascii c) a \<Longrightarrow> mask_from (a @ s) = a @ mask_from s"
  by (induction a) (simp_all add: mask_step region_ascii)

lemma mask_valid: "utf8_valid s \<Longrightarrow> utf8_valid (mask_from s)"
proof (induction s rule: length_induct)
  case (1 s)
  consider (nil) "s = []" | (region) "s \<noteq> []" "0 < region_len s"
    | (ascii) "s \<noteq> []" "region_len s = 0" "ascii (hd s)" | (wide) "s \<noteq> []" "\<not> ascii (hd s)" by blast
  then show ?case
  proof cases
    case region
    have "utf8_valid (mask_from (drop (region_len s) s))"
      using 1(1) region region_rest_valid [OF 1(2) region(2)] by simp
    moreover have "utf8_valid (map blank (take (region_len s) s))"
      by (rule utf8_valid_ascii) (simp add: list_all_iff ascii_blank)
    ultimately show ?thesis using region by (simp add: mask_step utf8_valid_append)
  next
    case ascii
    have "utf8_valid (hd s # tl s)" using 1(2) ascii(1) by simp
    then have "utf8_valid (tl s)" unfolding utf8_valid_Cons_ascii [OF ascii(3)] .
    then show ?thesis using ascii 1(1) by (simp add: mask_step utf8_valid_Cons_ascii)
  next
    case wide
    define k where "k = utf8_head s"
    have k: "0 < k" "utf8_valid (drop k s)" using utf8_valid_step [OF 1(2) wide(1)] by (simp_all add: k_def)
    have "\<not> ascii (s ! i)" if "i < k" for i
      using wide utf8_head_cont [of i s] that continuation_not_ascii
      by (cases "i = 0") (auto simp: hd_conv_nth k_def)
    then have "mask_from (take k s @ drop k s) = take k s @ mask_from (drop k s)"
      by (intro mask_non_ascii) (auto simp: list_all_length)
    moreover have "is_char_boundary s k"
    proof (cases "k < length s")
      case True
      have "\<not> is_continuation (s ! k)"
      proof
        assume "is_continuation (s ! k)"
        then have "utf8_head (drop k s) = 0"
          using True by (auto simp: utf8_head_def utf8_need_def byte_at_def is_continuation_def Let_def)
        then show False using utf8_valid_step [OF k(2)] True by simp
      qed
      then show ?thesis using True by (simp add: is_char_boundary_def)
    qed (use utf8_head_le [of s] in \<open>simp add: is_char_boundary_def k_def\<close>)
    then have "utf8_valid (take k s)"
      by (rule utf8_valid_take [OF 1(2)]) (simp add: k_def utf8_head_le)
    moreover have "utf8_valid (mask_from (drop k s))"
      using 1(1) k wide(1) by simp
    ultimately show ?thesis using utf8_valid_append by simp
  qed simp
qed

lemma mask_rust_valid: "utf8_valid s \<Longrightarrow> mask_rust s = mask_from s"
  by (simp add: mask_rust_def mask_valid)

subsection \<open>Tokens\<close>

definition line_at :: "rstr \<Rightarrow> nat \<Rightarrow> nat" where
  "line_at s i = 1 + length (filter (\<lambda>c. c = CHR 0x0A) (take i s))"

definition token_ok :: "rstr \<Rightarrow> token \<Rightarrow> bool" where
  "token_ok s t \<longleftrightarrow> tk_start t < tk_end t \<and> tk_end t \<le> length s \<and> tk_line t = line_at s (tk_start t)
     \<and> list_all (\<lambda>c. \<not> is_ascii_whitespace c) (take (tk_end t - tk_start t) (drop (tk_start t) s))
     \<and> (tk_end t = Suc (tk_start t) \<or> list_all word_char (take (tk_end t - tk_start t) (drop (tk_start t) s)))"

lemma token_len_range: "s \<noteq> [] \<Longrightarrow> 0 < token_len s \<and> token_len s \<le> length s"
  using length_takeWhile_le [of word_char "tl s"] by (cases s) (auto simp: token_len_def)

lemma word_start_char: "word_start c \<Longrightarrow> word_char c"
  by (auto simp: word_start_def word_char_def is_ascii_alphabetic_def is_ascii_alphanumeric_def Let_def)

lemma word_char_no_space: "word_char c \<Longrightarrow> \<not> is_ascii_whitespace c"
  by (auto simp: word_char_def is_ascii_whitespace_def is_ascii_alphanumeric_def Let_def)

lemma token_chars:
  assumes "s \<noteq> []" "\<not> is_ascii_whitespace (hd s)"
  shows "list_all (\<lambda>c. \<not> is_ascii_whitespace c) (take (token_len s) s)
    \<and> (token_len s = 1 \<or> list_all word_char (take (token_len s) s))"
proof -
  obtain c t where s: "s = c # t" using assms(1) by (cases s) auto
  have "list_all word_char (take (length (takeWhile word_char t)) t)"
    by (metis (full_types) list_all_iff set_takeWhileD takeWhile_eq_take)
  then have "list_all word_char (take (token_len s) s)" if "word_start c"
    using that by (simp add: s token_len_def word_start_char)
  then show ?thesis
    using assms(2) word_char_no_space by (cases "word_start c") (auto simp: s token_len_def list_all_iff)
qed

lemma line_at_append: "line_at (p @ s) (length p + i) = line_at p (length p) + length (filter (\<lambda>c. c = CHR 0x0A) (take i s))"
  by (simp add: line_at_def)

lemma line_at_same: "line_at (p @ s) (length p) = line_at p (length p)"
  by (simp add: line_at_def)

lemma tokenize_from_ok:
  "index = length p \<Longrightarrow> line = line_at p (length p) \<Longrightarrow>
   list_all (token_ok (p @ s)) (tokenize_from count index line s)
   \<and> sorted_wrt (\<lambda>a b. tk_end a \<le> tk_start b) (tokenize_from count index line s)
   \<and> list_all (\<lambda>t. index \<le> tk_start t) (tokenize_from count index line s)
   \<and> (count \<le> MAX_SYMBOL_TOKENS \<longrightarrow> count + length (tokenize_from count index line s) \<le> MAX_SYMBOL_TOKENS)"
proof (induction count index line s arbitrary: p rule: tokenize_from.induct)
  case (1 count index line s)
  consider (stop) "s = [] \<or> MAX_SYMBOL_TOKENS \<le> count"
    | (space) "\<not> (s = [] \<or> MAX_SYMBOL_TOKENS \<le> count)" "is_ascii_whitespace (hd s)"
    | (token) "\<not> (s = [] \<or> MAX_SYMBOL_TOKENS \<le> count)" "\<not> is_ascii_whitespace (hd s)" by blast
  then show ?case
  proof cases
    case stop
    then show ?thesis by (auto simp: tokenize_from.simps [of count index line s])
  next
    case space
    have eq: "tokenize_from count index line s
        = tokenize_from count (index + 1) (if hd s = CHR 0x0A then line + 1 else line) (tl s)"
      using space by (subst tokenize_from.simps) simp
    have s: "s = [hd s] @ tl s" using space by simp
    have "(if hd s = CHR 0x0A then line + 1 else line) = line_at (p @ [hd s]) (length (p @ [hd s]))"
      using 1(4) by (simp add: line_at_def)
    from 1(1) [OF space _ this] 1(3) show ?thesis
      unfolding eq using s by (auto simp: list_all_iff dest: Suc_leD)
  next
    case token
    define n where "n = token_len s"
    define t where "t = \<lparr>tk_start = index, tk_end = index + n, tk_line = line\<rparr>"
    have n: "0 < n" "n \<le> length s" using token token_len_range [of s] by (simp_all add: n_def)
    have eq: "tokenize_from count index line s
        = t # tokenize_from (count + 1) (index + n) line (drop n s)"
      using token by (subst tokenize_from.simps) (simp add: t_def n_def)
    have chars: "list_all (\<lambda>c. \<not> is_ascii_whitespace c) (take n s)" "n = 1 \<or> list_all word_char (take n s)"
      using token_chars [of s] token by (simp_all add: n_def)
    have ok: "token_ok (p @ s) t"
      using 1(3,4) n chars by (auto simp: token_ok_def t_def line_at_same)
    have "filter (\<lambda>c. c = CHR 0x0A) (take n s) = []"
      using chars(1) by (auto simp: filter_empty_conv list_all_iff is_ascii_whitespace_def)
    then have "line = line_at (p @ take n s) (length (p @ take n s))"
      using 1(4) n(2) by (simp add: line_at_def min_absorb2)
    with 1(2) [OF token, of "p @ take n s"] 1(3) n ok token(1) show ?thesis
      unfolding eq by (auto simp: n_def t_def list_all_iff)
  qed
qed

lemma tokenize_ok:
  "list_all (token_ok s) (tokenize s) \<and> sorted_wrt (\<lambda>a b. tk_end a \<le> tk_start b) (tokenize s)
   \<and> length (tokenize s) \<le> MAX_SYMBOL_TOKENS"
  using tokenize_from_ok [of 0 "[]" 1 s 0] by (simp add: tokenize_def line_at_def MAX_SYMBOL_TOKENS_def)

end
