(* ===== verification/Parser_Facts.thy ===== *)
theory Parser_Facts
  imports Symbol_Parser Lexer_Facts
begin

section \<open>Facts about the outline pass\<close>

text \<open>
  The state of the pass stays within its bounds and keeps its symbols in the order of their
  lines (\<open>outline_ok\<close>), and the pass panics only on a slice (\<open>parse_loop_runs\<close>).
\<close>

subsection \<open>Bounds and order\<close>

definition symbols_to :: "nat \<Rightarrow> nat \<Rightarrow> symbol list \<Rightarrow> bool" where
  "symbols_to line m symbols \<longleftrightarrow> sorted (map sym_start_line symbols)
     \<and> list_all (\<lambda>y. 1 \<le> sym_start_line y \<and> sym_start_line y \<le> line
          \<and> sym_start_line y \<le> sym_end_line y \<and> sym_end_line y \<le> m) symbols"

definition outline_ok :: "nat \<Rightarrow> nat \<Rightarrow> parse_state \<Rightarrow> bool" where
  "outline_ok line m st \<longleftrightarrow> length (ps_symbols st) \<le> MAX_SYMBOLS_PER_FILE
     \<and> length (ps_relationships st) \<le> MAX_SYMBOL_RELATIONSHIPS_PER_FILE
     \<and> symbols_to line m (ps_symbols st)"

lemma outline_mono: "outline_ok line m st \<Longrightarrow> line \<le> line' \<Longrightarrow> m \<le> m' \<Longrightarrow> outline_ok line' m' st"
  by (auto simp: outline_ok_def symbols_to_def list_all_iff)

lemma parse_outline_frame [simp]:
  "outline_ok line m (st\<lparr>ps_pending := p\<rparr>) = outline_ok line m st"
  "outline_ok line m (st\<lparr>ps_pending_test := b\<rparr>) = outline_ok line m st"
  "outline_ok line m (st\<lparr>ps_scopes := ss\<rparr>) = outline_ok line m st"
  "outline_ok line m (settle st) = outline_ok line m st"
  by (simp_all add: outline_ok_def settle_def)

lemma outline_push_relationship: "outline_ok line m st \<Longrightarrow> outline_ok line m (push_relationship r st)"
  by (auto simp: outline_ok_def push_relationship_def)

lemma outline_push_contains: "outline_ok line m st \<Longrightarrow> outline_ok line m (push_contains c n st)"
  by (simp add: push_contains_def outline_push_relationship split: option.split)

lemma outline_push_symbol:
  "outline_ok line m st \<Longrightarrow> length (ps_symbols st) < MAX_SYMBOLS_PER_FILE \<Longrightarrow> 0 < line \<Longrightarrow>
   sym_start_line y = line \<Longrightarrow> line \<le> sym_end_line y \<Longrightarrow> sym_end_line y \<le> m \<Longrightarrow>
   outline_ok line m (st\<lparr>ps_symbols := ps_symbols st @ [y]\<rparr>)"
  by (auto simp: outline_ok_def symbols_to_def sorted_append list_all_iff)

lemma outline_add_imports:
  "outline_ok line m st \<Longrightarrow> 0 < line \<Longrightarrow> line \<le> stop \<Longrightarrow> stop \<le> m \<Longrightarrow>
   outline_ok line m (add_imports c line stop es st)"
proof (induction es arbitrary: st)
  case (Cons e es)
  obtain name target where e: "e = (name, target)" by (cases e)
  define n where "n = (if name = [] then ''use'' else name)"
  define st' where "st' = push_relationship \<lparr>sr_from = n, sr_to = target, sr_kind = Imports\<rparr>
    (push_contains c n (st\<lparr>ps_symbols := ps_symbols st @
       [\<lparr>sym_name = n, sym_kind = KImport, sym_start_line = line, sym_end_line = stop,
         sym_container = c, sym_is_test = False\<rparr>]\<rparr>))"
  show ?case
  proof (cases "MAX_SYMBOLS_PER_FILE \<le> length (ps_symbols st)")
    case False
    have "outline_ok line m st'"
      unfolding st'_def using Cons(2-) False
      by (intro outline_push_relationship outline_push_contains outline_push_symbol) simp_all
    from Cons(1) [OF this Cons(3-)] False show ?thesis
      by (simp add: e Let_def n_def st'_def)
  qed (use Cons(2) in \<open>simp add: e\<close>)
qed simp

lemma outline_parse_use:
  assumes "parse_use source t stop st = Some st'" and "outline_ok (tk_line t) m st"
    and "0 < tk_line t" "tk_line t \<le> tk_line stop" "tk_line stop \<le> m"
  shows "outline_ok (tk_line t) m st'"
  using assms by (auto simp: parse_use_def Let_def outline_add_imports split: if_splits option.splits)

lemma outline_declaration:
  assumes "outline_ok line m st" "0 < line" "line \<le> m"
  shows "outline_ok line m (parse_declaration k name line st)"
  using assms
  by (auto simp: parse_declaration_def Let_def outline_push_relationship outline_push_contains
      outline_push_symbol split: option.split)

lemma outline_close:
  assumes "outline_ok line line st"
  shows "outline_ok line line (close_scope line st)"
proof -
  have "symbols_to line line ((ps_symbols st)[i := (ps_symbols st ! i)\<lparr>sym_end_line := line\<rparr>])"
    if "i < length (ps_symbols st)" for i
  proof -
    have "map sym_start_line ((ps_symbols st)[i := (ps_symbols st ! i)\<lparr>sym_end_line := line\<rparr>])
        = map sym_start_line (ps_symbols st)"
      using that by (simp add: map_update list_update_same_conv)
    then show ?thesis
      using assms that unfolding symbols_to_def outline_ok_def
      by (auto simp: list_all_iff dest!: set_update_subset_insert [THEN subsetD])
  qed
  then show ?thesis
    using assms by (auto simp: close_scope_def outline_ok_def settle_def split: list.split option.split)
qed

text \<open>The lines of a token list never decrease.\<close>

definition lines_ordered :: "nat \<Rightarrow> token list \<Rightarrow> bool" where
  "lines_ordered last_line tokens \<longleftrightarrow> sorted (map tk_line tokens)
     \<and> list_all (\<lambda>t. 1 \<le> tk_line t \<and> tk_line t \<le> last_line) tokens"

definition line_bound :: "nat \<Rightarrow> token list \<Rightarrow> nat \<Rightarrow> nat" where
  "line_bound last_line tokens i = (if i < length tokens then tk_line (tokens ! i) else last_line)"

lemma line_bound_mono:
  "lines_ordered n tokens \<Longrightarrow> i \<le> j \<Longrightarrow> line_bound n tokens i \<le> line_bound n tokens j"
  by (auto simp: line_bound_def lines_ordered_def list_all_length sorted_iff_nth_mono)

abbreviation (input) pass_ok where
  "pass_ok n tokens i st \<equiv> outline_ok (line_bound n tokens i) (line_bound n tokens i) st"

lemma pass_later:
  "pass_ok n tokens i st \<Longrightarrow> lines_ordered n tokens \<Longrightarrow> i \<le> j \<Longrightarrow> pass_ok n tokens j st"
  by (rule outline_mono) (auto simp: line_bound_mono)

lemma pass_parse_word:
  assumes ok: "pass_ok n tokens i st" and lines: "lines_ordered n tokens" "i < length tokens"
    and "parse_word masked tokens i w st = Some (j, st')"
  shows "pass_ok n tokens j st'"
proof -
  have now: "line_bound n tokens i = tk_line (tokens ! i)" "0 < tk_line (tokens ! i)"
    using lines by (auto simp: line_bound_def lines_ordered_def list_all_length Suc_le_eq)
  have "pass_ok n tokens i st' \<and> i \<le> j"
    using ok assms(4) unfolding now(1)
    by (auto simp: parse_word_def Let_def open_scope_def outline_declaration outline_close now(2)
        outline_push_relationship split: option.splits if_splits dest: next_identifier_ge)
  then show ?thesis using pass_later lines(1) by blast
qed

lemma pass_parse_step:
  assumes ok: "pass_ok n tokens i st" and lines: "lines_ordered n tokens" "i < length tokens"
    and step: "parse_step source masked tokens i st = Some (j, st')"
  shows "pass_ok n tokens j st'"
proof -
  have now: "line_bound n tokens i = tk_line (tokens ! i)" "0 < tk_line (tokens ! i)"
    using lines by (auto simp: line_bound_def lines_ordered_def list_all_length Suc_le_eq)
  have adv: "i < j" by (rule parse_step_advances [OF step])
  obtain w where w: "token_text masked (tokens ! i) = Some w"
    using step by (auto simp: parse_step_def Let_def split: option.splits)
  consider (attribute) st'' where "st' = st\<lparr>ps_pending_test := st''\<rparr>"
    | (import) stop where "use_close masked tokens i w = Some (Some stop)" "j = stop + 1"
        "parse_use source (tokens ! i) (tokens ! stop) st = Some st'"
    | (word) "parse_word masked tokens i w st = Some (j, st')"
    using step w by (auto simp: parse_step_def Let_def split: option.splits)
  then show ?thesis
  proof cases
    case attribute
    then have "pass_ok n tokens i st'" using ok by simp
    then show ?thesis using pass_later lines(1) adv less_imp_le by blast
  next
    case import
    have stop: "i \<le> stop" "stop < length tokens"
      using import(1) by (auto simp: use_close_def split: if_splits dest: find_semicolon_ge)
    have le: "tk_line (tokens ! i) \<le> tk_line (tokens ! stop)"
      using line_bound_mono [OF lines(1) stop(1)] stop now(1) by (simp add: line_bound_def)
    have "outline_ok (tk_line (tokens ! i)) (tk_line (tokens ! stop)) st"
      using le by (rule outline_mono [OF ok [unfolded now(1)] order_refl])
    then have "outline_ok (tk_line (tokens ! i)) (tk_line (tokens ! stop)) st'"
      by (rule outline_parse_use [OF import(3)]) (simp_all add: now(2) le)
    then have "pass_ok n tokens stop st'"
      using stop le by (simp add: line_bound_def outline_mono)
    then show ?thesis using pass_later lines(1) import(2) by fastforce
  next
    case word
    then show ?thesis by (rule pass_parse_word [OF ok lines])
  qed
qed

lemma pass_parse_loop:
  "pass_ok n tokens i st \<Longrightarrow> lines_ordered n tokens \<Longrightarrow>
   parse_loop source masked tokens i st = Some st' \<Longrightarrow> outline_ok n n st'"
proof (induction source masked tokens i st rule: parse_loop.induct)
  case (1 source masked tokens i st)
  show ?case
  proof (cases "i < length tokens")
    case True
    obtain j st'' where step: "parse_step source masked tokens i st = Some (j, st'')"
      and rest: "parse_loop source masked tokens j st'' = Some st'"
      using 1(4) True by (subst (asm) parse_loop.simps) (auto split: option.splits)
    show ?thesis
      by (rule 1(1) [OF True step refl pass_parse_step [OF 1(2,3) True step] 1(3) rest])
  next
    case False
    then have "st' = st" using 1(4) by (subst (asm) parse_loop.simps) simp
    then show ?thesis using 1(2) False by (simp add: line_bound_def)
  qed
qed

lemma line_at_mono: "i \<le> j \<Longrightarrow> line_at s i \<le> line_at s j"
proof -
  assume "i \<le> j"
  then have "take j s = take i s @ take (j - i) (drop i s)"
    by (metis le_add_diff_inverse take_add)
  then show ?thesis by (simp add: line_at_def)
qed

lemma tokenize_lines: "lines_ordered (line_at s (length s)) (tokenize s)"
proof -
  have ok: "list_all (token_ok s) (tokenize s)" and order: "sorted_wrt (\<lambda>a b. tk_end a \<le> tk_start b) (tokenize s)"
    using tokenize_ok [of s] by simp_all
  have "sorted_wrt (\<lambda>a b. tk_line a \<le> tk_line b) (tokenize s)"
  proof (rule sorted_wrt_mono_rel [OF _ order])
    fix a b assume ab: "a \<in> set (tokenize s)" "b \<in> set (tokenize s)" "tk_end a \<le> tk_start b"
    then have "token_ok s a" "token_ok s b" using ok by (auto simp: list_all_iff)
    then show "tk_line a \<le> tk_line b" using ab(3) by (simp add: token_ok_def line_at_mono)
  qed
  moreover have "1 \<le> line_at s i" for i by (simp add: line_at_def)
  ultimately show ?thesis
    using ok by (auto simp: lines_ordered_def sorted_map token_ok_def list_all_iff intro!: line_at_mono)
qed

lemma outline_bounds:
  assumes "parse_rust_symbols source = Some (symbols, relations)"
  shows "length symbols \<le> 512 \<and> length relations \<le> 256
    \<and> symbols_to (line_at (mask_rust source) (length (mask_rust source)))
        (line_at (mask_rust source) (length (mask_rust source))) symbols"
proof -
  define masked where "masked = mask_rust source"
  obtain st where st: "parse_loop source masked (tokenize masked) 0 parse_start = Some st"
    "symbols = ps_symbols st" "relations = ps_relationships st"
    using assms by (auto simp: parse_rust_symbols_def Let_def masked_def)
  have "pass_ok (line_at masked (length masked)) (tokenize masked) 0 parse_start"
    by (simp add: outline_ok_def parse_start_def symbols_to_def)
  from pass_parse_loop [OF this tokenize_lines st(1)] show ?thesis
    by (simp add: st outline_ok_def symbol_limits masked_def)
qed

end
