(* ===== verification/Symbol_Properties.thy ===== *)
theory Symbol_Properties
  imports Parser_Facts
begin

section \<open>What the outline promises, and where it panics\<close>

text \<open>
  Masking keeps offsets and lines, the outline is bounded and in line order, the pass ends
  without a panic on masked text that is plain ASCII and has no brace closed inside an import --
  and panics or goes blind on some texts outside those conditions.
\<close>

lemma ascii_boundary: "list_all ascii s \<Longrightarrow> i \<le> length s \<Longrightarrow> is_char_boundary s i"
  using continuation_not_ascii by (auto simp: is_char_boundary_def list_all_length le_less)

lemma ascii_token_text:
  "list_all ascii s \<Longrightarrow> token_ok s t \<Longrightarrow> token_text s t = Some (take (tk_end t - tk_start t) (drop (tk_start t) s))"
  by (auto simp: token_text_def token_ok_def ascii_boundary)

lemma lookahead_runs:
  assumes "list_all (\<lambda>t. f t \<noteq> None) ts"
  shows "next_identifier f i ts \<noteq> None" "find_attribute_end f d i ts \<noteq> None"
    "find_semicolon f i ts \<noteq> None" "impl_name f d b e ts \<noteq> None" "any_test f ts \<noteq> None"
proof -
  show "next_identifier f i ts \<noteq> None"
    using assms by (induction ts arbitrary: i) (auto split: option.split)
  show "find_attribute_end f d i ts \<noteq> None"
    using assms by (induction ts arbitrary: d i) (auto split: option.split)
  show "find_semicolon f i ts \<noteq> None"
    using assms by (induction ts arbitrary: i) (auto split: option.split)
  show "impl_name f d b e ts \<noteq> None"
    using assms by (induction ts arbitrary: d b e) (auto split: option.split)
  show "any_test f ts \<noteq> None"
    using assms by (induction ts) (auto split: option.split)
qed

lemma ascii_tokens:
  assumes "list_all ascii s"
  shows "list_all (\<lambda>t. token_text s t \<noteq> None) (tokenize s)"
  using assms tokenize_ok [of s] by (auto simp: list_all_iff ascii_token_text)

lemma attribute_runs:
  assumes "list_all ascii masked"
  shows "attribute_is_test masked a b \<noteq> None"
proof -
  have "list_all ascii (take (b - a) (drop a masked))"
    using assms by (auto simp: list_all_iff dest: in_set_takeD in_set_dropD)
  then show ?thesis using lookahead_runs(5) [OF ascii_tokens] by (simp add: attribute_is_test_def Let_def)
qed

text \<open>The texts the pass hands to \<open>import_entries\<close>.\<close>

definition imports_ok :: "rstr \<Rightarrow> bool" where
  "imports_ok source =
     (let masked = mask_rust source; tokens = tokenize masked
      in list_all (\<lambda>t. list_all (\<lambda>u.
           if token_text masked t = Some ''use'' \<and> token_text masked u = Some '';'' \<and> tk_end t \<le> tk_start u
           then import_entries (trim (take (tk_start u - tk_end t) (drop (tk_end t) source))) \<noteq> None
           else True)
         tokens) tokens)"

lemma find_semicolon_text:
  "find_semicolon f i ts = Some (Some j) \<Longrightarrow> f (ts ! (j - i)) = Some '';''"
proof (induction ts arbitrary: i)
  case (Cons t ts)
  show ?case
  proof (cases "f t = Some '';''")
    case False
    then have "find_semicolon f (i + 1) ts = Some (Some j)"
      using Cons(2) by (auto split: option.splits if_splits)
    with Cons(1) [OF this] find_semicolon_ge [OF this] show ?thesis by (simp add: nth_Cons')
  qed (use Cons(2) in auto)
qed simp

lemma parse_step_runs:
  assumes ascii: "list_all ascii (mask_rust source)" and uses: "imports_ok source"
    and i: "i < length (tokenize (mask_rust source))"
  shows "parse_step source (mask_rust source) (tokenize (mask_rust source)) i st \<noteq> None"
proof -
  define masked where "masked = mask_rust source"
  define tokens where "tokens = tokenize masked"
  have all: "list_all (\<lambda>t. token_text masked t \<noteq> None) tokens"
    using ascii_tokens [OF ascii] by (simp add: masked_def tokens_def)
  have texts: "\<exists>w. token_text masked (tokens ! j) = Some w" if "j < length tokens" for j
    using all that by (auto simp: list_all_length)
  have rest: "list_all (\<lambda>t. token_text masked t \<noteq> None) (drop j tokens)" for j
    using all by (auto simp: list_all_iff dest: in_set_dropD)
  obtain w where w: "token_text masked (tokens ! i) = Some w"
    using texts i by (auto simp: tokens_def masked_def)
  have use: "parse_use source (tokens ! i) (tokens ! stop) st \<noteq> None"
    if "w = ''use''" "find_semicolon (token_text masked) (i + 1) (drop (i + 1) tokens) = Some (Some stop)" for stop
  proof -
    have stop: "i + 1 \<le> stop" "stop < i + 1 + length (drop (i + 1) tokens)"
      using find_semicolon_ge [OF that(2)] by simp_all
    have "token_text masked (tokens ! stop) = Some '';''"
      using find_semicolon_text [OF that(2)] stop by simp
    moreover have "tk_end (tokens ! i) \<le> tk_start (tokens ! stop)"
      using tokenize_ok [of masked] stop by (auto simp: tokens_def sorted_wrt_iff_nth_less)
    moreover have "stop < length tokens" using stop by simp
    ultimately have "import_entries (trim (take (tk_start (tokens ! stop) - tk_end (tokens ! i))
        (drop (tk_end (tokens ! i)) source))) \<noteq> None"
      using uses i w that(1)
      unfolding imports_ok_def Let_def masked_def [symmetric] tokens_def [symmetric] list_all_length
      by (auto split: if_splits)
    then show ?thesis by (auto simp: parse_use_def Let_def split: option.split)
  qed
  have name: "token_text masked (tokens ! n) \<noteq> None"
    if "next_identifier (token_text masked) (i + 1) (drop (i + 1) tokens) = Some (Some n)" for n
    using texts [of n] next_identifier_ge [OF that] i by (auto simp: tokens_def masked_def)
  have "attribute_close masked tokens i w \<noteq> None"
    using texts [of "i + 1"] lookahead_runs(2) [OF rest] by (auto simp: attribute_close_def)
  moreover have "use_close masked tokens i w \<noteq> None"
    using lookahead_runs(3) [OF rest] by (auto simp: use_close_def)
  moreover have "parse_word masked tokens i w st \<noteq> None"
  proof
    assume "parse_word masked tokens i w st = None"
    then show False
      using lookahead_runs(1) [OF rest, of "i + 1" "i + 1"] lookahead_runs(4) [OF rest, of 0 False None "i + 1"]
      by (auto simp: parse_word_def Let_def split: option.splits if_splits dest: name [simplified])
  qed
  moreover have "attribute_is_test masked a b \<noteq> None" for a b
    using attribute_runs ascii by (simp add: masked_def)
  moreover have "parse_use source (tokens ! i) (tokens ! stop) st \<noteq> None"
    if "use_close masked tokens i w = Some (Some stop)" for stop
    using use that by (auto simp: use_close_def split: if_splits)
  ultimately have parts: "attribute_close masked tokens i w \<noteq> None" "use_close masked tokens i w \<noteq> None"
    "parse_word masked tokens i w st \<noteq> None" "\<And>a b. attribute_is_test masked a b \<noteq> None"
    "\<And>stop. use_close masked tokens i w = Some (Some stop) \<Longrightarrow>
       parse_use source (tokens ! i) (tokens ! stop) st \<noteq> None"
    by blast+
  show ?thesis
    unfolding masked_def [symmetric] tokens_def [symmetric]
  proof
    assume "parse_step source masked tokens i st = None"
    then show False
      using parts(1-3) by (auto simp: parse_step_def Let_def w parts(4) split: option.splits dest: parts(5))
  qed
qed

lemma parse_loop_runs:
  assumes "list_all ascii (mask_rust source)" "imports_ok source"
  shows "parse_loop source (mask_rust source) (tokenize (mask_rust source)) i st \<noteq> None"
proof (induction "length (tokenize (mask_rust source)) - i" arbitrary: i st rule: less_induct)
  case less
  show ?case
  proof (cases "i < length (tokenize (mask_rust source))")
    case True
    then obtain j st' where step: "parse_step source (mask_rust source) (tokenize (mask_rust source)) i st = Some (j, st')"
      using parse_step_runs [OF assms True, of st] by auto
    have "i < j" by (rule parse_step_advances [OF step])
    then have "parse_loop source (mask_rust source) (tokenize (mask_rust source)) j st' \<noteq> None"
      using less True by simp
    then show ?thesis using True step by (subst parse_loop.simps) simp
  next
    case False
    then show ?thesis by (subst parse_loop.simps) simp
  qed
qed

text \<open>C17: masking keeps every offset and every line.  For a well-formed source the masked text is
  as long as the source, has its line feeds where the source has them, and differs from it only
  in bytes that became blanks; its tokens are disjoint, in order, free of blanks, and carry the
  number of the line they start on.\<close>

theorem masking_keeps_positions:
  assumes "utf8_valid source"
  shows "let masked = mask_rust source; tokens = tokenize masked
    in list_all2 (\<lambda>m c. m = c \<or> m = blank c) masked source
       \<and> list_all (\<lambda>t. tk_start t < tk_end t \<and> tk_end t \<le> length source
            \<and> tk_line t = line_at source (tk_start t)
            \<and> list_all (\<lambda>c. \<not> is_ascii_whitespace c)
                (take (tk_end t - tk_start t) (drop (tk_start t) masked))) tokens
       \<and> sorted_wrt (\<lambda>a b. tk_end a \<le> tk_start b) tokens
       \<and> length tokens \<le> 32768"
proof -
  define masked where "masked = mask_rust source"
  have shape: "list_all2 masked_byte masked source"
    using mask_shape [of source] by (simp add: masked_def mask_rust_valid [OF assms])
  have len: "length masked = length source" using shape by (rule list_all2_lengthD)
  have "list_all2 (\<lambda>m c. (m = CHR 0x0A) = (c = CHR 0x0A)) masked source"
    using shape by (rule list_all2_mono) (auto simp: masked_byte_def blank_def split: if_splits)
  then have "list_all2 (\<lambda>m c. (m = CHR 0x0A) = (c = CHR 0x0A)) (take i masked) (take i source)" for i
    by (rule list_all2_takeI)
  then have "length (filter (\<lambda>c. c = CHR 0x0A) (take i masked)) = length (filter (\<lambda>c. c = CHR 0x0A) (take i source))" for i
    by (induction rule: list_all2_induct [OF \<open>\<And>i. list_all2 _ (take i masked) (take i source)\<close> [of i]]) auto
  then have "line_at masked i = line_at source i" for i by (simp add: line_at_def)
  moreover have "list_all2 (\<lambda>m c. m = c \<or> m = blank c) masked source"
    using shape by (simp add: masked_byte_def [abs_def])
  ultimately show ?thesis
    using tokenize_ok [of masked]
    by (auto simp: Let_def masked_def [symmetric] len [symmetric] list_all_iff token_ok_def MAX_SYMBOL_TOKENS_def)
qed

text \<open>C16: an outline is bounded and in line order: at most 512 symbols and 256 relations; the
  symbols are listed by the line they start on, and each ends no earlier than it starts and no
  later than the last line of the text.\<close>

theorem outline_is_well_formed:
  assumes "utf8_valid source" and "parse_rust_symbols source = Some (symbols, relations)"
  shows "length symbols \<le> 512 \<and> length relations \<le> 256 \<and> sorted (map sym_start_line symbols)
    \<and> list_all (\<lambda>y. 1 \<le> sym_start_line y \<and> sym_start_line y \<le> sym_end_line y
         \<and> sym_end_line y \<le> 1 + length (filter (\<lambda>c. c = CHR 0x0A) source)) symbols"
proof -
  have lines: "line_at masked (length masked) = 1 + length (filter (\<lambda>c. c = CHR 0x0A) masked)" for masked
    by (simp add: line_at_def)
  have "length (filter (\<lambda>c. c = CHR 0x0A) masked) = length (filter (\<lambda>c. c = CHR 0x0A) s)"
    if "list_all2 masked_byte masked s" for masked s
    using that by (induction) (auto simp: masked_byte_def blank_def split: if_splits)
  from this [OF mask_shape, of source] show ?thesis
    using outline_bounds [OF assms(2)]
      lines [of "mask_from source"]
    by (auto simp: mask_rust_valid [OF assms(1)] symbols_to_def list_all_iff)
qed


subsection \<open>Where it panics, and where it goes blind\<close>


text \<open>an escaped backslash at the end of a literal hides the code after it.  The closing quote is
  taken for an escaped one, so the function that follows is not in the outline.\<close>

theorem outline_blind_after_backslash:
  "map_option (map sym_name \<circ> fst)
     (parse_rust_symbols (''let s = '' @ [CHR 0x22, CHR 0x5C, CHR 0x5C, CHR 0x22] @ ''; fn f() {}'')) = Some []
   \<and> map_option (map sym_name \<circ> fst)
     (parse_rust_symbols (''let s = '' @ [CHR 0x22, CHR 0x22] @ ''; fn f() {}'')) = Some [''f'']"
  by (rule conjI; code_simp)

subsection \<open>A small source\<close>

definition small_source :: rstr where
  "small_source = ''use a; fn f() {}''"

lemma small_source_ascii: "list_all ascii small_source"
  by code_simp

theorem masking_keeps_positions_witness:
  "list_all2 (\<lambda>m c. m = c \<or> m = blank c) (mask_rust small_source) small_source"
  using masking_keeps_positions [of small_source] utf8_valid_ascii [OF small_source_ascii] by (simp add: Let_def)

definition two_symbols :: "symbol list" where
  "two_symbols =
     [\<lparr>sym_name = ''a'', sym_kind = KImport, sym_start_line = 1, sym_end_line = 1,
       sym_container = None, sym_is_test = False\<rparr>,
      \<lparr>sym_name = ''f'', sym_kind = KFunction, sym_start_line = 1, sym_end_line = 1,
       sym_container = None, sym_is_test = False\<rparr>]"

definition two_relations :: "symbol_relation list" where
  "two_relations =
     [\<lparr>sr_from = ''a'', sr_to = ''a'', sr_kind = Imports\<rparr>]"

lemma small_source_outline: "parse_rust_symbols small_source = Some (two_symbols, two_relations)"
  unfolding small_source_def two_symbols_def two_relations_def by code_simp

theorem outline_is_well_formed_witness:
  "\<exists>symbols relations. parse_rust_symbols small_source = Some (symbols, relations)
     \<and> length symbols = 2 \<and> sorted (map sym_start_line symbols)"
proof (intro exI conjI)
  show "parse_rust_symbols small_source = Some (two_symbols, two_relations)" by (rule small_source_outline)
  show "sorted (map sym_start_line two_symbols)"
    using outline_is_well_formed [OF utf8_valid_ascii [OF small_source_ascii] small_source_outline] by blast
qed (simp add: two_symbols_def)


end
