(* ===== verification/Symbol_Index.thy ===== *)
theory Symbol_Index
  imports Symbol_Parser Repo_Types
begin

section \<open>The symbol index and its relationships (symbol\_index.rs)\<close>

text \<open>
  The files the index holds, and the lexical evidence kept beside them: for each name, where it
  is defined, called, implemented, imported or tested.  A \<open>BTreeMap\<close> is its list of entries in
  the order of the keys; paths are ordered by their components, and are texts without repeated
  or trailing separators, as Git writes them, so that equal paths are equal texts.  Where a
  \<open>sort_unstable_by\<close> leaves entries with equal keys in an unspecified order, the model keeps
  them in the order they came.
\<close>

definition MAX_SYMBOL_FILES :: nat where "MAX_SYMBOL_FILES = 128"

subsection \<open>Ordered maps\<close>

fun bt_put :: "('k \<Rightarrow> 'o::linorder) \<Rightarrow> 'k \<Rightarrow> 'v \<Rightarrow> ('k \<times> 'v) list \<Rightarrow> ('k \<times> 'v) list" where
  "bt_put ord k v [] = [(k, v)]"
| "bt_put ord k v ((k', v') # m) =
     (if k = k' then (k, v) # m
      else if ord k < ord k' then (k, v) # (k', v') # m
      else (k', v') # bt_put ord k v m)"

definition bt_del :: "'k \<Rightarrow> ('k \<times> 'v) list \<Rightarrow> ('k \<times> 'v) list" where
  "bt_del k m = filter (\<lambda>e. fst e \<noteq> k) m"

definition bt_list :: "('k \<times> 'v list) list \<Rightarrow> 'k \<Rightarrow> 'v list" where
  "bt_list m k = (case map_of m k of None \<Rightarrow> [] | Some vs \<Rightarrow> vs)"

subsection \<open>Files\<close>

datatype symbol_language = LangRust | LangTypeScript | LangPython | LangUnsupported

definition language_for_path :: "rstr \<Rightarrow> symbol_language" where
  "language_for_path path =
     (case path_extension path of
        None \<Rightarrow> LangUnsupported
      | Some e \<Rightarrow>
          if e = ''rs'' then LangRust
          else if e \<in> {''ts'', ''tsx'', ''js'', ''jsx''} then LangTypeScript
          else if e = ''py'' then LangPython
          else LangUnsupported)"

record symbol_file =
  sf_path :: rstr
  sf_language :: symbol_language
  sf_content_hash :: rstr
  sf_symbols :: "symbol list"
  sf_relationships :: "symbol_relation list"
  sf_truncated :: bool
  sf_readable :: bool

text \<open>\<open>parse_source\<close>, with the hash function as a parameter; \<open>None\<close> is a panic of the outline.\<close>

definition parse_source :: "(rstr \<Rightarrow> rstr) \<Rightarrow> rstr \<Rightarrow> rstr \<Rightarrow> bool \<Rightarrow> symbol_file option" where
  "parse_source blake path source was_cut =
     map_option (\<lambda>(symbols, relationships).
         \<lparr>sf_path = path, sf_language = language_for_path path, sf_content_hash = blake source,
          sf_symbols = symbols, sf_relationships = relationships, sf_truncated = was_cut,
          sf_readable = True\<rparr>)
       (if language_for_path path = LangRust then parse_rust_symbols source else Some ([], []))"

definition index_stem :: "rstr \<Rightarrow> rstr option" where
  "index_stem path = map_option (trim_end_matches ''_test'') (path_file_stem path)"

definition index_is_test_path :: "rstr \<Rightarrow> bool" where
  "index_is_test_path path =
     (Normal ''tests'' \<in> set (path_components path)
      \<or> (case path_file_stem path of
           None \<Rightarrow> False
         | Some stem \<Rightarrow> starts_with stem ''test_'' \<or> ends_with stem ''_test''))"

definition symbol_key :: "rstr \<Rightarrow> rstr" where
  "symbol_key value = to_ascii_lowercase (trim value)"

subsection \<open>Evidence\<close>

record relationship_evidence =
  rv_path :: rstr
  rv_symbol_index :: "nat option"
  rv_kind :: symbol_relationship_kind

record relationship_index =
  ri_by_key :: "(rstr \<times> relationship_evidence list) list"
  ri_contributions :: "(rstr \<times> (rstr \<times> relationship_evidence) list) list"
  ri_source_by_stem :: "(rstr \<times> rstr list) list"
  ri_test_by_stem :: "(rstr \<times> rstr list) list"
  ri_stems_by_path :: "(rstr \<times> (bool \<times> rstr)) list"

definition relationship_index_default :: relationship_index where
  "relationship_index_default =
     \<lparr>ri_by_key = [], ri_contributions = [], ri_source_by_stem = [], ri_test_by_stem = [],
      ri_stems_by_path = []\<rparr>"

definition evidence_order :: "relationship_evidence \<Rightarrow> (nat \<times> rstr) list \<times> nat \<times> nat" where
  "evidence_order e =
     (path_order (rv_path e), (case rv_symbol_index e of None \<Rightarrow> 0 | Some i \<Rightarrow> i + 1),
      relationship_rank (rv_kind e))"

text \<open>One piece of evidence under a name; the second component lists what the file contributed.\<close>

definition add_contribution ::
    "(rstr \<times> relationship_evidence list) list \<times> (rstr \<times> relationship_evidence) list
     \<Rightarrow> rstr \<times> relationship_evidence
     \<Rightarrow> (rstr \<times> relationship_evidence list) list \<times> (rstr \<times> relationship_evidence) list" where
  "add_contribution acc c =
     (let (by_key, contributions) = acc; (key, evidence) = c
      in if key = [] then (by_key, contributions)
         else
           (let values = bt_list by_key key;
                values = (if evidence \<in> set values then values
                          else take MAX_SYMBOL_RELATIONSHIP_FANOUT (sort_key evidence_order (values @ [evidence])))
            in (bt_put (\<lambda>k. k) key values by_key,
                if evidence \<in> set values then contributions @ [(key, evidence)] else contributions)))"

definition remove_evidence ::
    "(rstr \<times> relationship_evidence list) list \<Rightarrow> rstr \<times> relationship_evidence
     \<Rightarrow> (rstr \<times> relationship_evidence list) list" where
  "remove_evidence by_key c =
     (case map_of by_key (fst c) of
        None \<Rightarrow> by_key
      | Some values \<Rightarrow>
          (let values = filter (\<lambda>v. v \<noteq> snd c) values
           in if values = [] then bt_del (fst c) by_key else bt_put (\<lambda>k. k) (fst c) values by_key))"

definition insert_path :: "rstr \<Rightarrow> rstr \<Rightarrow> (rstr \<times> rstr list) list \<Rightarrow> (rstr \<times> rstr list) list" where
  "insert_path stem path paths =
     (let values = bt_list paths stem
      in bt_put (\<lambda>k. k) stem
           (if path \<in> set values then values
            else take MAX_SYMBOL_RELATIONSHIP_FANOUT (sort_key path_order (values @ [path]))) paths)"

definition remove_path_from_stem :: "rstr \<Rightarrow> rstr \<Rightarrow> (rstr \<times> rstr list) list \<Rightarrow> (rstr \<times> rstr list) list" where
  "remove_path_from_stem stem path paths =
     (case map_of paths stem of
        None \<Rightarrow> paths
      | Some values \<Rightarrow>
          (let values = filter (\<lambda>v. v \<noteq> path) values
           in if values = [] then bt_del stem paths else bt_put (\<lambda>k. k) stem values paths))"

subsection \<open>What a file contributes\<close>

lemma rfind_str_bound: "rfind_str s p = Some i \<Longrightarrow> i + length p \<le> length s"
proof (induction s arbitrary: i)
  case (Cons c s)
  then show ?case
    using starts_with_decomp [of "c # s" p] arg_cong [of "c # s" _ length]
    by (auto split: option.splits if_splits) (metis le_add1 length_Cons length_append)
qed (auto split: if_splits)

function rsplit_colons :: "rstr \<Rightarrow> rstr list" where
  "rsplit_colons s =
     (case rfind_str s ''::'' of None \<Rightarrow> [s] | Some i \<Rightarrow> drop (i + 2) s # rsplit_colons (take i s))"
  by pat_completeness auto
termination
  by (relation "measure length") (auto dest!: rfind_str_bound)

declare rsplit_colons.simps [simp del]

definition position_of :: "('a \<Rightarrow> bool) \<Rightarrow> 'a list \<Rightarrow> nat option" where
  "position_of P xs = find (\<lambda>i. P (xs ! i)) [0..<length xs]"

definition symbol_contributions :: "rstr \<Rightarrow> nat \<times> symbol \<Rightarrow> (rstr \<times> relationship_evidence) list" where
  "symbol_contributions path e =
     (let (i, s) = e
      in if sym_kind s = KImport then []
         else
           (symbol_key (sym_name s),
            \<lparr>rv_path = path, rv_symbol_index = Some i,
             rv_kind = (if sym_kind s = KModule then RModule
                        else if sym_is_test s then RTest else RDefinition)\<rparr>)
           # (case sym_container s of
                None \<Rightarrow> []
              | Some container \<Rightarrow>
                  if sym_kind s = KMethod then
                    [(symbol_key container, \<lparr>rv_path = path, rv_symbol_index = Some i, rv_kind = RImplementation\<rparr>)]
                  else []))"

definition import_contributions ::
    "rstr \<Rightarrow> symbol list \<Rightarrow> symbol_relation \<Rightarrow> (rstr \<times> relationship_evidence) list" where
  "import_contributions path symbols r =
     (let found = position_of (\<lambda>s. sym_name s = sr_from r) symbols;
          target_key = symbol_key (sr_to r);
          dependency = \<lparr>rv_path = path, rv_symbol_index = found, rv_kind = RDependency\<rparr>
      in (target_key, dependency)
         # (case find (\<lambda>part. part \<noteq> []) (rsplit_colons (sr_to r)) of
              None \<Rightarrow> []
            | Some final \<Rightarrow> if symbol_key final \<noteq> target_key then [(symbol_key final, dependency)] else [])
         @ (case found of
              None \<Rightarrow> []
            | Some i \<Rightarrow>
                [(symbol_key (sym_name (symbols ! i)),
                  \<lparr>rv_path = path, rv_symbol_index = Some i, rv_kind = RImport\<rparr>)]))"

definition relation_contributions ::
    "rstr \<Rightarrow> bool \<Rightarrow> symbol list \<Rightarrow> symbol_relation \<Rightarrow> (rstr \<times> relationship_evidence) list" where
  "relation_contributions path test_file symbols r =
     (let owner = position_of (\<lambda>s. sym_name s = sr_from r) symbols
      in case sr_kind r of
           References \<Rightarrow>
             [(symbol_key (sr_to r),
               \<lparr>rv_path = path, rv_symbol_index = owner,
                rv_kind = (if test_file \<or> (case owner of None \<Rightarrow> False | Some i \<Rightarrow> sym_is_test (symbols ! i))
                           then RTest else RCaller)\<rparr>)]
         | Implements \<Rightarrow>
             [(symbol_key (sr_to r), \<lparr>rv_path = path, rv_symbol_index = owner, rv_kind = RImplementation\<rparr>)]
         | Imports \<Rightarrow> import_contributions path symbols r
         | Contains \<Rightarrow> [])"

definition file_contributions :: "bool \<Rightarrow> symbol_file \<Rightarrow> (rstr \<times> relationship_evidence) list" where
  "file_contributions test_file file =
     concat (map (symbol_contributions (sf_path file)) (zip [0..<length (sf_symbols file)] (sf_symbols file)))
     @ concat (map (relation_contributions (sf_path file) test_file (sf_symbols file)) (sf_relationships file))"

subsection \<open>The relationship index\<close>

definition relationship_remove_file :: "rstr \<Rightarrow> relationship_index \<Rightarrow> relationship_index" where
  "relationship_remove_file path ri =
     (let ri = (case map_of (ri_contributions ri) path of
                  None \<Rightarrow> ri
                | Some contributions \<Rightarrow>
                    ri\<lparr>ri_contributions := bt_del path (ri_contributions ri),
                       ri_by_key := foldl remove_evidence (ri_by_key ri) contributions\<rparr>)
      in case map_of (ri_stems_by_path ri) path of
           None \<Rightarrow> ri
         | Some (test_file, stem) \<Rightarrow>
             (let ri = ri\<lparr>ri_stems_by_path := bt_del path (ri_stems_by_path ri)\<rparr>
              in if test_file
                 then ri\<lparr>ri_test_by_stem := remove_path_from_stem stem path (ri_test_by_stem ri)\<rparr>
                 else ri\<lparr>ri_source_by_stem := remove_path_from_stem stem path (ri_source_by_stem ri)\<rparr>))"

definition relationship_insert_file :: "symbol_file \<Rightarrow> relationship_index \<Rightarrow> relationship_index" where
  "relationship_insert_file file ri =
     (let path = sf_path file;
          ri = relationship_remove_file path ri;
          test_file = (index_is_test_path path \<or> list_ex sym_is_test (sf_symbols file));
          ri = (case index_stem path of
                  None \<Rightarrow> ri
                | Some stem \<Rightarrow>
                    (let ri = (if test_file
                               then ri\<lparr>ri_test_by_stem := insert_path stem path (ri_test_by_stem ri)\<rparr>
                               else ri\<lparr>ri_source_by_stem := insert_path stem path (ri_source_by_stem ri)\<rparr>)
                     in ri\<lparr>ri_stems_by_path := bt_put path_order path (test_file, stem) (ri_stems_by_path ri)\<rparr>));
          (by_key, contributions) = foldl add_contribution (ri_by_key ri, []) (file_contributions test_file file)
      in ri\<lparr>ri_by_key := by_key,
            ri_contributions := bt_put path_order path contributions (ri_contributions ri)\<rparr>)"

definition entry_count :: "relationship_index \<Rightarrow> nat" where
  "entry_count ri = sum_list (map (length \<circ> snd) (ri_by_key ri))"

subsection \<open>The index of files\<close>

record symbol_index =
  si_files :: "(rstr \<times> symbol_file) list"
  si_max_files :: nat
  si_relationships :: relationship_index

definition index_new :: symbol_index where
  "index_new = \<lparr>si_files = [], si_max_files = MAX_SYMBOL_FILES, si_relationships = relationship_index_default\<rparr>"

definition index_clear :: "symbol_index \<Rightarrow> symbol_index" where
  "index_clear ix = ix\<lparr>si_files := [], si_relationships := relationship_index_default\<rparr>"

definition symbol_count :: "symbol_index \<Rightarrow> nat" where
  "symbol_count ix = sum_list (map (length \<circ> sf_symbols \<circ> snd) (si_files ix))"

definition index_file_at :: "symbol_index \<Rightarrow> rstr \<Rightarrow> symbol_file option" where
  "index_file_at ix path = map_of (si_files ix) path"

text \<open>When the index is full the first path in path order goes, the \<open>oldest\<close> of the code.\<close>

definition index_insert :: "symbol_file \<Rightarrow> symbol_index \<Rightarrow> symbol_index" where
  "index_insert file ix =
     (let ri = relationship_remove_file (sf_path file) (si_relationships ix);
          full = (map_of (si_files ix) (sf_path file) = None \<and> si_max_files ix \<le> length (si_files ix))
      in if full \<and> si_files ix = [] then ix\<lparr>si_relationships := ri\<rparr>
         else
           (let (files, ri) =
                  (if full then
                     (let oldest = fst (hd (si_files ix))
                      in (bt_del oldest (si_files ix), relationship_remove_file oldest ri))
                   else (si_files ix, ri))
            in ix\<lparr>si_files := bt_put path_order (sf_path file) file files,
                  si_relationships := relationship_insert_file file ri\<rparr>))"

definition index_file :: "(rstr \<Rightarrow> rstr) \<Rightarrow> rstr \<Rightarrow> rstr \<Rightarrow> symbol_index \<Rightarrow> (symbol_file \<times> symbol_index) option" where
  "index_file blake path source ix =
     map_option (\<lambda>file. (file, index_insert file ix)) (parse_source blake path source False)"

definition index_file_hashed ::
    "(rstr \<Rightarrow> rstr) \<Rightarrow> rstr \<Rightarrow> rstr \<Rightarrow> rstr \<Rightarrow> bool \<Rightarrow> symbol_index \<Rightarrow> (symbol_file \<times> symbol_index) option" where
  "index_file_hashed blake path source content_hash was_cut ix =
     map_option (\<lambda>file. let file = file\<lparr>sf_content_hash := content_hash\<rparr> in (file, index_insert file ix))
       (parse_source blake path source was_cut)"

definition index_remove_file :: "rstr \<Rightarrow> symbol_index \<Rightarrow> symbol_file option \<times> symbol_index" where
  "index_remove_file path ix =
     (map_of (si_files ix) path,
      ix\<lparr>si_relationships := relationship_remove_file path (si_relationships ix),
         si_files := bt_del path (si_files ix)\<rparr>)"

subsection \<open>Looking up symbols\<close>

definition starts_with_ignoring_case :: "rstr \<Rightarrow> rstr \<Rightarrow> bool" where
  "starts_with_ignoring_case value p =
     (length p \<le> length value \<and> is_char_boundary value (length p)
      \<and> eq_ignore_ascii_case (take (length p) value) p)"

definition contains_ignoring_case :: "rstr \<Rightarrow> rstr \<Rightarrow> bool" where
  "contains_ignoring_case value needle =
     (length needle \<le> length value
      \<and> list_ex (\<lambda>i. eq_ignore_ascii_case (take (length needle) (drop i value)) needle)
          [0..<length value - length needle + 1])"

definition path_separator :: "char \<Rightarrow> bool" where
  "path_separator c = (c \<in> {CHR ''/'', CHR 0x5C, CHR ''_'', CHR ''.'', CHR ''-''})"

definition term_value :: "symbol \<Rightarrow> rstr \<Rightarrow> rstr \<Rightarrow> nat" where
  "term_value s path term =
     (if eq_ignore_ascii_case (sym_name s) term then 100
      else if starts_with_ignoring_case (sym_name s) term then 70
      else if contains_ignoring_case (sym_name s) term then 50
      else if (case sym_container s of None \<Rightarrow> False | Some c \<Rightarrow> contains_ignoring_case c term) then 25
      else if list_ex (\<lambda>part. eq_ignore_ascii_case part term)
                (split_on CHR ''/'' (map (\<lambda>c. if path_separator c then CHR ''/'' else c) path)) then 10
      else 0)"

definition symbol_score :: "symbol \<Rightarrow> rstr \<Rightarrow> rstr list \<Rightarrow> nat" where
  "symbol_score s path terms =
     sum_list (map (term_value s path) terms)
     + (if sym_is_test s \<and> list_ex (\<lambda>term. eq_ignore_ascii_case term ''test'') terms then 8 else 0)"

definition match_order :: "nat \<Rightarrow> symbol_match \<Rightarrow> nat \<times> (nat \<times> rstr) list \<times> nat \<times> rstr" where
  "match_order highest m =
     (highest - sm_score m, path_order (sm_path m), sym_start_line (sm_symbol m), sym_name (sm_symbol m))"

definition lookup_files :: "symbol_file list \<Rightarrow> rstr \<Rightarrow> nat \<Rightarrow> symbol_match list" where
  "lookup_files files query limit =
     (let limit = min limit MAX_SYMBOL_LOOKUP_RESULTS; terms = query_words 16 query
      in if limit = 0 \<or> trim query = [] \<or> terms = [] then []
         else
           (let matches = concat (map (\<lambda>file.
                  map (\<lambda>s. \<lparr>sm_path = sf_path file, sm_symbol = s, sm_score = symbol_score s (sf_path file) terms\<rparr>)
                    (filter (\<lambda>s. 0 < symbol_score s (sf_path file) terms) (sf_symbols file))) files);
                highest = foldr max (map sm_score matches) 0
            in take limit (sort_key (match_order highest) matches)))"

definition index_lookup :: "symbol_index \<Rightarrow> rstr \<Rightarrow> nat \<Rightarrow> symbol_match list" where
  "index_lookup ix query limit = lookup_files (map snd (si_files ix)) query limit"

definition index_lookup_in_paths :: "symbol_index \<Rightarrow> rstr list \<Rightarrow> rstr \<Rightarrow> nat \<Rightarrow> symbol_match list" where
  "index_lookup_in_paths ix paths query limit =
     lookup_files (List.map_filter (\<lambda>path. map_of (si_files ix) path) paths) query limit"

subsection \<open>Looking up relationships\<close>

fun relationship_score :: "symbol_relationship_kind \<Rightarrow> nat" where
  "relationship_score RDefinition = 120"
| "relationship_score RImplementation = 104"
| "relationship_score RCaller = 92"
| "relationship_score RTest = 84"
| "relationship_score RDependency = 68"
| "relationship_score RImport = 56"
| "relationship_score RModule = 48"

definition is_definition :: "relationship_evidence \<Rightarrow> bool" where
  "is_definition e = (rv_kind e = RDefinition \<or> rv_kind e = RModule)"

definition definition_count :: "relationship_index \<Rightarrow> rstr list \<Rightarrow> nat" where
  "definition_count ri keys =
     length (remdups (map (\<lambda>e. (rv_path e, rv_symbol_index e))
       (filter is_definition (concat (map (bt_list (ri_by_key ri)) keys)))))"

definition symbol_of :: "symbol_file \<Rightarrow> nat option \<Rightarrow> symbol option" where
  "symbol_of file i =
     (case i of None \<Rightarrow> None
      | Some i \<Rightarrow> if i < length (sf_symbols file) then Some (sf_symbols file ! i) else None)"

definition ranked_evidence ::
    "(rstr \<times> symbol_file) list \<Rightarrow> bool \<Rightarrow> nat \<Rightarrow> relationship_evidence \<Rightarrow> symbol_relationship_match list" where
  "ranked_evidence files ambiguous key_index e =
     (case map_of files (rv_path e) of
        None \<Rightarrow> []
      | Some file \<Rightarrow>
          [\<lparr>rm_path = rv_path e, rm_symbol = symbol_of file (rv_symbol_index e), rm_kind = rv_kind e,
            rm_score = relationship_score (rv_kind e) - key_index * 4 - (if ambiguous then 8 else 0),
            rm_ambiguous = ambiguous\<rparr>])"

definition ranked_tests ::
    "relationship_index \<Rightarrow> bool \<Rightarrow> relationship_evidence \<Rightarrow> symbol_relationship_match list" where
  "ranked_tests ri ambiguous e =
     (case index_stem (rv_path e) of
        None \<Rightarrow> []
      | Some stem \<Rightarrow>
          map (\<lambda>path. \<lparr>rm_path = path, rm_symbol = None, rm_kind = RTest,
                        rm_score = relationship_score RTest - 4, rm_ambiguous = ambiguous\<rparr>)
            (take MAX_SYMBOL_RELATIONSHIP_FANOUT (bt_list (ri_test_by_stem ri) stem)))"

definition ranked_matches ::
    "relationship_index \<Rightarrow> (rstr \<times> symbol_file) list \<Rightarrow> bool \<Rightarrow> rstr list \<Rightarrow> symbol_relationship_match list" where
  "ranked_matches ri files ambiguous keys =
     concat (map (\<lambda>(key_index, key).
         concat (map (ranked_evidence files ambiguous key_index) (bt_list (ri_by_key ri) key)))
       (zip [0..<length keys] keys))
     @ concat (map (\<lambda>key.
         concat (map (ranked_tests ri ambiguous) (filter is_definition (bt_list (ri_by_key ri) key)))) keys)"

text \<open>Names compare as optional texts: no symbol first.\<close>

definition relationship_order ::
    "nat \<Rightarrow> symbol_relationship_match \<Rightarrow> nat \<times> (nat \<times> rstr) list \<times> nat \<times> rstr list" where
  "relationship_order highest m =
     (highest - rm_score m, path_order (rm_path m), relationship_rank (rm_kind m),
      case rm_symbol m of None \<Rightarrow> [] | Some s \<Rightarrow> [sym_name s])"

text \<open>\<open>dedup_by\<close> drops an entry that repeats the one kept before it.\<close>

fun dedup_matches :: "symbol_relationship_match list \<Rightarrow> symbol_relationship_match list" where
  "dedup_matches [] = []"
| "dedup_matches [m] = [m]"
| "dedup_matches (m # n # ms) =
     (if rm_path n = rm_path m \<and> rm_kind n = rm_kind m \<and> rm_symbol n = rm_symbol m
      then dedup_matches (m # ms) else m # dedup_matches (n # ms))"

definition relationship_lookup ::
    "relationship_index \<Rightarrow> (rstr \<times> symbol_file) list \<Rightarrow> rstr \<Rightarrow> nat \<Rightarrow> symbol_relationship_match list" where
  "relationship_lookup ri files query limit =
     (let limit = min limit MAX_SYMBOL_LOOKUP_RESULTS; keys = map symbol_key (query_words 16 query)
      in if limit = 0 \<or> trim query = [] \<or> keys = [] then []
         else
           (let ranked = ranked_matches ri files (1 < definition_count ri keys) keys;
                highest = foldr max (map rm_score ranked) 0
            in take limit (dedup_matches (sort_key (relationship_order highest) ranked))))"

definition lookup_relationships :: "symbol_index \<Rightarrow> rstr \<Rightarrow> nat \<Rightarrow> symbol_relationship_match list" where
  "lookup_relationships ix query limit = relationship_lookup (si_relationships ix) (si_files ix) query limit"

subsection \<open>Sizes\<close>

definition symbol_bytes :: "symbol \<Rightarrow> nat" where
  "symbol_bytes s = length (sym_name s) + (case sym_container s of None \<Rightarrow> 0 | Some c \<Rightarrow> length c) + 32"

definition estimated_relationship_bytes :: "relationship_index \<Rightarrow> nat" where
  "estimated_relationship_bytes ri =
     sum_list (map (\<lambda>(key, values). length key + sum_list (map (\<lambda>v. length (rv_path v) + 24) values)) (ri_by_key ri))
     + sum_list (map (\<lambda>(key, e). length key + length (rv_path e) + 24) (concat (map snd (ri_contributions ri))))"

definition estimated_file_bytes :: "symbol_file \<Rightarrow> nat" where
  "estimated_file_bytes file =
     length (sf_path file) + sum_list (map symbol_bytes (sf_symbols file))
     + sum_list (map (\<lambda>r. length (sr_from r) + length (sr_to r)) (sf_relationships file))"

definition estimated_bytes :: "symbol_index \<Rightarrow> nat" where
  "estimated_bytes ix =
     estimated_relationship_bytes (si_relationships ix) + sum_list (map (estimated_file_bytes \<circ> snd) (si_files ix))"

definition symbol_file_lookup :: "symbol_file \<Rightarrow> rstr \<Rightarrow> nat \<Rightarrow> symbol_match list" where
  "symbol_file_lookup file query limit = lookup_files [file] query limit"

definition index_file_bounded ::
    "(rstr \<Rightarrow> rstr) \<Rightarrow> rstr \<Rightarrow> rstr \<Rightarrow> bool \<Rightarrow> symbol_index \<Rightarrow> (symbol_file \<times> symbol_index) option" where
  "index_file_bounded blake path source was_cut ix =
     map_option (\<lambda>file. (file, index_insert file ix)) (parse_source blake path source was_cut)"

end
