(* ===== verification/Index_Facts.thy ===== *)
theory Index_Facts
  imports Symbol_Index
begin

section \<open>Facts about the symbol index\<close>

text \<open>
  The ordered maps as maps, and the invariant of the index: every list of evidence is short, free
  of repetitions and never empty, all of it is accounted for by the contributions of the file it
  points to, and those files are in the index.
\<close>

subsection \<open>Ordered maps\<close>

definition bt_ok :: "('k \<Rightarrow> 'o::linorder) \<Rightarrow> ('k \<times> 'v) list \<Rightarrow> bool" where
  "bt_ok ord m \<longleftrightarrow> sorted_wrt (\<lambda>a b. ord (fst a) < ord (fst b)) m"

definition bt_new_key :: "('k \<Rightarrow> 'o::linorder) \<Rightarrow> 'k \<Rightarrow> ('k \<times> 'v) list \<Rightarrow> bool" where
  "bt_new_key ord k m \<longleftrightarrow> (\<forall>k' \<in> fst ` set m. ord k = ord k' \<longrightarrow> k = k')"

lemma bt_new_key_id [simp]: "bt_new_key (\<lambda>k. k) k m"
  by (simp add: bt_new_key_def)

lemma set_bt_put: "fst ` set (bt_put ord k v m) = insert k (fst ` set m)"
  by (induction ord k v m rule: bt_put.induct) auto

lemma bt_put_set: "set (bt_put ord k v m) \<subseteq> insert (k, v) (set m)"
  by (induction ord k v m rule: bt_put.induct) auto

lemma bt_ok_distinct: "bt_ok ord m \<Longrightarrow> distinct (map fst m)"
  by (induction m) (auto simp: bt_ok_def)

lemma bt_ok_Nil [simp]: "bt_ok ord []"
  by (simp add: bt_ok_def)

lemma bt_ok_put: "bt_ok ord m \<Longrightarrow> bt_new_key ord k m \<Longrightarrow> bt_ok ord (bt_put ord k v m)"
proof (induction ord k v m rule: bt_put.induct)
  case (2 ord k v k' v' m)
  have "bt_ok ord m" "bt_new_key ord k m" using 2(2,3) by (auto simp: bt_ok_def bt_new_key_def)
  then have ih: "k \<noteq> k' \<Longrightarrow> \<not> ord k < ord k' \<Longrightarrow> bt_ok ord (bt_put ord k v m)" using 2(1) by blast
  have "ord k' < ord k" if "k \<noteq> k'" "\<not> ord k < ord k'"
    using that 2(3) by (auto simp: bt_new_key_def)
  then show ?case
    using 2(2) ih set_bt_put [of ord k v m] by (fastforce simp: bt_ok_def)
qed (simp add: bt_ok_def)

lemma map_of_bt_put: "bt_ok ord m \<Longrightarrow> bt_new_key ord k m \<Longrightarrow> map_of (bt_put ord k v m) = (map_of m)(k \<mapsto> v)"
proof (induction ord k v m rule: bt_put.induct)
  case (2 ord k v k' v' m)
  have m: "bt_ok ord m" "bt_new_key ord k m" using 2(2,3) by (auto simp: bt_ok_def bt_new_key_def)
  show ?case using 2(1) m by (auto simp: fun_eq_iff)
qed auto

lemma bt_ok_del: "bt_ok ord m \<Longrightarrow> bt_ok ord (bt_del k m)"
  by (simp add: bt_ok_def bt_del_def sorted_wrt_filter)

lemma map_of_bt_del: "map_of (bt_del k m) = (map_of m)(k := None)"
  by (induction m) (auto simp: bt_del_def fun_eq_iff)

lemma set_bt_del: "set (bt_del k m) = {e \<in> set m. fst e \<noteq> k}"
  by (auto simp: bt_del_def)

subsection \<open>Lists of evidence\<close>

definition short_list :: "'a list \<Rightarrow> bool" where
  "short_list vs \<longleftrightarrow> vs \<noteq> [] \<and> length vs \<le> 32 \<and> distinct vs"

definition lists_ok :: "('k \<times> 'v list) list \<Rightarrow> bool" where
  "lists_ok m \<longleftrightarrow> list_all (\<lambda>e. short_list (snd e)) m"

lemma lists_ok_get: "lists_ok m \<Longrightarrow> map_of m k = Some vs \<Longrightarrow> short_list vs"
  by (auto simp: lists_ok_def list_all_iff dest!: map_of_SomeD)

lemma lists_ok_put: "lists_ok m \<Longrightarrow> short_list vs \<Longrightarrow> lists_ok (bt_put ord k vs m)"
  using bt_put_set [of ord k vs m] by (auto simp: lists_ok_def list_all_iff)

lemma lists_ok_del: "lists_ok m \<Longrightarrow> lists_ok (bt_del k m)"
  by (auto simp: lists_ok_def list_all_iff set_bt_del)

lemma short_list_add:
  assumes "vs = [] \<or> short_list vs"
  shows "short_list (if x \<in> set vs then vs else take MAX_SYMBOL_RELATIONSHIP_FANOUT (sort_key f (vs @ [x])))"
proof -
  have "distinct (sort_key f (vs @ [x]))" if "x \<notin> set vs"
    using assms that by (auto simp: short_list_def)
  then show ?thesis
    using assms by (auto simp: short_list_def MAX_SYMBOL_RELATIONSHIP_FANOUT_def)
      (metis length_0_conv length_sort length_append_singleton nat.distinct(1))+
qed

lemma add_members:
  "y \<in> set (if x \<in> set vs then vs else take n (sort_key f (vs @ [x]))) \<Longrightarrow> y = x \<or> y \<in> set vs"
  by (auto split: if_splits dest!: in_set_takeD)

text \<open>Removing values from the lists of a map.\<close>

definition without :: "('k \<Rightarrow> 'v \<Rightarrow> bool) \<Rightarrow> 'k \<Rightarrow> 'v list option \<Rightarrow> 'v list option" where
  "without P k vo = (case vo of None \<Rightarrow> None
     | Some vs \<Rightarrow> if filter (\<lambda>v. \<not> P k v) vs = [] then None else Some (filter (\<lambda>v. \<not> P k v) vs))"

definition remove_value :: "(rstr \<times> 'v list) list \<Rightarrow> rstr \<times> 'v \<Rightarrow> (rstr \<times> 'v list) list" where
  "remove_value m c =
     (case map_of m (fst c) of
        None \<Rightarrow> m
      | Some values \<Rightarrow>
          (let values = filter (\<lambda>v. v \<noteq> snd c) values
           in if values = [] then bt_del (fst c) m else bt_put (\<lambda>k. k) (fst c) values m))"

lemma remove_evidence_value: "remove_evidence m c = remove_value m c"
  by (simp add: remove_evidence_def remove_value_def)

lemma remove_path_value: "remove_path_from_stem stem p m = remove_value m (stem, p)"
  unfolding remove_path_from_stem_def remove_value_def fst_conv snd_conv by (rule refl)

lemma filter_other_key: "k \<noteq> fst c \<Longrightarrow> filter (\<lambda>v. (k, v) \<noteq> c) vs = vs"
  by (rule filter_True) auto

lemma remove_value_map:
  assumes "bt_ok (\<lambda>k. k) m" "lists_ok m"
  shows "map_of (remove_value m c) k = without (\<lambda>k v. (k, v) = c) k (map_of m k)
    \<and> bt_ok (\<lambda>k. k) (remove_value m c) \<and> lists_ok (remove_value m c)"
proof (cases "map_of m (fst c)")
  case None
  then have "\<not> (k = fst c \<and> map_of m k \<noteq> None)" by auto
  moreover have "without (\<lambda>k v. (k, v) = c) k (map_of m k) = map_of m k" if "k \<noteq> fst c"
    using that lists_ok_get [OF assms(2)] by (cases "map_of m k") (auto simp: without_def short_list_def filter_other_key)
  ultimately show ?thesis
    using None assms by (cases "k = fst c") (auto simp: remove_value_def without_def)
next
  case (Some vs)
  define ws where "ws = filter (\<lambda>v. v \<noteq> snd c) vs"
  have short: "short_list vs" by (rule lists_ok_get [OF assms(2) Some])
  have other: "without (\<lambda>k v. (k, v) = c) k (map_of m k) = map_of m k" if "k \<noteq> fst c"
    using that lists_ok_get [OF assms(2)] by (cases "map_of m k") (auto simp: without_def short_list_def filter_other_key)
  have same: "without (\<lambda>k v. (k, v) = c) (fst c) (Some vs) = (if ws = [] then None else Some ws)"
    by (cases c) (simp add: without_def ws_def)
  have "ws \<noteq> [] \<Longrightarrow> short_list ws"
    using short order_trans [OF length_filter_le] by (auto simp: short_list_def ws_def)
  then show ?thesis
    using Some assms other same
    by (cases "k = fst c") (auto simp: remove_value_def Let_def ws_def [symmetric] map_of_bt_put map_of_bt_del
        bt_ok_put bt_ok_del lists_ok_put lists_ok_del)
qed

lemma without_without:
  "without P k (without Q k vo) = without (\<lambda>k v. P k v \<or> Q k v) k vo"
  by (auto simp: without_def filter_filter conj_commute filter_empty_conv split: option.split)

lemma remove_all_map:
  assumes "bt_ok (\<lambda>k. k) m" "lists_ok m"
  shows "map_of (foldl remove_value m cs) k = without (\<lambda>k v. (k, v) \<in> set cs) k (map_of m k)
    \<and> bt_ok (\<lambda>k. k) (foldl remove_value m cs) \<and> lists_ok (foldl remove_value m cs)"
  using assms
proof (induction cs arbitrary: m)
  case Nil
  then show ?case
    using lists_ok_get [OF Nil(2)] by (cases "map_of m k") (auto simp: without_def short_list_def)
next
  case (Cons c cs)
  have m': "bt_ok (\<lambda>k. k) (remove_value m c)" "lists_ok (remove_value m c)"
    using remove_value_map [OF Cons(2,3)] by blast+
  have "map_of (foldl remove_value m (c # cs)) k
      = without (\<lambda>k v. (k, v) \<in> set cs) k (without (\<lambda>k v. (k, v) = c) k (map_of m k))"
    using Cons(1) [OF m'] remove_value_map [OF Cons(2,3), of c k] by simp
  then show ?case
    using Cons(1) [OF m'] by (simp add: without_without disj_commute)
qed

lemma remove_all_evidence:
  assumes "bt_ok (\<lambda>k. k) m" "lists_ok m"
  shows "map_of (foldl remove_evidence m cs) k = without (\<lambda>k v. (k, v) \<in> set cs) k (map_of m k)
    \<and> bt_ok (\<lambda>k. k) (foldl remove_evidence m cs) \<and> lists_ok (foldl remove_evidence m cs)"
  using remove_all_map [OF assms] by (simp add: remove_evidence_value [abs_def])

lemma remove_path:
  assumes "bt_ok (\<lambda>k. k) m" "lists_ok m"
  shows "map_of (remove_path_from_stem stem p m) k = without (\<lambda>k v. k = stem \<and> v = p) k (map_of m k)
    \<and> bt_ok (\<lambda>k. k) (remove_path_from_stem stem p m) \<and> lists_ok (remove_path_from_stem stem p m)"
  using remove_value_map [OF assms, of "(stem, p)" k] by (simp add: remove_path_value)

lemma without_Some: "without P k vo = Some ws \<longleftrightarrow> (\<exists>vs. vo = Some vs \<and> ws = filter (\<lambda>v. \<not> P k v) vs \<and> ws \<noteq> [])"
  by (auto simp: without_def split: option.split)

subsection \<open>The invariant\<close>

text \<open>Texts that are the rendering of their own components, as the paths of an index are.\<close>

definition canonical :: "rstr \<Rightarrow> bool" where
  "canonical p \<longleftrightarrow> render_components (path_components p) = p"

lemma path_order_inj: "canonical p \<Longrightarrow> canonical q \<Longrightarrow> path_order p = path_order q \<Longrightarrow> p = q"
proof -
  assume "canonical p" "canonical q" "path_order p = path_order q"
  moreover have "a = b"
    if "map (\<lambda>c. case c of RootDir \<Rightarrow> (0 :: nat, []) | CurDir \<Rightarrow> (1, []) | ParentDir \<Rightarrow> (2, []) | Normal part \<Rightarrow> (3, part)) a
      = map (\<lambda>c. case c of RootDir \<Rightarrow> (0, []) | CurDir \<Rightarrow> (1, []) | ParentDir \<Rightarrow> (2, []) | Normal part \<Rightarrow> (3, part)) b"
    for a b :: "path_component list"
    using that
  proof (induction a arbitrary: b)
    case (Cons x a)
    then obtain y b' where "b = y # b'" by (cases b) auto
    with Cons show ?case by (auto split: path_component.splits)
  qed simp
  ultimately show "p = q" unfolding canonical_def path_order_def by metis
qed

definition listed :: "relationship_index \<Rightarrow> rstr \<Rightarrow> relationship_evidence \<Rightarrow> bool" where
  "listed ri k e \<longleftrightarrow> (k, e) \<in> set (bt_list (ri_contributions ri) (rv_path e))"

definition stems_ok :: "(rstr \<times> (bool \<times> rstr)) list \<Rightarrow> bool \<Rightarrow> (rstr \<times> rstr list) list \<Rightarrow> bool" where
  "stems_ok stems test paths \<longleftrightarrow> bt_ok (\<lambda>k. k) paths \<and> lists_ok paths
     \<and> (\<forall>stem ps p. map_of paths stem = Some ps \<and> p \<in> set ps \<longrightarrow> map_of stems p = Some (test, stem))"

definition relations_ok :: "relationship_index \<Rightarrow> bool" where
  "relations_ok ri \<longleftrightarrow> bt_ok (\<lambda>k. k) (ri_by_key ri) \<and> lists_ok (ri_by_key ri)
     \<and> (\<forall>k vs e. map_of (ri_by_key ri) k = Some vs \<and> e \<in> set vs \<longrightarrow> listed ri k e)
     \<and> bt_ok path_order (ri_contributions ri) \<and> bt_ok path_order (ri_stems_by_path ri)
     \<and> stems_ok (ri_stems_by_path ri) True (ri_test_by_stem ri)
     \<and> stems_ok (ri_stems_by_path ri) False (ri_source_by_stem ri)
     \<and> list_all canonical (map fst (ri_contributions ri)) \<and> list_all canonical (map fst (ri_stems_by_path ri))"

lemma relations_ok_default: "relations_ok relationship_index_default"
  by (simp add: relations_ok_def relationship_index_default_def stems_ok_def lists_ok_def)

lemma stems_ok_other: "stems_ok stems test paths \<Longrightarrow> map_of stems p = Some (\<not> test, stem) \<Longrightarrow>
   stems_ok (bt_del p stems) test paths"
  by (fastforce simp: stems_ok_def map_of_bt_del)

lemma stems_ok_removed:
  assumes "stems_ok stems test paths" "map_of stems p = Some (test, stem)"
  shows "stems_ok (bt_del p stems) test (remove_path_from_stem stem p paths)"
proof -
  have ok: "bt_ok (\<lambda>k. k) paths" "lists_ok paths" using assms(1) by (auto simp: stems_ok_def)
  have "map_of (bt_del p stems) q = Some (test, k)"
    if "map_of (remove_path_from_stem stem p paths) k = Some ps" "q \<in> set ps" for k ps q
  proof -
    have "without (\<lambda>k v. k = stem \<and> v = p) k (map_of paths k) = Some ps"
      using that(1) remove_path [OF ok] by simp
    with that(2) obtain qs where qs: "map_of paths k = Some qs" "q \<in> set qs" "\<not> (k = stem \<and> q = p)"
      by (auto simp: without_Some)
    then have "map_of stems q = Some (test, k)" using assms(1) by (auto simp: stems_ok_def)
    then show ?thesis using qs(3) assms(2) by (auto simp: map_of_bt_del)
  qed
  then show ?thesis using remove_path [OF ok] by (auto simp: stems_ok_def)
qed

lemma canonical_del: "list_all canonical (map fst m) \<Longrightarrow> list_all canonical (map fst (bt_del p m))"
  by (auto simp: list_all_iff set_bt_del)

lemma canonical_put: "list_all canonical (map fst m) \<Longrightarrow> canonical p \<Longrightarrow> list_all canonical (map fst (bt_put ord p v m))"
  using set_bt_put [of ord p v m] by (auto simp: list_all_iff)

lemma new_path_key: "list_all canonical (map fst m) \<Longrightarrow> canonical p \<Longrightarrow> bt_new_key path_order p m"
  using path_order_inj by (fastforce simp: bt_new_key_def list_all_iff)

text \<open>Removing a file: nothing of it stays.\<close>

definition no_trace :: "rstr \<Rightarrow> relationship_index \<Rightarrow> bool" where
  "no_trace p ri \<longleftrightarrow>
     list_all (\<lambda>(k, vs). list_all (\<lambda>e. rv_path e \<noteq> p) vs) (ri_by_key ri)
     \<and> list_all (\<lambda>(k, ps). p \<notin> set ps) (ri_test_by_stem ri) \<and> list_all (\<lambda>(k, ps). p \<notin> set ps) (ri_source_by_stem ri)
     \<and> map_of (ri_contributions ri) p = None \<and> map_of (ri_stems_by_path ri) p = None"

lemma bt_all: "bt_ok ord m \<Longrightarrow> list_all P m \<longleftrightarrow> (\<forall>k v. map_of m k = Some v \<longrightarrow> P (k, v))"
  using bt_ok_distinct [of ord m] by (auto simp: list_all_iff)

definition drop_evidence :: "rstr \<Rightarrow> relationship_index \<Rightarrow> relationship_index" where
  "drop_evidence path ri = (case map_of (ri_contributions ri) path of
                  None \<Rightarrow> ri
                | Some contributions \<Rightarrow>
                    ri\<lparr>ri_contributions := bt_del path (ri_contributions ri),
                       ri_by_key := foldl remove_evidence (ri_by_key ri) contributions\<rparr>)"

definition drop_stems :: "rstr \<Rightarrow> relationship_index \<Rightarrow> relationship_index" where
  "drop_stems path ri = (case map_of (ri_stems_by_path ri) path of
           None \<Rightarrow> ri
         | Some (test_file, stem) \<Rightarrow>
             (let ri = ri\<lparr>ri_stems_by_path := bt_del path (ri_stems_by_path ri)\<rparr>
              in if test_file
                 then ri\<lparr>ri_test_by_stem := remove_path_from_stem stem path (ri_test_by_stem ri)\<rparr>
                 else ri\<lparr>ri_source_by_stem := remove_path_from_stem stem path (ri_source_by_stem ri)\<rparr>))"

lemma remove_file_steps: "relationship_remove_file p ri = drop_stems p (drop_evidence p ri)"
  unfolding relationship_remove_file_def drop_stems_def drop_evidence_def Let_def by (rule refl)

lemma drop_evidence_ok:
  assumes "relations_ok ri"
  shows "relations_ok (drop_evidence p ri)
    \<and> (\<forall>k vs e. map_of (ri_by_key (drop_evidence p ri)) k = Some vs \<and> e \<in> set vs \<longrightarrow> rv_path e \<noteq> p)
    \<and> ri_contributions (drop_evidence p ri) = bt_del p (ri_contributions ri)
    \<and> ri_stems_by_path (drop_evidence p ri) = ri_stems_by_path ri"
proof (cases "map_of (ri_contributions ri) p")
  case None
  have "rv_path e \<noteq> p" if "map_of (ri_by_key ri) k = Some vs" "e \<in> set vs" for k vs e
  proof -
    have "listed ri k e" using that assms unfolding relations_ok_def by blast
    then show ?thesis using None by (auto simp: listed_def bt_list_def)
  qed
  moreover have "bt_del p (ri_contributions ri) = ri_contributions ri"
    using None by (auto simp: bt_del_def map_of_eq_None_iff intro!: filter_True)
  ultimately show ?thesis using None assms by (simp add: drop_evidence_def) blast
next
  case (Some cs)
  have ok: "bt_ok (\<lambda>k. k) (ri_by_key ri)" "lists_ok (ri_by_key ri)" using assms by (auto simp: relations_ok_def)
  note new = remove_all_evidence [OF ok, of cs]
  have keep: "rv_path e \<noteq> p \<and> (k, e) \<in> set (bt_list (bt_del p (ri_contributions ri)) (rv_path e))"
    if "map_of (foldl remove_evidence (ri_by_key ri) cs) k = Some vs" "e \<in> set vs" for k vs e
  proof -
    have "without (\<lambda>k v. (k, v) \<in> set cs) k (map_of (ri_by_key ri) k) = Some vs"
      using that(1) new by simp
    with that(2) obtain ws where ws: "map_of (ri_by_key ri) k = Some ws" "e \<in> set ws" "(k, e) \<notin> set cs"
      by (auto simp: without_Some)
    then have "listed ri k e" using assms by (auto simp: relations_ok_def)
    then show ?thesis using ws(3) Some by (auto simp: listed_def bt_list_def map_of_bt_del)
  qed
  show ?thesis
    using assms new keep Some
    by (auto simp: relations_ok_def drop_evidence_def listed_def bt_ok_del canonical_del)
qed

lemma drop_stems_ok:
  assumes "relations_ok ri"
  shows "relations_ok (drop_stems p ri)
    \<and> ri_by_key (drop_stems p ri) = ri_by_key ri \<and> ri_contributions (drop_stems p ri) = ri_contributions ri
    \<and> ri_stems_by_path (drop_stems p ri) = bt_del p (ri_stems_by_path ri)"
proof (cases "map_of (ri_stems_by_path ri) p")
  case None
  moreover have "bt_del p (ri_stems_by_path ri) = ri_stems_by_path ri"
    using None by (auto simp: bt_del_def map_of_eq_None_iff intro!: filter_True)
  ultimately show ?thesis using assms by (simp add: drop_stems_def)
next
  case (Some e)
  obtain test stem where e: "e = (test, stem)" by (cases e)
  show ?thesis
    using assms Some e stems_ok_removed [of "ri_stems_by_path ri" test _ p stem]
      stems_ok_other [of "ri_stems_by_path ri" _ _ p stem]
    by (cases test) (auto simp: relations_ok_def drop_stems_def listed_def Let_def bt_ok_del canonical_del)
qed

lemma relations_ok_removed:
  assumes "relations_ok ri"
  shows "relations_ok (relationship_remove_file p ri) \<and> no_trace p (relationship_remove_file p ri)
    \<and> ri_contributions (relationship_remove_file p ri) = bt_del p (ri_contributions ri)
    \<and> ri_stems_by_path (relationship_remove_file p ri) = bt_del p (ri_stems_by_path ri)"
proof -
  note a = drop_evidence_ok [OF assms, of p]
  note b = drop_stems_ok [OF conjunct1 [OF a], of p]
  let ?ri = "relationship_remove_file p ri"
  have ok: "relations_ok ?ri" using b by (simp add: remove_file_steps)
  have fields: "ri_contributions ?ri = bt_del p (ri_contributions ri)"
    "ri_stems_by_path ?ri = bt_del p (ri_stems_by_path ri)"
    using a b by (auto simp: remove_file_steps)
  have keyed: "\<forall>k vs e. map_of (ri_by_key ?ri) k = Some vs \<and> e \<in> set vs \<longrightarrow> rv_path e \<noteq> p"
    using a b by (simp add: remove_file_steps)
  have stems: "list_all (\<lambda>(k, ps). p \<notin> set ps) paths" if so: "stems_ok (ri_stems_by_path ?ri) test paths" for paths test
  proof -
    have "bt_ok (\<lambda>k. k) paths" using so by (simp add: stems_ok_def)
    moreover have "p \<notin> set ps" if "map_of paths k = Some ps" for k ps
      using that so fields(2) unfolding stems_ok_def by (metis map_of_bt_del fun_upd_same option.distinct(1))
    ultimately show ?thesis by (subst bt_all) auto
  qed
  have "bt_ok (\<lambda>k. k) (ri_by_key ?ri)" using ok by (simp add: relations_ok_def)
  then have "list_all (\<lambda>(k, vs). list_all (\<lambda>e. rv_path e \<noteq> p) vs) (ri_by_key ?ri)"
    using keyed by (subst bt_all) (auto simp: list_all_iff)
  then have "no_trace p ?ri"
    using ok stems fields by (auto simp: no_trace_def relations_ok_def map_of_bt_del)
  then show ?thesis using ok fields by blast
qed

text \<open>Adding the contributions of a file.\<close>

lemma symbol_contributions_path: "c \<in> set (symbol_contributions p e) \<Longrightarrow> rv_path (snd c) = p"
  by (cases e; cases "sym_container (snd e)") (auto simp: symbol_contributions_def Let_def split: if_splits)

lemma import_contributions_path: "c \<in> set (import_contributions p symbols r) \<Longrightarrow> rv_path (snd c) = p"
  by (auto simp: import_contributions_def Let_def split: if_splits option.splits)

lemma relation_contributions_path: "c \<in> set (relation_contributions p test symbols r) \<Longrightarrow> rv_path (snd c) = p"
  by (cases "sr_kind r") (simp_all add: relation_contributions_def Let_def import_contributions_path)

lemma file_contributions_path: "c \<in> set (file_contributions test file) \<Longrightarrow> rv_path (snd c) = sf_path file"
  by (auto simp: file_contributions_def dest!: symbol_contributions_path relation_contributions_path)

definition accounted :: "relationship_index \<Rightarrow> rstr \<Rightarrow>
    (rstr \<times> relationship_evidence list) list \<times> (rstr \<times> relationship_evidence) list \<Rightarrow> bool" where
  "accounted ri p acc \<longleftrightarrow> bt_ok (\<lambda>k. k) (fst acc) \<and> lists_ok (fst acc)
     \<and> (\<forall>k vs e. map_of (fst acc) k = Some vs \<and> e \<in> set vs \<longrightarrow>
          (if rv_path e = p then (k, e) \<in> set (snd acc) else listed ri k e))"

lemma bt_list_short: "lists_ok m \<Longrightarrow> bt_list m k = [] \<or> short_list (bt_list m k)"
  by (auto simp: bt_list_def lists_ok_get split: option.split)

lemma accounted_add:
  assumes "accounted ri p acc" "rv_path (snd c) = p"
  shows "accounted ri p (add_contribution acc c)"
proof (cases "fst c = []")
  case False
  obtain m cs where acc: "acc = (m, cs)" by (cases acc)
  obtain k e where c: "c = (k, e)" by (cases c)
  define vs where "vs = (if e \<in> set (bt_list m k) then bt_list m k
    else take MAX_SYMBOL_RELATIONSHIP_FANOUT (sort_key evidence_order (bt_list m k @ [e])))"
  define cs' where "cs' = (if e \<in> set vs then cs @ [(k, e)] else cs)"
  have step: "add_contribution acc c = (bt_put (\<lambda>k. k) k vs m, cs')"
    using False by (simp add: add_contribution_def acc c vs_def cs'_def Let_def)
  have ok: "bt_ok (\<lambda>k. k) m" "lists_ok m" using assms(1) by (auto simp: accounted_def acc)
  have short: "short_list vs" unfolding vs_def by (rule short_list_add [OF bt_list_short [OF ok(2)]])
  have old: "if rv_path x = p then (k', x) \<in> set cs' else listed ri k' x"
    if "x \<in> set (bt_list m k')" for k' x
  proof -
    from that obtain ws where "map_of m k' = Some ws" "x \<in> set ws"
      by (cases "map_of m k'") (auto simp: bt_list_def)
    then have "if rv_path x = p then (k', x) \<in> set cs else listed ri k' x"
      using assms(1) unfolding accounted_def acc fst_conv snd_conv by blast
    then show ?thesis by (auto simp: cs'_def split: if_splits)
  qed
  have mem: "x = e \<or> x \<in> set (bt_list m k)" if "x \<in> set vs" for x
    using that unfolding vs_def by (rule add_members)
  have new: "if rv_path x = p then (k, x) \<in> set cs' else listed ri k x" if "x \<in> set vs" for x
    using mem [OF that] old [of x k] that assms(2) by (auto simp: c cs'_def split: if_splits)
  show ?thesis
    unfolding accounted_def step fst_conv snd_conv
  proof (intro conjI allI impI)
    show "bt_ok (\<lambda>k. k) (bt_put (\<lambda>k. k) k vs m)" by (rule bt_ok_put [OF ok(1)]) simp
    show "lists_ok (bt_put (\<lambda>k. k) k vs m)" by (rule lists_ok_put [OF ok(2) short])
    fix k' ws x
    assume "map_of (bt_put (\<lambda>k. k) k vs m) k' = Some ws \<and> x \<in> set ws"
    then show "if rv_path x = p then (k', x) \<in> set cs' else listed ri k' x"
      using new old [of x k'] by (cases "k' = k") (auto simp: map_of_bt_put [OF ok(1)] bt_list_def)
  qed
next
  case True
  then have "add_contribution acc c = acc" by (cases acc; cases c) (simp add: add_contribution_def Let_def)
  then show ?thesis using assms(1) by simp
qed

lemma accounted_all:
  assumes "accounted ri p acc" "\<And>c. c \<in> set cs \<Longrightarrow> rv_path (snd c) = p"
  shows "accounted ri p (foldl add_contribution acc cs)"
  using assms by (induction cs arbitrary: acc) (auto simp: accounted_add)

text \<open>Inserting a file.\<close>

lemma insert_path_map:
  assumes "bt_ok (\<lambda>k. k) paths" "lists_ok paths"
  shows "bt_ok (\<lambda>k. k) (insert_path stem p paths) \<and> lists_ok (insert_path stem p paths)
    \<and> (\<forall>k ps q. map_of (insert_path stem p paths) k = Some ps \<and> q \<in> set ps \<longrightarrow>
         (k = stem \<and> q = p) \<or> q \<in> set (bt_list paths k))"
proof -
  define vs where "vs = (if p \<in> set (bt_list paths stem) then bt_list paths stem
    else take MAX_SYMBOL_RELATIONSHIP_FANOUT (sort_key path_order (bt_list paths stem @ [p])))"
  have step: "insert_path stem p paths = bt_put (\<lambda>k. k) stem vs paths"
    by (simp add: insert_path_def vs_def Let_def)
  have "short_list vs" unfolding vs_def by (rule short_list_add [OF bt_list_short [OF assms(2)]])
  moreover have "x = p \<or> x \<in> set (bt_list paths stem)" if "x \<in> set vs" for x
    using that unfolding vs_def by (rule add_members)
  ultimately show ?thesis
    unfolding step using assms
    by (auto simp: map_of_bt_put bt_ok_put lists_ok_put bt_list_def split: if_splits)
qed

lemma stems_ok_insert:
  assumes "stems_ok stems test paths" "bt_ok path_order stems" "bt_new_key path_order p stems"
    "map_of stems p = None"
  shows "stems_ok (bt_put path_order p (test, stem) stems) test (insert_path stem p paths)
    \<and> stems_ok (bt_put path_order p (\<not> test, stem) stems) test paths"
proof -
  have ok: "bt_ok (\<lambda>k. k) paths" "lists_ok paths" using assms(1) by (auto simp: stems_ok_def)
  have old: "map_of stems q = Some (test, k) \<and> q \<noteq> p" if "q \<in> set (bt_list paths k)" for k q
  proof -
    from that obtain ws where "map_of paths k = Some ws" "q \<in> set ws"
      by (cases "map_of paths k") (auto simp: bt_list_def)
    then show ?thesis using assms(1,4) by (auto simp: stems_ok_def)
  qed
  have "map_of (bt_put path_order p (test, stem) stems) q = Some (test, k)"
    if "map_of (insert_path stem p paths) k = Some ps" "q \<in> set ps" for k ps q
  proof -
    have "(k = stem \<and> q = p) \<or> q \<in> set (bt_list paths k)" using that insert_path_map [OF ok] by blast
    then show ?thesis using old by (auto simp: map_of_bt_put [OF assms(2,3)])
  qed
  moreover have "map_of (bt_put path_order p (\<not> test, stem) stems) q = Some (test, k)"
    if "map_of paths k = Some ps" "q \<in> set ps" for k ps q
    using that old [of q k] by (auto simp: map_of_bt_put [OF assms(2,3)] bt_list_def)
  ultimately show ?thesis using insert_path_map [OF ok] ok by (auto simp: stems_ok_def)
qed

definition with_stem :: "rstr \<Rightarrow> bool \<Rightarrow> relationship_index \<Rightarrow> relationship_index" where
  "with_stem path test_file ri = (case index_stem path of
                  None \<Rightarrow> ri
                | Some stem \<Rightarrow>
                    (let ri = (if test_file
                               then ri\<lparr>ri_test_by_stem := insert_path stem path (ri_test_by_stem ri)\<rparr>
                               else ri\<lparr>ri_source_by_stem := insert_path stem path (ri_source_by_stem ri)\<rparr>)
                     in ri\<lparr>ri_stems_by_path := bt_put path_order path (test_file, stem) (ri_stems_by_path ri)\<rparr>))"

definition with_evidence :: "symbol_file \<Rightarrow> bool \<Rightarrow> relationship_index \<Rightarrow> relationship_index" where
  "with_evidence file test_file ri =
     (let (by_key, contributions) = foldl add_contribution (ri_by_key ri, []) (file_contributions test_file file)
      in ri\<lparr>ri_by_key := by_key,
            ri_contributions := bt_put path_order (sf_path file) contributions (ri_contributions ri)\<rparr>)"

lemma insert_file_steps: "\<exists>test. relationship_insert_file file ri =
     with_evidence file test (with_stem (sf_path file) test (relationship_remove_file (sf_path file) ri))"
  unfolding relationship_insert_file_def with_evidence_def with_stem_def Let_def by (intro exI) (rule refl)

lemma with_stem_ok:
  assumes "relations_ok ri" "canonical p" "map_of (ri_stems_by_path ri) p = None"
  shows "relations_ok (with_stem p test ri) \<and> ri_by_key (with_stem p test ri) = ri_by_key ri
    \<and> ri_contributions (with_stem p test ri) = ri_contributions ri
    \<and> fst ` set (ri_stems_by_path (with_stem p test ri)) \<subseteq> insert p (fst ` set (ri_stems_by_path ri))"
proof (cases "index_stem p")
  case None
  then show ?thesis using assms by (auto simp: with_stem_def)
next
  case (Some stem)
  have new: "bt_new_key path_order p (ri_stems_by_path ri)"
    using assms by (auto simp: relations_ok_def intro: new_path_key)
  show ?thesis
    using assms Some new stems_ok_insert [of "ri_stems_by_path ri" test _ p stem]
      stems_ok_insert [of "ri_stems_by_path ri" "\<not> test" _ p stem]
    by (cases test) (auto simp: relations_ok_def with_stem_def listed_def Let_def bt_ok_put canonical_put set_bt_put)
qed

lemma with_evidence_ok:
  assumes ok: "relations_ok ri" and p: "canonical (sf_path file)"
    and clean: "\<forall>k vs e. map_of (ri_by_key ri) k = Some vs \<and> e \<in> set vs \<longrightarrow> rv_path e \<noteq> sf_path file"
  shows "relations_ok (with_evidence file test ri)
    \<and> fst ` set (ri_contributions (with_evidence file test ri)) = insert (sf_path file) (fst ` set (ri_contributions ri))
    \<and> ri_stems_by_path (with_evidence file test ri) = ri_stems_by_path ri"
proof -
  let ?p = "sf_path file"
  obtain m cs where fold: "foldl add_contribution (ri_by_key ri, []) (file_contributions test file) = (m, cs)"
    by (metis surj_pair)
  have "listed ri k e" if "map_of (ri_by_key ri) k = Some vs" "e \<in> set vs" for k vs e
    using that ok unfolding relations_ok_def by blast
  then have "accounted ri ?p (ri_by_key ri, [])"
    using ok clean by (auto simp: accounted_def relations_ok_def)
  then have acc: "accounted ri ?p (m, cs)"
    using accounted_all file_contributions_path fold by metis
  have new: "bt_new_key path_order ?p (ri_contributions ri)" "bt_ok path_order (ri_contributions ri)"
    using ok p by (auto simp: relations_ok_def intro: new_path_key)
  have "(k, e) \<in> set (bt_list (bt_put path_order ?p cs (ri_contributions ri)) (rv_path e))"
    if "map_of m k = Some vs" "e \<in> set vs" for k vs e
  proof -
    have "if rv_path e = ?p then (k, e) \<in> set cs else listed ri k e"
      using that acc unfolding accounted_def fst_conv snd_conv by blast
    then show ?thesis by (auto simp: map_of_bt_put [OF new(2,1)] bt_list_def listed_def split: if_splits)
  qed
  then show ?thesis
    using ok p new acc
    by (auto simp: relations_ok_def with_evidence_def fold listed_def accounted_def bt_ok_put canonical_put set_bt_put)
qed

lemma relations_ok_inserted:
  assumes "relations_ok ri" "canonical (sf_path file)"
  shows "relations_ok (relationship_insert_file file ri)
    \<and> fst ` set (ri_contributions (relationship_insert_file file ri))
        \<subseteq> insert (sf_path file) (fst ` set (ri_contributions ri))
    \<and> fst ` set (ri_stems_by_path (relationship_insert_file file ri))
        \<subseteq> insert (sf_path file) (fst ` set (ri_stems_by_path ri))"
proof -
  let ?r = "relationship_remove_file (sf_path file) ri"
  note r = relations_ok_removed [OF assms(1), of "sf_path file"]
  have clean: "\<forall>k vs e. map_of (ri_by_key ?r) k = Some vs \<and> e \<in> set vs \<longrightarrow> rv_path e \<noteq> sf_path file"
    and free: "map_of (ri_stems_by_path ?r) (sf_path file) = None"
    using r by (fastforce simp: no_trace_def list_all_iff dest!: map_of_SomeD)+
  obtain test where step: "relationship_insert_file file ri = with_evidence file test (with_stem (sf_path file) test ?r)"
    using insert_file_steps by blast
  note s = with_stem_ok [OF conjunct1 [OF r] assms(2) free, of test]
  note e = with_evidence_ok [OF conjunct1 [OF s] assms(2), of test]
  show ?thesis using e s r clean unfolding step by (auto simp: set_bt_del)
qed

subsection \<open>The whole index\<close>

definition index_ok :: "symbol_index \<Rightarrow> bool" where
  "index_ok ix \<longleftrightarrow> bt_ok path_order (si_files ix) \<and> length (si_files ix) \<le> si_max_files ix \<and> 0 < si_max_files ix
     \<and> list_all (\<lambda>(path, file). sf_path file = path \<and> canonical path) (si_files ix)
     \<and> relations_ok (si_relationships ix)
     \<and> fst ` set (ri_contributions (si_relationships ix)) \<subseteq> fst ` set (si_files ix)
     \<and> fst ` set (ri_stems_by_path (si_relationships ix)) \<subseteq> fst ` set (si_files ix)"

lemma index_ok_new: "index_ok index_new"
  by (simp add: index_ok_def index_new_def MAX_SYMBOL_FILES_def relations_ok_default)
    (simp add: relationship_index_default_def)

lemma index_ok_clear: "index_ok ix \<Longrightarrow> index_ok (index_clear ix)"
  by (simp add: index_ok_def index_clear_def relations_ok_default) (simp add: relationship_index_default_def)

lemma index_ok_remove:
  assumes "index_ok ix"
  shows "index_ok (snd (index_remove_file p ix)) \<and> no_trace p (si_relationships (snd (index_remove_file p ix)))"
  using assms relations_ok_removed [of "si_relationships ix" p] order_trans [OF length_filter_le]
  by (auto simp: index_ok_def index_remove_file_def bt_ok_del set_bt_del list_all_iff bt_del_def [of _ "si_files ix"]
      bt_ok_def sorted_wrt_filter)

lemma length_bt_put: "length (bt_put ord k v m) \<le> Suc (length m)"
  by (induction ord k v m rule: bt_put.induct) auto

lemma length_bt_put_same: "bt_ok ord m \<Longrightarrow> bt_new_key ord k m \<Longrightarrow> k \<in> fst ` set m \<Longrightarrow> length (bt_put ord k v m) = length m"
proof -
  assume m: "bt_ok ord m" "bt_new_key ord k m" and k: "k \<in> fst ` set m"
  have "card (fst ` set (bt_put ord k v m)) = card (fst ` set m)" using k by (simp add: set_bt_put insert_absorb)
  then show ?thesis
    using bt_ok_distinct [OF m(1)] bt_ok_distinct [OF bt_ok_put [OF m]]
    by (metis distinct_card length_map set_map)
qed

lemma hd_key: "m \<noteq> [] \<Longrightarrow> bt_ok ord m \<Longrightarrow> bt_del (fst (hd m)) m = tl m"
  by (cases m) (auto simp: bt_del_def bt_ok_def intro!: filter_True)

text \<open>An index with the file to be replaced, or the first one, already gone.\<close>

definition make_room :: "rstr \<Rightarrow> symbol_index \<Rightarrow> symbol_index" where
  "make_room path ix =
     (if map_of (si_files ix) path = None \<and> si_max_files ix \<le> length (si_files ix)
      then snd (index_remove_file (fst (hd (si_files ix)))
             (ix\<lparr>si_relationships := relationship_remove_file path (si_relationships ix)\<rparr>))
      else ix\<lparr>si_relationships := relationship_remove_file path (si_relationships ix)\<rparr>)"

lemma insert_room:
  assumes "index_ok ix"
  shows "index_insert file ix = (make_room (sf_path file) ix)
     \<lparr>si_files := bt_put path_order (sf_path file) file (si_files (make_room (sf_path file) ix)),
      si_relationships := relationship_insert_file file (si_relationships (make_room (sf_path file) ix))\<rparr>"
proof -
  have "\<not> (si_max_files ix \<le> length (si_files ix) \<and> si_files ix = [])" using assms by (auto simp: index_ok_def)
  then show ?thesis
    by (auto simp: index_insert_def make_room_def index_remove_file_def Let_def)
qed

lemma index_ok_forget:
  assumes "index_ok ix"
  shows "index_ok (ix\<lparr>si_relationships := relationship_remove_file p (si_relationships ix)\<rparr>)"
  using assms relations_ok_removed [of "si_relationships ix" p] by (auto simp: index_ok_def set_bt_del)

lemma make_room_ok:
  assumes "index_ok ix"
  shows "index_ok (make_room p ix) \<and> si_max_files (make_room p ix) = si_max_files ix
    \<and> si_files (make_room p ix) =
        (if map_of (si_files ix) p = None \<and> si_max_files ix \<le> length (si_files ix) then tl (si_files ix) else si_files ix)"
proof -
  have "si_files ix \<noteq> []" if "si_max_files ix \<le> length (si_files ix)" using that assms by (auto simp: index_ok_def)
  moreover have "bt_ok path_order (si_files ix)" using assms by (simp add: index_ok_def)
  ultimately show ?thesis
    using index_ok_forget [OF assms] index_ok_remove [OF index_ok_forget [OF assms]]
    by (simp add: make_room_def) (simp add: index_remove_file_def hd_key)
qed

lemma file_keys_canonical: "index_ok ix \<Longrightarrow> list_all canonical (map fst (si_files ix))"
  by (auto simp: index_ok_def list_all_iff)

lemma index_ok_insert:
  assumes "index_ok ix" "canonical (sf_path file)"
  shows "index_ok (index_insert file ix)"
proof -
  let ?r = "make_room (sf_path file) ix"
  note r = make_room_ok [OF assms(1), of "sf_path file"]
  have rok: "index_ok ?r" using r by blast
  then have sorted: "bt_ok path_order (si_files ?r)" and small: "length (si_files ?r) \<le> si_max_files ?r"
    by (auto simp: index_ok_def)
  have new: "bt_new_key path_order (sf_path file) (si_files ?r)"
    by (rule new_path_key [OF file_keys_canonical [OF rok] assms(2)])
  have "length (bt_put path_order (sf_path file) file (si_files ?r)) \<le> si_max_files ?r"
  proof (cases "map_of (si_files ?r) (sf_path file) = None")
    case True
    then have "length (si_files ?r) < si_max_files ?r"
      using r assms(1) by (auto simp: index_ok_def split: if_splits)
    then show ?thesis using length_bt_put [of path_order "sf_path file" "file" "si_files ?r"] by linarith
  next
    case False
    then have "sf_path file \<in> fst ` set (si_files ?r)" by (meson map_of_eq_None_iff)
    then show ?thesis using length_bt_put_same [OF sorted new] small by simp
  qed
  moreover have "list_all (\<lambda>(path, file). sf_path file = path \<and> canonical path)
      (bt_put path_order (sf_path file) file (si_files ?r))"
    using rok assms(2) bt_put_set [of path_order "sf_path file" "file" "si_files ?r"]
    by (fastforce simp: index_ok_def list_all_iff)
  moreover have rel: "relations_ok (si_relationships ?r)"
    and keys: "fst ` set (ri_contributions (si_relationships ?r)) \<subseteq> fst ` set (si_files ?r)"
      "fst ` set (ri_stems_by_path (si_relationships ?r)) \<subseteq> fst ` set (si_files ?r)"
    using rok unfolding index_ok_def by blast+
  moreover note i = relations_ok_inserted [OF rel assms(2)]
  moreover have "fst ` set (ri_contributions (relationship_insert_file file (si_relationships ?r)))
      \<subseteq> insert (sf_path file) (fst ` set (si_files ?r))"
    "fst ` set (ri_stems_by_path (relationship_insert_file file (si_relationships ?r)))
      \<subseteq> insert (sf_path file) (fst ` set (si_files ?r))"
    using i insert_mono [OF keys(1)] insert_mono [OF keys(2)] by (meson order_trans)+
  ultimately show ?thesis
    using r assms(1) bt_ok_put [OF sorted new]
    unfolding insert_room [OF assms(1)] by (simp add: index_ok_def set_bt_put)
qed

lemma index_insert_at:
  assumes "index_ok ix" "canonical (sf_path file)"
  shows "map_of (si_files (index_insert file ix)) =
    (map_of (if map_of (si_files ix) (sf_path file) = None \<and> si_max_files ix \<le> length (si_files ix)
             then tl (si_files ix) else si_files ix)) (sf_path file \<mapsto> file)"
proof -
  note r = make_room_ok [OF assms(1), of "sf_path file"]
  have rok: "index_ok (make_room (sf_path file) ix)" using r by blast
  then have sorted: "bt_ok path_order (si_files (make_room (sf_path file) ix))" by (simp add: index_ok_def)
  show ?thesis
    using map_of_bt_put [OF sorted new_path_key [OF file_keys_canonical [OF rok] assms(2)], of "file"] r
    unfolding insert_room [OF assms(1)] by simp
qed

subsection \<open>Lookups\<close>

lemma evidence_in_index:
  assumes "index_ok ix" "e \<in> set (bt_list (ri_by_key (si_relationships ix)) k)"
  shows "rv_path e \<in> fst ` set (si_files ix)"
proof -
  obtain vs where "map_of (ri_by_key (si_relationships ix)) k = Some vs" "e \<in> set vs"
    using assms(2) by (cases "map_of (ri_by_key (si_relationships ix)) k") (auto simp: bt_list_def)
  then have "listed (si_relationships ix) k e"
    using assms(1) unfolding index_ok_def relations_ok_def by blast
  then have "rv_path e \<in> fst ` set (ri_contributions (si_relationships ix))"
    by (cases "map_of (ri_contributions (si_relationships ix)) (rv_path e)")
      (auto simp: listed_def bt_list_def dest!: map_of_SomeD intro!: image_eqI [where f = fst])
  then show ?thesis using assms(1) by (auto simp: index_ok_def)
qed

lemma stem_in_index:
  assumes "index_ok ix" "stems_ok (ri_stems_by_path (si_relationships ix)) test paths" "q \<in> set (bt_list paths stem)"
  shows "q \<in> fst ` set (si_files ix)"
proof -
  obtain ps where "map_of paths stem = Some ps" "q \<in> set ps"
    using assms(3) by (cases "map_of paths stem") (auto simp: bt_list_def)
  then have "map_of (ri_stems_by_path (si_relationships ix)) q = Some (test, stem)"
    using assms(2) unfolding stems_ok_def by blast
  then have "q \<in> fst ` set (ri_stems_by_path (si_relationships ix))" by (metis domI dom_map_of_conv_image_fst)
  then show ?thesis using assms(1) by (auto simp: index_ok_def)
qed

lemma dedup_matches_set: "set (dedup_matches ms) \<subseteq> set ms"
  by (induction ms rule: dedup_matches.induct) auto

lemma dedup_matches_sorted: "sorted_wrt P ms \<Longrightarrow> sorted_wrt P (dedup_matches ms)"
proof (induction ms rule: dedup_matches.induct)
  case (3 m n ms)
  then show ?case using dedup_matches_set [of "n # ms"] by auto
qed auto

lemma score_bound: "m \<in> set ms \<Longrightarrow> f m \<le> foldr max (map f ms) (0 :: nat)"
  by (induction ms) auto

lemma sorted_by_match_score:
  assumes "\<And>m. m \<in> set ms \<Longrightarrow> score m \<le> highest"
    "\<And>a b. ord a \<le> ord b \<Longrightarrow> highest - score a \<le> highest - score b"
  shows "sorted_wrt (\<lambda>a b. score b \<le> (score a :: nat)) (sort_key ord ms)"
proof -
  have "sorted_wrt (\<lambda>a b. ord a \<le> ord b) (sort_key ord ms)"     using sorted_sort_key [of ord ms] by (simp only: sorted_map)
  then show ?thesis
    by (rule sorted_wrt_mono_rel [rotated]) (use assms in force)
qed

end
