(* ===== verification/Index_Properties.thy ===== *)
theory Index_Properties
  imports Index_Facts
begin

section \<open>Properties of the symbol index\<close>

text \<open>
  What holds of an index after any sequence of insertions, removals and clearings.
\<close>

datatype index_action = InsertFile symbol_file | RemoveFile rstr | ClearIndex

fun index_step :: "symbol_index \<Rightarrow> index_action \<Rightarrow> symbol_index" where
  "index_step ix (InsertFile file) = index_insert file ix"
| "index_step ix (RemoveFile path) = snd (index_remove_file path ix)"
| "index_step ix ClearIndex = index_clear ix"

definition indexed :: "index_action list \<Rightarrow> symbol_index" where
  "indexed steps = foldl index_step index_new steps"

text \<open>Files are inserted under paths written the way Git writes them.\<close>

fun step_ok :: "index_action \<Rightarrow> bool" where
  "step_ok (InsertFile file) = canonical (sf_path file)"
| "step_ok _ = True"

lemma index_ok_step: "index_ok ix \<Longrightarrow> step_ok step \<Longrightarrow> index_ok (index_step ix step)"
  by (cases step) (auto simp: index_ok_insert index_ok_remove index_ok_clear)

lemma max_files_step: "index_ok ix \<Longrightarrow> si_max_files (index_step ix step) = si_max_files ix"
  by (cases step) (use make_room_ok in \<open>auto simp: insert_room index_remove_file_def index_clear_def\<close>)

lemma indexed_ok: "list_all step_ok steps \<Longrightarrow> index_ok (indexed steps) \<and> si_max_files (indexed steps) = 128"
proof (induction steps rule: rev_induct)
  case Nil
  then show ?case using index_ok_new by (simp add: indexed_def) (simp add: index_new_def MAX_SYMBOL_FILES_def)
next
  case (snoc step steps)
  then have "index_ok (indexed steps)" "si_max_files (indexed steps) = 128" "step_ok step" by auto
  then show ?case using index_ok_step max_files_step by (simp add: indexed_def)
qed

lemma evidence_entry:
  assumes "index_ok ix" "(k, vs) \<in> set (ri_by_key (si_relationships ix))"
  shows "vs \<noteq> [] \<and> length vs \<le> 32 \<and> distinct vs \<and> (\<forall>e \<in> set vs. rv_path e \<in> fst ` set (si_files ix))"
proof -
  have ok: "bt_ok (\<lambda>k. k) (ri_by_key (si_relationships ix))" "lists_ok (ri_by_key (si_relationships ix))"
    using assms(1) by (auto simp: index_ok_def relations_ok_def)
  have get: "map_of (ri_by_key (si_relationships ix)) k = Some vs"
    using map_of_is_SomeI [OF bt_ok_distinct [OF ok(1)] assms(2)] .
  then have "bt_list (ri_by_key (si_relationships ix)) k = vs" by (simp add: bt_list_def)
  then show ?thesis
    using lists_ok_get [OF ok(2) get] evidence_in_index [OF assms(1)] by (auto simp: short_list_def)
qed

lemma stem_entry:
  assumes "index_ok ix" "stems_ok (ri_stems_by_path (si_relationships ix)) test paths" "(k, ps) \<in> set paths"
  shows "ps \<noteq> [] \<and> length ps \<le> 32 \<and> distinct ps \<and> set ps \<subseteq> fst ` set (si_files ix)"
proof -
  have ok: "bt_ok (\<lambda>k. k) paths" "lists_ok paths" using assms(2) by (auto simp: stems_ok_def)
  have get: "map_of paths k = Some ps" using map_of_is_SomeI [OF bt_ok_distinct [OF ok(1)] assms(3)] .
  then have "bt_list paths k = ps" by (simp add: bt_list_def)
  then show ?thesis
    using lists_ok_get [OF ok(2) get] stem_in_index [OF assms(1,2)] by (auto simp: short_list_def)
qed

lemma stems_of_index:
  assumes "index_ok ix"
  shows "stems_ok (ri_stems_by_path (si_relationships ix)) True (ri_test_by_stem (si_relationships ix))"
    "stems_ok (ri_stems_by_path (si_relationships ix)) False (ri_source_by_stem (si_relationships ix))"
  using assms by (auto simp: index_ok_def relations_ok_def)

text \<open>A small index, for the witnesses.\<close>

definition sample_symbol :: symbol where
  "sample_symbol = \<lparr>sym_name = ''run'', sym_kind = KFunction, sym_start_line = 1, sym_end_line = 3,
     sym_container = None, sym_is_test = False\<rparr>"

definition sample_file :: "rstr \<Rightarrow> symbol_file" where
  "sample_file path = \<lparr>sf_path = path, sf_language = LangRust, sf_content_hash = ''h'', sf_symbols = [sample_symbol],
     sf_relationships = [], sf_truncated = False, sf_readable = True\<rparr>"

definition sample_steps :: "index_action list" where
  "sample_steps = [InsertFile (sample_file ''src/b.rs''), InsertFile (sample_file ''src/a.rs''), RemoveFile ''src/b.rs'']"

lemma sample_steps_ok: "list_all step_ok sample_steps"
  by code_simp

subsection \<open>Where matches come from\<close>

lemma ranked_evidence_path: "m \<in> set (ranked_evidence files amb i e) \<Longrightarrow> rm_path m = rv_path e"
  by (auto simp: ranked_evidence_def split: option.splits)

lemma ranked_tests_path: "m \<in> set (ranked_tests ri amb e) \<Longrightarrow> \<exists>stem. rm_path m \<in> set (bt_list (ri_test_by_stem ri) stem)"
  by (auto simp: ranked_tests_def split: option.splits dest!: in_set_takeD)

lemma ranked_from:
  assumes "m \<in> set (ranked_matches ri files amb keys)"
  shows "(\<exists>k. \<exists>e \<in> set (bt_list (ri_by_key ri) k). rm_path m = rv_path e)
    \<or> (\<exists>stem. rm_path m \<in> set (bt_list (ri_test_by_stem ri) stem))"
  using assms unfolding ranked_matches_def
  by (auto dest!: ranked_evidence_path ranked_tests_path)

lemma relationship_lookup_ranked:
  assumes "m \<in> set (relationship_lookup ri files query limit)"
  shows "\<exists>amb keys. m \<in> set (ranked_matches ri files amb keys)"
proof -
  let ?keys = "map symbol_key (query_words 16 query)"
  let ?ranked = "ranked_matches ri files (1 < definition_count ri ?keys) ?keys"
  have "m \<in> set (dedup_matches (sort_key (relationship_order (foldr max (map rm_score ?ranked) 0)) ?ranked))"
    using assms by (simp only: relationship_lookup_def Let_def split: if_splits) (auto dest!: in_set_takeD)
  then have "m \<in> set (sort_key (relationship_order (foldr max (map rm_score ?ranked) 0)) ?ranked)"
    using dedup_matches_set by blast
  then show ?thesis by auto
qed

lemma relationship_match_from:
  assumes "m \<in> set (relationship_lookup ri files query limit)"
  shows "(\<exists>k. \<exists>e \<in> set (bt_list (ri_by_key ri) k). rm_path m = rv_path e)
    \<or> (\<exists>stem. rm_path m \<in> set (bt_list (ri_test_by_stem ri) stem))"
  using relationship_lookup_ranked [OF assms] ranked_from by blast

lemma symbol_match_from:
  assumes "m \<in> set (lookup_files files query limit)"
  shows "\<exists>file \<in> set files. sm_path m = sf_path file \<and> sm_symbol m \<in> set (sf_symbols file)
    \<and> 0 < sm_score m \<and> sm_score m = symbol_score (sm_symbol m) (sm_path m) (query_words 16 query)"
proof -
  let ?score = "\<lambda>file s. symbol_score s (sf_path file) (query_words 16 query)"
  have "m \<in> set (concat (map (\<lambda>file.
      map (\<lambda>s. \<lparr>sm_path = sf_path file, sm_symbol = s, sm_score = ?score file s\<rparr>)
        (filter (\<lambda>s. 0 < ?score file s) (sf_symbols file))) files))"
    using assms by (simp only: lookup_files_def Let_def split: if_splits) (auto dest!: in_set_takeD)
  then obtain f s where "f \<in> set files" "s \<in> set (sf_symbols f)" "0 < ?score f s"
    "m = \<lparr>sm_path = sf_path f, sm_symbol = s, sm_score = ?score f s\<rparr>"
    by auto
  then show ?thesis by (intro bexI [where x = f]) auto
qed

lemma index_paths: "index_ok ix \<Longrightarrow> file \<in> set (map snd (si_files ix)) \<Longrightarrow> sf_path file \<in> fst ` set (si_files ix)"
proof -
  assume ok: "index_ok ix" and "file \<in> set (map snd (si_files ix))"
  then obtain p where p: "(p, file) \<in> set (si_files ix)" by auto
  then have "sf_path file = p" using ok by (auto simp: index_ok_def list_all_iff)
  then show ?thesis using p by (auto intro!: image_eqI [where f = fst])
qed

lemma not_mapped: "(\<And>m. m \<in> set ms \<Longrightarrow> f m \<noteq> p) \<Longrightarrow> p \<notin> set (map f ms)"
  by auto

lemma bt_list_entry: "x \<in> set (bt_list m k) \<Longrightarrow> \<exists>vs. (k, vs) \<in> set m \<and> x \<in> set vs"
  by (cases "map_of m k") (auto simp: bt_list_def dest: map_of_SomeD)

lemma no_trace_lookup:
  assumes "no_trace p ri" "m \<in> set (relationship_lookup ri files query limit)"
  shows "rm_path m \<noteq> p"
proof -
  have "rv_path e \<noteq> p" if "e \<in> set (bt_list (ri_by_key ri) k)" for e k
    using bt_list_entry [OF that] assms(1) by (auto simp: no_trace_def list_all_iff)
  moreover have "q \<noteq> p" if "q \<in> set (bt_list (ri_test_by_stem ri) stem)" for q stem
    using bt_list_entry [OF that] assms(1) by (auto simp: no_trace_def list_all_iff)
  ultimately show ?thesis using relationship_match_from [OF assms(2)] by metis
qed

subsection \<open>Ranking\<close>

lemma lookup_files_list:
  assumes "min limit MAX_SYMBOL_LOOKUP_RESULTS \<noteq> 0" "trim query \<noteq> []" "query_words 16 query \<noteq> []"
  shows "\<exists>ranked. lookup_files files query limit = take (min limit MAX_SYMBOL_LOOKUP_RESULTS) ranked
    \<and> set ranked = {m. \<exists>f \<in> set files. \<exists>s \<in> set (sf_symbols f). 0 < symbol_score s (sf_path f) (query_words 16 query)
         \<and> m = \<lparr>sm_path = sf_path f, sm_symbol = s, sm_score = symbol_score s (sf_path f) (query_words 16 query)\<rparr>}
    \<and> sorted_wrt (\<lambda>a b. sm_score b \<le> sm_score a) ranked"
proof -
  let ?score = "\<lambda>file s. symbol_score s (sf_path file) (query_words 16 query)"
  define ms where "ms = concat (map (\<lambda>file.
      map (\<lambda>s. \<lparr>sm_path = sf_path file, sm_symbol = s, sm_score = ?score file s\<rparr>)
        (filter (\<lambda>s. 0 < ?score file s) (sf_symbols file))) files)"
  define ranked where "ranked = sort_key (match_order (foldr max (map sm_score ms) 0)) ms"
  have "lookup_files files query limit = take (min limit MAX_SYMBOL_LOOKUP_RESULTS) ranked"
    using assms by (simp only: lookup_files_def Let_def ms_def ranked_def if_False simp_thms)
  moreover have "set ranked = {m. \<exists>f \<in> set files. \<exists>s \<in> set (sf_symbols f). 0 < ?score f s
         \<and> m = \<lparr>sm_path = sf_path f, sm_symbol = s, sm_score = ?score f s\<rparr>}"
    unfolding ranked_def ms_def set_sort by auto
  moreover have "sorted_wrt (\<lambda>a b. sm_score b \<le> sm_score a) ranked"
    unfolding ranked_def
    by (rule sorted_by_match_score [OF score_bound]) (auto simp: match_order_def less_eq_prod_def)
  ultimately show ?thesis by blast
qed

lemma lookup_files_full:
  assumes "min limit MAX_SYMBOL_LOOKUP_RESULTS \<noteq> 0" "trim query \<noteq> []" "query_words 16 query \<noteq> []"
    "f \<in> set files" "s \<in> set (sf_symbols f)" "0 < symbol_score s (sf_path f) (query_words 16 query)"
  shows "\<exists>ranked. lookup_files files query limit = take (min limit MAX_SYMBOL_LOOKUP_RESULTS) ranked
    \<and> \<lparr>sm_path = sf_path f, sm_symbol = s, sm_score = symbol_score s (sf_path f) (query_words 16 query)\<rparr> \<in> set ranked
    \<and> sorted_wrt (\<lambda>a b. sm_score b \<le> sm_score a) ranked"
proof -
  obtain ranked where "lookup_files files query limit = take (min limit MAX_SYMBOL_LOOKUP_RESULTS) ranked"
    and members: "set ranked = {m. \<exists>f \<in> set files. \<exists>s \<in> set (sf_symbols f). 0 < symbol_score s (sf_path f) (query_words 16 query)
         \<and> m = \<lparr>sm_path = sf_path f, sm_symbol = s, sm_score = symbol_score s (sf_path f) (query_words 16 query)\<rparr>}"
    and "sorted_wrt (\<lambda>a b. sm_score b \<le> sm_score a) ranked"
    using lookup_files_list [OF assms(1-3)] by blast
  moreover have "\<lparr>sm_path = sf_path f, sm_symbol = s, sm_score = symbol_score s (sf_path f) (query_words 16 query)\<rparr> \<in> set ranked"
    unfolding members using assms(4-6) by blast
  ultimately show ?thesis by blast
qed

lemma lookup_files_ranked:
  "length (lookup_files files query limit) \<le> min limit 128
    \<and> sorted_wrt (\<lambda>a b. sm_score b \<le> sm_score a) (lookup_files files query limit)"
proof (cases "min limit MAX_SYMBOL_LOOKUP_RESULTS = 0 \<or> trim query = [] \<or> query_words 16 query = []")
  case True
  then have "lookup_files files query limit = []" by (simp only: lookup_files_def Let_def if_True simp_thms)
  then show ?thesis by simp
next
  case False
  then obtain ranked where "lookup_files files query limit = take (min limit MAX_SYMBOL_LOOKUP_RESULTS) ranked"
    "sorted_wrt (\<lambda>a b. sm_score b \<le> sm_score a) ranked"
    using lookup_files_list [of limit query files] by blast
  then show ?thesis by (simp add: MAX_SYMBOL_LOOKUP_RESULTS_def sorted_wrt_take min_le_iff_disj)
qed

lemma relationship_lookup_ranked_list:
  "length (relationship_lookup ri files query limit) \<le> min limit 128
    \<and> sorted_wrt (\<lambda>a b. rm_score b \<le> rm_score a) (relationship_lookup ri files query limit)"
proof -
  let ?keys = "map symbol_key (query_words 16 query)"
  let ?ranked = "ranked_matches ri files (1 < definition_count ri ?keys) ?keys"
  let ?sorted = "sort_key (relationship_order (foldr max (map rm_score ?ranked) 0)) ?ranked"
  have shape: "relationship_lookup ri files query limit = []
      \<or> relationship_lookup ri files query limit = take (min limit MAX_SYMBOL_LOOKUP_RESULTS) (dedup_matches ?sorted)"
    by (simp only: relationship_lookup_def Let_def split: if_splits) blast
  have "sorted_wrt (\<lambda>a b. rm_score b \<le> rm_score a) ?sorted"
    by (rule sorted_by_match_score [OF score_bound]) (auto simp: relationship_order_def less_eq_prod_def)
  then have "sorted_wrt (\<lambda>a b. rm_score b \<le> rm_score a) (take n (dedup_matches ?sorted))" for n
    by (intro sorted_wrt_take dedup_matches_sorted)
  then show ?thesis using shape by (auto simp: MAX_SYMBOL_LOOKUP_RESULTS_def)
qed

lemma left_out:
  assumes "sorted_wrt (\<lambda>a b. f b \<le> (f a :: nat)) xs" "x \<in> set xs" "x \<notin> set (take n xs)"
  shows "length (take n xs) = n \<and> (\<forall>y \<in> set (take n xs). f x \<le> f y)"
proof -
  have "x \<in> set (drop n xs)" using assms(2,3) by (metis Un_iff append_take_drop_id set_append)
  moreover have "sorted_wrt (\<lambda>a b. f b \<le> f a) (take n xs @ drop n xs)" using assms(1) by simp
  ultimately show ?thesis unfolding sorted_wrt_append by (auto dest: length_pos_if_in_set)
qed

subsection \<open>Properties\<close>

text \<open>C12: After any sequence of insertions, removals and clearings the index holds at most 128 files;
  every name in it has between one and 32 pieces of evidence, no two equal, and every piece of
  evidence, and every test or source listed under a stem, belongs to a file of the index: evicting
  and replacing files never leaves evidence that points nowhere.
\<close>

theorem index_stays_consistent:
  assumes "list_all step_ok steps"
  shows "length (si_files (indexed steps)) \<le> 128
    \<and> list_all (\<lambda>(k, vs). vs \<noteq> [] \<and> length vs \<le> 32 \<and> distinct vs
          \<and> set (map rv_path vs) \<subseteq> fst ` set (si_files (indexed steps)))
        (ri_by_key (si_relationships (indexed steps)))
    \<and> list_all (\<lambda>(k, ps). ps \<noteq> [] \<and> length ps \<le> 32 \<and> distinct ps
          \<and> set ps \<subseteq> fst ` set (si_files (indexed steps)))
        (ri_test_by_stem (si_relationships (indexed steps)) @ ri_source_by_stem (si_relationships (indexed steps)))"
proof -
  have ok: "index_ok (indexed steps)" and "si_max_files (indexed steps) = 128"
    using indexed_ok [OF assms] by blast+
  then have "length (si_files (indexed steps)) \<le> 128" by (simp add: index_ok_def)
  then show ?thesis
    using evidence_entry [OF ok] stem_entry [OF ok stems_of_index(1) [OF ok]]
      stem_entry [OF ok stems_of_index(2) [OF ok]]
    by (simp add: list_all_iff) blast
qed

theorem index_stays_consistent_witness: "length (si_files (indexed sample_steps)) \<le> 128"
  using index_stays_consistent [OF sample_steps_ok] by blast

text \<open>C13: A file removed from the index leaves no trace: the index no longer has it, no evidence, test
  or source entry and no record of its contributions names it, and neither lookup returns it, for
  any query and limit.
\<close>

theorem removed_file_leaves_no_trace:
  assumes "list_all step_ok steps" "ix = snd (index_remove_file path (indexed steps))"
  shows "index_file_at ix path = None \<and> no_trace path (si_relationships ix)
    \<and> path \<notin> set (map sm_path (index_lookup ix query limit))
    \<and> path \<notin> set (map rm_path (lookup_relationships ix query limit))"
proof -
  have ok: "index_ok (indexed steps)" using indexed_ok [OF assms(1)] by blast
  note gone = index_ok_remove [OF ok, of path, folded assms(2)]
  have away: "path \<notin> fst ` set (si_files ix)" by (auto simp: assms(2) index_remove_file_def set_bt_del)
  then have "index_file_at ix path = None" by (simp add: index_file_at_def map_of_eq_None_iff)
  moreover have "path \<notin> set (map sm_path (index_lookup ix query limit))"
  proof (rule not_mapped)
    fix m
    assume "m \<in> set (index_lookup ix query limit)"
    then obtain f where "f \<in> set (map snd (si_files ix))" "sm_path m = sf_path f"
      unfolding index_lookup_def by (blast dest: symbol_match_from)
    then show "sm_path m \<noteq> path" using index_paths [OF conjunct1 [OF gone], of f] away by metis
  qed
  moreover have "path \<notin> set (map rm_path (lookup_relationships ix query limit))"
    unfolding lookup_relationships_def by (rule not_mapped) (rule no_trace_lookup [OF conjunct2 [OF gone]])
  ultimately show ?thesis using gone by blast
qed

theorem removed_file_leaves_no_trace_witness:
  "''src/a.rs'' \<notin> set (map rm_path (lookup_relationships (snd (index_remove_file ''src/a.rs'' (indexed sample_steps))) ''run'' 8))"
  using removed_file_leaves_no_trace [OF sample_steps_ok refl] by blast

text \<open>C15: Inserting a file makes it the one the index holds under its path.  Every other file stays,
  except that when the index is full and the path is new, the first file in path order goes.
\<close>

theorem insert_keeps_other_files:
  assumes "list_all step_ok steps" "canonical (sf_path file)"
  shows "index_file_at (index_insert file (indexed steps)) path =
    (if path = sf_path file then Some file
     else if index_file_at (indexed steps) (sf_path file) = None \<and> length (si_files (indexed steps)) = 128
       \<and> path = fst (hd (si_files (indexed steps))) then None
     else index_file_at (indexed steps) path)"
proof -
  have ok: "index_ok (indexed steps)" and "max": "si_max_files (indexed steps) = 128"
    using indexed_ok [OF assms(1)] by blast+
  then have len: "length (si_files (indexed steps)) \<le> 128" by (simp add: index_ok_def)
  have sorted: "bt_ok path_order (si_files (indexed steps))" using ok by (simp add: index_ok_def)
  have tl: "map_of (tl (si_files (indexed steps))) path =
      (if path = fst (hd (si_files (indexed steps))) then None else map_of (si_files (indexed steps)) path)"
    if "length (si_files (indexed steps)) = 128"
  proof -
    have "si_files (indexed steps) \<noteq> []" using that by auto
    then show ?thesis using hd_key [OF _ sorted] map_of_bt_del by (metis fun_upd_apply)
  qed
  show ?thesis
    using index_insert_at [OF ok assms(2)] tl len "max"
    by (cases "map_of (si_files (indexed steps)) (sf_path file)"; cases "length (si_files (indexed steps)) = 128")
      (simp_all add: index_file_at_def)
qed

theorem insert_keeps_other_files_witness:
  "index_file_at (index_insert (sample_file ''src/c.rs'') (indexed sample_steps)) ''src/a.rs'' \<noteq> None"
proof -
  have "canonical (sf_path (sample_file ''src/c.rs''))" by code_simp
  note kept = insert_keeps_other_files [OF sample_steps_ok this, of "''src/a.rs''"]
  have "index_file_at (indexed sample_steps) ''src/a.rs'' \<noteq> None" "length (si_files (indexed sample_steps)) \<noteq> 128"
    by code_simp+
  then show ?thesis using kept by (simp add: sample_file_def)
qed

text \<open>A lookup is bounded, ranked and sound: it returns at most the limit and never more than 128
  matches, from the highest score to the lowest, and each names a file the index holds; this for
  symbols and for relationships, whatever was inserted and removed before.
\<close>

theorem lookups_are_bounded_and_ranked:
  assumes "list_all step_ok steps"
  shows "length (index_lookup (indexed steps) query limit) \<le> min limit 128
    \<and> sorted_wrt (\<lambda>a b. sm_score b \<le> sm_score a) (index_lookup (indexed steps) query limit)
    \<and> set (map sm_path (index_lookup (indexed steps) query limit)) \<subseteq> fst ` set (si_files (indexed steps))
    \<and> length (lookup_relationships (indexed steps) query limit) \<le> min limit 128
    \<and> sorted_wrt (\<lambda>a b. rm_score b \<le> rm_score a) (lookup_relationships (indexed steps) query limit)
    \<and> set (map rm_path (lookup_relationships (indexed steps) query limit)) \<subseteq> fst ` set (si_files (indexed steps))"
proof -
  have ok: "index_ok (indexed steps)" using indexed_ok [OF assms] by blast
  have "sm_path m \<in> fst ` set (si_files (indexed steps))" if "m \<in> set (index_lookup (indexed steps) query limit)" for m
  proof -
    obtain f where "f \<in> set (map snd (si_files (indexed steps)))" "sm_path m = sf_path f"
      using symbol_match_from [OF \<open>m \<in> _\<close> [unfolded index_lookup_def]] by blast
    then show ?thesis using index_paths [OF ok, of f] by metis
  qed
  then have symbols: "set (map sm_path (index_lookup (indexed steps) query limit)) \<subseteq> fst ` set (si_files (indexed steps))"
    by auto
  have "rm_path m \<in> fst ` set (si_files (indexed steps))"
    if m: "m \<in> set (lookup_relationships (indexed steps) query limit)" for m
    using relationship_match_from [OF m [unfolded lookup_relationships_def]] evidence_in_index [OF ok]
      stem_in_index [OF ok stems_of_index(1) [OF ok]] by metis
  then have relations: "set (map rm_path (lookup_relationships (indexed steps) query limit)) \<subseteq> fst ` set (si_files (indexed steps))"
    by auto
  show ?thesis
    using symbols relations lookup_files_ranked relationship_lookup_ranked_list
    unfolding index_lookup_def lookup_relationships_def by blast
qed

theorem lookups_are_bounded_and_ranked_witness:
  "length (lookup_relationships (indexed sample_steps) ''run'' 4) \<le> 4"
  using lookups_are_bounded_and_ranked [OF sample_steps_ok, of "''run''" 4] by simp

text \<open>C14: A symbol lookup returns the best matches: when a symbol of an indexed file scores for the
  query and is left out, the lookup is full, and every match it returned scores at least as much.
\<close>

theorem lookup_returns_the_best:
  assumes "trim query \<noteq> []" "f \<in> set files" "s \<in> set (sf_symbols f)"
    "0 < symbol_score s (sf_path f) (query_words 16 query)"
    "\<lparr>sm_path = sf_path f, sm_symbol = s, sm_score = symbol_score s (sf_path f) (query_words 16 query)\<rparr>
       \<notin> set (lookup_files files query limit)"
  shows "length (lookup_files files query limit) = min limit 128
    \<and> list_all (\<lambda>m. symbol_score s (sf_path f) (query_words 16 query) \<le> sm_score m) (lookup_files files query limit)"
proof (cases "min limit MAX_SYMBOL_LOOKUP_RESULTS = 0")
  case True
  then show ?thesis by (simp add: lookup_files_def MAX_SYMBOL_LOOKUP_RESULTS_def)
next
  case False
  let ?m = "\<lparr>sm_path = sf_path f, sm_symbol = s, sm_score = symbol_score s (sf_path f) (query_words 16 query)\<rparr>"
  have words: "query_words 16 query \<noteq> []" using assms(4) by (auto simp: symbol_score_def)
  obtain ranked where ranked: "lookup_files files query limit = take (min limit MAX_SYMBOL_LOOKUP_RESULTS) ranked"
    "?m \<in> set ranked" "sorted_wrt (\<lambda>a b. sm_score b \<le> sm_score a) ranked"
    using lookup_files_full [OF False assms(1) words assms(2,3,4)] by blast
  show ?thesis
    using left_out [OF ranked(3,2)] assms(5) unfolding ranked(1) list_all_iff
    by (simp add: MAX_SYMBOL_LOOKUP_RESULTS_def)
qed

text \<open>The sample files one after the other, and a lookup with room for one match.\<close>

theorem lookup_returns_the_best_witness:
  "length (lookup_files [sample_file ''src/a.rs'', sample_file ''src/b.rs''] ''run'' 1) = 1"
proof -
  let ?files = "[sample_file ''src/a.rs'', sample_file ''src/b.rs'']"
  have a: "trim ''run'' \<noteq> []" by code_simp
  have b: "sample_file ''src/b.rs'' \<in> set ?files" "sample_symbol \<in> set (sf_symbols (sample_file ''src/b.rs''))"
    by (simp_all add: sample_file_def)
  have c: "0 < symbol_score sample_symbol (sf_path (sample_file ''src/b.rs'')) (query_words 16 ''run'')" by code_simp
  have d: "\<lparr>sm_path = sf_path (sample_file ''src/b.rs''), sm_symbol = sample_symbol,
      sm_score = symbol_score sample_symbol (sf_path (sample_file ''src/b.rs'')) (query_words 16 ''run'')\<rparr>
      \<notin> set (lookup_files ?files ''run'' 1)" by code_simp
  show ?thesis using lookup_returns_the_best [OF a b c d] by simp
qed

end
